(* ===== verification/Prelude.thy ===== *)
theory Prelude
  imports Main "HOL-Library.Word"
begin

text \<open>
  The vocabulary every component shares: the exceptions the code raises, the sequencing of
  handlers that may raise, and the Python string and integer operations the sources use.

  A handler is a function \<open>'s \<Rightarrow> (exn + 'a) \<times> 's\<close>: it returns its result or the exception it
  raised, and in both cases the state it left behind, because several handlers commit to the
  database before they raise.  A Python \<open>str\<close> is a \<open>string\<close> of ASCII characters; the case
  conversions and the white space below are those of ASCII.
\<close>

named_theorems handler_simps \<open>equations that run handlers\<close>
named_theorems keeps_intros \<open>what a handler leaves unchanged\<close>
named_theorems str_simps \<open>facts about the characters of rendered strings\<close>

section \<open>Exceptions and handlers\<close>

datatype exn =
    HTTPException int string
  | WebSocketException int string
  | QuotaExceededError string string int int
  | ServingError string
  | ValueError string
  | ValidationError string
  | MultipleResultsFound
  | RedisError string
  | RedisTimeoutError
  | CancelledError
  | ImageNotFound string
  | NotFound string
  | APIError string
  | TimeoutException string
  | HTTPError string
  | OtherException string

type_synonym ('s, 'a) handler = "'s \<Rightarrow> (exn + 'a) \<times> 's"

definition returnE :: "'a \<Rightarrow> ('s, 'a) handler" where
  "returnE a = (\<lambda>s. (Inr a, s))"

definition raiseE :: "exn \<Rightarrow> ('s, 'a) handler" where
  "raiseE e = (\<lambda>s. (Inl e, s))"

definition bindE :: "('s, 'a) handler \<Rightarrow> ('a \<Rightarrow> ('s, 'b) handler) \<Rightarrow> ('s, 'b) handler" where
  "bindE m f = (\<lambda>s. case m s of (Inl e, s') \<Rightarrow> (Inl e, s') | (Inr a, s') \<Rightarrow> f a s')"

definition modifyE :: "('s \<Rightarrow> 's) \<Rightarrow> ('s, unit) handler" where
  "modifyE f = (\<lambda>s. (Inr (), f s))"

definition getsE :: "('s \<Rightarrow> 'a) \<Rightarrow> ('s, 'a) handler" where
  "getsE f = (\<lambda>s. (Inr (f s), s))"

definition liftE :: "('s \<Rightarrow> exn + 'a) \<Rightarrow> ('s, 'a) handler" where
  "liftE f = (\<lambda>s. (f s, s))"

definition whenE :: "bool \<Rightarrow> ('s, unit) handler \<Rightarrow> ('s, unit) handler" where
  "whenE b m = (if b then m else returnE ())"

text \<open>A block of writes that is committed at its end: an exception inside rolls them back.\<close>

definition atomicE :: "('s, 'a) handler \<Rightarrow> ('s, 'a) handler" where
  "atomicE m = (\<lambda>s. case m s of (Inl e, _) \<Rightarrow> (Inl e, s) | (Inr a, s') \<Rightarrow> (Inr a, s'))"

lemma atomicE_run [handler_simps]:
  "atomicE m s = (case m s of (Inl e, _) \<Rightarrow> (Inl e, s) | (Inr a, s') \<Rightarrow> (Inr a, s'))"
  by (simp add: atomicE_def)

lemma returnE_run [handler_simps]: "returnE a s = (Inr a, s)"
  by (simp add: returnE_def)

lemma raiseE_run [handler_simps]: "raiseE e s = (Inl e, s)"
  by (simp add: raiseE_def)

lemma modifyE_run [handler_simps]: "modifyE f s = (Inr (), f s)"
  by (simp add: modifyE_def)

lemma getsE_run [handler_simps]: "getsE f s = (Inr (f s), s)"
  by (simp add: getsE_def)

lemma liftE_run [handler_simps]: "liftE f s = (f s, s)"
  by (simp add: liftE_def)

lemma whenE_run [handler_simps]: "whenE b m s = (if b then m s else (Inr (), s))"
  by (simp add: whenE_def returnE_run)

lemma bindE_run [handler_simps]:
  "bindE m f s = (case m s of (Inl e, s') \<Rightarrow> (Inl e, s') | (Inr a, s') \<Rightarrow> f a s')"
  by (simp add: bindE_def)

lemma if_run [handler_simps]: "(if b then m else m') s = (if b then m s else m' s)"
  by simp

text \<open>A successful sequence is a success of both parts.\<close>

lemma bindE_InrE:
  assumes "bindE m f s = (Inr b, t)"
  obtains a s' where "m s = (Inr a, s')" and "f a s' = (Inr b, t)"
  using assms by (auto simp: bindE_run split: prod.splits sum.splits)

text \<open>\<open>keeps f m\<close>: however it ends, \<open>m\<close> leaves the part \<open>f\<close> of the state as it was.\<close>

definition keeps :: "('s \<Rightarrow> 'v) \<Rightarrow> ('s, 'a) handler \<Rightarrow> bool" where
  "keeps f m \<longleftrightarrow> (\<forall>s. f (snd (m s)) = f s)"

lemma keepsD: "keeps f m \<Longrightarrow> f (snd (m s)) = f s"
  by (simp add: keeps_def)

lemma keeps_run: "keeps f m \<Longrightarrow> m s = (out, s') \<Longrightarrow> f s' = f s"
  using keepsD [of f m s] by simp

lemma keeps_basic [keeps_intros]:
  "keeps f (returnE a)" "keeps f (raiseE e)" "keeps f (liftE g)" "keeps f (getsE h)"
  by (simp_all add: keeps_def handler_simps)

lemma keeps_bindE [keeps_intros]: "keeps f m \<Longrightarrow> (\<And>a. keeps f (k a)) \<Longrightarrow> keeps f (bindE m k)"
  unfolding keeps_def
proof
  fix s
  assume m: "\<forall>s. f (snd (m s)) = f s" and k: "\<And>a. \<forall>s. f (snd (k a s)) = f s"
  obtain out s' where r: "m s = (out, s')" by fastforce
  with m have "f s' = f s" by (metis snd_conv)
  with k r show "f (snd (bindE m k s)) = f s"
    by (cases out) (simp_all add: bindE_run)
qed

lemma keeps_if [keeps_intros]: "keeps f m \<Longrightarrow> keeps f m' \<Longrightarrow> keeps f (if b then m else m')"
  by simp

lemma keeps_whenE [keeps_intros]: "keeps f m \<Longrightarrow> keeps f (whenE b m)"
  by (simp add: keeps_def whenE_run)

lemma keeps_atomicE [keeps_intros]: "keeps f m \<Longrightarrow> keeps f (atomicE m)"
  by (auto simp: keeps_def atomicE_run split: prod.split sum.split) (metis snd_conv)

lemma keeps_modifyE: "(\<And>s. f (g s) = f s) \<Longrightarrow> keeps f (modifyE g)"
  by (simp add: keeps_def modifyE_run)

lemma keeps_option [keeps_intros]:
  "keeps f m \<Longrightarrow> (\<And>a. keeps f (k a)) \<Longrightarrow> keeps f (case x of None \<Rightarrow> m | Some a \<Rightarrow> k a)"
  by (simp split: option.split)

lemma keeps_sum [keeps_intros]:
  "(\<And>e. keeps f (m e)) \<Longrightarrow> (\<And>a. keeps f (k a)) \<Longrightarrow> keeps f (case x of Inl e \<Rightarrow> m e | Inr a \<Rightarrow> k a)"
  by (simp split: sum.split)

lemma keeps_prod [keeps_intros]:
  "(\<And>a b. keeps f (k a b)) \<Longrightarrow> keeps f (case x of (a, b) \<Rightarrow> k a b)"
  by (simp split: prod.split)

text \<open>A sequence after a part that succeeds, and after one that keeps \<open>g\<close>.\<close>

lemma bindE_at: "m s = (Inr a, s') \<Longrightarrow> bindE m f s = f a s'"
  by (simp add: bindE_run)

lemma prefix_keeps:
  assumes "bindE m f x = (out, x')" and "keeps g m"
  obtains "isl out" "g x' = g x" | a y where "f a y = (out, x')" "g y = g x"
proof -
  obtain o1 y where r: "m x = (o1, y)" by fastforce
  with assms(2) have "g y = g x" by (rule keeps_run)
  with r assms(1) that show ?thesis by (cases o1) (auto simp: bindE_run)
qed

section \<open>Strings\<close>

definition startswith :: "string \<Rightarrow> string \<Rightarrow> bool" where
  "startswith s p \<longleftrightarrow> take (length p) s = p"

definition endswith :: "string \<Rightarrow> string \<Rightarrow> bool" where
  "endswith s p \<longleftrightarrow> startswith (rev s) (rev p)"

definition is_space :: "char \<Rightarrow> bool" where
  "is_space c \<longleftrightarrow> (let n = (of_char c :: nat) in (9 \<le> n \<and> n \<le> 13) \<or> (28 \<le> n \<and> n \<le> 32))"

definition lower_char :: "char \<Rightarrow> char" where
  "lower_char c = (let n = (of_char c :: nat) in if 65 \<le> n \<and> n \<le> 90 then char_of (n + 32) else c)"

definition upper_char :: "char \<Rightarrow> char" where
  "upper_char c = (let n = (of_char c :: nat) in if 97 \<le> n \<and> n \<le> 122 then char_of (n - 32) else c)"

definition py_lower :: "string \<Rightarrow> string" where
  "py_lower s = map lower_char s"

definition py_upper :: "string \<Rightarrow> string" where
  "py_upper s = map upper_char s"

definition rstrip_by :: "(char \<Rightarrow> bool) \<Rightarrow> string \<Rightarrow> string" where
  "rstrip_by p s = rev (dropWhile p (rev s))"

definition strip_by :: "(char \<Rightarrow> bool) \<Rightarrow> string \<Rightarrow> string" where
  "strip_by p s = rstrip_by p (dropWhile p s)"

abbreviation py_strip :: "string \<Rightarrow> string" where
  "py_strip \<equiv> strip_by is_space"

text \<open>\<open>s.split(c)\<close> for a one-character separator: always at least one part.\<close>

fun py_split :: "char \<Rightarrow> string \<Rightarrow> string list" where
  "py_split c [] = [[]]"
| "py_split c (x # xs) =
     (if x = c then [] # py_split c xs
      else (case py_split c xs of [] \<Rightarrow> [[x]] | p # ps \<Rightarrow> (x # p) # ps))"

text \<open>\<open>s.replace(old, '')\<close>: non-overlapping occurrences from the left.\<close>

function py_remove :: "string \<Rightarrow> string \<Rightarrow> string" where
  "py_remove old s =
     (if old = [] \<or> s = [] then s
      else if startswith s old then py_remove old (drop (length old) s)
      else hd s # py_remove old (tl s))"
  by pat_completeness auto
termination
  by (relation "measure (\<lambda>(old, s). length s)") auto

declare py_remove.simps [simp del]

definition py_join :: "string \<Rightarrow> string list \<Rightarrow> string" where
  "py_join sep xs = (case xs of [] \<Rightarrow> [] | y # ys \<Rightarrow> y @ concat (map (\<lambda>z. sep @ z) ys))"

lemma lower_char_idem: "lower_char (lower_char c) = lower_char c"
  by (simp add: lower_char_def Let_def)

lemma py_lower_idem [simp]: "py_lower (py_lower s) = py_lower s"
  by (simp add: py_lower_def lower_char_idem)

lemma startswith_iff: "startswith s p \<longleftrightarrow> (\<exists>t. s = p @ t)"
proof
  assume "startswith s p"
  then have "s = p @ drop (length p) s"
    by (metis startswith_def append_take_drop_id)
  then show "\<exists>t. s = p @ t" ..
qed (auto simp: startswith_def)

lemma startswith_append [simp]: "startswith (p @ t) p"
  by (simp add: startswith_def)

lemma startswith_set: "startswith s p \<Longrightarrow> set p \<subseteq> set s"
  by (auto simp: startswith_iff)

lemma rstrip_by_append:
  "\<not> p c \<Longrightarrow> (\<forall>x \<in> set t. p x) \<Longrightarrow> rstrip_by p (s @ c # t) = s @ [c]"
proof -
  assume c: "\<not> p c" and t: "\<forall>x \<in> set t. p x"
  have "dropWhile p (rev t @ c # rev s) = c # rev s"
    using c t by (subst dropWhile_append2) auto
  then show ?thesis by (simp add: rstrip_by_def)
qed

lemma strip_by_id:
  assumes "\<forall>x \<in> set s. \<not> p x"
  shows "strip_by p s = s"
proof -
  have keep: "dropWhile p xs = xs" if "\<forall>x \<in> set xs. \<not> p x" for xs
    using that by (cases xs) auto
  show ?thesis using assms by (simp add: strip_by_def rstrip_by_def keep)
qed

lemma py_remove_id:
  assumes "c \<in> set old" and "c \<notin> set s"
  shows "py_remove old s = s"
  using assms
proof (induction old s rule: py_remove.induct)
  case (1 old s)
  show ?case
  proof (cases "old = [] \<or> s = []")
    case True
    then show ?thesis by (subst py_remove.simps) simp
  next
    case False
    have ns: "\<not> startswith s old"
      using startswith_set 1(3,4) by blast
    have "c \<notin> set (tl s)" using False 1(4) by (cases s) auto
    with False ns 1 have "py_remove old (tl s) = tl s" by blast
    with False ns show ?thesis by (subst py_remove.simps) simp
  qed
qed

lemma py_split_nonempty [simp]: "py_split c s \<noteq> []"
  by (induction s) (auto split: list.splits)

text \<open>Keys are composed with a separator that does not occur in the parts before it.\<close>

lemma sep_append_inject:
  assumes "c \<notin> set xs" and "c \<notin> set ys"
  shows "xs @ c # us = ys @ c # vs \<longleftrightarrow> xs = ys \<and> us = vs"
  using assms
proof (induction xs arbitrary: ys)
  case Nil
  then show ?case by (cases ys) auto
next
  case (Cons x xs)
  then show ?case by (cases ys) auto
qed

end
