(* ===== verification/Identifiers.thy ===== *)
theory Identifiers
  imports Prelude
begin

text \<open>
  The identifiers and numbers the code renders into strings and reads back: decimal integers
  (Redis counters, f-strings) and UUIDs (\<open>str(uuid)\<close>, \<open>uuid.UUID(s)\<close>, \<open>uuid.hex\<close>).  A UUID is
  its 128-bit value.  The readers follow Python: \<open>int(s, base)\<close> strips white space, takes a sign,
  a \<open>0x\<close> prefix in base 16 and single underscores between digits.
\<close>

section \<open>Digits\<close>

definition digit_char :: "nat \<Rightarrow> char" where
  "digit_char n = (if n < 10 then char_of (n + 48) else char_of (n + 87))"

definition digit_val :: "char \<Rightarrow> nat option" where
  "digit_val c = (let n = (of_char c :: nat) in
     if 48 \<le> n \<and> n \<le> 57 then Some (n - 48)
     else if 97 \<le> n \<and> n \<le> 122 then Some (n - 87)
     else if 65 \<le> n \<and> n \<le> 90 then Some (n - 55)
     else None)"

lemma of_char_digit_char: "n < 16 \<Longrightarrow> of_char (digit_char n) = (if n < 10 then n + 48 else n + 87)"
  by (simp add: digit_char_def)

lemma digit_val_digit_char [simp]: "n < 16 \<Longrightarrow> digit_val (digit_char n) = Some n"
  by (auto simp: digit_val_def of_char_digit_char Let_def)

lemma digit_char_range:
  "n < 16 \<Longrightarrow> (48::nat) \<le> of_char (digit_char n) \<and> (of_char (digit_char n) :: nat) \<le> 102"
  by (simp add: of_char_digit_char)

text \<open>The characters that digits never are: separators, signs and white space.\<close>

definition digit_chars :: "char set" where
  "digit_chars = digit_char ` {..<16}"

lemma digit_char_in: "n < 16 \<Longrightarrow> digit_char n \<in> digit_chars"
  by (simp add: digit_chars_def)

lemma digit_chars_bounds:
  assumes "c \<in> digit_chars"
  shows "(48::nat) \<le> of_char c \<and> (of_char c :: nat) \<le> 102 \<and> (of_char c :: nat) \<notin> {58..96}"
  using assms by (auto simp: digit_chars_def of_char_digit_char split: if_splits)

lemma not_digit_chars [str_simps]:
  "CHR '':'' \<notin> digit_chars" "CHR ''/'' \<notin> digit_chars" "CHR ''-'' \<notin> digit_chars"
  "CHR ''_'' \<notin> digit_chars" "CHR ''+'' \<notin> digit_chars" "CHR '' '' \<notin> digit_chars"
  "CHR ''{'' \<notin> digit_chars" "CHR ''}'' \<notin> digit_chars" "CHR ''x'' \<notin> digit_chars"
  "CHR ''X'' \<notin> digit_chars" "CHR ''.'' \<notin> digit_chars"
  by (auto dest: digit_chars_bounds)

lemma digit_chars_not_space: "c \<in> digit_chars \<Longrightarrow> \<not> is_space c"
  using digit_chars_bounds [of c] by (auto simp: is_space_def Let_def)

section \<open>Decimal integers\<close>

fun str_nat :: "nat \<Rightarrow> string" where
  "str_nat n = (if n < 10 then [digit_char n] else str_nat (n div 10) @ [digit_char (n mod 10)])"

declare str_nat.simps [simp del]

definition str_int :: "int \<Rightarrow> string" where
  "str_int i = (if i < 0 then CHR ''-'' # str_nat (nat (- i)) else str_nat (nat i))"

fun digits_val :: "nat \<Rightarrow> nat \<Rightarrow> bool \<Rightarrow> string \<Rightarrow> nat option" where
  "digits_val b acc ok [] = (if ok then Some acc else None)"
| "digits_val b acc ok (c # cs) =
     (if c = CHR ''_'' then (if ok then digits_val b acc False cs else None)
      else (case digit_val c of
              None \<Rightarrow> None
            | Some d \<Rightarrow> if d < b then digits_val b (acc * b + d) True cs else None))"

definition drop_hex_prefix :: "nat \<Rightarrow> string \<Rightarrow> string" where
  "drop_hex_prefix b s =
     (if b = 16 \<and> (startswith s ''0x'' \<or> startswith s ''0X'')
      then (let t = drop 2 s in if startswith t ''_'' then drop 1 t else t) else s)"

definition py_int_base :: "nat \<Rightarrow> string \<Rightarrow> exn + int" where
  "py_int_base b s =
     (let t = py_strip s;
          neg = startswith t ''-'';
          u = (if neg \<or> startswith t ''+'' then drop 1 t else t)
      in case digits_val b 0 False (drop_hex_prefix b u) of
           None \<Rightarrow> Inl (ValueError ''invalid literal for int()'')
         | Some n \<Rightarrow> Inr (if neg then - int n else int n))"

abbreviation py_int :: "string \<Rightarrow> exn + int" where
  "py_int \<equiv> py_int_base 10"

lemma set_str_nat: "set (str_nat n) \<subseteq> digit_chars"
proof (induction n rule: str_nat.induct)
  case (1 n)
  then show ?case
    by (subst str_nat.simps) (auto simp: digit_char_in)
qed

lemma str_nat_nonempty [simp]: "str_nat n \<noteq> []"
  by (subst str_nat.simps) simp

lemma digits_val_append:
  assumes "set xs \<subseteq> digit_chars" and "d < 10"
  shows "digits_val 10 acc ok (xs @ [digit_char d]) =
         (case digits_val 10 acc True xs of None \<Rightarrow> None | Some n \<Rightarrow> Some (n * 10 + d))"
  using assms
proof (induction xs arbitrary: acc ok)
  case Nil
  then show ?case using digit_char_in [of d] by (auto simp: not_digit_chars)
next
  case (Cons x xs)
  then show ?case using not_digit_chars by (auto split: option.splits)
qed

lemma digits_val_ok: "xs \<noteq> [] \<Longrightarrow> set xs \<subseteq> digit_chars \<Longrightarrow>
    digits_val b acc True xs = digits_val b acc False xs"
  using not_digit_chars by (cases xs) auto

lemma digits_val_str_nat: "digits_val 10 0 False (str_nat n) = Some n"
proof (induction n rule: str_nat.induct)
  case (1 n)
  show ?case
  proof (cases "n < 10")
    case True
    then show ?thesis using digit_char_in [of n]
      by (subst str_nat.simps) (auto simp: not_digit_chars)
  next
    case False
    with 1 have IH: "digits_val 10 0 False (str_nat (n div 10)) = Some (n div 10)" by simp
    have "digits_val 10 0 True (str_nat (n div 10)) = Some (n div 10)"
      using IH digits_val_ok [OF str_nat_nonempty set_str_nat] by simp
    with False show ?thesis
      by (subst str_nat.simps) (simp add: digits_val_append [OF set_str_nat])
  qed
qed

lemma py_strip_digits: "set s \<subseteq> insert (CHR ''-'') digit_chars \<Longrightarrow> py_strip s = s"
  by (rule strip_by_id) (auto dest!: subsetD digit_chars_not_space simp: is_space_def Let_def)

lemma startswith_digits:
  assumes "set s \<subseteq> digit_chars" and "c \<notin> digit_chars"
  shows "\<not> startswith s (c # p)"
  using assms startswith_set by fastforce

text \<open>Reading back what \<open>str\<close> rendered: the round trip Redis counters rely on.\<close>

lemma py_int_str_int [simp]: "py_int (str_int i) = Inr i"
proof (cases "i < 0")
  case True
  then show ?thesis
    using set_str_nat [of "nat (- i)"]
    by (simp add: py_int_base_def str_int_def py_strip_digits subset_insertI2 startswith_def
        drop_hex_prefix_def digits_val_str_nat Let_def)
next
  case False
  have "\<not> startswith (str_nat (nat i)) ''-''" "\<not> startswith (str_nat (nat i)) ''+''"
    using startswith_digits [OF set_str_nat] not_digit_chars by blast+
  with False show ?thesis
    using set_str_nat [of "nat i"]
    by (simp add: py_int_base_def str_int_def py_strip_digits subset_insertI2
        drop_hex_prefix_def digits_val_str_nat Let_def)
qed

lemma str_int_inject [simp]: "str_int i = str_int j \<longleftrightarrow> i = j"
  by (metis py_int_str_int sum.inject(2))

lemma set_str_int: "set (str_int i) \<subseteq> insert (CHR ''-'') digit_chars"
  using set_str_nat by (auto simp: str_int_def)

section \<open>UUIDs\<close>

type_synonym uuid = "128 word"

text \<open>\<open>k\<close> hexadecimal digits of \<open>n\<close>, most significant first.\<close>

fun hex_fixed :: "nat \<Rightarrow> nat \<Rightarrow> string" where
  "hex_fixed 0 n = []"
| "hex_fixed (Suc k) n = hex_fixed k (n div 16) @ [digit_char (n mod 16)]"

text \<open>\<open>uuid.hex\<close> and \<open>str(uuid)\<close>.\<close>

definition uuid_hex :: "uuid \<Rightarrow> string" where
  "uuid_hex u = hex_fixed 32 (unat u)"

definition str_uuid :: "uuid \<Rightarrow> string" where
  "str_uuid u = (let h = uuid_hex u in
     take 8 h @ ''-'' @ take 4 (drop 8 h) @ ''-'' @ take 4 (drop 12 h) @ ''-'' @
     take 4 (drop 16 h) @ ''-'' @ drop 20 h)"

text \<open>\<open>uuid.UUID(s)\<close>: drop \<open>urn:\<close>, \<open>uuid:\<close>, braces and dashes, then 32 base-16 digits.\<close>

definition parse_uuid :: "string \<Rightarrow> exn + uuid" where
  "parse_uuid s =
     (let t = py_remove ''uuid:'' (py_remove ''urn:'' s);
          h = filter (\<lambda>c. c \<noteq> CHR ''-'') (strip_by (\<lambda>c. c = CHR ''{'' \<or> c = CHR ''}'') t)
      in if length h \<noteq> 32 then Inl (ValueError ''badly formed hexadecimal UUID string'')
         else (case py_int_base 16 h of
                 Inl e \<Rightarrow> Inl e
               | Inr i \<Rightarrow>
                   if 0 \<le> i \<and> i < 2 ^ 128 then Inr (word_of_int i)
                   else Inl (ValueError ''int is out of range (need a 128-bit value)'')))"

lemma length_hex_fixed [simp]: "length (hex_fixed k n) = k"
  by (induction k arbitrary: n) auto

lemma set_hex_fixed: "set (hex_fixed k n) \<subseteq> digit_chars"
  by (induction k arbitrary: n) (auto simp: digit_char_in)

lemma digits_val_append16:
  assumes "set xs \<subseteq> digit_chars" and "d < 16"
  shows "digits_val 16 acc ok (xs @ [digit_char d]) =
         (case digits_val 16 acc True xs of None \<Rightarrow> None | Some n \<Rightarrow> Some (n * 16 + d))"
  using assms
proof (induction xs arbitrary: acc ok)
  case Nil
  then show ?case using digit_char_in [of d] by (auto simp: not_digit_chars)
next
  case (Cons x xs)
  then show ?case using not_digit_chars by (auto split: option.splits)
qed

lemma digits_val_hex_fixed: "digits_val 16 0 True (hex_fixed k n) = Some (n mod 16 ^ k)"
proof (induction k arbitrary: n)
  case 0
  then show ?case by simp
next
  case (Suc k)
  have "n mod 16 ^ Suc k = (n div 16) mod 16 ^ k * 16 + n mod 16"
    using mod_mult2_eq [of n 16 "16 ^ k"] by simp
  with Suc show ?case
    by (simp add: digits_val_append16 [OF set_hex_fixed])
qed

lemma take_drop_join: "take a (drop b h) @ drop (a + b) h = drop b h"
  by (metis append_take_drop_id drop_drop)

lemma uuid_hex_parts:
  "take 8 h @ take 4 (drop 8 h) @ take 4 (drop 12 h) @ take 4 (drop 16 h) @ drop 20 h = h"
  using take_drop_join [of 4 16 h] take_drop_join [of 4 12 h] take_drop_join [of 4 8 h]
    take_drop_join [of 8 0 h]
  by simp

lemma unat_uuid_less: "unat (u :: uuid) < 2 ^ 128"
  using unsigned_less [of u, where ?'a = nat] by simp

lemma set_uuid_hex: "set (uuid_hex u) \<subseteq> digit_chars"
  by (simp add: uuid_hex_def set_hex_fixed)

lemma set_str_uuid: "set (str_uuid u) \<subseteq> insert (CHR ''-'') digit_chars"
proof -
  have "set (str_uuid u) \<subseteq> insert (CHR ''-'') (set (uuid_hex u))"
    by (auto simp: str_uuid_def Let_def dest: in_set_takeD in_set_dropD)
  then show ?thesis using set_uuid_hex by blast
qed

lemma filter_dashes_str_uuid: "filter (\<lambda>c. c \<noteq> CHR ''-'') (str_uuid u) = uuid_hex u"
proof -
  have keep: "filter (\<lambda>c. c \<noteq> CHR ''-'') xs = xs" if "set xs \<subseteq> set (uuid_hex u)" for xs
    using that set_uuid_hex not_digit_chars(3) by (auto intro!: filter_True)
  show ?thesis
    by (simp add: str_uuid_def Let_def keep set_take_subset set_drop_subset
        order_trans [OF set_take_subset set_drop_subset] uuid_hex_parts)
qed

lemma parse_uuid_str_uuid [simp]: "parse_uuid (str_uuid u) = Inr u"
proof -
  have nc: "CHR '':'' \<notin> set (str_uuid u)" "CHR ''{'' \<notin> set (str_uuid u)"
       "CHR ''}'' \<notin> set (str_uuid u)"
    using set_str_uuid [of u] not_digit_chars by auto
  have rm: "py_remove ''uuid:'' (py_remove ''urn:'' (str_uuid u)) = str_uuid u"
    using nc(1) py_remove_id [of "CHR '':''"] by simp
  have st: "strip_by (\<lambda>c. c = CHR ''{'' \<or> c = CHR ''}'') (str_uuid u) = str_uuid u"
    using nc(2,3) by (intro strip_by_id) auto
  have dv: "digits_val 16 0 False (uuid_hex u) = Some (unat u)"
  proof -
    have "unat u < 16 ^ 32" using unat_uuid_less [of u] by simp
    moreover have "uuid_hex u \<noteq> []" by (metis length_hex_fixed list.size(3) uuid_hex_def zero_neq_numeral)
    ultimately show ?thesis
      using digits_val_ok [OF _ set_uuid_hex, of u 16 0] digits_val_hex_fixed [of 32 "unat u"]
      by (simp add: uuid_hex_def)
  qed
  have ns: "\<not> startswith (uuid_hex u) ''-''" "\<not> startswith (uuid_hex u) ''+''"
    using startswith_digits [OF set_uuid_hex] not_digit_chars by blast+
  have nx: "\<not> startswith (uuid_hex u) ''0x''" "\<not> startswith (uuid_hex u) ''0X''"
    using startswith_set [of "uuid_hex u"] set_uuid_hex [of u] not_digit_chars by fastforce+
  have "py_int_base 16 (uuid_hex u) = Inr (int (unat u))"
    using ns nx dv set_uuid_hex [of u]
    by (simp add: py_int_base_def py_strip_digits subset_insertI2 drop_hex_prefix_def Let_def)
  moreover have "int (unat u) < 2 ^ 128"
    using unat_uuid_less [of u] by (metis of_nat_less_iff of_nat_numeral of_nat_power)
  ultimately show ?thesis
    by (simp add: parse_uuid_def Let_def rm st filter_dashes_str_uuid uuid_hex_def)
qed

lemma str_uuid_inject [simp]: "str_uuid u = str_uuid v \<longleftrightarrow> u = v"
  by (metis parse_uuid_str_uuid sum.inject(2))

lemma str_uuid_no_colon [simp]: "CHR '':'' \<notin> set (str_uuid u)" "CHR ''/'' \<notin> set (str_uuid u)"
  using set_str_uuid [of u] not_digit_chars by auto

end
