(* ===== verification/Settings.thy ===== *)
theory Settings
  imports Complex_Main Identifiers
begin

text \<open>
  The settings of \<open>api/config.py\<close>.  Three fields have no default and come from the
  environment; the others start at the defaults below and may be overridden, so every
  definition that reads a setting takes the record as an argument.  Floats are exact
  rationals.
\<close>

record settings =
  database_url :: string
  redis_url :: string
  jwt_secret :: string
  jwt_access_ttl_minutes :: int
  jwt_refresh_ttl_days :: int
  environment :: string
  allowed_image_prefixes :: string
  max_concurrent_jobs_per_user :: int
  max_jobs_per_day_per_user :: int
  max_storage_mb_per_user :: int
  max_instances_per_user :: int
  max_llm_tokens_per_day_per_user :: int
  max_live_endpoints_per_user :: int
  quota_counter_ttl_seconds :: int
  job_queue_key :: string
  worker_lock_key :: string
  worker_lock_ttl_seconds :: int
  worker_lock_heartbeat_seconds :: int
  worker_brpop_timeout_seconds :: int
  job_log_tail_lines :: int
  job_log_replay_max_lines :: int
  job_log_ws_send_timeout_seconds :: rat
  job_log_ws_thin_interval :: int
  rate_limit_default_per_min :: int
  rate_limit_default_burst :: int
  rate_limit_auth_per_min :: int
  rate_limit_auth_burst :: int
  rate_limit_jobs_write_per_hour :: int
  rate_limit_jobs_write_burst :: int
  rate_limit_llm_per_min :: int
  rate_limit_llm_burst :: int
  minio_endpoint :: string
  minio_access_key :: string
  minio_secret_key :: string
  minio_bucket :: string
  minio_region :: string
  minio_secure :: bool
  mlflow_tracking_uri :: string
  docker_job_network :: string
  serve_runner_image :: string
  serving_network_name :: string
  serving_artifact_root :: string
  serving_health_timeout_seconds :: int
  serving_predict_timeout_seconds :: rat
  serving_container_port :: int
  serving_reconcile_on_startup :: bool

definition default_settings :: "string \<Rightarrow> string \<Rightarrow> string \<Rightarrow> settings" where
  "default_settings db_url r_url secret = \<lparr>
     database_url = db_url,
     redis_url = r_url,
     jwt_secret = secret,
     jwt_access_ttl_minutes = 15,
     jwt_refresh_ttl_days = 7,
     environment = ''dev'',
     allowed_image_prefixes = ''python:,pytorch/,tensorflow/,nvidia/cuda'',
     max_concurrent_jobs_per_user = 2,
     max_jobs_per_day_per_user = 10,
     max_storage_mb_per_user = 2048,
     max_instances_per_user = 1,
     max_llm_tokens_per_day_per_user = 50000,
     max_live_endpoints_per_user = 1,
     quota_counter_ttl_seconds = 48 * 60 * 60,
     job_queue_key = ''perzforge:jobs:queue'',
     worker_lock_key = ''perzforge:worker:lock'',
     worker_lock_ttl_seconds = 30,
     worker_lock_heartbeat_seconds = 10,
     worker_brpop_timeout_seconds = 5,
     job_log_tail_lines = 10000,
     job_log_replay_max_lines = 5000,
     job_log_ws_send_timeout_seconds = 5 / 100,
     job_log_ws_thin_interval = 10,
     rate_limit_default_per_min = 60,
     rate_limit_default_burst = 90,
     rate_limit_auth_per_min = 5,
     rate_limit_auth_burst = 5,
     rate_limit_jobs_write_per_hour = 10,
     rate_limit_jobs_write_burst = 10,
     rate_limit_llm_per_min = 20,
     rate_limit_llm_burst = 20,
     minio_endpoint = ''http://127.0.0.1:9000'',
     minio_access_key = ''perzforge'',
     minio_secret_key = ''changeme-minio-pass'',
     minio_bucket = ''models'',
     minio_region = ''us-east-1'',
     minio_secure = False,
     mlflow_tracking_uri = ''http://127.0.0.1:5000'',
     docker_job_network = '''',
     serve_runner_image = ''perzforge/serve-runner:latest'',
     serving_network_name = ''perzforge-serving'',
     serving_artifact_root = ''/var/lib/perzforge/endpoints'',
     serving_health_timeout_seconds = 60,
     serving_predict_timeout_seconds = 30,
     serving_container_port = 8000,
     serving_reconcile_on_startup = True \<rparr>"

definition image_prefixes :: "settings \<Rightarrow> string list" where
  "image_prefixes cfg =
     map py_strip (filter (\<lambda>prefix. py_strip prefix \<noteq> [])
       (py_split (CHR '','') (allowed_image_prefixes cfg)))"

end
