(* ===== verification/Data_Model.thy ===== *)
theory Data_Model
  imports Settings
begin

text \<open>
  The tables of \<open>api/models.py\<close>: one record per ORM class, its columns as fields (prefixed
  with the class's initials, since record fields share one name space), enums as datatypes with
  the value strings the ORM and the API exchange.  Relationships are foreign keys.  A table is
  the list of its rows in insertion order and the database is the record of its tables.  Times
  are microseconds since the epoch.
\<close>

type_synonym time = int

abbreviation seconds :: "int \<Rightarrow> time" where
  "seconds n \<equiv> n * 1000000"

section \<open>Enumerations\<close>

datatype user_role = RoleAdmin | RoleUser | RoleReadonly

fun user_role_value :: "user_role \<Rightarrow> string" where
  "user_role_value RoleAdmin = ''admin''"
| "user_role_value RoleUser = ''user''"
| "user_role_value RoleReadonly = ''readonly''"

datatype job_status = QUEUED | RUNNING | CANCELLING | SUCCEEDED | FAILED | CANCELLED

fun job_status_value :: "job_status \<Rightarrow> string" where
  "job_status_value QUEUED = ''QUEUED''"
| "job_status_value RUNNING = ''RUNNING''"
| "job_status_value CANCELLING = ''CANCELLING''"
| "job_status_value SUCCEEDED = ''SUCCEEDED''"
| "job_status_value FAILED = ''FAILED''"
| "job_status_value CANCELLED = ''CANCELLED''"

datatype endpoint_status = EP_STARTING | EP_LIVE | EP_STOPPED | EP_FAILED

fun endpoint_status_value :: "endpoint_status \<Rightarrow> string" where
  "endpoint_status_value EP_STARTING = ''STARTING''"
| "endpoint_status_value EP_LIVE = ''LIVE''"
| "endpoint_status_value EP_STOPPED = ''STOPPED''"
| "endpoint_status_value EP_FAILED = ''FAILED''"

section \<open>Rows\<close>

text \<open>The columns of \<open>User\<close>.\<close>

record user =
  u_id :: uuid
  u_email :: string
  u_password_hash :: string
  u_role :: user_role
  u_must_change_password :: bool
  u_disabled :: bool
  u_created_at :: time

text \<open>\<open>Job.spec\<close> is the JSON dump of a \<open>JobSpec\<close> (\<open>api/schemas/job.py\<close>): its five fields.\<close>

record job_spec =
  js_image :: string
  js_command :: "string list"
  js_env :: "(string \<times> string) list"
  js_gpu :: bool
  js_timeout_minutes :: int

record job =
  j_id :: uuid
  j_user_id :: uuid
  j_name :: string
  j_spec :: job_spec
  j_status :: job_status
  j_queued_at :: time
  j_started_at :: "time option"
  j_finished_at :: "time option"
  j_worker_id :: "string option"
  j_exit_code :: "int option"
  j_error_message :: "string option"
  j_mlflow_run_id :: "string option"
  j_artifact_error :: "string option"

record job_log =
  jl_job_id :: uuid
  jl_content :: string

record api_key =
  k_id :: uuid
  k_user_id :: uuid
  k_name :: string
  k_key_hash :: string
  k_prefix :: string
  k_scopes :: "string list"
  k_rate_limit_tier :: string
  k_expires_at :: "time option"
  k_revoked :: bool
  k_last_used_at :: "time option"
  k_created_at :: time

record refresh_token =
  rt_id :: uuid
  rt_user_id :: uuid
  rt_token_hash :: string
  rt_family_id :: uuid
  rt_expires_at :: time
  rt_revoked :: bool

record quota =
  q_user_id :: uuid
  max_concurrent_jobs :: int
  max_jobs_per_day :: int
  max_storage_mb :: int
  max_instances :: int
  max_llm_tokens_per_day :: int
  max_live_endpoints :: int

record model =
  m_id :: uuid
  m_user_id :: uuid
  m_name :: string
  m_version :: int
  m_source_job_id :: "uuid option"
  m_minio_prefix :: string
  m_size_bytes :: int
  m_framework :: "string option"
  m_created_at :: time

record endpoint =
  e_id :: uuid
  e_model_id :: uuid
  e_user_id :: uuid
  e_name :: string
  e_status :: endpoint_status
  e_container_id :: "string option"
  e_route :: string
  e_error_message :: "string option"
  e_created_at :: time
  e_stopped_at :: "time option"

record usage_log =
  ul_user_id :: uuid
  ul_api_key_id :: "uuid option"
  ul_endpoint_id :: uuid
  ul_request_count :: int

section \<open>The database\<close>

record db =
  users :: "user list"
  refresh_tokens :: "refresh_token list"
  api_keys :: "api_key list"
  jobs :: "job list"
  job_logs :: "job_log list"
  quotas :: "quota list"
  models :: "model list"
  endpoints :: "endpoint list"
  usage_logs :: "usage_log list"

definition empty_db :: db where
  "empty_db = \<lparr>users = [], refresh_tokens = [], api_keys = [], jobs = [], job_logs = [],
     quotas = [], models = [], endpoints = [], usage_logs = []\<rparr>"

section \<open>Statements\<close>

text \<open>
  The statements the code issues on a table: \<open>select \<dots> where\<close> is \<open>filter\<close>, \<open>session.get\<close> is
  \<open>row_get\<close>, an ORM attribute write followed by a commit is \<open>row_put\<close>, \<open>update \<dots> where\<close> is
  \<open>rows_update\<close>, \<open>session.add\<close> appends, \<open>delete \<dots> where\<close> is a filter.
\<close>

definition scalar_one_or_none :: "'r list \<Rightarrow> exn + 'r option" where
  "scalar_one_or_none rs =
     (case rs of [] \<Rightarrow> Inr None | [r] \<Rightarrow> Inr (Some r) | _ \<Rightarrow> Inl MultipleResultsFound)"

definition row_get :: "('r \<Rightarrow> 'k) \<Rightarrow> 'k \<Rightarrow> 'r list \<Rightarrow> 'r option" where
  "row_get key k t = List.find (\<lambda>r. key r = k) t"

definition row_put :: "('r \<Rightarrow> 'k) \<Rightarrow> 'r \<Rightarrow> 'r list \<Rightarrow> 'r list" where
  "row_put key r t = map (\<lambda>x. if key x = key r then r else x) t"

definition rows_update :: "('r \<Rightarrow> bool) \<Rightarrow> ('r \<Rightarrow> 'r) \<Rightarrow> 'r list \<Rightarrow> 'r list" where
  "rows_update P f t = map (\<lambda>x. if P x then f x else x) t"

section \<open>Tables with a primary key\<close>

text \<open>
  Look-ups after writes, first for one table on its own.
\<close>

lemma row_get_Some: "row_get key k t = Some r \<Longrightarrow> key r = k \<and> r \<in> set t"
  by (auto simp: row_get_def find_Some_iff)

lemma row_get_None: "row_get key k t = None \<longleftrightarrow> k \<notin> key ` set t"
  by (auto simp: row_get_def find_None_iff)

lemma row_get_distinct:
  "distinct (map key t) \<Longrightarrow> r \<in> set t \<Longrightarrow> row_get key (key r) t = Some r"
  by (induction t) (auto simp: row_get_def)

lemma filter_key_distinct:
  assumes "distinct (map key t)"
  shows "filter (\<lambda>r. key r = k) t = (case row_get key k t of None \<Rightarrow> [] | Some r \<Rightarrow> [r])"
  using assms
proof (induction t)
  case Nil
  then show ?case by (simp add: row_get_def)
next
  case (Cons x xs)
  show ?case
  proof (cases "key x = k")
    case True
    with Cons.prems have "filter (\<lambda>r. key r = k) xs = []"
      by (force simp: filter_empty_conv image_iff)
    with True show ?thesis by (simp add: row_get_def)
  next
    case False
    with Cons show ?thesis by (simp add: row_get_def)
  qed
qed

lemma scalar_key_distinct [simp]:
  "distinct (map key t) \<Longrightarrow> scalar_one_or_none (filter (\<lambda>r. key r = k) t) = Inr (row_get key k t)"
  by (simp add: filter_key_distinct scalar_one_or_none_def split: option.splits)

lemma row_put_keys [simp]: "map key (row_put key r t) = map key t"
  by (auto simp: row_put_def)

lemma row_put_other [simp]: "k \<noteq> key r \<Longrightarrow> row_get key k (row_put key r t) = row_get key k t"
  by (induction t) (auto simp: row_put_def row_get_def)

lemma row_put_same [simp]:
  "key r \<in> key ` set t \<Longrightarrow> row_get key (key r) (row_put key r t) = Some r"
  by (induction t) (auto simp: row_put_def row_get_def)

lemma set_row_put: "x \<in> set (row_put key r t) \<Longrightarrow> x = r \<or> (x \<in> set t \<and> key x \<noteq> key r)"
  by (auto simp: row_put_def split: if_splits)

lemma same_key_same_row:
  "distinct (map key t) \<Longrightarrow> x \<in> set t \<Longrightarrow> y \<in> set t \<Longrightarrow> key x = key y \<Longrightarrow> x = y"
  by (metis option.inject row_get_distinct)

text \<open>A write that keeps a column of its row keeps the column of the table.\<close>

lemma row_put_map:
  assumes "distinct (map key t)" and "r0 \<in> set t" and "key r = key r0" and "f r = f r0"
  shows "map f (row_put key r t) = map f t"
proof -
  have "f x = f r" if "x \<in> set t" "key x = key r" for x
    using same_key_same_row [OF assms(1,2) that(1)] that(2) assms(3,4) by auto
  then show ?thesis by (auto simp: row_put_def)
qed

lemma row_put_rows_update:
  assumes "distinct (map key t)" and "row \<in> set t" and "key (f row) = key row"
  shows "row_put key (f row) t = rows_update (\<lambda>r. key r = key row) f t"
  using same_key_same_row [OF assms(1) _ assms(2)] assms(3)
  by (auto simp: row_put_def rows_update_def)

lemma row_put_mem:
  "r0 \<in> set t \<Longrightarrow> key r = key r0 \<Longrightarrow> r \<in> set (row_put key r t)"
  by (auto simp: row_put_def image_iff intro!: bexI [of _ r0])

lemma row_get_append:
  "row_get key k (t @ u) = (case row_get key k t of None \<Rightarrow> row_get key k u | Some r \<Rightarrow> Some r)"
  by (induction t) (auto simp: row_get_def)

lemma row_get_Cons:
  "row_get key k (x # t) = (if key x = k then Some x else row_get key k t)"
  by (simp add: row_get_def)

lemma row_get_Nil [simp]: "row_get key k [] = None"
  by (simp add: row_get_def)

lemma rows_update_keys:
  "(\<And>r. key (f r) = key r) \<Longrightarrow> map key (rows_update P f t) = map key t"
  by (auto simp: rows_update_def)

lemma row_get_rows_update:
  "(\<And>r. key (f r) = key r) \<Longrightarrow>
   row_get key k (rows_update P f t) = map_option (\<lambda>r. if P r then f r else r) (row_get key k t)"
  by (induction t) (auto simp: rows_update_def row_get_def)

lemma set_rows_update:
  "x \<in> set (rows_update P f t) \<longleftrightarrow> (\<exists>y \<in> set t. x = (if P y then f y else y))"
  by (auto simp: rows_update_def)

text \<open>
  The interface of a table inside the database: its key, its rows and the write that replaces
  them.  The facts about primary keys and look-ups are proved once, and hold for every table
  of the model by the interpretations below.
\<close>

locale keyed_table =
  fixes key :: "'r \<Rightarrow> 'k"
    and rows :: "'d \<Rightarrow> 'r list"
    and upd :: "('r list \<Rightarrow> 'r list) \<Rightarrow> 'd \<Rightarrow> 'd"
  assumes rows_upd: "rows (upd f d) = f (rows d)"
begin

lemma put_distinct:
  "distinct (map key (rows d)) \<Longrightarrow> distinct (map key (rows (upd (row_put key r) d)))"
  by (simp add: rows_upd)

lemma add_distinct:
  "distinct (map key (rows d)) \<Longrightarrow> key r \<notin> key ` set (rows d) \<Longrightarrow>
   distinct (map key (rows (upd (\<lambda>t. t @ [r]) d)))"
  by (simp add: rows_upd)

lemma get_put:
  assumes "row_get key k (rows d) = Some r0" and "key r = k"
  shows "row_get key k' (rows (upd (row_put key r) d)) =
     (if k' = k then Some r else row_get key k' (rows d))"
proof -
  have "key r \<in> key ` set (rows d)"
    using assms by (metis image_eqI row_get_Some)
  then have "row_get key (key r) (row_put key r (rows d)) = Some r"
    by (rule row_put_same)
  with assms(2) show ?thesis by (simp add: rows_upd)
qed

lemma get_add:
  "key r \<notin> key ` set (rows d) \<Longrightarrow>
   row_get key k (rows (upd (\<lambda>t. t @ [r]) d)) = (if k = key r then Some r else row_get key k (rows d))"
  using row_get_None [of key "key r" "rows d"]
  by (auto simp: rows_upd row_get_append row_get_Cons split: option.splits)

lemma select_by_key:
  "distinct (map key (rows d)) \<Longrightarrow>
   scalar_one_or_none (filter (\<lambda>r. key r = k) (rows d)) = Inr (row_get key k (rows d))"
  by (rule scalar_key_distinct)

end

interpretation users_t: keyed_table u_id users users_update
  by unfold_locales simp

interpretation refresh_tokens_t: keyed_table rt_id refresh_tokens refresh_tokens_update
  by unfold_locales simp

interpretation api_keys_t: keyed_table k_id api_keys api_keys_update
  by unfold_locales simp

interpretation jobs_t: keyed_table j_id jobs jobs_update
  by unfold_locales simp

interpretation quotas_t: keyed_table q_user_id quotas quotas_update
  by unfold_locales simp

interpretation models_t: keyed_table m_id models models_update
  by unfold_locales simp

interpretation endpoints_t: keyed_table e_id endpoints endpoints_update
  by unfold_locales simp

end
