(* ===== verification/Security.thy ===== *)
theory Security
  imports Data_Model
begin

text \<open>
  \<open>api/security.py\<close> and \<open>api/scopes.py\<close>.  The cryptographic libraries (argon2, SHA-256, PyJWT)
  are not part of the repository: they are the fields of the record \<open>crypto\<close> that every
  definition below takes as an argument, and what the code relies on of them is the locale
  \<open>crypto_laws\<close>.  Random tokens (\<open>secrets.token_urlsafe\<close>, \<open>uuid4\<close>) and the clock are arguments.
\<close>

section \<open>The cryptographic libraries\<close>

datatype verify_result = VerifyOk | VerifyMismatch | VerifyFailure exn

record jwt_payload =
  jwt_sub :: "string option"
  jwt_role :: string
  jwt_iat :: time
  jwt_exp :: time

text \<open>
  \<open>argon2_hash salt password\<close>; \<open>argon2_verify hash password\<close>; \<open>jwt_decode_lib secret now
  verify_exp token\<close>, where \<open>None\<close> is any \<open>PyJWTError\<close>.
\<close>

record crypto =
  argon2_hash :: "string \<Rightarrow> string \<Rightarrow> string"
  argon2_verify :: "string \<Rightarrow> string \<Rightarrow> verify_result"
  sha256_hexdigest :: "string \<Rightarrow> string"
  jwt_encode_lib :: "string \<Rightarrow> jwt_payload \<Rightarrow> string"
  jwt_decode_lib :: "string \<Rightarrow> time \<Rightarrow> bool \<Rightarrow> string \<Rightarrow> jwt_payload option"

text \<open>
  The documented behaviour the code relies on: verification accepts exactly the hashed
  password, a token decodes to its payload under the secret that signed it until it expires,
  and a signed token never has the prefix of an API key (a JWT starts with the base64 of an
  opening brace).
\<close>

locale crypto_laws =
  fixes C :: crypto
  assumes verify_hash:
    "argon2_verify C (argon2_hash C salt pw) pw' = (if pw' = pw then VerifyOk else VerifyMismatch)"
  and decode_encode:
    "jwt_decode_lib C secret now verify_exp (jwt_encode_lib C secret p) =
       (if verify_exp \<and> jwt_exp p \<le> now then None else Some p)"
  and jwt_not_api_key: "\<not> startswith (jwt_encode_lib C secret p) ''pzf_''"

section \<open>Passwords\<close>

definition hash_password :: "crypto \<Rightarrow> string \<Rightarrow> string \<Rightarrow> string" where
  "hash_password C salt password = argon2_hash C salt password"

definition verify_password :: "crypto \<Rightarrow> string \<Rightarrow> string \<Rightarrow> exn + bool" where
  "verify_password C password password_hash =
     (case argon2_verify C password_hash password of
        VerifyOk \<Rightarrow> Inr True
      | VerifyMismatch \<Rightarrow> Inr False
      | VerifyFailure e \<Rightarrow> Inl e)"

text \<open>
  The dummy verification keeps the timing of an unknown email equal to that of a known one; its
  outcome is ignored, an exception other than a mismatch is not.
\<close>

definition verify_password_constant_time ::
  "crypto \<Rightarrow> string \<Rightarrow> string \<Rightarrow> string option \<Rightarrow> exn + bool" where
  "verify_password_constant_time C dummy_hash password password_hash =
     (case password_hash of
        None \<Rightarrow> (case verify_password C password dummy_hash of Inl e \<Rightarrow> Inl e | Inr _ \<Rightarrow> Inr False)
      | Some h \<Rightarrow> verify_password C password h)"

section \<open>Tokens\<close>

definition create_access_token :: "crypto \<Rightarrow> settings \<Rightarrow> time \<Rightarrow> uuid \<Rightarrow> string \<Rightarrow> string" where
  "create_access_token C cfg now user_id role =
     jwt_encode_lib C (jwt_secret cfg)
       \<lparr>jwt_sub = Some (str_uuid user_id), jwt_role = role, jwt_iat = now,
        jwt_exp = now + seconds (60 * jwt_access_ttl_minutes cfg)\<rparr>"

definition decode_access_token :: "crypto \<Rightarrow> settings \<Rightarrow> time \<Rightarrow> string \<Rightarrow> jwt_payload option" where
  "decode_access_token C cfg now token = jwt_decode_lib C (jwt_secret cfg) now True token"

definition hash_token :: "crypto \<Rightarrow> string \<Rightarrow> string" where
  "hash_token C token = sha256_hexdigest C token"

definition refresh_token_expires_at :: "settings \<Rightarrow> time \<Rightarrow> time" where
  "refresh_token_expires_at cfg now = now + seconds (jwt_refresh_ttl_days cfg * 24 * 60 * 60)"

definition API_KEY_PREFIX :: string where
  "API_KEY_PREFIX = ''pzf_''"

definition generate_api_key :: "crypto \<Rightarrow> string \<Rightarrow> string \<times> string \<times> string" where
  "generate_api_key C random =
     (let plaintext = API_KEY_PREFIX @ random
      in (plaintext, hash_token C plaintext, take 8 plaintext))"

definition is_api_key_token :: "string \<Rightarrow> bool" where
  "is_api_key_token token = startswith token API_KEY_PREFIX"

section \<open>Scopes\<close>

definition VALID_SCOPES :: "string list" where
  "VALID_SCOPES =
     [''jobs:read'', ''jobs:write'', ''models:read'', ''llm:invoke'', ''instances:manage'']"

fun ROLE_SCOPES :: "user_role \<Rightarrow> string list" where
  "ROLE_SCOPES RoleAdmin = VALID_SCOPES"
| "ROLE_SCOPES RoleUser = VALID_SCOPES"
| "ROLE_SCOPES RoleReadonly = [''jobs:read'', ''models:read'']"

definition scopes_allowed_for_role :: "user_role \<Rightarrow> string list \<Rightarrow> bool" where
  "scopes_allowed_for_role role requested = list_all (\<lambda>s. s \<in> set (ROLE_SCOPES role)) requested"

lemma scopes_allowed_iff: "scopes_allowed_for_role r ss \<longleftrightarrow> set ss \<subseteq> set (ROLE_SCOPES r)"
  by (auto simp: scopes_allowed_for_role_def list_all_iff)

lemma generated_key_is_api_key: "is_api_key_token (fst (generate_api_key C random))"
  by (simp add: generate_api_key_def is_api_key_token_def Let_def)

context crypto_laws
begin

lemma verify_own_password:
  "verify_password C pw (hash_password C salt pw') = Inr (pw = pw')"
  by (simp add: verify_password_def hash_password_def verify_hash)

lemma decode_created_token:
  "decode_access_token C cfg t (create_access_token C cfg now uid role) =
     (if now + seconds (60 * jwt_access_ttl_minutes cfg) \<le> t then None
      else Some \<lparr>jwt_sub = Some (str_uuid uid), jwt_role = role, jwt_iat = now,
        jwt_exp = now + seconds (60 * jwt_access_ttl_minutes cfg)\<rparr>)"
  by (simp add: decode_access_token_def create_access_token_def decode_encode)

lemma access_token_not_api_key: "\<not> is_api_key_token (create_access_token C cfg now uid role)"
  using jwt_not_api_key by (simp add: is_api_key_token_def API_KEY_PREFIX_def create_access_token_def)

end

section \<open>A reference instance\<close>

text \<open>
  An instance of the interface that satisfies the laws: hashes carry salt and password in
  clear, tokens are the rendered payload under a secret, each string with its own end mark.
  It shows that the laws can hold together, and the witnesses run on it.
\<close>

fun enc_str :: "string \<Rightarrow> string" where
  "enc_str [] = ''.''"
| "enc_str (c # cs) = CHR '':'' # c # enc_str cs"

fun dec_str :: "string \<Rightarrow> (string \<times> string) option" where
  "dec_str (m # cs) =
     (if m = CHR ''.'' then Some ([], cs)
      else (case cs of [] \<Rightarrow> None
            | c # rest \<Rightarrow> (case dec_str rest of None \<Rightarrow> None | Some (s, t) \<Rightarrow> Some (c # s, t))))"
| "dec_str [] = None"

lemma dec_enc_str [simp]: "dec_str (enc_str s @ t) = Some (s, t)"
  by (induction s) auto

definition ref_argon2_verify :: "string \<Rightarrow> string \<Rightarrow> verify_result" where
  "ref_argon2_verify h pw =
     (case dec_str h of
        None \<Rightarrow> VerifyFailure (OtherException ''InvalidHash'')
      | Some (_, p) \<Rightarrow> if p = pw then VerifyOk else VerifyMismatch)"

definition ref_jwt_encode :: "string \<Rightarrow> jwt_payload \<Rightarrow> string" where
  "ref_jwt_encode secret p =
     ''eyJ'' @ enc_str secret @ enc_str (str_int (jwt_iat p)) @ enc_str (str_int (jwt_exp p)) @
     enc_str (jwt_role p) @ (case jwt_sub p of None \<Rightarrow> ''-'' | Some s \<Rightarrow> ''+'' @ s)"

definition ref_jwt_decode :: "string \<Rightarrow> time \<Rightarrow> bool \<Rightarrow> string \<Rightarrow> jwt_payload option" where
  "ref_jwt_decode secret now verify_exp token =
     (if \<not> startswith token ''eyJ'' then None
      else (case dec_str (drop 3 token) of None \<Rightarrow> None | Some (sec, t1) \<Rightarrow>
       (case dec_str t1 of None \<Rightarrow> None | Some (iat, t2) \<Rightarrow>
       (case dec_str t2 of None \<Rightarrow> None | Some (ex, t3) \<Rightarrow>
       (case dec_str t3 of None \<Rightarrow> None | Some (role, t4) \<Rightarrow>
       (case (py_int iat, py_int ex) of (Inr i, Inr e) \<Rightarrow>
          if sec \<noteq> secret \<or> (verify_exp \<and> e \<le> now) then None
          else Some \<lparr>jwt_sub = (if startswith t4 ''+'' then Some (drop 1 t4) else None),
                 jwt_role = role, jwt_iat = i, jwt_exp = e\<rparr>
        | _ \<Rightarrow> None))))))"

definition ref_crypto :: crypto where
  "ref_crypto = \<lparr>argon2_hash = (\<lambda>salt pw. enc_str salt @ pw), argon2_verify = ref_argon2_verify,
     sha256_hexdigest = (\<lambda>s. ''#'' @ s), jwt_encode_lib = ref_jwt_encode,
     jwt_decode_lib = ref_jwt_decode\<rparr>"

interpretation ref: crypto_laws ref_crypto
proof unfold_locales
  show "argon2_verify ref_crypto (argon2_hash ref_crypto salt pw) pw' =
      (if pw' = pw then VerifyOk else VerifyMismatch)" for salt pw pw'
    by (simp add: ref_crypto_def ref_argon2_verify_def)
  show "jwt_decode_lib ref_crypto secret now verify_exp (jwt_encode_lib ref_crypto secret p) =
      (if verify_exp \<and> jwt_exp p \<le> now then None else Some p)" for secret now verify_exp p
    by (cases p; cases "jwt_sub p")
      (auto simp: ref_crypto_def ref_jwt_encode_def ref_jwt_decode_def startswith_def)
  show "\<not> startswith (jwt_encode_lib ref_crypto secret p) ''pzf_''" for secret p
    by (simp add: ref_crypto_def ref_jwt_encode_def startswith_def)
qed

end
