(* ===== verification/Fixtures.thy ===== *)
theory Fixtures
  imports Security
begin

text \<open>
  Concrete rows and settings, shared by the witnesses that run the handlers on an input: two
  users (\<open>alice\<close>, role user; \<open>root\<close>, role admin), an API key of \<open>alice\<close> and the database
  holding them.  The libraries are the reference instance of \<open>Security\<close>.
\<close>

definition cfg0 :: settings where
  "cfg0 = default_settings ''postgres'' ''redis'' ''s''"

definition alice :: user where
  "alice = \<lparr>u_id = 1, u_email = ''alice@x.io'', u_password_hash = enc_str ''n'' @ ''pw-alice'',
     u_role = RoleUser, u_must_change_password = False, u_disabled = False, u_created_at = 0\<rparr>"

definition root :: user where
  "root = \<lparr>u_id = 2, u_email = ''root@x.io'', u_password_hash = enc_str ''n'' @ ''pw-root'',
     u_role = RoleAdmin, u_must_change_password = False, u_disabled = False, u_created_at = 0\<rparr>"

definition alice_token :: string where
  "alice_token = ''pzf_abcdEF''"

definition alice_key :: api_key where
  "alice_key = \<lparr>k_id = 10, k_user_id = 1, k_name = ''ci'', k_key_hash = ''#pzf_abcdEF'',
     k_prefix = ''pzf_abcd'', k_scopes = [''jobs:read''], k_rate_limit_tier = ''standard'',
     k_expires_at = Some 100, k_revoked = False, k_last_used_at = None, k_created_at = 0\<rparr>"

definition db0 :: db where
  "db0 = empty_db\<lparr>users := [alice, root], api_keys := [alice_key]\<rparr>"

lemmas fixture_defs = cfg0_def alice_def root_def alice_token_def alice_key_def db0_def
  empty_db_def default_settings_def

lemma db0_users [simp]: "users db0 = [alice, root]" "api_keys db0 = [alice_key]"
  "refresh_tokens db0 = []" "jobs db0 = []" "quotas db0 = []" "models db0 = []"
  "endpoints db0 = []" "job_logs db0 = []"
  by (simp_all add: db0_def empty_db_def)

lemma fixture_ids [simp]: "u_id alice = 1" "u_id root = 2" "u_role alice = RoleUser"
  "u_role root = RoleAdmin" "\<not> u_disabled alice" "\<not> u_disabled root"
  "\<not> u_must_change_password alice" "\<not> u_must_change_password root" "k_user_id alice_key = 1"
  by (simp_all add: alice_def root_def alice_key_def)

end
