(* ===== verification/Deps.thy ===== *)
theory Deps
  imports Fixtures
begin

text \<open>
  \<open>api/deps.py\<close>: from a bearer token to a \<open>Principal\<close>, and the guards that the routes
  depend on.  A dependency is a handler over the database; the only write is the best-effort
  update of an API key's \<open>last_used_at\<close>, in a session of its own whose failure is swallowed
  (\<open>touch_ok\<close> says whether it went through).
\<close>

section \<open>The principal\<close>

record principal =
  p_user :: user
  p_api_key :: "api_key option"

definition principal_scopes :: "principal \<Rightarrow> string list" where
  "principal_scopes p =
     (case p_api_key p of Some k \<Rightarrow> k_scopes k | None \<Rightarrow> ROLE_SCOPES (u_role (p_user p)))"

definition ACCOUNT_DISABLED :: exn where
  "ACCOUNT_DISABLED = HTTPException 401 ''Account disabled''"

definition PASSWORD_CHANGE_REQUIRED :: exn where
  "PASSWORD_CHANGE_REQUIRED = HTTPException 403 ''password change required''"

definition INVALID_API_KEY :: exn where
  "INVALID_API_KEY = HTTPException 401 ''Invalid or expired API key''"

definition INVALID_TOKEN :: exn where
  "INVALID_TOKEN = HTTPException 401 ''Invalid or expired token''"

definition NOT_AUTHENTICATED :: exn where
  "NOT_AUTHENTICATED = HTTPException 401 ''Not authenticated''"

definition reject_disabled_user :: "user \<Rightarrow> (db, unit) handler" where
  "reject_disabled_user u = (if u_disabled u then raiseE ACCOUNT_DISABLED else returnE ())"

definition reject_password_change_required :: "user \<Rightarrow> (db, unit) handler" where
  "reject_password_change_required u =
     (if u_must_change_password u then raiseE PASSWORD_CHANGE_REQUIRED else returnE ())"

section \<open>API keys\<close>

definition touch_api_key_last_used :: "bool \<Rightarrow> time \<Rightarrow> uuid \<Rightarrow> (db, unit) handler" where
  "touch_api_key_last_used touch_ok now key_id =
     (if touch_ok
      then modifyE (api_keys_update (rows_update (\<lambda>k. k_id k = key_id)
             (\<lambda>k. k\<lparr>k_last_used_at := Some now\<rparr>)))
      else returnE ())"

definition authenticate_api_key ::
  "crypto \<Rightarrow> bool \<Rightarrow> time \<Rightarrow> string \<Rightarrow> (db, principal) handler" where
  "authenticate_api_key C touch_ok now token =
     bindE (liftE (\<lambda>d. scalar_one_or_none
        (filter (\<lambda>k. k_key_hash k = hash_token C token) (api_keys d)))) (\<lambda>found.
     case found of
       None \<Rightarrow> raiseE INVALID_API_KEY
     | Some k \<Rightarrow>
         if k_revoked k then raiseE INVALID_API_KEY
         else if (case k_expires_at k of None \<Rightarrow> False | Some e \<Rightarrow> e \<le> now) then raiseE INVALID_API_KEY
         else bindE (getsE (\<lambda>d. row_get u_id (k_user_id k) (users d))) (\<lambda>owner.
           case owner of
             None \<Rightarrow> raiseE INVALID_API_KEY
           | Some u \<Rightarrow>
               bindE (reject_disabled_user u) (\<lambda>_.
               bindE (touch_api_key_last_used touch_ok now (k_id k)) (\<lambda>_.
               returnE \<lparr>p_user = u, p_api_key = Some k\<rparr>))))"

section \<open>Access tokens\<close>

definition authenticate_jwt ::
  "crypto \<Rightarrow> settings \<Rightarrow> time \<Rightarrow> string \<Rightarrow> (db, principal) handler" where
  "authenticate_jwt C cfg now token =
     (case decode_access_token C cfg now token of
        None \<Rightarrow> raiseE INVALID_TOKEN
      | Some payload \<Rightarrow>
          (case jwt_sub payload of
             None \<Rightarrow> raiseE INVALID_TOKEN
           | Some sub \<Rightarrow>
               if sub = [] then raiseE INVALID_TOKEN
               else (case parse_uuid sub of
                  Inl _ \<Rightarrow> raiseE INVALID_TOKEN
                | Inr user_id \<Rightarrow>
                    bindE (liftE (\<lambda>d. scalar_one_or_none
                      (filter (\<lambda>u. u_id u = user_id) (users d)))) (\<lambda>found.
                    case found of
                      None \<Rightarrow> raiseE INVALID_TOKEN
                    | Some u \<Rightarrow>
                        bindE (reject_disabled_user u) (\<lambda>_.
                        returnE \<lparr>p_user = u, p_api_key = None\<rparr>)))))"

section \<open>Dependencies of the routes\<close>

definition resolve_principal_from_token ::
  "crypto \<Rightarrow> settings \<Rightarrow> bool \<Rightarrow> time \<Rightarrow> string \<Rightarrow> (db, principal) handler" where
  "resolve_principal_from_token C cfg touch_ok now token =
     bindE (if is_api_key_token token then authenticate_api_key C touch_ok now token
            else authenticate_jwt C cfg now token) (\<lambda>p.
     bindE (reject_password_change_required (p_user p)) (\<lambda>_.
     returnE p))"

text \<open>The credentials FastAPI's bearer scheme extracted: \<open>(scheme, token)\<close>, if any.\<close>

type_synonym credentials = "(string \<times> string) option"

definition get_current_principal ::
  "crypto \<Rightarrow> settings \<Rightarrow> bool \<Rightarrow> time \<Rightarrow> credentials \<Rightarrow> (db, principal) handler" where
  "get_current_principal C cfg touch_ok now creds =
     (case creds of
        None \<Rightarrow> raiseE NOT_AUTHENTICATED
      | Some (scheme, token) \<Rightarrow>
          if py_lower scheme \<noteq> ''bearer'' then raiseE NOT_AUTHENTICATED
          else resolve_principal_from_token C cfg touch_ok now token)"

definition get_authenticated_user ::
  "crypto \<Rightarrow> settings \<Rightarrow> time \<Rightarrow> credentials \<Rightarrow> (db, user) handler" where
  "get_authenticated_user C cfg now creds =
     (case creds of
        None \<Rightarrow> raiseE NOT_AUTHENTICATED
      | Some (scheme, token) \<Rightarrow>
          if py_lower scheme \<noteq> ''bearer'' then raiseE NOT_AUTHENTICATED
          else if is_api_key_token token
          then raiseE (HTTPException 403 ''JWT required for this endpoint'')
          else bindE (authenticate_jwt C cfg now token) (\<lambda>p. returnE (p_user p)))"

definition get_current_user ::
  "crypto \<Rightarrow> settings \<Rightarrow> time \<Rightarrow> credentials \<Rightarrow> (db, user) handler" where
  "get_current_user C cfg now creds =
     bindE (get_authenticated_user C cfg now creds) (\<lambda>u.
     bindE (reject_password_change_required u) (\<lambda>_. returnE u))"

definition get_current_admin ::
  "crypto \<Rightarrow> settings \<Rightarrow> time \<Rightarrow> credentials \<Rightarrow> (db, user) handler" where
  "get_current_admin C cfg now creds =
     bindE (get_current_user C cfg now creds) (\<lambda>u.
     if u_role u \<noteq> RoleAdmin then raiseE (HTTPException 403 ''Admin required'') else returnE u)"

definition require_scopes ::
  "string list \<Rightarrow> crypto \<Rightarrow> settings \<Rightarrow> bool \<Rightarrow> time \<Rightarrow> credentials \<Rightarrow> (db, principal) handler" where
  "require_scopes required C cfg touch_ok now creds =
     bindE (get_current_principal C cfg touch_ok now creds) (\<lambda>p.
     if filter (\<lambda>s. s \<notin> set (principal_scopes p)) required \<noteq> []
     then raiseE (HTTPException 403 ''Insufficient scope'') else returnE p)"

section \<open>What a resolved principal is\<close>

lemmas deps_defs = reject_disabled_user_def reject_password_change_required_def
  touch_api_key_last_used_def ACCOUNT_DISABLED_def PASSWORD_CHANGE_REQUIRED_def

text \<open>A usable API key: present under the token's hash, live, with its owner present.\<close>

definition live_key :: "crypto \<Rightarrow> db \<Rightarrow> time \<Rightarrow> string \<Rightarrow> api_key \<Rightarrow> bool" where
  "live_key C d now token k \<longleftrightarrow>
     k \<in> set (api_keys d) \<and> k_key_hash k = hash_token C token \<and> \<not> k_revoked k \<and>
     (case k_expires_at k of None \<Rightarrow> True | Some e \<Rightarrow> now < e)"

lemma scalar_one_Some:
  "scalar_one_or_none rs = Inr (Some r) \<longleftrightarrow> rs = [r]"
  by (auto simp: scalar_one_or_none_def split: list.splits)

lemma scalar_one_filterD:
  "scalar_one_or_none (filter P t) = Inr (Some r) \<Longrightarrow> r \<in> set t \<and> P r"
  by (auto simp: scalar_one_Some filter_eq_Cons_iff)

lemma authenticate_api_key_Inr:
  assumes "authenticate_api_key C touch_ok now token d = (Inr p, d')"
  shows "\<exists>k. p_api_key p = Some k \<and> live_key C d now token k \<and>
     row_get u_id (k_user_id k) (users d) = Some (p_user p) \<and> \<not> u_disabled (p_user p)"
  using assms
  by (auto simp: authenticate_api_key_def handler_simps deps_defs live_key_def
      dest!: scalar_one_filterD split: sum.splits option.splits if_splits)

lemma authenticate_jwt_Inr:
  assumes "authenticate_jwt C cfg now token d = (Inr p, d')"
  shows "d' = d \<and> p_api_key p = None \<and> p_user p \<in> set (users d) \<and> \<not> u_disabled (p_user p) \<and>
     (\<exists>payload sub. decode_access_token C cfg now token = Some payload \<and>
        jwt_sub payload = Some sub \<and> parse_uuid sub = Inr (u_id (p_user p)))"
  using assms
  by (auto simp: authenticate_jwt_def handler_simps deps_defs
      dest!: scalar_one_filterD split: sum.splits option.splits if_splits)

lemma authenticate_jwt_frame: "snd (authenticate_jwt C cfg now token d) = d"
  by (auto simp: authenticate_jwt_def handler_simps deps_defs split: sum.splits option.splits)

lemma authenticate_api_key_run:
  "authenticate_api_key C touch_ok now token d =
     (case scalar_one_or_none (filter (\<lambda>k. k_key_hash k = hash_token C token) (api_keys d)) of
        Inl e \<Rightarrow> (Inl e, d)
      | Inr None \<Rightarrow> (Inl INVALID_API_KEY, d)
      | Inr (Some k) \<Rightarrow>
          if k_revoked k \<or> (case k_expires_at k of None \<Rightarrow> False | Some e \<Rightarrow> e \<le> now)
          then (Inl INVALID_API_KEY, d)
          else (case row_get u_id (k_user_id k) (users d) of
              None \<Rightarrow> (Inl INVALID_API_KEY, d)
            | Some u \<Rightarrow> if u_disabled u then (Inl ACCOUNT_DISABLED, d)
                else (Inr \<lparr>p_user = u, p_api_key = Some k\<rparr>,
                      snd (touch_api_key_last_used touch_ok now (k_id k) d))))"
  by (simp add: authenticate_api_key_def handler_simps deps_defs split: sum.split option.split)

lemma unique_hash_filter:
  assumes "distinct (map k_key_hash t)" and "k \<in> set t" and "k_key_hash k = h"
  shows "scalar_one_or_none (filter (\<lambda>k. k_key_hash k = h) t) = Inr (Some k)"
  using assms row_get_distinct [of k_key_hash t k] scalar_key_distinct [of k_key_hash t h] by simp

section \<open>Properties\<close>

text \<open>C1: a token resolves to a principal only when its user exists, is enabled and has no
  pending password change; for an API key the key is stored under the token's hash, neither
  revoked nor expired, and belongs to that user; for a JWT the signed, unexpired payload names
  that user and no key is attached.\<close>

theorem resolve_principal_sound:
  assumes "resolve_principal_from_token C cfg touch_ok now token d = (Inr p, d')"
  shows "p_user p \<in> set (users d) \<and> \<not> u_disabled (p_user p) \<and> \<not> u_must_change_password (p_user p) \<and>
    (if is_api_key_token token
     then \<exists>k. p_api_key p = Some k \<and> live_key C d now token k \<and> k_user_id k = u_id (p_user p)
     else p_api_key p = None \<and>
       (\<exists>payload sub. decode_access_token C cfg now token = Some payload \<and>
          jwt_sub payload = Some sub \<and> parse_uuid sub = Inr (u_id (p_user p))))"
proof -
  from assms obtain d1 where run:
      "(if is_api_key_token token then authenticate_api_key C touch_ok now token
        else authenticate_jwt C cfg now token) d = (Inr p, d1)"
    and pw: "\<not> u_must_change_password (p_user p)"
    by (auto simp: resolve_principal_from_token_def handler_simps deps_defs
        split: prod.splits sum.splits if_splits)
  show ?thesis
  proof (cases "is_api_key_token token")
    case True
    with run authenticate_api_key_Inr [of C touch_ok now token d p d1] pw
    show ?thesis by (auto dest!: row_get_Some)
  next
    case False
    with run authenticate_jwt_Inr [of C cfg now token d p d1] pw show ?thesis by auto
  qed
qed

theorem resolve_principal_sound_witness:
  "u_id (p_user \<lparr>p_user = alice, p_api_key = Some alice_key\<rparr>) = 1 \<and> alice \<in> set (users db0)"
proof -
  have "resolve_principal_from_token ref_crypto cfg0 False 5 alice_token db0 =
      (Inr \<lparr>p_user = alice, p_api_key = Some alice_key\<rparr>, db0)"
    by (simp add: resolve_principal_from_token_def authenticate_api_key_run handler_simps deps_defs
        is_api_key_token_def API_KEY_PREFIX_def startswith_def hash_token_def ref_crypto_def
        scalar_one_or_none_def row_get_Cons alice_token_def alice_key_def)
  from resolve_principal_sound [OF this] show ?thesis by simp
qed

text \<open>With unique key hashes, an API key token is accepted exactly when a live key stored
  under its hash belongs to an existing, enabled user with no pending password change.\<close>

theorem api_key_accepted_iff:
  assumes "is_api_key_token token" and "distinct (map k_key_hash (api_keys d))"
  shows "(\<exists>p d'. resolve_principal_from_token C cfg touch_ok now token d = (Inr p, d')) \<longleftrightarrow>
    (\<exists>k u. live_key C d now token k \<and> row_get u_id (k_user_id k) (users d) = Some u \<and>
       \<not> u_disabled u \<and> \<not> u_must_change_password u)"
    (is "?acc \<longleftrightarrow> ?live")
proof
  assume ?acc
  then obtain p d' where r: "resolve_principal_from_token C cfg touch_ok now token d = (Inr p, d')"
    by blast
  then have "\<not> u_must_change_password (p_user p)"
    by (auto simp: resolve_principal_from_token_def handler_simps deps_defs
        split: prod.splits sum.splits if_splits)
  moreover from r assms(1) obtain d1 where "authenticate_api_key C touch_ok now token d = (Inr p, d1)"
    by (auto simp: resolve_principal_from_token_def handler_simps deps_defs
        split: prod.splits sum.splits if_splits)
  ultimately show ?live using authenticate_api_key_Inr by blast
next
  assume ?live
  then obtain k u where k: "live_key C d now token k" and
      u: "row_get u_id (k_user_id k) (users d) = Some u" "\<not> u_disabled u" "\<not> u_must_change_password u"
    by blast
  from k assms(2) have "scalar_one_or_none (filter (\<lambda>k. k_key_hash k = hash_token C token) (api_keys d))
      = Inr (Some k)"
    using unique_hash_filter [of "api_keys d" k] unfolding live_key_def by blast
  with k u assms(1) show ?acc
    by (auto simp: resolve_principal_from_token_def handler_simps deps_defs live_key_def
        authenticate_api_key_run split: option.splits)
qed

theorem api_key_accepted_iff_witness:
  "(\<exists>p d'. resolve_principal_from_token ref_crypto cfg0 True 5 alice_token db0 = (Inr p, d')) \<and>
   \<not> (\<exists>p d'. resolve_principal_from_token ref_crypto cfg0 True 100 alice_token db0 = (Inr p, d'))"
proof -
  have tok: "is_api_key_token alice_token" "distinct (map k_key_hash (api_keys db0))"
    by (simp_all add: is_api_key_token_def API_KEY_PREFIX_def startswith_def alice_token_def)
  have "live_key ref_crypto db0 5 alice_token alice_key"
    by (simp add: live_key_def hash_token_def ref_crypto_def alice_token_def alice_key_def)
  moreover have "row_get u_id (k_user_id alice_key) (users db0) = Some alice"
    by (simp add: row_get_Cons)
  moreover have "\<not> live_key ref_crypto db0 100 alice_token k" for k
    by (auto simp: live_key_def alice_key_def)
  ultimately show ?thesis
    unfolding api_key_accepted_iff [OF tok] using fixture_ids(5,7) by blast
qed

text \<open>\<open>require_scopes\<close> admits exactly the principals whose scopes contain every required
  one; a key's scopes are its own, a session's are those of the user's role.\<close>

theorem require_scopes_iff:
  assumes "get_current_principal C cfg touch_ok now creds d = (Inr p, d')"
  shows "require_scopes required C cfg touch_ok now creds d =
    (if set required \<subseteq>
        (case p_api_key p of Some k \<Rightarrow> set (k_scopes k) | None \<Rightarrow> set (ROLE_SCOPES (u_role (p_user p))))
     then (Inr p, d') else (Inl (HTTPException 403 ''Insufficient scope''), d'))"
  using assms
  by (auto simp: require_scopes_def principal_scopes_def handler_simps filter_empty_conv
      split: option.splits)

theorem require_scopes_iff_witness:
  "fst (require_scopes [''jobs:write''] ref_crypto cfg0 False 5 (Some (''Bearer'', alice_token)) db0)
     = Inl (HTTPException 403 ''Insufficient scope'')"
proof -
  have low: "py_lower ''Bearer'' = ''bearer''" by code_simp
  have "get_current_principal ref_crypto cfg0 False 5 (Some (''Bearer'', alice_token)) db0 =
      (Inr \<lparr>p_user = alice, p_api_key = Some alice_key\<rparr>, db0)"
    by (simp add: get_current_principal_def low resolve_principal_from_token_def
        authenticate_api_key_run handler_simps deps_defs is_api_key_token_def API_KEY_PREFIX_def
        startswith_def hash_token_def ref_crypto_def scalar_one_or_none_def row_get_Cons
        alice_token_def alice_key_def)
  from require_scopes_iff [OF this, of "[''jobs:write'']"] show ?thesis
    by (simp add: alice_key_def)
qed

text \<open>The admin guard lets through only enabled users of role admin with no pending password
  change, presented with a bearer access token that names them; an API key never passes it, and
  it never writes.\<close>

theorem get_current_admin_sound:
  assumes "get_current_admin C cfg now creds d = (Inr u, d')"
  shows "u \<in> set (users d) \<and> u_role u = RoleAdmin \<and> \<not> u_disabled u \<and> \<not> u_must_change_password u \<and>
    d' = d \<and> (\<exists>scheme token payload sub. creds = Some (scheme, token) \<and> py_lower scheme = ''bearer'' \<and>
      \<not> is_api_key_token token \<and> decode_access_token C cfg now token = Some payload \<and>
      jwt_sub payload = Some sub \<and> parse_uuid sub = Inr (u_id u))"
proof -
  from assms obtain scheme token p where
    c: "creds = Some (scheme, token)" "py_lower scheme = ''bearer''" "\<not> is_api_key_token token" and
    j: "authenticate_jwt C cfg now token d = (Inr p, d')" and
    u: "p_user p = u" "u_role u = RoleAdmin" "\<not> u_must_change_password u"
    by (auto simp: get_current_admin_def get_current_user_def get_authenticated_user_def
        handler_simps deps_defs split: prod.splits sum.splits if_splits option.splits)
  from authenticate_jwt_Inr [OF j] u c show ?thesis by auto
qed

theorem get_current_admin_sound_witness:
  "root \<in> set (users db0) \<and> u_role root = RoleAdmin"
proof -
  let ?tok = "create_access_token ref_crypto cfg0 0 2 ''admin''"
  have dec: "decode_access_token ref_crypto cfg0 5 ?tok =
      Some \<lparr>jwt_sub = Some (str_uuid 2), jwt_role = ''admin'', jwt_iat = 0, jwt_exp = seconds 900\<rparr>"
    by (simp add: ref.decode_created_token fixture_defs)
  have ne: "str_uuid 2 \<noteq> []" by (simp add: str_uuid_def Let_def)
  have "get_current_admin ref_crypto cfg0 5 (Some (''bearer'', ?tok)) db0 = (Inr root, db0)"
    using dec ne ref.access_token_not_api_key
    by (simp add: get_current_admin_def get_current_user_def get_authenticated_user_def
        authenticate_jwt_def handler_simps deps_defs py_lower_def lower_char_def
        scalar_one_or_none_def)
  from get_current_admin_sound [OF this] show ?thesis by simp
qed

text \<open>An access token minted for an enabled user authenticates that user until it expires and
  is refused with 401 from then on.\<close>

theorem access_token_roundtrip:
  assumes "crypto_laws C" and "distinct (map u_id (users d))" and "u \<in> set (users d)"
    and "\<not> u_disabled u"
  shows "authenticate_jwt C cfg t (create_access_token C cfg now (u_id u) role) d =
    (if t < now + seconds (60 * jwt_access_ttl_minutes cfg)
     then (Inr \<lparr>p_user = u, p_api_key = None\<rparr>, d) else (Inl INVALID_TOKEN, d))"
proof -
  have ne: "str_uuid (u_id u) \<noteq> []" by (simp add: str_uuid_def Let_def)
  have "scalar_one_or_none (filter (\<lambda>x. u_id x = u_id u) (users d)) = Inr (Some u)"
    using assms(2,3) row_get_distinct [of u_id "users d" u] by simp
  with ne assms(4) show ?thesis
    by (simp add: authenticate_jwt_def crypto_laws.decode_created_token [OF assms(1)]
        handler_simps deps_defs)
qed

theorem access_token_roundtrip_witness:
  "fst (authenticate_jwt ref_crypto cfg0 5 (create_access_token ref_crypto cfg0 0 1 ''user'') db0)
     = Inr \<lparr>p_user = alice, p_api_key = None\<rparr>"
proof -
  have "distinct (map u_id (users db0))" "alice \<in> set (users db0)" "\<not> u_disabled alice"
    by simp_all
  from access_token_roundtrip [OF ref.crypto_laws_axioms this, of cfg0 5 0 "''user''"]
  show ?thesis by (simp add: fixture_defs)
qed

end
