(* ===== verification/Keys.thy ===== *)
theory Keys
  imports Deps
begin

text \<open>
  \<open>api/routers/keys.py\<close>: API keys are created, listed and revoked by their owner's session.
  The plaintext is returned once; the row stores its hash and an eight-character prefix.
\<close>

section \<open>Pages of a listing\<close>

text \<open>The paging arguments every listing takes: \<open>limit\<close> in 1..100, \<open>offset\<close> at least 0.\<close>

definition valid_page :: "int \<Rightarrow> int \<Rightarrow> bool" where
  "valid_page limit offset \<longleftrightarrow> 1 \<le> limit \<and> limit \<le> 100 \<and> 0 \<le> offset"

definition page :: "int \<Rightarrow> int \<Rightarrow> 'r list \<Rightarrow> 'r list" where
  "page limit offset rows = take (nat limit) (drop (nat offset) rows)"

text \<open>\<open>order_by(column.desc())\<close>; rows that agree on the column keep their table order.\<close>

definition order_desc :: "('r \<Rightarrow> int) \<Rightarrow> 'r list \<Rightarrow> 'r list" where
  "order_desc col rows = sort_key (\<lambda>r. - col r) rows"

lemma set_order_desc [simp]: "set (order_desc col rows) = set rows"
  by (simp add: order_desc_def)

lemma length_order_desc [simp]: "length (order_desc col rows) = length rows"
  by (simp add: order_desc_def)

lemma sorted_order_desc: "sorted (map (\<lambda>r. - col r) (order_desc col rows))"
  by (simp add: order_desc_def)

lemma length_page: "length (page limit offset rows) \<le> nat limit"
  by (simp add: page_def)

lemma set_page: "set (page limit offset rows) \<subseteq> set rows"
  by (auto simp: page_def dest: in_set_takeD in_set_dropD)

lemma sorted_page: "sorted (map f rows) \<Longrightarrow> sorted (map f (page limit offset rows))"
  by (simp add: page_def take_map [symmetric] drop_map [symmetric] sorted_wrt_take sorted_wrt_drop)

record 'a listing =
  l_items :: "'a list"
  l_total :: int
  l_limit :: int
  l_offset :: int

text \<open>The rows a filter selected, newest first, one page of them rendered; the total counts all.\<close>

definition listing_of :: "('r \<Rightarrow> int) \<Rightarrow> ('r \<Rightarrow> 'a) \<Rightarrow> int \<Rightarrow> int \<Rightarrow> 'r list \<Rightarrow> 'a listing" where
  "listing_of col render limit offset rows =
     \<lparr>l_items = map render (page limit offset (order_desc col rows)), l_total = int (length rows),
      l_limit = limit, l_offset = offset\<rparr>"

lemma listing_of_simps [simp]:
  "length (l_items (listing_of col render limit offset rows)) \<le> nat limit"
  "l_total (listing_of col render limit offset rows) = int (length rows)"
  by (simp_all add: listing_of_def length_page)

section \<open>Requests and responses\<close>

record create_api_key_request =
  ck_name :: string
  ck_scopes :: "string list"
  ck_expires_at :: "time option"

definition validate_scopes :: "string list \<Rightarrow> exn + string list" where
  "validate_scopes scopes =
     (let unknown = filter (\<lambda>s. s \<notin> set VALID_SCOPES) scopes in
      if unknown \<noteq> [] then Inl (ValidationError (''Unknown scopes: '' @ py_join '', '' unknown))
      else if length scopes \<noteq> length (remdups scopes)
      then Inl (ValidationError ''Duplicate scopes are not allowed'')
      else Inr scopes)"

definition validate_create_api_key :: "create_api_key_request \<Rightarrow> exn + create_api_key_request" where
  "validate_create_api_key body =
     (if length (ck_name body) < 1 \<or> 128 < length (ck_name body) then Inl (ValidationError ''name'')
      else if length (ck_scopes body) < 1 then Inl (ValidationError ''scopes'')
      else (case validate_scopes (ck_scopes body) of Inl e \<Rightarrow> Inl e | Inr _ \<Rightarrow> Inr body))"

record api_key_response =
  kr_id :: uuid
  kr_name :: string
  kr_prefix :: string
  kr_scopes :: "string list"
  kr_rate_limit_tier :: string
  kr_expires_at :: "time option"
  kr_revoked :: bool
  kr_last_used_at :: "time option"
  kr_created_at :: time

text \<open>With the plaintext, shown this once.\<close>

type_synonym api_key_created_response = "api_key_response \<times> string"

definition to_key_response :: "api_key \<Rightarrow> api_key_response" where
  "to_key_response k = \<lparr>kr_id = k_id k, kr_name = k_name k, kr_prefix = k_prefix k,
     kr_scopes = k_scopes k, kr_rate_limit_tier = k_rate_limit_tier k,
     kr_expires_at = k_expires_at k, kr_revoked = k_revoked k,
     kr_last_used_at = k_last_used_at k, kr_created_at = k_created_at k\<rparr>"

section \<open>Routes\<close>

text \<open>
  The insert is refused by the unique index on \<open>key_hash\<close>.  \<open>random\<close> is the token drawn,
  \<open>key_id\<close> the row's UUID; the result is the response and the plaintext shown once.
\<close>

definition create_api_key ::
  "crypto \<Rightarrow> string \<Rightarrow> uuid \<Rightarrow> time \<Rightarrow> user \<Rightarrow> create_api_key_request \<Rightarrow>
   (db, api_key_created_response) handler" where
  "create_api_key C random key_id now u body =
     bindE (liftE (\<lambda>_. validate_create_api_key body)) (\<lambda>_.
     if \<not> scopes_allowed_for_role (u_role u) (ck_scopes body)
     then raiseE (HTTPException 403 ''Requested scopes exceed your role'')
     else (let (plaintext, key_hash, prefix) = generate_api_key C random;
               row = \<lparr>k_id = key_id, k_user_id = u_id u, k_name = ck_name body,
                 k_key_hash = key_hash, k_prefix = prefix, k_scopes = ck_scopes body,
                 k_rate_limit_tier = ''standard'', k_expires_at = ck_expires_at body,
                 k_revoked = False, k_last_used_at = None, k_created_at = now\<rparr>
           in bindE (getsE (\<lambda>d. key_hash \<in> k_key_hash ` set (api_keys d))) (\<lambda>taken.
              if taken then raiseE (OtherException ''IntegrityError'')
              else bindE (modifyE (api_keys_update (\<lambda>t. t @ [row]))) (\<lambda>_.
                returnE (to_key_response row, plaintext)))))"

definition list_api_keys :: "user \<Rightarrow> (db, api_key_response list) handler" where
  "list_api_keys u = getsE (\<lambda>d. map to_key_response
     (order_desc k_created_at (filter (\<lambda>k. k_user_id k = u_id u) (api_keys d))))"

definition revoke_api_key :: "user \<Rightarrow> uuid \<Rightarrow> (db, unit) handler" where
  "revoke_api_key u key_id =
     bindE (liftE (\<lambda>d. scalar_one_or_none
       (filter (\<lambda>k. k_id k = key_id \<and> k_user_id k = u_id u) (api_keys d)))) (\<lambda>found.
     case found of
       None \<Rightarrow> raiseE (HTTPException 404 ''API key not found'')
     | Some k \<Rightarrow> modifyE (api_keys_update (row_put k_id (k\<lparr>k_revoked := True\<rparr>))))"

section \<open>Facts\<close>

lemma validate_scopes_Inr:
  "validate_scopes ss = Inr r \<longleftrightarrow> r = ss \<and> set ss \<subseteq> set VALID_SCOPES \<and> distinct ss"
proof -
  have "length ss = length (remdups ss) \<longleftrightarrow> distinct ss"
    by (metis length_remdups_card_conv card_distinct distinct_card)
  then show ?thesis by (auto simp: validate_scopes_def Let_def filter_empty_conv)
qed

lemma create_api_key_Inr:
  assumes "create_api_key C random key_id now u body d = (Inr r, d')"
  shows "\<exists>k. d' = api_keys_update (\<lambda>t. t @ [k]) d \<and> k_id k = key_id \<and> k_user_id k = u_id u \<and>
     k_scopes k = ck_scopes body \<and> set (ck_scopes body) \<subseteq> set (ROLE_SCOPES (u_role u)) \<and>
     distinct (ck_scopes body) \<and> ck_scopes body \<noteq> [] \<and> \<not> k_revoked k \<and>
     k_key_hash k = hash_token C (snd r) \<and> k_key_hash k \<notin> k_key_hash ` set (api_keys d) \<and>
     snd r = API_KEY_PREFIX @ random \<and> k_expires_at k = ck_expires_at body"
  using assms
  by (auto simp: create_api_key_def handler_simps generate_api_key_def Let_def
      validate_create_api_key_def validate_scopes_Inr scopes_allowed_iff
      split: sum.splits if_splits)

lemma create_api_key_Inl:
  "create_api_key C random key_id now u body d = (Inl e, d') \<Longrightarrow> d' = d"
  by (auto simp: create_api_key_def handler_simps generate_api_key_def Let_def
      split: sum.splits if_splits)

lemma revoke_api_key_Inr:
  assumes "revoke_api_key u key_id d = (Inr r, d')"
  shows "\<exists>k. k \<in> set (api_keys d) \<and> k_id k = key_id \<and> k_user_id k = u_id u \<and>
     d' = api_keys_update (row_put k_id (k\<lparr>k_revoked := True\<rparr>)) d"
  using assms
  by (auto simp: revoke_api_key_def handler_simps dest!: scalar_one_filterD
      split: sum.splits option.splits)

lemma revoke_api_key_Inl: "revoke_api_key u key_id d = (Inl e, d') \<Longrightarrow> d' = d"
  by (auto simp: revoke_api_key_def handler_simps split: sum.splits option.splits)

section \<open>Properties\<close>

text \<open>C36: the plaintext returned by key creation authenticates, from then on and until the key
  expires, as the creating user with exactly the requested scopes.\<close>

theorem created_key_authenticates:
  assumes "create_api_key C random key_id now u body d = (Inr (resp, plaintext), d')"
    and "row_get u_id (u_id u) (users d) = Some u"
    and "\<not> u_disabled u" and "\<not> u_must_change_password u"
    and "case ck_expires_at body of None \<Rightarrow> True | Some e \<Rightarrow> later < e"
  shows "\<exists>p d''. resolve_principal_from_token C cfg touch_ok later plaintext d' = (Inr p, d'') \<and>
     p_user p = u \<and> principal_scopes p = ck_scopes body"
proof -
  from create_api_key_Inr [OF assms(1)] obtain k where
    d': "d' = api_keys_update (\<lambda>t. t @ [k]) d" and
    k: "k_user_id k = u_id u" "k_scopes k = ck_scopes body" "\<not> k_revoked k"
       "k_key_hash k = hash_token C plaintext" "k_key_hash k \<notin> k_key_hash ` set (api_keys d)"
       "plaintext = API_KEY_PREFIX @ random" "k_expires_at k = ck_expires_at body"
    by auto
  from k have api: "is_api_key_token plaintext" by (simp add: is_api_key_token_def)
  have none: "filter (\<lambda>k. k_key_hash k = hash_token C plaintext) (api_keys d) = []"
    using k by (force simp: filter_empty_conv)
  have "authenticate_api_key C touch_ok later plaintext d' =
      (Inr \<lparr>p_user = u, p_api_key = Some k\<rparr>, snd (touch_api_key_last_used touch_ok later (k_id k) d'))"
    using d' k none assms
    by (simp add: authenticate_api_key_run scalar_one_or_none_def split: option.splits)
  with api k assms show ?thesis
    by (auto simp: resolve_principal_from_token_def handler_simps deps_defs principal_scopes_def)
qed

theorem created_key_authenticates_witness:
  "\<exists>p d' d''. create_api_key ref_crypto ''Zz'' 11 0 alice
       \<lparr>ck_name = ''k'', ck_scopes = [''jobs:write''], ck_expires_at = Some 50\<rparr> db0 = (Inr p, d') \<and>
     (\<exists>q. resolve_principal_from_token ref_crypto cfg0 True 49 (snd p) d' = (Inr q, d'') \<and>
       principal_scopes q = [''jobs:write''])"
proof -
  obtain p d' where run: "create_api_key ref_crypto ''Zz'' 11 0 alice
       \<lparr>ck_name = ''k'', ck_scopes = [''jobs:write''], ck_expires_at = Some 50\<rparr> db0 = (Inr p, d')"
    by (simp add: create_api_key_def handler_simps validate_create_api_key_def validate_scopes_def
        scopes_allowed_for_role_def VALID_SCOPES_def generate_api_key_def API_KEY_PREFIX_def
        hash_token_def ref_crypto_def alice_key_def Let_def)
  obtain resp plain where p: "p = (resp, plain)" by (cases p)
  have "row_get u_id (u_id alice) (users db0) = Some alice" by (simp add: row_get_Cons)
  from created_key_authenticates [OF run [unfolded p] this, of 49 cfg0 True] run p
  show ?thesis by auto
qed

text \<open>Once its owner has revoked a key, no token that hashes to it resolves to a principal,
  whatever the clock says; every other key and every other table is unchanged.\<close>

theorem revoked_key_rejected:
  assumes "revoke_api_key u key_id d = (Inr r, d')"
    and "distinct (map k_id (api_keys d))" and "distinct (map k_key_hash (api_keys d))"
    and "row_get k_id key_id (api_keys d) = Some k" and "hash_token C token = k_key_hash k"
    and "is_api_key_token token"
  shows "fst (resolve_principal_from_token C cfg touch_ok later token d') = Inl INVALID_API_KEY \<and>
     (\<forall>i. i \<noteq> key_id \<longrightarrow> row_get k_id i (api_keys d') = row_get k_id i (api_keys d)) \<and>
     d' = d\<lparr>api_keys := api_keys d'\<rparr>"
proof -
  from revoke_api_key_Inr [OF assms(1)] obtain k' where
    k': "k' \<in> set (api_keys d)" "k_id k' = key_id" and
    d': "d' = api_keys_update (row_put k_id (k'\<lparr>k_revoked := True\<rparr>)) d" by blast
  have eq: "k' = k" using row_get_distinct [OF assms(2) k'(1)] k'(2) assms(4) by simp
  let ?t = "row_put k_id (k\<lparr>k_revoked := True\<rparr>) (api_keys d)"
  have hashes: "map k_key_hash ?t = map k_key_hash (api_keys d)"
    using assms(2) k' eq by (auto intro!: row_put_map [where ?r0.0 = k])
  have "k\<lparr>k_revoked := True\<rparr> \<in> set ?t"
    using k' eq by (auto intro: row_put_mem)
  with assms(3,5) hashes have
    "scalar_one_or_none (filter (\<lambda>k. k_key_hash k = hash_token C token) ?t) = Inr (Some (k\<lparr>k_revoked := True\<rparr>))"
    by (intro unique_hash_filter) auto
  then have "fst (authenticate_api_key C touch_ok later token d') = Inl INVALID_API_KEY"
    by (simp add: d' eq authenticate_api_key_run)
  with assms(6) show ?thesis
    using k'(2) eq d'
    by (auto simp: resolve_principal_from_token_def handler_simps split: prod.splits)
qed

theorem revoked_key_rejected_witness:
  "fst (resolve_principal_from_token ref_crypto cfg0 True 5 alice_token
     (snd (revoke_api_key alice 10 db0))) = Inl INVALID_API_KEY"
proof -
  obtain r d' where run: "revoke_api_key alice 10 db0 = (Inr r, d')"
    by (simp add: revoke_api_key_def handler_simps alice_key_def scalar_one_or_none_def)
  have h: "distinct (map k_id (api_keys db0))" "distinct (map k_key_hash (api_keys db0))"
    "row_get k_id 10 (api_keys db0) = Some alice_key"
    "hash_token ref_crypto alice_token = k_key_hash alice_key" "is_api_key_token alice_token"
    by (simp_all add: row_get_Cons hash_token_def ref_crypto_def alice_token_def alice_key_def
        is_api_key_token_def API_KEY_PREFIX_def startswith_def)
  from revoked_key_rejected [OF run h, of cfg0 True 5] run show ?thesis by simp
qed

end
