(* ===== verification/Auth.thy ===== *)
theory Auth
  imports Deps
begin

text \<open>
  \<open>api/routers/auth.py\<close>: login, refresh-token rotation with reuse detection, logout and
  password change.  The state of these handlers is the database and the cookie written to the
  response.  A cookie written before an exception is raised never reaches the client (the
  framework builds a new response for the exception), so only successful runs deliver it.
  Drawn values are arguments: the new token, its row's UUID and, at login, the family's.
\<close>

section \<open>State\<close>

text \<open>The attributes of the cookie, and what a response does with it: nothing, set it to a token for a
  number of seconds, or delete it.\<close>

record cookie_kwargs =
  co_key :: string
  co_httponly :: bool
  co_secure :: bool
  co_samesite :: string
  co_path :: string

datatype cookie_action = NoCookie | SetCookie string int cookie_kwargs | ClearCookie cookie_kwargs

record auth_state =
  a_db :: db
  a_cookie :: cookie_action

record draw =
  d_token :: string
  d_row_id :: uuid
  d_family :: uuid

definition INVALID_CREDENTIALS :: exn where
  "INVALID_CREDENTIALS = HTTPException 401 ''Invalid email or password''"

definition INVALID_REFRESH :: exn where
  "INVALID_REFRESH = HTTPException 401 ''Invalid or expired refresh token''"

abbreviation on_db :: "(db \<Rightarrow> db) \<Rightarrow> (auth_state, unit) handler" where
  "on_db f \<equiv> modifyE (a_db_update f)"

abbreviation query :: "(db \<Rightarrow> 'a) \<Rightarrow> (auth_state, 'a) handler" where
  "query f \<equiv> getsE (\<lambda>s. f (a_db s))"

abbreviation queryX :: "(db \<Rightarrow> exn + 'a) \<Rightarrow> (auth_state, 'a) handler" where
  "queryX f \<equiv> liftE (\<lambda>s. f (a_db s))"

section \<open>Helpers\<close>

definition REFRESH_COOKIE :: string where
  "REFRESH_COOKIE = ''refresh_token''"

definition refresh_cookie_kwargs :: "settings \<Rightarrow> cookie_kwargs" where
  "refresh_cookie_kwargs cfg = \<lparr>co_key = REFRESH_COOKIE, co_httponly = True, co_secure = (environment cfg \<noteq> ''dev''),
     co_samesite = ''strict'', co_path = ''/api/v1/auth''\<rparr>"

definition set_refresh_cookie :: "settings \<Rightarrow> string \<Rightarrow> (auth_state, unit) handler" where
  "set_refresh_cookie cfg token =
     modifyE (a_cookie_update (\<lambda>_. SetCookie token (jwt_refresh_ttl_days cfg * 24 * 60 * 60)
        (refresh_cookie_kwargs cfg)))"

definition clear_refresh_cookie :: "settings \<Rightarrow> (auth_state, unit) handler" where
  "clear_refresh_cookie cfg = modifyE (a_cookie_update (\<lambda>_. ClearCookie (refresh_cookie_kwargs cfg)))"

definition get_user_by_email :: "string \<Rightarrow> db \<Rightarrow> exn + user option" where
  "get_user_by_email email d =
     scalar_one_or_none (filter (\<lambda>u. u_email u = py_lower email) (users d))"

definition get_refresh_token_row :: "crypto \<Rightarrow> string \<Rightarrow> db \<Rightarrow> exn + refresh_token option" where
  "get_refresh_token_row C token d =
     scalar_one_or_none (filter (\<lambda>r. rt_token_hash r = hash_token C token) (refresh_tokens d))"

definition revoke_all_refresh_families :: "uuid \<Rightarrow> db \<Rightarrow> db" where
  "revoke_all_refresh_families user_id =
     refresh_tokens_update (rows_update (\<lambda>r. rt_user_id r = user_id) (\<lambda>r. r\<lparr>rt_revoked := True\<rparr>))"

definition revoke_token_family :: "uuid \<Rightarrow> db \<Rightarrow> db" where
  "revoke_token_family family_id =
     refresh_tokens_update (rows_update (\<lambda>r. rt_family_id r = family_id) (\<lambda>r. r\<lparr>rt_revoked := True\<rparr>))"

text \<open>\<open>_issue_refresh_token\<close>: the unique index on \<open>token_hash\<close> refuses a duplicate at the flush.\<close>

definition issue_refresh_token ::
  "crypto \<Rightarrow> settings \<Rightarrow> time \<Rightarrow> draw \<Rightarrow> user \<Rightarrow> uuid option \<Rightarrow> (auth_state, string) handler" where
  "issue_refresh_token C cfg now rnd u family_id =
     bindE (query (\<lambda>d. hash_token C (d_token rnd) \<in> rt_token_hash ` set (refresh_tokens d))) (\<lambda>taken.
     if taken then raiseE (OtherException ''IntegrityError'')
     else bindE (on_db (refresh_tokens_update (\<lambda>t. t @
         [\<lparr>rt_id = d_row_id rnd, rt_user_id = u_id u, rt_token_hash = hash_token C (d_token rnd),
           rt_family_id = (case family_id of Some f \<Rightarrow> f | None \<Rightarrow> d_family rnd),
           rt_expires_at = refresh_token_expires_at cfg now, rt_revoked = False\<rparr>]))) (\<lambda>_.
       returnE (d_token rnd)))"

section \<open>Routes\<close>

definition login ::
  "crypto \<Rightarrow> settings \<Rightarrow> string \<Rightarrow> time \<Rightarrow> draw \<Rightarrow> string \<Rightarrow> string \<Rightarrow> (auth_state, string) handler" where
  "login C cfg dummy_hash now rnd email password =
     bindE (queryX (get_user_by_email (py_lower email))) (\<lambda>found.
     case found of
       None \<Rightarrow>
         bindE (liftE (\<lambda>_. verify_password_constant_time C dummy_hash password None)) (\<lambda>_.
         raiseE INVALID_CREDENTIALS)
     | Some u \<Rightarrow>
         if u_disabled u then
           bindE (liftE (\<lambda>_. verify_password_constant_time C dummy_hash password
              (Some (u_password_hash u)))) (\<lambda>_.
           raiseE INVALID_CREDENTIALS)
         else
           bindE (liftE (\<lambda>_. verify_password_constant_time C dummy_hash password
              (Some (u_password_hash u)))) (\<lambda>ok.
           if \<not> ok then raiseE INVALID_CREDENTIALS
           else (let access_token = create_access_token C cfg now (u_id u) (user_role_value (u_role u))
             in bindE (issue_refresh_token C cfg now rnd u None) (\<lambda>refresh_token.
                bindE (set_refresh_cookie cfg refresh_token) (\<lambda>_.
                returnE access_token)))))"

text \<open>
  \<open>refresh_session\<close> in two parts: the look-up of the presented token's row, and what is done
  with the row read.  Under concurrent requests the second part runs on a row that may have
  changed in the database since.
\<close>

definition refresh_with_row ::
  "crypto \<Rightarrow> settings \<Rightarrow> time \<Rightarrow> draw \<Rightarrow> refresh_token \<Rightarrow> (auth_state, string) handler" where
  "refresh_with_row C cfg now rnd row =
     (if rt_revoked row then
        bindE (on_db (revoke_token_family (rt_family_id row))) (\<lambda>_.
        bindE (clear_refresh_cookie cfg) (\<lambda>_.
        raiseE INVALID_REFRESH))
      else if rt_expires_at row \<le> now then
        bindE (on_db (refresh_tokens_update (row_put rt_id (row\<lparr>rt_revoked := True\<rparr>)))) (\<lambda>_.
        bindE (clear_refresh_cookie cfg) (\<lambda>_.
        raiseE INVALID_REFRESH))
      else bindE (query (\<lambda>d. row_get u_id (rt_user_id row) (users d))) (\<lambda>owner.
        case owner of
          None \<Rightarrow>
            bindE (on_db (revoke_token_family (rt_family_id row))) (\<lambda>_.
            bindE (clear_refresh_cookie cfg) (\<lambda>_.
            raiseE INVALID_REFRESH))
        | Some u \<Rightarrow>
            bindE (atomicE
              (bindE (on_db (refresh_tokens_update (row_put rt_id (row\<lparr>rt_revoked := True\<rparr>)))) (\<lambda>_.
               issue_refresh_token C cfg now rnd u (Some (rt_family_id row))))) (\<lambda>new_token.
            let access_token = create_access_token C cfg now (u_id u) (user_role_value (u_role u))
            in bindE (set_refresh_cookie cfg new_token) (\<lambda>_. returnE access_token))))"

definition refresh_session ::
  "crypto \<Rightarrow> settings \<Rightarrow> time \<Rightarrow> draw \<Rightarrow> string option \<Rightarrow> (auth_state, string) handler" where
  "refresh_session C cfg now rnd cookie =
     (case cookie of
        None \<Rightarrow> raiseE INVALID_REFRESH
      | Some plain_token \<Rightarrow>
          if plain_token = [] then raiseE INVALID_REFRESH
          else bindE (queryX (get_refresh_token_row C plain_token)) (\<lambda>found.
            case found of
              None \<Rightarrow> raiseE INVALID_REFRESH
            | Some row \<Rightarrow> refresh_with_row C cfg now rnd row))"

definition logout :: "crypto \<Rightarrow> settings \<Rightarrow> string option \<Rightarrow> (auth_state, unit) handler" where
  "logout C cfg cookie =
     bindE (case cookie of
         None \<Rightarrow> returnE ()
       | Some plain_token \<Rightarrow>
           if plain_token = [] then returnE ()
           else bindE (queryX (get_refresh_token_row C plain_token)) (\<lambda>found.
             case found of
               None \<Rightarrow> returnE ()
             | Some row \<Rightarrow> on_db (revoke_token_family (rt_family_id row)))) (\<lambda>_.
     clear_refresh_cookie cfg)"

text \<open>\<open>ChangePasswordRequest\<close> asks for at least twelve characters.\<close>

definition change_password ::
  "crypto \<Rightarrow> string \<Rightarrow> user \<Rightarrow> string \<Rightarrow> string \<Rightarrow> (auth_state, unit) handler" where
  "change_password C salt u old_password new_password =
     (if length new_password < 12 then raiseE (ValidationError ''new_password'')
      else bindE (liftE (\<lambda>_. verify_password C old_password (u_password_hash u))) (\<lambda>ok.
        if \<not> ok then raiseE (HTTPException 401 ''Invalid current password'')
        else bindE (on_db (users_update (row_put u_id
               (u\<lparr>u_password_hash := hash_password C salt new_password,
                  u_must_change_password := False\<rparr>)))) (\<lambda>_.
             on_db (revoke_all_refresh_families (u_id u)))))"

section \<open>Live refresh tokens\<close>

definition live_of :: "uuid \<Rightarrow> refresh_token list \<Rightarrow> refresh_token list" where
  "live_of fam ts = filter (\<lambda>r. rt_family_id r = fam \<and> \<not> rt_revoked r) ts"

abbreviation live_tokens :: "uuid \<Rightarrow> db \<Rightarrow> refresh_token list" where
  "live_tokens fam d \<equiv> live_of fam (refresh_tokens d)"

abbreviation revoke :: "refresh_token \<Rightarrow> refresh_token" where
  "revoke r \<equiv> r\<lparr>rt_revoked := True\<rparr>"

text \<open>The invariant of rotation: row ids and hashes are unique, a family has at most one token
  that is not revoked, and all its tokens belong to one user.\<close>

definition owners_agree :: "refresh_token list \<Rightarrow> bool" where
  "owners_agree ts \<longleftrightarrow>
     (\<forall>r \<in> set ts. \<forall>r' \<in> set ts. rt_family_id r = rt_family_id r' \<longrightarrow> rt_user_id r = rt_user_id r')"

definition families_ok :: "refresh_token list \<Rightarrow> bool" where
  "families_ok ts \<longleftrightarrow>
     distinct (map rt_id ts) \<and> distinct (map rt_token_hash ts) \<and>
     (\<forall>fam. length (live_of fam ts) \<le> 1) \<and> owners_agree ts"

lemma owners_agreeD:
  "owners_agree ts \<Longrightarrow> r \<in> set ts \<Longrightarrow> r' \<in> set ts \<Longrightarrow> rt_family_id r = rt_family_id r' \<Longrightarrow>
   rt_user_id r = rt_user_id r'"
  unfolding owners_agree_def by blast

lemma owners_agree_revoke: "owners_agree ts \<Longrightarrow> owners_agree (rows_update P revoke ts)"
proof -
  assume ok: "owners_agree ts"
  have origin: "\<exists>y \<in> set ts. rt_family_id r = rt_family_id y \<and> rt_user_id r = rt_user_id y"
    if "r \<in> set (rows_update P revoke ts)" for r
    using that by (auto simp: set_rows_update)
  show ?thesis unfolding owners_agree_def
  proof (intro ballI impI)
    fix r r' assume r: "r \<in> set (rows_update P revoke ts)" "r' \<in> set (rows_update P revoke ts)"
      and fam: "rt_family_id r = rt_family_id r'"
    obtain y where y: "y \<in> set ts" "rt_family_id r = rt_family_id y" "rt_user_id r = rt_user_id y"
      using origin [OF r(1)] by blast
    obtain y' where y': "y' \<in> set ts" "rt_family_id r' = rt_family_id y'" "rt_user_id r' = rt_user_id y'"
      using origin [OF r(2)] by blast
    have "rt_user_id y = rt_user_id y'"
      using owners_agreeD [OF ok y(1) y'(1)] y(2) y'(2) fam by argo
    with y(3) y'(3) show "rt_user_id r = rt_user_id r'" by argo
  qed
qed

lemma owners_agree_add:
  assumes "owners_agree ts" and "\<And>x. x \<in> set ts \<Longrightarrow> rt_family_id x = rt_family_id r \<Longrightarrow> rt_user_id x = rt_user_id r"
  shows "owners_agree (ts @ [r])"
  unfolding owners_agree_def
proof (intro ballI impI)
  fix x y assume "x \<in> set (ts @ [r])" "y \<in> set (ts @ [r])" and fam: "rt_family_id x = rt_family_id y"
  then consider "x \<in> set ts" "y \<in> set ts" | "x = r" "y \<in> set ts" | "y = r" "x \<in> set ts" | "x = r" "y = r"
    by auto
  then show "rt_user_id x = rt_user_id y"
  proof cases
    case 1
    then show ?thesis using owners_agreeD [OF assms(1)] fam by blast
  next
    case 2
    then show ?thesis using assms(2) [of y] fam by argo
  next
    case 3
    then show ?thesis using assms(2) [of x] fam by argo
  qed simp
qed

lemma live_of_append [simp]: "live_of fam (ts @ us) = live_of fam ts @ live_of fam us"
  by (simp add: live_of_def)

lemma live_of_rows_update:
  "live_of fam (rows_update P revoke ts) = filter (\<lambda>r. \<not> P r) (live_of fam ts)"
  by (induction ts) (auto simp: live_of_def rows_update_def)

lemma live_of_revoke_family:
  "live_of fam (rows_update (\<lambda>r. rt_family_id r = f) revoke ts) = (if fam = f then [] else live_of fam ts)"
  by (induction ts) (auto simp: live_of_def rows_update_def)

lemma families_ok_revoke:
  assumes "families_ok ts"
  shows "families_ok (rows_update P revoke ts)"
proof -
  have "map rt_id (rows_update P revoke ts) = map rt_id ts"
       "map rt_token_hash (rows_update P revoke ts) = map rt_token_hash ts"
    by (auto simp: rows_update_def)
  moreover have "length (live_of fam (rows_update P revoke ts)) \<le> 1" for fam
    using assms length_filter_le [of "\<lambda>r. \<not> P r" "live_of fam ts"]
    by (metis families_ok_def le_trans live_of_rows_update)
  ultimately show ?thesis
    using assms owners_agree_revoke by (simp add: families_ok_def)
qed

lemma families_ok_add:
  assumes "families_ok ts" and "rt_id r \<notin> rt_id ` set ts" and "rt_token_hash r \<notin> rt_token_hash ` set ts"
    and "live_of (rt_family_id r) ts = []"
    and "\<And>x. x \<in> set ts \<Longrightarrow> rt_family_id x = rt_family_id r \<Longrightarrow> rt_user_id x = rt_user_id r"
  shows "families_ok (ts @ [r])"
proof -
  have "length (live_of fam (ts @ [r])) \<le> 1" for fam
  proof (cases "fam = rt_family_id r")
    case True
    with assms(4) show ?thesis by (simp add: live_of_def)
  next
    case False
    with assms(1) show ?thesis by (simp add: families_ok_def live_of_def)
  qed
  moreover have "owners_agree (ts @ [r])"
    using assms(1,5) by (auto simp: families_ok_def intro: owners_agree_add)
  ultimately show ?thesis
    using assms(1-3) by (simp add: families_ok_def)
qed

text \<open>A live row is the only live token of its family, so revoking it empties the family.\<close>

lemma live_row_only:
  assumes "families_ok ts" and "row \<in> set ts" and "\<not> rt_revoked row"
  shows "live_of (rt_family_id row) ts = [row]"
proof -
  have "row \<in> set (live_of (rt_family_id row) ts)" using assms(2,3) by (simp add: live_of_def)
  moreover have "length (live_of (rt_family_id row) ts) \<le> 1" using assms(1) by (simp add: families_ok_def)
  ultimately show ?thesis by (cases "live_of (rt_family_id row) ts") auto
qed

lemma live_of_rotated:
  assumes "families_ok ts" and "row \<in> set ts" and "\<not> rt_revoked row"
  shows "live_of fam (row_put rt_id (revoke row) ts) =
     (if fam = rt_family_id row then [] else live_of fam ts)"
proof -
  have d: "distinct (map rt_id ts)" using assms(1) by (simp add: families_ok_def)
  have put: "row_put rt_id (revoke row) ts = rows_update (\<lambda>r. rt_id r = rt_id row) revoke ts"
    using row_put_rows_update [of rt_id ts row revoke] d assms(2) by simp
  have other: "rt_id r \<noteq> rt_id row" if "r \<in> set (live_of fam ts)" "fam \<noteq> rt_family_id row" for r
    using that same_key_same_row [OF d _ assms(2)] by (auto simp: live_of_def)
  show ?thesis
    using other live_row_only [OF assms] by (auto simp: put live_of_rows_update filter_id_conv)
qed

section \<open>What the handlers do to the token table\<close>

abbreviation tokens :: "auth_state \<Rightarrow> refresh_token list" where
  "tokens s \<equiv> refresh_tokens (a_db s)"

text \<open>A drawn row id and family are new: \<open>uuid4\<close> does not repeat.\<close>

definition fresh_draw :: "draw \<Rightarrow> refresh_token list \<Rightarrow> bool" where
  "fresh_draw rnd ts \<longleftrightarrow> d_row_id rnd \<notin> rt_id ` set ts \<and> d_family rnd \<notin> rt_family_id ` set ts"

definition new_row :: "crypto \<Rightarrow> settings \<Rightarrow> time \<Rightarrow> draw \<Rightarrow> uuid \<Rightarrow> uuid \<Rightarrow> refresh_token" where
  "new_row C cfg now rnd user_id fam =
     \<lparr>rt_id = d_row_id rnd, rt_user_id = user_id, rt_token_hash = hash_token C (d_token rnd),
      rt_family_id = fam, rt_expires_at = refresh_token_expires_at cfg now, rt_revoked = False\<rparr>"

lemma issue_refresh_token_run:
  "issue_refresh_token C cfg now rnd u fo s =
     (if hash_token C (d_token rnd) \<in> rt_token_hash ` set (tokens s)
      then (Inl (OtherException ''IntegrityError''), s)
      else (Inr (d_token rnd), a_db_update (refresh_tokens_update (\<lambda>t. t @
        [new_row C cfg now rnd (u_id u) (case fo of Some f \<Rightarrow> f | None \<Rightarrow> d_family rnd)])) s))"
  by (simp add: issue_refresh_token_def handler_simps new_row_def)

lemma refresh_with_row_dead:
  assumes "rt_revoked row"
  shows "refresh_with_row C cfg now rnd row s =
     (Inl INVALID_REFRESH, s\<lparr>a_db := revoke_token_family (rt_family_id row) (a_db s), a_cookie := ClearCookie (refresh_cookie_kwargs cfg)\<rparr>)"
  using assms by (simp add: refresh_with_row_def handler_simps clear_refresh_cookie_def)

lemma put_row_hashes:
  "distinct (map rt_id ts) \<Longrightarrow> row \<in> set ts \<Longrightarrow>
   rt_token_hash ` set (row_put rt_id (revoke row) ts) = rt_token_hash ` set ts"
  using row_put_map [of rt_id ts row "revoke row" rt_token_hash]
  by (metis image_set refresh_token.select_convs(1) refresh_token.select_convs(3)
      refresh_token.surjective refresh_token.update_convs(6))

lemma refresh_with_row_live:
  assumes "\<not> rt_revoked row" and "now < rt_expires_at row"
    and "row_get u_id (rt_user_id row) (users (a_db s)) = Some u"
    and "distinct (map rt_id (tokens s))" and "row \<in> set (tokens s)"
    and "hash_token C (d_token rnd) \<notin> rt_token_hash ` set (tokens s)"
  shows "\<exists>s'. refresh_with_row C cfg now rnd row s =
       (Inr (create_access_token C cfg now (u_id u) (user_role_value (u_role u))), s') \<and>
     tokens s' = row_put rt_id (revoke row) (tokens s) @ [new_row C cfg now rnd (u_id u) (rt_family_id row)] \<and>
     a_db s' = (a_db s)\<lparr>refresh_tokens := tokens s'\<rparr> \<and>
     a_cookie s' = SetCookie (d_token rnd) (jwt_refresh_ttl_days cfg * 24 * 60 * 60) (refresh_cookie_kwargs cfg)"
  using assms put_row_hashes [OF assms(4,5)]
  by (simp add: refresh_with_row_def handler_simps issue_refresh_token_run set_refresh_cookie_def Let_def)

lemma refresh_row_user:
  "row_get u_id i us = Some u \<Longrightarrow> u_id u = i"
  by (auto dest: row_get_Some)

text \<open>Every branch of the second half keeps the invariant, when the row read is current.\<close>

text \<open>A rotation replaces the live token of a family by its successor.\<close>

lemma rotation_families:
  assumes ok: "families_ok (tokens s)" and mem: "row \<in> set (tokens s)" and fresh: "fresh_draw rnd (tokens s)"
    and live: "\<not> rt_revoked row" "row_get u_id (rt_user_id row) (users (a_db s)) = Some u"
      "hash_token C (d_token rnd) \<notin> rt_token_hash ` set (tokens s)"
  shows "families_ok (row_put rt_id (revoke row) (tokens s) @ [new_row C cfg now rnd (u_id u) (rt_family_id row)])"
proof (rule families_ok_add)
  let ?ts = "row_put rt_id (revoke row) (tokens s)" and ?new = "new_row C cfg now rnd (u_id u) (rt_family_id row)"
  have dist: "distinct (map rt_id (tokens s))" using ok by (simp add: families_ok_def)
  have put: "?ts = rows_update (\<lambda>r. rt_id r = rt_id row) revoke (tokens s)"
    using row_put_rows_update [of rt_id "tokens s" row revoke] dist mem by simp
  show "families_ok ?ts" by (simp add: put families_ok_revoke ok)
  have "rt_id ` set ?ts = rt_id ` set (tokens s)" by (metis image_set row_put_keys)
  then show "rt_id ?new \<notin> rt_id ` set ?ts"
    using fresh by (simp add: new_row_def fresh_draw_def)
  show "rt_token_hash ?new \<notin> rt_token_hash ` set ?ts"
    using live(3) put_row_hashes [OF dist mem] by (simp add: new_row_def)
  show "live_of (rt_family_id ?new) ?ts = []"
    using live_of_rotated [OF ok mem live(1)] by (simp add: new_row_def)
  fix x assume x: "x \<in> set ?ts" and fam: "rt_family_id x = rt_family_id ?new"
  have ag: "owners_agree ?ts" using ok by (simp add: put families_ok_def owners_agree_revoke)
  have "revoke row \<in> set ?ts" using mem by (auto intro: row_put_mem)
  from owners_agreeD [OF ag x this] fam refresh_row_user [OF live(2)]
  show "rt_user_id x = rt_user_id ?new" by (simp add: new_row_def)
qed

lemma refresh_with_row_families:
  assumes ok: "families_ok (tokens s)" and mem: "row \<in> set (tokens s)"
    and fresh: "fresh_draw rnd (tokens s)"
  shows "families_ok (tokens (snd (refresh_with_row C cfg now rnd row s)))"
proof -
  have dist: "distinct (map rt_id (tokens s))" using ok by (simp add: families_ok_def)
  have put: "row_put rt_id (revoke row) (tokens s) =
      rows_update (\<lambda>r. rt_id r = rt_id row) revoke (tokens s)"
    using row_put_rows_update [of rt_id "tokens s" row revoke] dist mem by simp
  consider (dead) "rt_revoked row" | (expired) "\<not> rt_revoked row" "rt_expires_at row \<le> now"
    | (orphan) "\<not> rt_revoked row" "now < rt_expires_at row"
        "row_get u_id (rt_user_id row) (users (a_db s)) = None"
    | (dup) u where "\<not> rt_revoked row" "now < rt_expires_at row"
        "row_get u_id (rt_user_id row) (users (a_db s)) = Some u"
        "hash_token C (d_token rnd) \<in> rt_token_hash ` set (tokens s)"
    | (live) u where "\<not> rt_revoked row" "now < rt_expires_at row"
        "row_get u_id (rt_user_id row) (users (a_db s)) = Some u"
        "hash_token C (d_token rnd) \<notin> rt_token_hash ` set (tokens s)"
    by fastforce
  then show ?thesis
  proof cases
    case dead
    then show ?thesis
      by (simp add: refresh_with_row_dead revoke_token_family_def families_ok_revoke ok)
  next
    case expired
    then show ?thesis
      by (simp add: refresh_with_row_def handler_simps clear_refresh_cookie_def put families_ok_revoke ok)
  next
    case orphan
    then show ?thesis
      by (simp add: refresh_with_row_def handler_simps clear_refresh_cookie_def
          revoke_token_family_def families_ok_revoke ok)
  next
    case dup
    then show ?thesis
      using put_row_hashes [OF dist mem]
      by (simp add: refresh_with_row_def handler_simps issue_refresh_token_run ok)
  next
    case (live u)
    from refresh_with_row_live [OF live(1,2,3) dist mem live(4), of cfg] obtain s' where
      run: "snd (refresh_with_row C cfg now rnd row s) = s'" and
      ts: "tokens s' = row_put rt_id (revoke row) (tokens s) @
         [new_row C cfg now rnd (u_id u) (rt_family_id row)]" by auto
    with rotation_families [OF ok mem fresh live(1,3,4)] show ?thesis by simp
  qed
qed

lemma get_refresh_token_row_Some:
  "get_refresh_token_row C token d = Inr (Some row) \<Longrightarrow>
   row \<in> set (refresh_tokens d) \<and> rt_token_hash row = hash_token C token"
  by (auto simp: get_refresh_token_row_def dest: scalar_one_filterD)

lemma refresh_session_families:
  assumes "families_ok (tokens s)" and "fresh_draw rnd (tokens s)"
  shows "families_ok (tokens (snd (refresh_session C cfg now rnd cookie s)))"
  using assms refresh_with_row_families [OF assms(1) _ assms(2)]
  by (auto simp: refresh_session_def handler_simps split: option.splits sum.splits
      dest!: get_refresh_token_row_Some)

lemma login_families:
  assumes "families_ok (tokens s)" and "fresh_draw rnd (tokens s)"
  shows "families_ok (tokens (snd (login C cfg dummy now rnd email password s)))"
proof -
  have none: "live_of (d_family rnd) (tokens s) = []"
    using assms(2) by (force simp: fresh_draw_def live_of_def filter_empty_conv)
  have "families_ok (tokens s @ [new_row C cfg now rnd uid (d_family rnd)])"
    if "hash_token C (d_token rnd) \<notin> rt_token_hash ` set (tokens s)" for uid
    using assms none that
    by (intro families_ok_add) (auto simp: new_row_def fresh_draw_def image_iff)
  then show ?thesis
    using assms(1)
    by (auto simp: login_def handler_simps issue_refresh_token_run set_refresh_cookie_def Let_def
        split: sum.splits option.splits)
qed

lemma logout_families:
  "families_ok (tokens s) \<Longrightarrow> families_ok (tokens (snd (logout C cfg cookie s)))"
  by (auto simp: logout_def handler_simps clear_refresh_cookie_def revoke_token_family_def
      families_ok_revoke split: option.splits sum.splits)

lemma change_password_families:
  "families_ok (tokens s) \<Longrightarrow> families_ok (tokens (snd (change_password C salt u old new s)))"
  by (auto simp: change_password_def handler_simps revoke_all_refresh_families_def
      families_ok_revoke split: sum.splits)

lemma refresh_session_revoked:
  assumes "distinct (map rt_token_hash (tokens s))" and "row \<in> set (tokens s)"
    and "rt_token_hash row = hash_token C token" and "rt_revoked row" and "token \<noteq> []"
  shows "refresh_session C cfg now rnd (Some token) s = (Inl INVALID_REFRESH,
    s\<lparr>a_db := revoke_token_family (rt_family_id row) (a_db s), a_cookie := ClearCookie (refresh_cookie_kwargs cfg)\<rparr>)"
proof -
  have "get_refresh_token_row C token (a_db s) = Inr (Some row)"
    using row_get_distinct [OF assms(1,2)] scalar_key_distinct [OF assms(1)] assms(3)
    by (simp add: get_refresh_token_row_def)
  with assms(4,5) show ?thesis
    by (simp add: refresh_session_def handler_simps refresh_with_row_dead)
qed

section \<open>Sessions as a transition system\<close>

text \<open>One step is one request, handled to its end; other requests may change every table but the
  refresh tokens.\<close>

inductive session_step :: "crypto \<Rightarrow> settings \<Rightarrow> string \<Rightarrow> auth_state \<Rightarrow> auth_state \<Rightarrow> bool"
  for C cfg dummy where
  step_login: "fresh_draw rnd (tokens s) \<Longrightarrow>
     session_step C cfg dummy s (snd (login C cfg dummy now rnd email password s))"
| step_refresh: "fresh_draw rnd (tokens s) \<Longrightarrow>
     session_step C cfg dummy s (snd (refresh_session C cfg now rnd cookie s))"
| step_logout: "session_step C cfg dummy s (snd (logout C cfg cookie s))"
| step_change_password: "u \<in> set (users (a_db s)) \<Longrightarrow>
     session_step C cfg dummy s (snd (change_password C salt u old_password new_password s))"
| step_other: "tokens s' = tokens s \<Longrightarrow> session_step C cfg dummy s s'"

inductive session_run :: "crypto \<Rightarrow> settings \<Rightarrow> string \<Rightarrow> auth_state \<Rightarrow> auth_state \<Rightarrow> bool"
  for C cfg dummy where
  run_refl: "session_run C cfg dummy s s"
| run_step: "session_run C cfg dummy s t \<Longrightarrow> session_step C cfg dummy t u \<Longrightarrow> session_run C cfg dummy s u"

lemma session_step_families:
  "session_step C cfg dummy s s' \<Longrightarrow> families_ok (tokens s) \<Longrightarrow> families_ok (tokens s')"
  by (induction rule: session_step.induct)
    (simp_all add: login_families refresh_session_families logout_families change_password_families)

section \<open>A sample session\<close>

definition rt0 :: refresh_token where
  "rt0 = \<lparr>rt_id = 20, rt_user_id = 1, rt_token_hash = ''#old'', rt_family_id = 30,
     rt_expires_at = 100, rt_revoked = False\<rparr>"

definition auth0 :: auth_state where
  "auth0 = \<lparr>a_db = db0\<lparr>refresh_tokens := [rt0]\<rparr>, a_cookie = NoCookie\<rparr>"

definition draw0 :: draw where
  "draw0 = \<lparr>d_token = ''new'', d_row_id = 21, d_family = 31\<rparr>"

lemmas sample_defs = rt0_def auth0_def draw0_def

lemma tokens_auth0 [simp]: "tokens auth0 = [rt0]" "users (a_db auth0) = [alice, root]"
  by (simp_all add: auth0_def)

lemma families_ok_auth0: "families_ok (tokens auth0)" "fresh_draw draw0 (tokens auth0)"
  by (simp_all add: families_ok_def owners_agree_def live_of_def fresh_draw_def rt0_def draw0_def)

section \<open>Properties\<close>

text \<open>C6: in every run of logins, refreshes, logouts, password changes and other requests, each
  refresh-token family has at most one token that is not revoked, row ids and token hashes stay
  unique, and a family's tokens all belong to one user.\<close>

theorem rotation_invariant:
  assumes "session_run C cfg dummy s s'" and "families_ok (tokens s)"
  shows "families_ok (tokens s') \<and> length (live_of fam (tokens s')) \<le> 1"
proof -
  from assms have "families_ok (tokens s')"
    by (induction rule: session_run.induct) (auto intro: session_step_families)
  then show ?thesis by (simp add: families_ok_def)
qed

theorem rotation_invariant_witness:
  "length (live_of 30 (tokens (snd (refresh_session ref_crypto cfg0 5 draw0 (Some ''old'') auth0)))) \<le> 1"
proof -
  have "session_run ref_crypto cfg0 [] auth0 (snd (refresh_session ref_crypto cfg0 5 draw0 (Some ''old'') auth0))"
    by (rule run_step [OF run_refl step_refresh]) (rule families_ok_auth0(2))
  from rotation_invariant [OF this families_ok_auth0(1)] show ?thesis by blast
qed

text \<open>C7: replaying a refresh token that was already rotated or revoked is answered with 401 and
  leaves no live token in its whole family, so the thief and the owner both have to log in again;
  the other families keep their live tokens.\<close>

theorem refresh_reuse_revokes_family:
  assumes "distinct (map rt_token_hash (tokens s))" and "row \<in> set (tokens s)"
    and "rt_token_hash row = hash_token C token" and "rt_revoked row" and "token \<noteq> []"
  shows "fst (refresh_session C cfg now rnd (Some token) s) = Inl INVALID_REFRESH \<and>
    live_of (rt_family_id row) (tokens (snd (refresh_session C cfg now rnd (Some token) s))) = [] \<and>
    (\<forall>fam. fam \<noteq> rt_family_id row \<longrightarrow>
      live_of fam (tokens (snd (refresh_session C cfg now rnd (Some token) s))) = live_of fam (tokens s))"
  by (simp add: refresh_session_revoked [OF assms] revoke_token_family_def live_of_revoke_family)

theorem refresh_reuse_revokes_family_witness:
  "fst (refresh_session ref_crypto cfg0 5 draw0 (Some ''old'')
     (auth0\<lparr>a_db := db0\<lparr>refresh_tokens := [revoke rt0]\<rparr>\<rparr>)) = Inl INVALID_REFRESH"
proof -
  let ?s = "auth0\<lparr>a_db := db0\<lparr>refresh_tokens := [revoke rt0]\<rparr>\<rparr>"
  have "distinct (map rt_token_hash (tokens ?s))" "revoke rt0 \<in> set (tokens ?s)"
    "rt_token_hash (revoke rt0) = hash_token ref_crypto ''old''" "rt_revoked (revoke rt0)"
    "(''old''::string) \<noteq> []"
    by (simp_all add: rt0_def hash_token_def ref_crypto_def)
  from refresh_reuse_revokes_family [OF this, of cfg0 5 draw0] show ?thesis by blast
qed

text \<open>A successful refresh revokes the presented token and leaves exactly the new one live in
  its family, owned by the same user and expiring one refresh lifetime later; presenting the old
  token again then kills the family, the new token included.\<close>

theorem refresh_rotates:
  assumes "families_ok (tokens s)" and "row \<in> set (tokens s)" and "\<not> rt_revoked row"
    and "rt_token_hash row = hash_token C token" and "token \<noteq> []" and "now < rt_expires_at row"
    and "row_get u_id (rt_user_id row) (users (a_db s)) = Some u"
    and "hash_token C (d_token rnd) \<notin> rt_token_hash ` set (tokens s)"
    and "fresh_draw rnd (tokens s)"
  shows "\<exists>access s'. refresh_session C cfg now rnd (Some token) s = (Inr access, s') \<and>
    live_of (rt_family_id row) (tokens s') = [new_row C cfg now rnd (u_id u) (rt_family_id row)] \<and>
    fst (refresh_session C cfg later rnd' (Some token) s') = Inl INVALID_REFRESH \<and>
    live_of (rt_family_id row) (tokens (snd (refresh_session C cfg later rnd' (Some token) s'))) = []"
proof -
  have dist: "distinct (map rt_id (tokens s))" "distinct (map rt_token_hash (tokens s))"
    using assms(1) by (simp_all add: families_ok_def)
  have "get_refresh_token_row C token (a_db s) = Inr (Some row)"
    using row_get_distinct [OF dist(2) assms(2)] scalar_key_distinct [OF dist(2)] assms(4)
    by (simp add: get_refresh_token_row_def)
  then have eq: "refresh_session C cfg now rnd (Some token) s = refresh_with_row C cfg now rnd row s"
    using assms(5) by (simp add: refresh_session_def handler_simps)
  from refresh_with_row_live [OF assms(3,6,7) dist(1) assms(2,8), of cfg] obtain s' where
    run: "refresh_with_row C cfg now rnd row s =
       (Inr (create_access_token C cfg now (u_id u) (user_role_value (u_role u))), s')" and
    ts: "tokens s' = row_put rt_id (revoke row) (tokens s) @ [new_row C cfg now rnd (u_id u) (rt_family_id row)]"
    by blast
  have live: "live_of (rt_family_id row) (tokens s') = [new_row C cfg now rnd (u_id u) (rt_family_id row)]"
    using live_of_rotated [OF assms(1,2,3)] by (simp add: ts) (simp add: live_of_def new_row_def)
  have ok': "families_ok (tokens s')"
    using refresh_with_row_families [OF assms(1,2,9), of C cfg now] run by simp
  have mem': "revoke row \<in> set (tokens s')" using assms(2) by (auto simp: ts intro: row_put_mem)
  have "distinct (map rt_token_hash (tokens s'))" using ok' by (simp add: families_ok_def)
  from refresh_session_revoked [OF this mem', of C token cfg later rnd'] assms(4,5)
  have "fst (refresh_session C cfg later rnd' (Some token) s') = Inl INVALID_REFRESH"
    "live_of (rt_family_id row) (tokens (snd (refresh_session C cfg later rnd' (Some token) s'))) = []"
    by (simp_all add: revoke_token_family_def live_of_revoke_family)
  with eq run live show ?thesis by auto
qed

theorem refresh_rotates_witness:
  "\<exists>access s'. refresh_session ref_crypto cfg0 5 draw0 (Some ''old'') auth0 = (Inr access, s') \<and>
     live_of 30 (tokens s') = [new_row ref_crypto cfg0 5 draw0 1 30]"
proof -
  have h: "rt0 \<in> set (tokens auth0)" "\<not> rt_revoked rt0"
    "rt_token_hash rt0 = hash_token ref_crypto ''old''" "(''old''::string) \<noteq> []" "5 < rt_expires_at rt0"
    "row_get u_id (rt_user_id rt0) (users (a_db auth0)) = Some alice"
    "hash_token ref_crypto (d_token draw0) \<notin> rt_token_hash ` set (tokens auth0)"
    by (simp_all add: rt0_def draw0_def hash_token_def ref_crypto_def row_get_Cons)
  have "rt_family_id rt0 = 30" by (simp add: rt0_def)
  with refresh_rotates [OF families_ok_auth0(1) h families_ok_auth0(2), of cfg0 6 draw0]
  show ?thesis by fastforce
qed

text \<open>A login succeeds exactly when some enabled user has the lower-cased email and the
  password verifies; every other outcome is the same 401, so it does not tell an unknown email
  from a wrong password or a disabled account, and nothing is written.\<close>

theorem login_outcome:
  assumes "crypto_laws C" and "distinct (map u_email (users (a_db s)))"
    and "\<And>u. u \<in> set (users (a_db s)) \<Longrightarrow> \<exists>salt pw. u_password_hash u = hash_password C salt pw"
    and "dummy = hash_password C dsalt dpw"
    and "hash_token C (d_token rnd) \<notin> rt_token_hash ` set (tokens s)"
  shows "(if \<exists>u \<in> set (users (a_db s)). u_email u = py_lower email \<and> \<not> u_disabled u \<and>
             verify_password C password (u_password_hash u) = Inr True
          then \<exists>(u :: user) s'. login C cfg dummy now rnd email password s =
                (Inr (create_access_token C cfg now (u_id u) (user_role_value (u_role u))), s') \<and>
              u_email u = py_lower email \<and>
              tokens s' = tokens s @ [new_row C cfg now rnd (u_id u) (d_family rnd)]
          else login C cfg dummy now rnd email password s = (Inl INVALID_CREDENTIALS, s))"
proof -
  let ?e = "py_lower email"
  have dum: "verify_password_constant_time C dummy password None = Inr False"
    by (simp add: verify_password_constant_time_def assms(4) crypto_laws.verify_own_password [OF assms(1)])
  have total: "\<exists>b. verify_password C password (u_password_hash u) = Inr b"
    if "u \<in> set (users (a_db s))" for u
    using assms(3) [OF that] crypto_laws.verify_own_password [OF assms(1)] by metis
  have look: "get_user_by_email (py_lower email) (a_db s) = Inr (row_get u_email ?e (users (a_db s)))"
    by (simp add: get_user_by_email_def scalar_key_distinct [OF assms(2)])
  show ?thesis
  proof (cases "row_get u_email ?e (users (a_db s))")
    case None
    then have "\<not> (\<exists>u \<in> set (users (a_db s)). u_email u = ?e)"
      by (metis row_get_None image_eqI)
    with None look dum show ?thesis by (auto simp: login_def handler_simps)
  next
    case (Some u)
    from row_get_Some [OF Some] have u: "u_email u = ?e" "u \<in> set (users (a_db s))" by auto
    have only: "v = u" if "v \<in> set (users (a_db s))" "u_email v = ?e" for v
      using same_key_same_row [OF assms(2) that(1) u(2)] that(2) u(1) by simp
    from total [OF u(2)] obtain b where b: "verify_password C password (u_password_hash u) = Inr b" ..
    show ?thesis
    proof (cases "\<not> u_disabled u \<and> b")
      case True
      with u b have cond: "\<exists>u \<in> set (users (a_db s)). u_email u = ?e \<and> \<not> u_disabled u \<and>
          verify_password C password (u_password_hash u) = Inr True" by auto
      from True b Some look u assms(5) have
        "\<exists>s'. login C cfg dummy now rnd email password s =
          (Inr (create_access_token C cfg now (u_id u) (user_role_value (u_role u))), s') \<and>
          tokens s' = tokens s @ [new_row C cfg now rnd (u_id u) (d_family rnd)]"
        by (simp add: login_def handler_simps verify_password_constant_time_def
            issue_refresh_token_run set_refresh_cookie_def Let_def)
      with u(1) show ?thesis unfolding if_P [OF cond] by blast
    next
      case False
      with b only have "\<not> (\<exists>u \<in> set (users (a_db s)). u_email u = ?e \<and> \<not> u_disabled u \<and>
          verify_password C password (u_password_hash u) = Inr True)" by auto
      moreover from False b Some look have "login C cfg dummy now rnd email password s = (Inl INVALID_CREDENTIALS, s)"
        by (auto simp: login_def handler_simps verify_password_constant_time_def)
      ultimately show ?thesis by simp
    qed
  qed
qed

theorem login_outcome_witness:
  "fst (login ref_crypto cfg0 (hash_password ref_crypto ''n'' ''d'') 5 draw0 ''alice@x.io'' ''pw-bad'' auth0)
     = Inl INVALID_CREDENTIALS"
proof -
  have salted: "\<exists>salt pw. u_password_hash u = hash_password ref_crypto salt pw"
    if "u \<in> set (users (a_db auth0))" for u
  proof -
    have "u_password_hash alice = hash_password ref_crypto ''n'' ''pw-alice''"
      "u_password_hash root = hash_password ref_crypto ''n'' ''pw-root''"
      by (simp_all add: hash_password_def ref_crypto_def alice_def root_def)
    with that show ?thesis by auto
  qed
  have uniq: "distinct (map u_email (users (a_db auth0)))"
    "hash_token ref_crypto (d_token draw0) \<notin> rt_token_hash ` set (tokens auth0)"
    by (simp_all add: alice_def root_def hash_token_def ref_crypto_def draw0_def rt0_def)
  have "py_lower ''alice@x.io'' = ''alice@x.io''" by code_simp
  then have no: "\<not> (\<exists>u \<in> set (users (a_db auth0)). u_email u = py_lower ''alice@x.io'' \<and>
      \<not> u_disabled u \<and> verify_password ref_crypto ''pw-bad'' (u_password_hash u) = Inr True)"
    by (simp add: verify_password_def ref_crypto_def ref_argon2_verify_def alice_def root_def)
  from login_outcome [OF ref.crypto_laws_axioms uniq(1) salted refl uniq(2),
      where email = "''alice@x.io''" and password = "''pw-bad''" and dsalt = "''n''" and dpw = "''d''"
        and cfg = cfg0 and now = 5]
  show ?thesis by (simp only: no if_False fst_conv)
qed

text \<open>A password change needs the old password; it stores a hash that verifies the new one
  and no other, clears the pending-change flag and leaves the user no live refresh token, while
  the tokens of other users and the other users' rows are unchanged.\<close>

theorem change_password_effect:
  assumes "crypto_laws C" and "distinct (map u_id (users (a_db s)))" and "u \<in> set (users (a_db s))"
    and "change_password C salt u old_password new_password s = (Inr r, s')"
  shows "verify_password C old_password (u_password_hash u) = Inr True \<and> 12 \<le> length new_password \<and>
    (\<exists>u'. row_get u_id (u_id u) (users (a_db s')) = Some u' \<and> \<not> u_must_change_password u' \<and>
       u_role u' = u_role u \<and> u_disabled u' = u_disabled u \<and>
       (\<forall>pw. verify_password C pw (u_password_hash u') = Inr (pw = new_password))) \<and>
    filter (\<lambda>t. rt_user_id t = u_id u \<and> \<not> rt_revoked t) (tokens s') = [] \<and>
    filter (\<lambda>t. rt_user_id t \<noteq> u_id u) (tokens s') = filter (\<lambda>t. rt_user_id t \<noteq> u_id u) (tokens s) \<and>
    (\<forall>i. i \<noteq> u_id u \<longrightarrow> row_get u_id i (users (a_db s')) = row_get u_id i (users (a_db s)))"
proof -
  let ?u' = "u\<lparr>u_password_hash := hash_password C salt new_password, u_must_change_password := False\<rparr>"
  from assms(4) have old: "verify_password C old_password (u_password_hash u) = Inr True"
    "12 \<le> length new_password" and
    s': "a_db s' = revoke_all_refresh_families (u_id u) (users_update (row_put u_id ?u') (a_db s))"
    by (auto simp: change_password_def handler_simps split: sum.splits if_splits)
  have us: "users (a_db s') = row_put u_id ?u' (users (a_db s))"
    and ts: "tokens s' = rows_update (\<lambda>t. rt_user_id t = u_id u) revoke (tokens s)"
    by (simp_all add: s' revoke_all_refresh_families_def)
  have "u_id ?u' \<in> u_id ` set (users (a_db s))" using assms(3) by auto
  from row_put_same [OF this] have "row_get u_id (u_id u) (users (a_db s')) = Some ?u'" by (simp add: us)
  moreover have "filter (\<lambda>t. rt_user_id t = i \<and> \<not> rt_revoked t) (rows_update (\<lambda>t. rt_user_id t = i) revoke xs) = []"
    "filter (\<lambda>t. rt_user_id t \<noteq> i) (rows_update (\<lambda>t. rt_user_id t = i) revoke xs) = filter (\<lambda>t. rt_user_id t \<noteq> i) xs"
    for i xs
    by (induction xs) (auto simp: rows_update_def)
  ultimately show ?thesis
    using old by (simp add: us ts crypto_laws.verify_own_password [OF assms(1)])
qed

theorem change_password_effect_witness:
  "filter (\<lambda>t. rt_user_id t = 1 \<and> \<not> rt_revoked t)
     (tokens (snd (change_password ref_crypto ''m'' alice ''pw-alice'' ''correct horse'' auth0))) = []"
proof -
  obtain r s' where run: "change_password ref_crypto ''m'' alice ''pw-alice'' ''correct horse'' auth0 = (Inr r, s')"
    by (simp add: change_password_def handler_simps verify_password_def ref_crypto_def
        ref_argon2_verify_def alice_def)
  have "distinct (map u_id (users (a_db auth0)))" "alice \<in> set (users (a_db auth0))" by simp_all
  from change_password_effect [OF ref.crypto_laws_axioms this run] run show ?thesis by simp
qed

text \<open>Rotation is not atomic.  Two refreshes of the same live token that both read its row
  before either writes both succeed, and the family is left with two live tokens: reuse by a
  concurrent request is not detected.\<close>

theorem concurrent_refresh_two_live:
  "\<exists>s row rnd1 rnd2. families_ok (tokens s) \<and> row \<in> set (tokens s) \<and> fresh_draw rnd1 (tokens s) \<and>
     (let (r1, s1) = refresh_with_row ref_crypto cfg0 5 rnd1 row s;
          (r2, s2) = refresh_with_row ref_crypto cfg0 5 rnd2 row s1
      in \<not> isl r1 \<and> \<not> isl r2 \<and> length (live_of (rt_family_id row) (tokens s2)) = 2)"
proof -
  let ?rnd2 = "\<lparr>d_token = ''newer'', d_row_id = 22, d_family = 32\<rparr>"
  have "let (r1, s1) = refresh_with_row ref_crypto cfg0 5 draw0 rt0 auth0;
          (r2, s2) = refresh_with_row ref_crypto cfg0 5 ?rnd2 rt0 s1
      in \<not> isl r1 \<and> \<not> isl r2 \<and> length (live_of (rt_family_id rt0) (tokens s2)) = 2"
    by (simp add: refresh_with_row_def handler_simps issue_refresh_token_run set_refresh_cookie_def
        sample_defs row_get_Cons row_put_def hash_token_def ref_crypto_def live_of_def new_row_def Let_def)
  with families_ok_auth0 show ?thesis
    by (intro exI [of _ auth0] exI [of _ rt0] exI [of _ draw0] exI [of _ ?rnd2]) simp
qed

text \<open>A refresh does not look at the account's \<open>disabled\<close> flag: for a disabled user it rotates
  the token and returns an access token like for any other, which the guards then refuse.\<close>

theorem refresh_ignores_disabled:
  assumes "\<not> rt_revoked row" and "now < rt_expires_at row"
    and "row_get u_id (rt_user_id row) (users (a_db s)) = Some u" and "u_disabled u"
    and "distinct (map rt_id (tokens s))" and "distinct (map rt_token_hash (tokens s))"
    and "row \<in> set (tokens s)" and "hash_token C (d_token rnd) \<notin> rt_token_hash ` set (tokens s)"
    and "rt_token_hash row = hash_token C token" and "token \<noteq> []"
    and "crypto_laws C" and "distinct (map u_id (users (a_db s)))"
  shows "\<exists>access s'. refresh_session C cfg now rnd (Some token) s = (Inr access, s') \<and>
    (\<forall>later. isl (fst (authenticate_jwt C cfg later access (a_db s'))))"
proof -
  have "get_refresh_token_row C token (a_db s) = Inr (Some row)"
    using row_get_distinct [OF assms(6,7)] scalar_key_distinct [OF assms(6)] assms(9)
    by (simp add: get_refresh_token_row_def)
  then have eq: "refresh_session C cfg now rnd (Some token) s = refresh_with_row C cfg now rnd row s"
    using assms(10) by (simp add: refresh_session_def handler_simps)
  from refresh_with_row_live [OF assms(1-3,5,7,8), of cfg] obtain s' where
    run: "refresh_with_row C cfg now rnd row s =
       (Inr (create_access_token C cfg now (u_id u) (user_role_value (u_role u))), s')" and
    db: "a_db s' = (a_db s)\<lparr>refresh_tokens := tokens s'\<rparr>" by blast
  have us: "users (a_db s') = users (a_db s)" by (subst db) simp
  have "row_get u_id (u_id u) (users (a_db s')) = Some u"
    using assms(3) row_get_Some [OF assms(3)] us by simp
  then have "isl (fst (authenticate_jwt C cfg later
      (create_access_token C cfg now (u_id u) (user_role_value (u_role u))) (a_db s')))" for later
    using assms(4,12) us
    by (simp add: authenticate_jwt_def crypto_laws.decode_created_token [OF assms(11)] handler_simps deps_defs)
  with eq run show ?thesis by auto
qed

theorem refresh_ignores_disabled_witness:
  "\<not> isl (fst (refresh_session ref_crypto cfg0 5 draw0 (Some ''old'')
     (auth0\<lparr>a_db := (a_db auth0)\<lparr>users := [alice\<lparr>u_disabled := True\<rparr>]\<rparr>\<rparr>)))"
proof -
  let ?s = "auth0\<lparr>a_db := (a_db auth0)\<lparr>users := [alice\<lparr>u_disabled := True\<rparr>]\<rparr>\<rparr>"
  have h: "\<not> rt_revoked rt0" "5 < rt_expires_at rt0"
    "row_get u_id (rt_user_id rt0) (users (a_db ?s)) = Some (alice\<lparr>u_disabled := True\<rparr>)"
    "u_disabled (alice\<lparr>u_disabled := True\<rparr>)"
    "distinct (map rt_id (tokens ?s))" "distinct (map rt_token_hash (tokens ?s))" "rt0 \<in> set (tokens ?s)"
    "hash_token ref_crypto (d_token draw0) \<notin> rt_token_hash ` set (tokens ?s)"
    "rt_token_hash rt0 = hash_token ref_crypto ''old''" "(''old''::string) \<noteq> []"
    by (simp_all add: sample_defs hash_token_def ref_crypto_def row_get_Cons)
  have u: "distinct (map u_id (users (a_db ?s)))" by simp
  from refresh_ignores_disabled [OF h ref.crypto_laws_axioms u, of cfg0] show ?thesis by fastforce
qed

end
