(* ===== verification/Admin.thy ===== *)
theory Admin
  imports Keys Auth
begin

text \<open>
  \<open>api/routers/admin.py\<close> and \<open>scripts/create_admin.py\<close>: who creates accounts and disables
  them, and what every account keeps while keys and users are managed: unique addresses, an
  owner for every key, no key above its owner's role, and always an enabled admin.
\<close>

section \<open>Routes\<close>

record admin_user_response =
  au_id :: uuid
  au_email :: string
  au_role :: string
  au_must_change_password :: bool
  au_disabled :: bool
  au_created_at :: time

definition to_admin_user_response :: "user \<Rightarrow> admin_user_response" where
  "to_admin_user_response u = \<lparr>au_id = u_id u, au_email = u_email u,
     au_role = user_role_value (u_role u), au_must_change_password = u_must_change_password u,
     au_disabled = u_disabled u, au_created_at = u_created_at u\<rparr>"

text \<open>\<open>create_user\<close>: the address arrives validated by pydantic's \<open>EmailStr\<close>; \<open>temporary\<close> is the
  drawn temporary password and \<open>uid\<close> the row's UUID.\<close>

type_synonym admin_user_created_response = "admin_user_response \<times> string"

type_synonym admin_user_list_response = "admin_user_response listing"

definition create_user ::
  "crypto \<Rightarrow> string \<Rightarrow> string \<Rightarrow> uuid \<Rightarrow> time \<Rightarrow> string \<Rightarrow> user_role \<Rightarrow>
   (db, admin_user_created_response) handler" where
  "create_user C salt temporary uid now body_email role =
     (let email = py_lower body_email in
      bindE (liftE (\<lambda>d. scalar_one_or_none (filter (\<lambda>u. u_email u = email) (users d)))) (\<lambda>existing.
      if existing \<noteq> None then raiseE (HTTPException 409 ''Email already registered'')
      else (let u = \<lparr>u_id = uid, u_email = email, u_password_hash = hash_password C salt temporary,
                  u_role = role, u_must_change_password = True, u_disabled = False, u_created_at = now\<rparr>
        in bindE (modifyE (users_update (\<lambda>t. t @ [u]))) (\<lambda>_.
           returnE (to_admin_user_response u, temporary)))))"

definition list_users :: "int \<Rightarrow> int \<Rightarrow> (db, admin_user_list_response) handler" where
  "list_users limit offset =
     (if \<not> valid_page limit offset then raiseE (ValidationError ''limit, offset'')
      else getsE (\<lambda>d. \<lparr>
        l_items = map to_admin_user_response (page limit offset (order_desc u_created_at (users d))),
        l_total = int (length (users d)), l_limit = limit, l_offset = offset\<rparr>))"

definition disable_user :: "user \<Rightarrow> uuid \<Rightarrow> (db, unit) handler" where
  "disable_user admin user_id =
     (if user_id = u_id admin
      then raiseE (HTTPException 409 ''Admins cannot disable their own account'')
      else bindE (liftE (\<lambda>d. scalar_one_or_none (filter (\<lambda>u. u_id u = user_id) (users d)))) (\<lambda>found.
        case found of
          None \<Rightarrow> raiseE (HTTPException 404 ''User not found'')
        | Some u \<Rightarrow> modifyE (users_update (row_put u_id (u\<lparr>u_disabled := True\<rparr>)))))"

text \<open>\<open>create_admin.py\<close>: the exit status of \<open>main\<close> for the two environment variables.\<close>

definition create_admin_main ::
  "crypto \<Rightarrow> string \<Rightarrow> uuid \<Rightarrow> time \<Rightarrow> string \<Rightarrow> string \<Rightarrow> (db, int) handler" where
  "create_admin_main C salt uid now ADMIN_EMAIL ADMIN_PASSWORD =
     (let email = py_lower (py_strip ADMIN_EMAIL); password = ADMIN_PASSWORD in
      if email = [] \<or> password = [] then returnE 1
      else bindE (liftE (\<lambda>d. scalar_one_or_none (filter (\<lambda>u. u_role u = RoleAdmin) (users d)))) (\<lambda>existing_admin.
        if existing_admin \<noteq> None then returnE 0
        else bindE (liftE (\<lambda>d. scalar_one_or_none (filter (\<lambda>u. u_email u = email) (users d)))) (\<lambda>email_taken.
          if email_taken \<noteq> None then returnE 1
          else bindE (modifyE (users_update (\<lambda>t. t @ [\<lparr>u_id = uid, u_email = email,
                 u_password_hash = hash_password C salt password, u_role = RoleAdmin,
                 u_must_change_password = False, u_disabled = False, u_created_at = now\<rparr>]))) (\<lambda>_.
               returnE 0))))"

section \<open>Accounts\<close>

definition enabled_admin :: "user list \<Rightarrow> bool" where
  "enabled_admin us \<longleftrightarrow> list_ex (\<lambda>u. u_role u = RoleAdmin \<and> \<not> u_disabled u) us"

definition key_within_role :: "user list \<Rightarrow> api_key \<Rightarrow> bool" where
  "key_within_role us k =
     (case row_get u_id (k_user_id k) us of
        None \<Rightarrow> False | Some u \<Rightarrow> set (k_scopes k) \<subseteq> set (ROLE_SCOPES (u_role u)))"

definition accounts_ok :: "db \<Rightarrow> bool" where
  "accounts_ok d \<longleftrightarrow>
     distinct (map u_id (users d)) \<and> distinct (map u_email (users d)) \<and>
     distinct (map k_id (api_keys d)) \<and> distinct (map k_key_hash (api_keys d)) \<and>
     list_all (key_within_role (users d)) (api_keys d) \<and> enabled_admin (users d)"

lemma create_user_Inr:
  assumes "create_user C salt tmp uid now email role d = (Inr r, d')"
    and "distinct (map u_email (users d))"
  shows "\<exists>u. d' = users_update (\<lambda>t. t @ [u]) d \<and> u_id u = uid \<and> u_email u = py_lower email \<and>
     u_email u \<notin> u_email ` set (users d) \<and> u_role u = role \<and> u_must_change_password u \<and> \<not> u_disabled u"
  using assms
  by (auto simp: create_user_def handler_simps Let_def row_get_None split: sum.splits if_splits)

lemma create_user_Inl: "create_user C salt tmp uid now email role d = (Inl e, d') \<Longrightarrow> d' = d"
  by (auto simp: create_user_def handler_simps Let_def split: sum.splits if_splits)

lemma disable_user_Inr:
  assumes "disable_user admin i d = (Inr r, d')"
  shows "i \<noteq> u_id admin \<and> (\<exists>u \<in> set (users d). u_id u = i \<and>
     d' = users_update (row_put u_id (u\<lparr>u_disabled := True\<rparr>)) d)"
  using assms
  by (auto simp: disable_user_def handler_simps dest!: scalar_one_filterD
      split: sum.splits option.splits if_splits)

lemma disable_user_Inl: "disable_user admin i d = (Inl e, d') \<Longrightarrow> d' = d"
  by (auto simp: disable_user_def handler_simps split: sum.splits option.splits if_splits)

text \<open>Writes that keep the invariant: adding a user, changing a user but not its role, adding a
  key within its owner's role, changing a key but neither its owner nor its scopes.\<close>

lemma key_within_role_add:
  "key_within_role us k \<Longrightarrow> key_within_role (us @ [u]) k"
  by (auto simp: key_within_role_def row_get_append split: option.splits)

lemma key_within_role_put:
  assumes "u0 \<in> set us" and "u_id u = u_id u0" and "u_role u = u_role u0"
    and "distinct (map u_id us)" and "key_within_role us k"
  shows "key_within_role (row_put u_id u us) k"
proof (cases "k_user_id k = u_id u0")
  case True
  have "row_get u_id (u_id u0) us = Some u0" by (rule row_get_distinct [OF assms(4,1)])
  moreover have "row_get u_id (u_id u) (row_put u_id u us) = Some u"
    using assms(1,2) by (intro row_put_same) auto
  ultimately show ?thesis using assms True by (simp add: key_within_role_def)
next
  case False
  then show ?thesis using assms by (simp add: key_within_role_def)
qed

lemma accounts_ok_add_user:
  assumes "accounts_ok d" and "u_id u \<notin> u_id ` set (users d)" and "u_email u \<notin> u_email ` set (users d)"
  shows "accounts_ok (users_update (\<lambda>t. t @ [u]) d)"
  using assms by (auto simp: accounts_ok_def enabled_admin_def list_all_iff key_within_role_add)

lemma accounts_ok_put_user:
  assumes "accounts_ok d" and "u0 \<in> set (users d)" and "u_id u = u_id u0" and "u_email u = u_email u0"
    and "u_role u = u_role u0" and "enabled_admin (row_put u_id u (users d))"
  shows "accounts_ok (users_update (row_put u_id u) d)"
proof -
  have "map u_email (row_put u_id u (users d)) = map u_email (users d)"
    using assms by (intro row_put_map [where ?r0.0 = u0]) (auto simp: accounts_ok_def)
  then show ?thesis
    using assms by (auto simp: accounts_ok_def list_all_iff intro: key_within_role_put)
qed

lemma accounts_ok_add_key:
  assumes "accounts_ok d" and "k_id k \<notin> k_id ` set (api_keys d)"
    and "k_key_hash k \<notin> k_key_hash ` set (api_keys d)" and "key_within_role (users d) k"
  shows "accounts_ok (api_keys_update (\<lambda>t. t @ [k]) d)"
  using assms by (auto simp: accounts_ok_def list_all_iff)

lemma accounts_ok_map_keys:
  assumes "accounts_ok d" and "\<And>k. k_id (f k) = k_id k" and "\<And>k. k_key_hash (f k) = k_key_hash k"
    and "\<And>k. k_user_id (f k) = k_user_id k" and "\<And>k. k_scopes (f k) = k_scopes k"
  shows "accounts_ok (api_keys_update (map f) d)"
  using assms by (auto simp: accounts_ok_def list_all_iff key_within_role_def o_def split: option.splits)

lemma put_as_map: "row_put key r = map (\<lambda>x. if key x = key r then r else x)"
  by (rule ext) (simp add: row_put_def)

lemma put_as_update:
  "distinct (map key t) \<Longrightarrow> row \<in> set t \<Longrightarrow> key (f row) = key row \<Longrightarrow>
   row_put key (f row) t = map (\<lambda>r. if key r = key row then f r else r) t"
  by (simp add: row_put_rows_update rows_update_def)

lemma update_as_map: "rows_update P f = map (\<lambda>x. if P x then f x else x)"
  by (rule ext) (simp add: rows_update_def)

lemma enabled_admin_append: "enabled_admin us \<Longrightarrow> enabled_admin (us @ vs)"
  by (simp add: enabled_admin_def)

lemma enabled_adminI: "u \<in> set us \<Longrightarrow> u_role u = RoleAdmin \<Longrightarrow> \<not> u_disabled u \<Longrightarrow> enabled_admin us"
  by (auto simp: enabled_admin_def list_ex_iff)

section \<open>Account management as a transition system\<close>

text \<open>One step is one request with the guard its route declares, handled to its end; drawn UUIDs
  are new.  Any request that authenticates may touch an API key.\<close>

inductive account_step :: "crypto \<Rightarrow> settings \<Rightarrow> db \<Rightarrow> db \<Rightarrow> bool" for C cfg where
  acc_create_user: "get_current_admin C cfg now creds d = (Inr a, d1) \<Longrightarrow> uid \<notin> u_id ` set (users d) \<Longrightarrow>
     account_step C cfg d (snd (create_user C salt tmp uid now email role d1))"
| acc_disable_user: "get_current_admin C cfg now creds d = (Inr a, d1) \<Longrightarrow>
     account_step C cfg d (snd (disable_user a i d1))"
| acc_create_key: "get_current_user C cfg now creds d = (Inr u, d1) \<Longrightarrow> kid \<notin> k_id ` set (api_keys d) \<Longrightarrow>
     account_step C cfg d (snd (create_api_key C random kid now u body d1))"
| acc_revoke_key: "get_current_user C cfg now creds d = (Inr u, d1) \<Longrightarrow>
     account_step C cfg d (snd (revoke_api_key u kid d1))"
| acc_change_password: "get_authenticated_user C cfg now creds d = (Inr u, d1) \<Longrightarrow>
     account_step C cfg d (a_db (snd (change_password C salt u old_pw new_pw \<lparr>a_db = d1, a_cookie = NoCookie\<rparr>)))"
| acc_request: "account_step C cfg d (snd (resolve_principal_from_token C cfg touch_ok now token d))"
| acc_create_admin: "uid \<notin> u_id ` set (users d) \<Longrightarrow>
     account_step C cfg d (snd (create_admin_main C salt uid now email password d))"

inductive account_run :: "crypto \<Rightarrow> settings \<Rightarrow> db \<Rightarrow> db \<Rightarrow> bool" for C cfg where
  acc_refl: "account_run C cfg d d"
| acc_step: "account_run C cfg d e \<Longrightarrow> account_step C cfg e f \<Longrightarrow> account_run C cfg d f"

lemma get_authenticated_user_Inr:
  assumes "get_authenticated_user C cfg now creds d = (Inr u, d')"
  shows "d' = d \<and> u \<in> set (users d) \<and> \<not> u_disabled u"
  using assms authenticate_jwt_Inr
  by (fastforce simp: get_authenticated_user_def handler_simps split: prod.splits sum.splits if_splits option.splits)

lemma get_current_user_Inr:
  assumes "get_current_user C cfg now creds d = (Inr u, d')"
  shows "d' = d \<and> u \<in> set (users d) \<and> \<not> u_disabled u"
proof -
  from assms have "get_authenticated_user C cfg now creds d = (Inr u, d')"
    by (auto simp: get_current_user_def handler_simps deps_defs split: prod.splits sum.splits if_splits)
  then show ?thesis by (rule get_authenticated_user_Inr)
qed

lemma get_current_admin_Inr:
  assumes "get_current_admin C cfg now creds d = (Inr u, d')"
  shows "d' = d \<and> u \<in> set (users d) \<and> \<not> u_disabled u \<and> u_role u = RoleAdmin"
proof -
  from assms have "get_current_user C cfg now creds d = (Inr u, d')" "u_role u = RoleAdmin"
    by (auto simp: get_current_admin_def handler_simps split: prod.splits sum.splits if_splits)
  with get_current_user_Inr show ?thesis by blast
qed

lemma create_user_accounts:
  assumes "accounts_ok d" and "uid \<notin> u_id ` set (users d)"
  shows "accounts_ok (snd (create_user C salt tmp uid now email role d))"
proof (cases "create_user C salt tmp uid now email role d")
  case (Pair r d')
  show ?thesis
  proof (cases r)
    case (Inl e)
    with Pair create_user_Inl assms(1) show ?thesis by fastforce
  next
    case (Inr x)
    have "distinct (map u_email (users d))" using assms(1) by (simp add: accounts_ok_def)
    from create_user_Inr [OF Pair [unfolded Inr] this] obtain u where
      d': "d' = users_update (\<lambda>t. t @ [u]) d" and u: "u_id u = uid" "u_email u \<notin> u_email ` set (users d)"
      by blast
    have "accounts_ok d'" unfolding d' using u assms by (intro accounts_ok_add_user) simp_all
    with Pair show ?thesis by simp
  qed
qed

lemma disable_user_accounts:
  assumes ok: "accounts_ok d" and a: "a \<in> set (users d)" "u_role a = RoleAdmin" "\<not> u_disabled a"
  shows "accounts_ok (snd (disable_user a i d))"
proof (cases "disable_user a i d")
  case (Pair r d')
  show ?thesis
  proof (cases r)
    case (Inl e)
    with Pair disable_user_Inl ok show ?thesis by fastforce
  next
    case (Inr x)
    with Pair disable_user_Inr obtain u where i: "i \<noteq> u_id a" and u: "u \<in> set (users d)" "u_id u = i"
      and d': "d' = users_update (row_put u_id (u\<lparr>u_disabled := True\<rparr>)) d" by blast
    have "a \<in> set (row_put u_id (u\<lparr>u_disabled := True\<rparr>) (users d))"
      using a(1) i u(2) by (auto simp: row_put_def image_iff)
    then have "enabled_admin (row_put u_id (u\<lparr>u_disabled := True\<rparr>) (users d))"
      using a(2,3) by (rule enabled_adminI)
    then have "accounts_ok d'"
      unfolding d' by (intro accounts_ok_put_user [OF ok u(1)]) simp_all
    with Pair show ?thesis by simp
  qed
qed

lemma create_key_accounts:
  assumes ok: "accounts_ok d" and u: "u \<in> set (users d)" and kid: "kid \<notin> k_id ` set (api_keys d)"
  shows "accounts_ok (snd (create_api_key C random kid now u body d))"
proof (cases "create_api_key C random kid now u body d")
  case (Pair r d')
  show ?thesis
  proof (cases r)
    case (Inl e)
    with Pair create_api_key_Inl ok show ?thesis by fastforce
  next
    case (Inr x)
    with Pair create_api_key_Inr obtain k where d': "d' = api_keys_update (\<lambda>t. t @ [k]) d"
      and k: "k_id k = kid" "k_user_id k = u_id u" "k_scopes k = ck_scopes body"
        "set (ck_scopes body) \<subseteq> set (ROLE_SCOPES (u_role u))" "k_key_hash k \<notin> k_key_hash ` set (api_keys d)"
      by blast
    have "row_get u_id (u_id u) (users d) = Some u"
      using ok u by (intro row_get_distinct) (auto simp: accounts_ok_def)
    with k have "key_within_role (users d) k" by (simp add: key_within_role_def)
    with k kid have "accounts_ok d'" unfolding d' by (intro accounts_ok_add_key [OF ok]) simp_all
    with Pair show ?thesis by simp
  qed
qed

lemma revoke_key_accounts:
  assumes ok: "accounts_ok d"
  shows "accounts_ok (snd (revoke_api_key u kid d))"
proof (cases "revoke_api_key u kid d")
  case (Pair r d')
  show ?thesis
  proof (cases r)
    case (Inl e)
    with Pair revoke_api_key_Inl ok show ?thesis by fastforce
  next
    case (Inr x)
    with Pair revoke_api_key_Inr obtain k where k: "k \<in> set (api_keys d)"
      and d': "d' = api_keys_update (row_put k_id (k\<lparr>k_revoked := True\<rparr>)) d" by blast
    have "row_put k_id (k\<lparr>k_revoked := True\<rparr>) (api_keys d) =
        map (\<lambda>r. if k_id r = k_id k then r\<lparr>k_revoked := True\<rparr> else r) (api_keys d)"
      using ok k by (intro put_as_update [where f = "\<lambda>r. r\<lparr>k_revoked := True\<rparr>"]) (simp_all add: accounts_ok_def)
    then have "d' = api_keys_update (map (\<lambda>r. if k_id r = k_id k then r\<lparr>k_revoked := True\<rparr> else r)) d"
      by (simp add: d')
    then have "accounts_ok d'" by (simp add: accounts_ok_map_keys [OF ok])
    with Pair show ?thesis by simp
  qed
qed

lemma request_accounts:
  assumes ok: "accounts_ok d"
  shows "accounts_ok (snd (resolve_principal_from_token C cfg touch_ok now token d))"
proof -
  have touch: "accounts_ok (snd (touch_api_key_last_used touch_ok now i d))" for i
    by (simp add: touch_api_key_last_used_def handler_simps ok update_as_map accounts_ok_map_keys [OF ok])
  have "accounts_ok (snd (authenticate_api_key C touch_ok now token d))"
    by (auto simp: authenticate_api_key_run ok touch split: sum.split option.split)
  moreover have "accounts_ok (snd (authenticate_jwt C cfg now token d))"
    by (simp add: authenticate_jwt_frame ok)
  ultimately show ?thesis
    by (auto simp: resolve_principal_from_token_def handler_simps deps_defs split: prod.splits sum.splits)
qed

lemma change_password_accounts:
  assumes ok: "accounts_ok d" and u: "u \<in> set (users d)"
  shows "accounts_ok (a_db (snd (change_password C salt u old_pw new_pw \<lparr>a_db = d, a_cookie = c\<rparr>)))"
proof -
  let ?f = "\<lambda>x. x\<lparr>u_password_hash := hash_password C salt new_pw, u_must_change_password := False\<rparr>"
  have dist: "distinct (map u_id (users d))" using ok by (simp add: accounts_ok_def)
  let ?g = "\<lambda>r. if u_id r = u_id u then ?f r else r"
  have put: "row_put u_id (?f u) (users d) = map ?g (users d)"
    by (rule put_as_update [OF dist u]) simp
  obtain v where v: "v \<in> set (users d)" "u_role v = RoleAdmin" "\<not> u_disabled v"
    using ok by (auto simp: accounts_ok_def enabled_admin_def list_ex_iff)
  have "?g v \<in> set (map ?g (users d))" using v(1) by simp
  then have "enabled_admin (row_put u_id (?f u) (users d))"
    unfolding put by (rule enabled_adminI) (use v in auto)
  then have "accounts_ok (users_update (row_put u_id (?f u)) d)"
    by (intro accounts_ok_put_user [OF ok u]) simp_all
  moreover have "accounts_ok (revoke_all_refresh_families i e) = accounts_ok e" for i e
    by (simp add: accounts_ok_def revoke_all_refresh_families_def)
  ultimately show ?thesis
    using ok by (auto simp: change_password_def handler_simps split: sum.splits)
qed

lemma create_admin_result:
  assumes "distinct (map u_email (users d))"
  shows "snd (create_admin_main C salt uid now email password d) = d \<or>
    (\<exists>u. snd (create_admin_main C salt uid now email password d) = users_update (\<lambda>t. t @ [u]) d \<and>
       u_id u = uid \<and> u_email u \<notin> u_email ` set (users d))"
  using assms
  by (auto simp: create_admin_main_def handler_simps Let_def row_get_None split: sum.split option.split)

lemma create_admin_accounts:
  assumes ok: "accounts_ok d" and uid: "uid \<notin> u_id ` set (users d)"
  shows "accounts_ok (snd (create_admin_main C salt uid now email password d))"
proof -
  have "distinct (map u_email (users d))" using ok by (simp add: accounts_ok_def)
  from create_admin_result [OF this, of C salt uid now email password] show ?thesis
    using ok uid accounts_ok_add_user by fastforce
qed

lemma account_step_ok:
  assumes "account_step C cfg d d'" and "accounts_ok d"
  shows "accounts_ok d'"
  using assms
proof (induction rule: account_step.induct)
  case (acc_create_user now creds d a d1 uid salt tmp email role)
  with get_current_admin_Inr show ?case by (metis create_user_accounts)
next
  case (acc_disable_user now creds d a d1 i)
  with get_current_admin_Inr show ?case by (metis disable_user_accounts)
next
  case (acc_create_key now creds d u d1 kid random body)
  with get_current_user_Inr show ?case by (metis create_key_accounts)
next
  case (acc_revoke_key now creds d u d1 kid)
  with get_current_user_Inr show ?case by (metis revoke_key_accounts)
next
  case (acc_change_password now creds d u d1 salt old_pw new_pw)
  with get_authenticated_user_Inr show ?case by (metis change_password_accounts)
qed (simp_all add: request_accounts create_admin_accounts)

lemma account_run_ok: "account_run C cfg d d' \<Longrightarrow> accounts_ok d \<Longrightarrow> accounts_ok d'"
  by (induction rule: account_run.induct) (auto intro: account_step_ok)

lemma accounts_ok_db0: "accounts_ok db0"
  by (simp add: accounts_ok_def enabled_admin_def key_within_role_def row_get_Cons alice_key_def
      VALID_SCOPES_def) (simp add: alice_def root_def)

section \<open>Properties\<close>

text \<open>C34: whatever sequence of account requests has run, no principal the API resolves has a scope
  beyond the role of its user: a scoped API key never exceeds its owner's role.\<close>

theorem principal_scopes_within_role:
  assumes "account_run C cfg d0 d" and "accounts_ok d0"
    and "resolve_principal_from_token C cfg touch_ok now token d = (Inr p, d')"
  shows "set (principal_scopes p) \<subseteq> set (ROLE_SCOPES (u_role (p_user p)))"
proof -
  have ok: "accounts_ok d" by (rule account_run_ok [OF assms(1,2)])
  from assms(3) obtain d1 where run:
      "(if is_api_key_token token then authenticate_api_key C touch_ok now token d
        else authenticate_jwt C cfg now token d) = (Inr p, d1)"
    by (auto simp: resolve_principal_from_token_def handler_simps deps_defs
        split: prod.splits sum.splits if_splits)
  show ?thesis
  proof (cases "is_api_key_token token")
    case True
    with run have "authenticate_api_key C touch_ok now token d = (Inr p, d1)" by simp
    from authenticate_api_key_Inr [OF this] obtain k where k: "p_api_key p = Some k"
      "k \<in> set (api_keys d)" "row_get u_id (k_user_id k) (users d) = Some (p_user p)"
      by (auto simp: live_key_def)
    from ok k(2) have "key_within_role (users d) k" by (auto simp: accounts_ok_def list_all_iff)
    with k show ?thesis by (simp add: key_within_role_def principal_scopes_def)
  next
    case False
    with run have "authenticate_jwt C cfg now token d = (Inr p, d1)" by simp
    from authenticate_jwt_Inr [OF this] show ?thesis by (simp add: principal_scopes_def)
  qed
qed

theorem principal_scopes_within_role_witness:
  "set (principal_scopes \<lparr>p_user = alice, p_api_key = Some alice_key\<rparr>) \<subseteq> set (ROLE_SCOPES RoleUser)"
proof -
  have "resolve_principal_from_token ref_crypto cfg0 False 5 alice_token db0 =
      (Inr \<lparr>p_user = alice, p_api_key = Some alice_key\<rparr>, db0)"
    by (simp add: resolve_principal_from_token_def authenticate_api_key_run handler_simps deps_defs
        is_api_key_token_def API_KEY_PREFIX_def startswith_def hash_token_def ref_crypto_def
        scalar_one_or_none_def row_get_Cons alice_token_def alice_key_def)
  from principal_scopes_within_role [OF acc_refl accounts_ok_db0 this] show ?thesis by simp
qed

text \<open>C10: account requests keep user ids, addresses, key ids and key hashes unique, every key owned
  by an existing user within its role, and at least one enabled admin: since an admin cannot
  disable itself, no sequence of requests locks every admin out.\<close>

theorem accounts_invariant:
  assumes "account_run C cfg d0 d" and "accounts_ok d0"
  shows "accounts_ok d \<and> (\<exists>a \<in> set (users d). u_role a = RoleAdmin \<and> \<not> u_disabled a)"
  using account_run_ok [OF assms] by (auto simp: accounts_ok_def enabled_admin_def list_ex_iff)

theorem accounts_invariant_witness:
  "accounts_ok (snd (disable_user root 1 db0))"
proof -
  let ?tok = "create_access_token ref_crypto cfg0 0 2 ''admin''"
  have dec: "decode_access_token ref_crypto cfg0 5 ?tok =
      Some \<lparr>jwt_sub = Some (str_uuid 2), jwt_role = ''admin'', jwt_iat = 0, jwt_exp = seconds 900\<rparr>"
    by (simp add: ref.decode_created_token fixture_defs)
  have ne: "str_uuid 2 \<noteq> []" by (simp add: str_uuid_def Let_def)
  have low: "py_lower ''bearer'' = ''bearer''" by code_simp
  have "get_current_admin ref_crypto cfg0 5 (Some (''bearer'', ?tok)) db0 = (Inr root, db0)"
    using dec ne ref.access_token_not_api_key
    by (simp add: get_current_admin_def get_current_user_def get_authenticated_user_def
        authenticate_jwt_def handler_simps deps_defs low scalar_one_or_none_def)
  from acc_step [OF acc_refl acc_disable_user [OF this]] show ?thesis
    using accounts_invariant [OF _ accounts_ok_db0] by blast
qed

text \<open>C35: once an admin has disabled a user, no bearer token of any kind resolves to that user, and
  a login with the user's address fails whatever the password.\<close>

theorem disabled_user_locked_out:
  assumes "disable_user a i d = (Inr r, d')" and "distinct (map u_id (users d))"
    and "distinct (map u_email (users d))" and "row_get u_id i (users d) = Some v"
  shows "(\<forall>token p d''. resolve_principal_from_token C cfg touch_ok now token d' = (Inr p, d'') \<longrightarrow>
        u_id (p_user p) \<noteq> i) \<and>
    (\<forall>creds u d''. get_authenticated_user C cfg now creds d' = (Inr u, d'') \<longrightarrow> u_id u \<noteq> i) \<and>
    (\<forall>s email pw. a_db s = d' \<longrightarrow> py_lower email = u_email v \<longrightarrow>
        isl (fst (login C cfg dummy now rnd email pw s)))"
proof -
  from disable_user_Inr [OF assms(1)] obtain u where u: "u \<in> set (users d)" "u_id u = i"
    and d': "d' = users_update (row_put u_id (u\<lparr>u_disabled := True\<rparr>)) d" by blast
  have dis: "u_disabled v" if "v \<in> set (users d')" "u_id v = i" for v
    using that u(2) by (auto simp: d' dest!: set_row_put)
  have res: "u_id (p_user p) \<noteq> i"
    if "resolve_principal_from_token C cfg touch_ok now token d' = (Inr p, d'')" for token p d''
  proof -
    from that obtain d1 where
      "(if is_api_key_token token then authenticate_api_key C touch_ok now token d'
        else authenticate_jwt C cfg now token d') = (Inr p, d1)"
      by (auto simp: resolve_principal_from_token_def handler_simps deps_defs
          split: prod.splits sum.splits if_splits)
    then have "p_user p \<in> set (users d') \<and> \<not> u_disabled (p_user p)"
      using authenticate_api_key_Inr [of C touch_ok now token d' p d1]
        authenticate_jwt_Inr [of C cfg now token d' p d1]
      by (auto split: if_splits dest: row_get_Some)
    with dis show ?thesis by blast
  qed
  moreover have "u_id v \<noteq> i" if "get_authenticated_user C cfg now creds d' = (Inr v, d'')" for creds v d''
    using get_authenticated_user_Inr [OF that] dis by blast
  moreover have "isl (fst (login C cfg dummy now rnd email pw s))"
    if "a_db s = d'" "py_lower email = u_email v" for s email pw
  proof -
    have eq: "v = u" using assms(2,4) row_get_distinct [OF assms(2) u(1)] u(2) by simp
    let ?u = "u\<lparr>u_disabled := True\<rparr>"
    have emails: "map u_email (users d') = map u_email (users d)"
      unfolding d' using u(1) assms(2) by (simp add: row_put_map [where ?r0.0 = u])
    have "?u \<in> set (users d')" unfolding d' using u(1) by (auto intro: row_put_mem)
    from row_get_distinct [OF _ this, of u_email] emails assms(3)
    have "get_user_by_email (py_lower email) d' = Inr (Some ?u)"
      using that(2) [symmetric] eq by (simp add: get_user_by_email_def)
    with that(1) show ?thesis by (auto simp: login_def handler_simps split: sum.split)
  qed
  ultimately show ?thesis by blast
qed

theorem disabled_user_locked_out_witness:
  "\<not> (\<exists>p d''. resolve_principal_from_token ref_crypto cfg0 True 5 alice_token
       (snd (disable_user root 1 db0)) = (Inr p, d'') \<and> u_id (p_user p) = 1)"
proof -
  obtain r d' where run: "disable_user root 1 db0 = (Inr r, d')"
    by (simp add: disable_user_def handler_simps scalar_one_or_none_def)
  have h: "distinct (map u_id (users db0))" "distinct (map u_email (users db0))"
    "row_get u_id 1 (users db0) = Some alice"
    by (simp_all add: row_get_Cons) (simp add: alice_def root_def)
  note all = disabled_user_locked_out [OF run h, where C = ref_crypto and cfg = cfg0 and now = 5
      and touch_ok = True and dummy = "[]" and rnd = draw0]
  from all [THEN conjunct1] run show ?thesis by auto
qed

text \<open>\<open>create_admin.py\<close> creates the account only when no admin exists: with exactly one admin it
  refuses with status 0 and writes nothing, with two or more its query raises instead of
  refusing, and with none and a free address the new account is the only admin.\<close>

theorem create_admin_outcomes:
  assumes "py_lower (py_strip email) \<noteq> []" and "password \<noteq> []"
    and "distinct (map u_email (users d))"
  shows "(length (filter (\<lambda>u. u_role u = RoleAdmin) (users d)) = 1 \<longrightarrow>
       create_admin_main C salt uid now email password d = (Inr 0, d)) \<and>
    (2 \<le> length (filter (\<lambda>u. u_role u = RoleAdmin) (users d)) \<longrightarrow>
       create_admin_main C salt uid now email password d = (Inl MultipleResultsFound, d)) \<and>
    (filter (\<lambda>u. u_role u = RoleAdmin) (users d) = [] \<longrightarrow> py_lower (py_strip email) \<notin> u_email ` set (users d) \<longrightarrow>
       (\<exists>a d'. create_admin_main C salt uid now email password d = (Inr 0, d') \<and>
          filter (\<lambda>u. u_role u = RoleAdmin) (users d') = [a] \<and> u_email a = py_lower (py_strip email)))"
proof -
  let ?as = "filter (\<lambda>u. u_role u = RoleAdmin) (users d)"
  consider "?as = []" | a where "?as = [a]" | a b cs where "?as = a # b # cs"
    by (metis list.exhaust)
  then show ?thesis
  proof cases
    case 1
    with assms show ?thesis
      by (auto simp: create_admin_main_def handler_simps Let_def scalar_one_or_none_def [of "[]"]
          row_get_None [THEN iffD2])
  next
    case 2
    with assms show ?thesis
      by (simp add: create_admin_main_def handler_simps Let_def scalar_one_or_none_def)
  next
    case 3
    with assms show ?thesis
      by (simp add: create_admin_main_def handler_simps Let_def scalar_one_or_none_def)
  qed
qed

theorem create_admin_outcomes_witness:
  "create_admin_main ref_crypto ''n'' 7 0 ''a@b'' ''pw'' (db0\<lparr>users := [root, root\<lparr>u_id := 3, u_email := ''r''\<rparr>]\<rparr>)
     = (Inl MultipleResultsFound, db0\<lparr>users := [root, root\<lparr>u_id := 3, u_email := ''r''\<rparr>]\<rparr>)"
proof -
  let ?d = "db0\<lparr>users := [root, root\<lparr>u_id := 3, u_email := ''r''\<rparr>]\<rparr>"
  have "py_lower (py_strip ''a@b'') \<noteq> []" by code_simp
  moreover have "(''pw''::string) \<noteq> []" "distinct (map u_email (users ?d))"
    by (simp_all add: root_def)
  ultimately show ?thesis
    using create_admin_outcomes [of "''a@b''" "''pw''" ?d ref_crypto "''n''" 7 0] by simp
qed

end
