(* ===== verification/Redis_Client.thy ===== *)
theory Redis_Client
  imports Data_Model
begin

text \<open>
  The Redis client the code calls.  The server and its client library are not part of the
  repository: they are a record of commands over an unknown state \<open>'r\<close>, and what the code
  relies on is stated once, as the documented effect of each command, in the locales
  \<open>redis_strings\<close> (values with a time to live), \<open>redis_lists\<close> and \<open>redis_pubsub\<close>; \<open>redis_service\<close>
  joins them and says that a command on one kind of key leaves the others alone.  \<open>up r\<close> means
  the server answers; nothing is assumed about a server that is down, except by the components
  that handle it.  \<open>rd_elapse\<close> is not a command: it is the passing of seconds on the server.
\<close>

record 'r redis_ops =
  rd_get :: "string \<Rightarrow> ('r, string option) handler"
  rd_set :: "string \<Rightarrow> string \<Rightarrow> ('r, unit) handler"
  rd_set_nx_ex :: "string \<Rightarrow> string \<Rightarrow> int \<Rightarrow> ('r, bool) handler"
  rd_delete :: "string \<Rightarrow> ('r, unit) handler"
  rd_incrby :: "string \<Rightarrow> int \<Rightarrow> ('r, int) handler"
  rd_decrby :: "string \<Rightarrow> int \<Rightarrow> ('r, int) handler"
  rd_expire :: "string \<Rightarrow> int \<Rightarrow> ('r, unit) handler"
  rd_lpush :: "string \<Rightarrow> string \<Rightarrow> ('r, unit) handler"
  rd_rpush :: "string \<Rightarrow> string \<Rightarrow> ('r, unit) handler"
  rd_brpop :: "string \<Rightarrow> int \<Rightarrow> ('r, string option) handler"
  rd_ltrim :: "string \<Rightarrow> int \<Rightarrow> int \<Rightarrow> ('r, unit) handler"
  rd_lrange :: "string \<Rightarrow> int \<Rightarrow> int \<Rightarrow> ('r, string list) handler"
  rd_publish :: "string \<Rightarrow> string \<Rightarrow> ('r, unit) handler"
  rd_elapse :: "int \<Rightarrow> 'r \<Rightarrow> 'r"

section \<open>Values with a time to live\<close>

type_synonym entry = "(string \<times> int option) option"

text \<open>The integer a counter command sees: a missing key counts as zero.\<close>

definition entry_int :: "entry \<Rightarrow> int option" where
  "entry_int e = (case e of None \<Rightarrow> Some 0
     | Some (v, _) \<Rightarrow> (case py_int v of Inl _ \<Rightarrow> None | Inr i \<Rightarrow> Some i))"

definition entry_ttl :: "entry \<Rightarrow> int option" where
  "entry_ttl e = (case e of None \<Rightarrow> None | Some (_, t) \<Rightarrow> t)"

definition entry_after :: "int \<Rightarrow> entry \<Rightarrow> entry" where
  "entry_after n e = (case e of Some (v, Some t) \<Rightarrow> if t \<le> n then None else Some (v, Some (t - n)) | _ \<Rightarrow> e)"

definition in_int64 :: "int \<Rightarrow> bool" where
  "in_int64 i \<longleftrightarrow> - (2 ^ 63) \<le> i \<and> i < 2 ^ 63"

lemma entry_int_simps [simp]:
  "entry_int None = Some 0" "entry_int (Some (str_int i, t)) = Some i"
  by (simp_all add: entry_int_def)

lemma entry_ttl_simps [simp]: "entry_ttl None = None" "entry_ttl (Some (v, t)) = t"
  by (simp_all add: entry_ttl_def)

text \<open>The counter at a key of a server whose entries are seen by \<open>view\<close>.\<close>

definition counter :: "('r \<Rightarrow> string \<Rightarrow> entry) \<Rightarrow> 'r \<Rightarrow> string \<Rightarrow> int option" where
  "counter view r k = entry_int (view r k)"

text \<open>A command succeeds with a result and an effect on the entries, and the server stays up.\<close>

definition effect ::
  "('r \<Rightarrow> bool) \<Rightarrow> ('r \<Rightarrow> 'v) \<Rightarrow> (exn + 'a) \<times> 'r \<Rightarrow> 'a \<Rightarrow> 'v \<Rightarrow> bool" where
  "effect up view out a v \<longleftrightarrow> fst out = Inr a \<and> up (snd out) \<and> view (snd out) = v"

lemma effectE:
  assumes "effect up view out a v"
  obtains r' where "out = (Inr a, r')" "up r'" "view r' = v"
  using assms by (cases out) (auto simp: effect_def)

locale redis_strings =
  fixes R :: "'r redis_ops"
    and up :: "'r \<Rightarrow> bool"
    and entry :: "'r \<Rightarrow> string \<Rightarrow> entry"
  assumes get_law: "up r \<Longrightarrow> rd_get R k r = (Inr (map_option fst (entry r k)), r)"
    and set_law: "up r \<Longrightarrow> effect up entry (rd_set R k v r) () ((entry r)(k := Some (v, None)))"
    and set_nx_ex_law: "up r \<Longrightarrow> 0 < t \<Longrightarrow>
      effect up entry (rd_set_nx_ex R k v t r) (entry r k = None)
        (if entry r k = None then (entry r)(k := Some (v, Some t)) else entry r)"
    and delete_law: "up r \<Longrightarrow> effect up entry (rd_delete R k r) () ((entry r)(k := None))"
    and incrby_law: "up r \<Longrightarrow> entry_int (entry r k) = Some n \<Longrightarrow> in_int64 (n + a) \<Longrightarrow>
      effect up entry (rd_incrby R k a r) (n + a)
        ((entry r)(k := Some (str_int (n + a), entry_ttl (entry r k))))"
    and decrby_law: "up r \<Longrightarrow> entry_int (entry r k) = Some n \<Longrightarrow> in_int64 (n - a) \<Longrightarrow>
      effect up entry (rd_decrby R k a r) (n - a)
        ((entry r)(k := Some (str_int (n - a), entry_ttl (entry r k))))"
    and expire_law: "up r \<Longrightarrow> 0 < t \<Longrightarrow>
      effect up entry (rd_expire R k t r) ()
        ((entry r)(k := map_option (\<lambda>(v, _). (v, Some t)) (entry r k)))"
    and elapse_law: "up r \<Longrightarrow> 0 \<le> n \<Longrightarrow>
      up (rd_elapse R n r) \<and> entry (rd_elapse R n r) = (\<lambda>k. entry_after n (entry r k))"
begin

lemma incrby_counter:
  assumes "up r" and "counter entry r k = Some n" and "in_int64 (n + a)"
  obtains r' where "rd_incrby R k a r = (Inr (n + a), r')" "up r'"
    "counter entry r' = (counter entry r)(k := Some (n + a))"
    "entry_ttl (entry r' k) = entry_ttl (entry r k)"
proof -
  from incrby_law [OF assms(1) assms(2) [unfolded counter_def] assms(3)] obtain r' where
    r': "rd_incrby R k a r = (Inr (n + a), r')" "up r'"
    "entry r' = (entry r)(k := Some (str_int (n + a), entry_ttl (entry r k)))"
    by (rule effectE)
  show ?thesis by (rule that [OF r'(1,2)]) (simp_all add: r'(3) counter_def fun_eq_iff)
qed

lemma decrby_counter:
  assumes "up r" and "counter entry r k = Some n" and "in_int64 (n - a)"
  obtains r' where "rd_decrby R k a r = (Inr (n - a), r')" "up r'"
    "counter entry r' = (counter entry r)(k := Some (n - a))"
proof -
  from decrby_law [OF assms(1) assms(2) [unfolded counter_def] assms(3)] obtain r' where
    r': "rd_decrby R k a r = (Inr (n - a), r')" "up r'"
    "entry r' = (entry r)(k := Some (str_int (n - a), entry_ttl (entry r k)))"
    by (rule effectE)
  show ?thesis by (rule that [OF r'(1,2)]) (simp_all add: r'(3) counter_def fun_eq_iff)
qed

lemma set_counter:
  assumes "up r"
  obtains r' where "rd_set R k (str_int n) r = (Inr (), r')" "up r'"
    "counter entry r' = (counter entry r)(k := Some n)"
proof -
  from set_law [OF assms, of k "str_int n"] obtain r' where
    r': "rd_set R k (str_int n) r = (Inr (), r')" "up r'"
    "entry r' = (entry r)(k := Some (str_int n, None))"
    by (rule effectE)
  show ?thesis by (rule that [OF r'(1,2)]) (simp_all add: r'(3) counter_def fun_eq_iff)
qed

lemma expire_counter:
  assumes "up r" and "0 < t"
  obtains r' where "rd_expire R k t r = (Inr (), r')" "up r'" "counter entry r' = counter entry r"
    "entry r k \<noteq> None \<Longrightarrow> entry_ttl (entry r' k) = Some t"
proof -
  from expire_law [OF assms, of k] obtain r' where
    r': "rd_expire R k t r = (Inr (), r')" "up r'"
    "entry r' = (entry r)(k := map_option (\<lambda>(v, _). (v, Some t)) (entry r k))"
    by (rule effectE)
  have "entry_int (map_option (\<lambda>(v, _). (v, Some t)) (entry r k)) = entry_int (entry r k)"
    by (cases "entry r k") (auto simp: entry_int_def)
  then show ?thesis
    by (intro that [OF r'(1,2)]) (auto simp: r'(3) counter_def fun_eq_iff)
qed

lemma elapse_counter:
  assumes "up r" and "0 \<le> n"
  shows "counter entry (rd_elapse R n r) k = counter entry r k \<or> counter entry (rd_elapse R n r) k = Some 0"
  using elapse_law [OF assms]
  by (auto simp: counter_def entry_after_def entry_int_def split: option.splits prod.splits if_splits)

end

section \<open>Lists\<close>

text \<open>Redis index ranges are inclusive and count from the end when negative.\<close>

definition redis_index :: "nat \<Rightarrow> int \<Rightarrow> int" where
  "redis_index len i = (if i < 0 then max 0 (int len + i) else i)"

definition redis_range :: "int \<Rightarrow> int \<Rightarrow> 'a list \<Rightarrow> 'a list" where
  "redis_range a b xs =
     (let i = redis_index (length xs) a;
          j = (if b < 0 then int (length xs) + b else b)
      in take (nat (j - i + 1)) (drop (nat i) xs))"

locale redis_lists =
  fixes R :: "'r redis_ops"
    and up :: "'r \<Rightarrow> bool"
    and items :: "'r \<Rightarrow> string \<Rightarrow> string list"
  assumes lpush_law: "up r \<Longrightarrow> effect up items (rd_lpush R k v r) () ((items r)(k := v # items r k))"
    and rpush_law: "up r \<Longrightarrow> effect up items (rd_rpush R k v r) () ((items r)(k := items r k @ [v]))"
    and brpop_law: "up r \<Longrightarrow> effect up items (rd_brpop R k t r)
      (if items r k = [] then None else Some (last (items r k))) ((items r)(k := butlast (items r k)))"
    and ltrim_law: "up r \<Longrightarrow> effect up items (rd_ltrim R k a b r) ()
      ((items r)(k := redis_range a b (items r k)))"
    and lrange_law: "up r \<Longrightarrow> rd_lrange R k a b r = (Inr (redis_range a b (items r k)), r)"

section \<open>Channels\<close>

text \<open>What was published, oldest first: the messages a subscriber of a channel can receive.\<close>

locale redis_pubsub =
  fixes R :: "'r redis_ops"
    and up :: "'r \<Rightarrow> bool"
    and sent :: "'r \<Rightarrow> (string \<times> string) list"
  assumes publish_law: "up r \<Longrightarrow> effect up sent (rd_publish R c v r) () (sent r @ [(c, v)])"

locale redis_service = redis_strings R up entry + redis_lists R up items + redis_pubsub R up sent
  for R :: "'r redis_ops" and up :: "'r \<Rightarrow> bool" and entry :: "'r \<Rightarrow> string \<Rightarrow> entry"
    and items :: "'r \<Rightarrow> string \<Rightarrow> string list" and sent :: "'r \<Rightarrow> (string \<times> string) list" +
  assumes strings_frame: "up r \<Longrightarrow>
      items (snd (rd_set R k v r)) = items r \<and> items (snd (rd_set_nx_ex R k v t r)) = items r \<and>
      items (snd (rd_delete R k r)) = items r \<and> items (snd (rd_incrby R k a r)) = items r \<and>
      items (snd (rd_decrby R k a r)) = items r \<and> items (snd (rd_expire R k t r)) = items r"
    and strings_silent: "up r \<Longrightarrow>
      sent (snd (rd_set R k v r)) = sent r \<and> sent (snd (rd_set_nx_ex R k v t r)) = sent r \<and>
      sent (snd (rd_delete R k r)) = sent r \<and> sent (snd (rd_incrby R k a r)) = sent r \<and>
      sent (snd (rd_decrby R k a r)) = sent r \<and> sent (snd (rd_expire R k t r)) = sent r"
    and lists_frame: "up r \<Longrightarrow>
      entry (snd (rd_lpush R k v r)) = entry r \<and> entry (snd (rd_rpush R k v r)) = entry r \<and>
      entry (snd (rd_brpop R k t r)) = entry r \<and> entry (snd (rd_ltrim R k a b r)) = entry r"
    and lists_silent: "up r \<Longrightarrow>
      sent (snd (rd_lpush R k v r)) = sent r \<and> sent (snd (rd_rpush R k v r)) = sent r \<and>
      sent (snd (rd_brpop R k t r)) = sent r \<and> sent (snd (rd_ltrim R k a b r)) = sent r"
    and publish_frame: "up r \<Longrightarrow>
      entry (snd (rd_publish R c v r)) = entry r \<and> items (snd (rd_publish R c v r)) = items r"
begin

text \<open>The queue end to end: what was pushed is popped, oldest first.\<close>

lemma brpop_oldest:
  assumes "up r" and "items r k = xs @ [x]"
  obtains r' where "rd_brpop R k t r = (Inr (Some x), r')" "up r'" "items r' = (items r)(k := xs)"
    "entry r' = entry r" "sent r' = sent r"
proof -
  from brpop_law [OF assms(1), of k t] assms(2) obtain r' where
    r': "rd_brpop R k t r = (Inr (Some x), r')" "up r'" "items r' = (items r)(k := xs)"
    by (auto elim: effectE)
  show ?thesis
    using lists_frame [OF assms(1)] lists_silent [OF assms(1)] r' by (metis that snd_conv)
qed

end

section \<open>An instance\<close>

text \<open>
  An in-memory server, for the witnesses: values with their remaining seconds, lists, and the
  messages sent.  It is up as long as \<open>rr_up\<close>.
\<close>

record ref_state =
  rr_up :: bool
  rr_entry :: "string \<Rightarrow> entry"
  rr_items :: "string \<Rightarrow> string list"
  rr_sent :: "(string \<times> string) list"

definition ref_do :: "(ref_state \<Rightarrow> exn + 'a) \<Rightarrow> (ref_state \<Rightarrow> ref_state) \<Rightarrow> (ref_state, 'a) handler" where
  "ref_do out f r = (if rr_up r then (out r, if isl (out r) then r else f r)
     else (Inl (RedisError ''Connection refused''), r))"

definition ref_add :: "string \<Rightarrow> int \<Rightarrow> (ref_state, int) handler" where
  "ref_add k a = ref_do
     (\<lambda>r. case entry_int (rr_entry r k) of None \<Rightarrow> Inl (RedisError ''not an integer'')
        | Some n \<Rightarrow> if in_int64 (n + a) then Inr (n + a) else Inl (RedisError ''overflow''))
     (\<lambda>r. case entry_int (rr_entry r k) of None \<Rightarrow> r
        | Some n \<Rightarrow> rr_entry_update (\<lambda>e. e(k := Some (str_int (n + a), entry_ttl (e k)))) r)"

definition ref_redis :: "ref_state redis_ops" where
  "ref_redis = \<lparr>
     rd_get = (\<lambda>k. ref_do (\<lambda>r. Inr (map_option fst (rr_entry r k))) id),
     rd_set = (\<lambda>k v. ref_do (\<lambda>_. Inr ()) (rr_entry_update (\<lambda>e. e(k := Some (v, None))))),
     rd_set_nx_ex = (\<lambda>k v t. ref_do (\<lambda>r. Inr (rr_entry r k = None))
        (rr_entry_update (\<lambda>e. if e k = None then e(k := Some (v, Some t)) else e))),
     rd_delete = (\<lambda>k. ref_do (\<lambda>_. Inr ()) (rr_entry_update (\<lambda>e. e(k := None)))),
     rd_incrby = ref_add,
     rd_decrby = (\<lambda>k a. ref_add k (- a)),
     rd_expire = (\<lambda>k t. ref_do (\<lambda>_. Inr ())
        (rr_entry_update (\<lambda>e. e(k := map_option (\<lambda>(v, _). (v, Some t)) (e k))))),
     rd_lpush = (\<lambda>k v. ref_do (\<lambda>_. Inr ()) (rr_items_update (\<lambda>l. l(k := v # l k)))),
     rd_rpush = (\<lambda>k v. ref_do (\<lambda>_. Inr ()) (rr_items_update (\<lambda>l. l(k := l k @ [v])))),
     rd_brpop = (\<lambda>k _. ref_do (\<lambda>r. Inr (if rr_items r k = [] then None else Some (last (rr_items r k))))
        (rr_items_update (\<lambda>l. l(k := butlast (l k))))),
     rd_ltrim = (\<lambda>k a b. ref_do (\<lambda>_. Inr ()) (rr_items_update (\<lambda>l. l(k := redis_range a b (l k))))),
     rd_lrange = (\<lambda>k a b. ref_do (\<lambda>r. Inr (redis_range a b (rr_items r k))) id),
     rd_publish = (\<lambda>c v. ref_do (\<lambda>_. Inr ()) (rr_sent_update (\<lambda>m. m @ [(c, v)]))),
     rd_elapse = (\<lambda>n. rr_entry_update (\<lambda>e k. entry_after n (e k))) \<rparr>"

definition ref_redis0 :: ref_state where
  "ref_redis0 = \<lparr>rr_up = True, rr_entry = (\<lambda>_. None), rr_items = (\<lambda>_. []), rr_sent = []\<rparr>"

lemmas ref_redis_simps = ref_redis_def ref_do_def ref_add_def

lemma ref_redis0_simps [simp]: "rr_up ref_redis0" "rr_entry ref_redis0 k = None"
  "rr_items ref_redis0 k = []" "rr_sent ref_redis0 = []"
  by (simp_all add: ref_redis0_def)

interpretation ref_srv: redis_service ref_redis rr_up rr_entry rr_items rr_sent
  by unfold_locales
    (auto simp: ref_redis_simps effect_def split: option.splits)

section \<open>The state of a request\<close>

text \<open>
  Most handlers hold a database session and the Redis client: their state is both, and a
  handler of one of them is lifted to it.
\<close>

record 'r world =
  w_db :: db
  w_redis :: 'r

definition on_db :: "(db, 'a) handler \<Rightarrow> ('r world, 'a) handler" where
  "on_db m = (\<lambda>w. case m (w_db w) of (out, d) \<Rightarrow> (out, w\<lparr>w_db := d\<rparr>))"

definition on_redis :: "('r, 'a) handler \<Rightarrow> ('r world, 'a) handler" where
  "on_redis m = (\<lambda>w. case m (w_redis w) of (out, r) \<Rightarrow> (out, w\<lparr>w_redis := r\<rparr>))"

lemma on_db_run [handler_simps]:
  "on_db m w = (fst (m (w_db w)), w\<lparr>w_db := snd (m (w_db w))\<rparr>)"
  by (simp add: on_db_def split: prod.splits)

lemma on_redis_run [handler_simps]:
  "on_redis m w = (fst (m (w_redis w)), w\<lparr>w_redis := snd (m (w_redis w))\<rparr>)"
  by (simp add: on_redis_def split: prod.splits)

lemma keeps_on_redis [keeps_intros]: "keeps (\<lambda>w. f (w_db w)) (on_redis m)"
  by (simp add: keeps_def on_redis_run)

lemma keeps_on_db: "keeps f m \<Longrightarrow> keeps (\<lambda>w. f (w_db w)) (on_db m)"
  by (simp add: keeps_def on_db_run)

lemma world_update_same [simp]: "w\<lparr>w_db := w_db w\<rparr> = w" "w\<lparr>w_redis := w_redis w\<rparr> = w"
  by simp_all

end
