(* ===== verification/Calendar.thy ===== *)
theory Calendar
  imports Data_Model
begin

text \<open>
  \<open>datetime.strftime('%Y%m%d')\<close> of a UTC time from the epoch on: the proleptic Gregorian date of
  its day.  Two times have the same stamp exactly when they fall on the same UTC day.
\<close>

definition day_number :: "time \<Rightarrow> nat" where
  "day_number t = nat (t div seconds 86400)"

definition leap_year :: "nat \<Rightarrow> bool" where
  "leap_year y \<longleftrightarrow> y mod 4 = 0 \<and> (y mod 100 \<noteq> 0 \<or> y mod 400 = 0)"

definition year_length :: "nat \<Rightarrow> nat" where
  "year_length y = (if leap_year y then 366 else 365)"

definition month_lengths :: "nat \<Rightarrow> nat list" where
  "month_lengths y = [31, if leap_year y then 29 else 28, 31, 30, 31, 30, 31, 31, 30, 31, 30, 31]"

text \<open>Year and day of the year, from a year's first day on.\<close>

function year_day :: "nat \<Rightarrow> nat \<Rightarrow> nat \<times> nat" where
  "year_day y n = (if n < year_length y then (y, n) else year_day (y + 1) (n - year_length y))"
  by pat_completeness auto
termination
  by (relation "measure snd") (auto simp: year_length_def)

declare year_day.simps [simp del]

text \<open>Month and day of the month, both from one.\<close>

fun month_day :: "nat \<Rightarrow> nat list \<Rightarrow> nat \<Rightarrow> nat \<times> nat" where
  "month_day m [] n = (m, n + 1)"
| "month_day m (l # ls) n = (if n < l then (m, n + 1) else month_day (m + 1) ls (n - l))"

definition pad2 :: "nat \<Rightarrow> string" where
  "pad2 n = (if n < 10 then ''0'' @ str_nat n else str_nat n)"

definition date_of :: "nat \<Rightarrow> nat \<times> nat \<times> nat" where
  "date_of n = (let (y, d) = year_day 1970 n in (y, month_day 1 (month_lengths y) d))"

definition day_stamp :: "time \<Rightarrow> string" where
  "day_stamp t = (let (y, m, d) = date_of (day_number t) in str_nat y @ pad2 m @ pad2 d)"

section \<open>Dates determine days\<close>

definition days_between :: "nat \<Rightarrow> nat \<Rightarrow> nat" where
  "days_between a b = sum year_length {a..<b}"

lemma year_day_inverse:
  "year_day y n = (y', n') \<Longrightarrow> y \<le> y' \<and> n = days_between y y' + n' \<and> n' < year_length y'"
proof (induction y n rule: year_day.induct)
  case (1 y n)
  show ?case
  proof (cases "n < year_length y")
    case True
    with 1(2) show ?thesis by (subst (asm) year_day.simps) (simp add: days_between_def)
  next
    case False
    with 1(2) have rec: "year_day (y + 1) (n - year_length y) = (y', n')"
      by (subst (asm) year_day.simps) simp
    from 1(1) [OF False rec] have le: "y + 1 \<le> y'" and eq: "n - year_length y = days_between (y + 1) y' + n'"
      and lt: "n' < year_length y'" by auto
    have "days_between y y' = year_length y + days_between (y + 1) y'"
      using le by (simp add: days_between_def sum.atLeast_Suc_lessThan)
    with le eq lt False show ?thesis by simp
  qed
qed

lemma month_day_inverse:
  "month_day m ls n = (m', n') \<Longrightarrow>
   m \<le> m' \<and> n' \<ge> 1 \<and> m' \<le> m + length ls \<and> n + 1 = sum_list (take (m' - m) ls) + n'"
proof (induction m ls n rule: month_day.induct)
  case (2 m l ls n)
  show ?case
  proof (cases "n < l")
    case False
    with 2 have ih: "m + 1 \<le> m'" "1 \<le> n'" "m' \<le> m + 1 + length ls"
      "n - l + 1 = sum_list (take (m' - (m + 1)) ls) + n'" by auto
    then have "m' - m = Suc (m' - (m + 1))" by simp
    then have "take (m' - m) (l # ls) = l # take (m' - (m + 1)) ls" by simp
    with ih False show ?thesis by auto
  qed (use 2 in auto)
qed auto

lemma month_day_bounds:
  assumes "month_day m ls n = (m', n')" and "n < sum_list ls" and "list_all (\<lambda>l. l \<le> 31) ls"
  shows "m' < m + length ls \<and> n' \<le> 31"
  using assms by (induction m ls n rule: month_day.induct) (auto split: if_splits)

lemma sum_month_lengths: "sum_list (month_lengths y) = year_length y"
  by (simp add: month_lengths_def year_length_def)

lemma date_of_inject: "date_of n = date_of n' \<longleftrightarrow> n = n'"
proof
  assume eq: "date_of n = date_of n'"
  obtain y d where yd: "year_day 1970 n = (y, d)" by fastforce
  obtain y' d' where yd': "year_day 1970 n' = (y', d')" by fastforce
  from eq yd yd' have y: "y' = y" and md: "month_day 1 (month_lengths y) d = month_day 1 (month_lengths y) d'"
    by (auto simp: date_of_def)
  obtain m k where mk: "month_day 1 (month_lengths y) d = (m, k)" by fastforce
  from month_day_inverse [OF mk] month_day_inverse [OF md [symmetric, unfolded mk]] have "d = d'" by simp
  with y yd yd' show "n = n'" by (auto dest!: year_day_inverse)
qed simp

lemma date_of_bounds:
  assumes "date_of n = (y, m, d)"
  shows "1970 \<le> y \<and> 1 \<le> m \<and> m \<le> 12 \<and> 1 \<le> d \<and> d \<le> 31"
proof -
  obtain k where yd: "year_day 1970 n = (y, k)" and md: "month_day 1 (month_lengths y) k = (m, d)"
    using assms by (auto simp: date_of_def split: prod.splits)
  from year_day_inverse [OF yd] have "1970 \<le> y" and "k < year_length y" by auto
  moreover from month_day_inverse [OF md] have "1 \<le> m" "1 \<le> d" by auto
  moreover have "list_all (\<lambda>l. l \<le> 31) (month_lengths y)" by (simp add: month_lengths_def)
  with month_day_bounds [OF md] \<open>k < year_length y\<close> have "m < 1 + length (month_lengths y)" "d \<le> 31"
    by (auto simp: sum_month_lengths)
  then have "m \<le> 12" "d \<le> 31" by (simp_all add: month_lengths_def)
  ultimately show ?thesis by simp
qed

lemma str_nat_inject [simp]: "str_nat m = str_nat n \<longleftrightarrow> m = n"
  using digits_val_str_nat by (metis option.inject)

lemma length_str_nat: "n < 100 \<Longrightarrow> length (str_nat n) = (if n < 10 then 1 else 2)"
  by (subst str_nat.simps, simp, subst str_nat.simps) auto

lemma length_pad2: "n < 100 \<Longrightarrow> length (pad2 n) = 2"
  by (simp add: pad2_def length_str_nat)

lemma pad2_inject: "m < 100 \<Longrightarrow> n < 100 \<Longrightarrow> pad2 m = pad2 n \<longleftrightarrow> m = n"
proof
  assume b: "m < 100" "n < 100" and eq: "pad2 m = pad2 n"
  have val: "digits_val 10 0 False (CHR ''0'' # str_nat k) = Some k" if "k < 10" for k
    using that not_digit_chars digit_char_in [of k]
    by (subst str_nat.simps) (auto simp: digit_val_def [of "CHR ''0''"])
  show "m = n"
  proof (cases "m < 10"; cases "n < 10")
    assume "m < 10" "\<not> n < 10"
    with eq have "digits_val 10 0 False (CHR ''0'' # str_nat m) = digits_val 10 0 False (str_nat n)"
      by (simp add: pad2_def)
    with val [OF \<open>m < 10\<close>] show ?thesis by (simp add: digits_val_str_nat)
  next
    assume "\<not> m < 10" "n < 10"
    with eq have "digits_val 10 0 False (str_nat m) = digits_val 10 0 False (CHR ''0'' # str_nat n)"
      by (simp add: pad2_def)
    with val [OF \<open>n < 10\<close>] show ?thesis by (simp add: digits_val_str_nat)
  qed (use eq in \<open>simp_all add: pad2_def\<close>)
qed simp

text \<open>The stamp changes exactly at midnight UTC.\<close>

lemma day_stamp_inject: "day_stamp s = day_stamp t \<longleftrightarrow> day_number s = day_number t"
proof
  assume eq: "day_stamp s = day_stamp t"
  obtain y m d where a: "date_of (day_number s) = (y, m, d)" by (metis prod_cases3)
  obtain y' m' d' where b: "date_of (day_number t) = (y', m', d')" by (metis prod_cases3)
  from date_of_bounds [OF a] date_of_bounds [OF b]
  have len: "m < 100" "d < 100" "m' < 100" "d' < 100" by auto
  from eq a b have "str_nat y @ pad2 m @ pad2 d = str_nat y' @ pad2 m' @ pad2 d'"
    by (simp add: day_stamp_def)
  with len have "(str_nat y, pad2 m, pad2 d) = (str_nat y', pad2 m', pad2 d')"
    by (simp add: append_eq_append_conv length_pad2 flip: append_assoc)
  with len have "date_of (day_number s) = date_of (day_number t)"
    by (simp add: a b pad2_inject)
  then show "day_number s = day_number t" by (simp add: date_of_inject)
qed (simp add: day_stamp_def)

lemma day_stamp_nonempty [simp]: "day_stamp t \<noteq> []"
  by (simp add: day_stamp_def split: prod.splits)

end
