(* ===== verification/Quotas.thy ===== *)
theory Quotas
  imports Fixtures Redis_Client Calendar
begin

text \<open>
  \<open>api/quotas.py\<close> and \<open>api/routers/quotas.py\<close>: the limits of a user, the usage the platform
  counts against them (rows of the database for running work, Redis counters for the rest), and
  the check every costly request makes.  \<open>enforce\<close> is a check followed by a consumption, not
  one atomic step; the two parts are definitions of their own so that their interleavings can be
  stated.
\<close>

section \<open>Resources\<close>

datatype quota_resource = CONCURRENT_JOBS | JOBS_PER_DAY | STORAGE_MB | INSTANCES
  | LLM_TOKENS_PER_DAY | LIVE_ENDPOINTS

text \<open>The code iterates over the enumeration in the order of its members.\<close>

instantiation quota_resource :: enum
begin

definition enum_quota_resource :: "quota_resource list" where
  "enum_quota_resource =
     [CONCURRENT_JOBS, JOBS_PER_DAY, STORAGE_MB, INSTANCES, LLM_TOKENS_PER_DAY, LIVE_ENDPOINTS]"

definition enum_all_quota_resource :: "(quota_resource \<Rightarrow> bool) \<Rightarrow> bool" where
  "enum_all_quota_resource P \<longleftrightarrow> list_all P enum_class.enum"

definition enum_ex_quota_resource :: "(quota_resource \<Rightarrow> bool) \<Rightarrow> bool" where
  "enum_ex_quota_resource P \<longleftrightarrow> list_ex P enum_class.enum"

instance
proof
  show univ: "UNIV = set (enum_class.enum :: quota_resource list)"
    unfolding enum_quota_resource_def by (auto intro: quota_resource.exhaust)
  show "distinct (enum_class.enum :: quota_resource list)" by (simp add: enum_quota_resource_def)
  show "enum_class.enum_all P \<longleftrightarrow> Ball UNIV P" for P :: "quota_resource \<Rightarrow> bool"
    by (simp add: enum_all_quota_resource_def list_all_iff univ)
  show "enum_class.enum_ex P \<longleftrightarrow> Bex UNIV P" for P :: "quota_resource \<Rightarrow> bool"
    by (simp add: enum_ex_quota_resource_def list_ex_iff univ)
qed

end

fun quota_resource_value :: "quota_resource \<Rightarrow> string" where
  "quota_resource_value CONCURRENT_JOBS = ''concurrent_jobs''"
| "quota_resource_value JOBS_PER_DAY = ''jobs_per_day''"
| "quota_resource_value STORAGE_MB = ''storage_mb''"
| "quota_resource_value INSTANCES = ''instances''"
| "quota_resource_value LLM_TOKENS_PER_DAY = ''llm_tokens_per_day''"
| "quota_resource_value LIVE_ENDPOINTS = ''live_endpoints''"

fun QUOTA_LIMIT_NAMES :: "quota_resource \<Rightarrow> string" where
  "QUOTA_LIMIT_NAMES CONCURRENT_JOBS = ''max_concurrent_jobs''"
| "QUOTA_LIMIT_NAMES JOBS_PER_DAY = ''max_jobs_per_day''"
| "QUOTA_LIMIT_NAMES STORAGE_MB = ''max_storage_mb''"
| "QUOTA_LIMIT_NAMES INSTANCES = ''max_instances''"
| "QUOTA_LIMIT_NAMES LLM_TOKENS_PER_DAY = ''max_llm_tokens_per_day''"
| "QUOTA_LIMIT_NAMES LIVE_ENDPOINTS = ''max_live_endpoints''"

definition DAILY_REDIS_RESOURCES :: "quota_resource list" where
  "DAILY_REDIS_RESOURCES = [JOBS_PER_DAY, LLM_TOKENS_PER_DAY]"

definition ABSOLUTE_REDIS_RESOURCES :: "quota_resource list" where
  "ABSOLUTE_REDIS_RESOURCES = [STORAGE_MB, INSTANCES]"

definition quota_active_job_statuses :: "job_status list" where
  "quota_active_job_statuses = [QUEUED, RUNNING, CANCELLING]"

definition ACTIVE_ENDPOINT_STATUSES :: "endpoint_status list" where
  "ACTIVE_ENDPOINT_STATUSES = [EP_STARTING, EP_LIVE]"

abbreviation redis_backed :: "quota_resource \<Rightarrow> bool" where
  "redis_backed res \<equiv> res \<in> set DAILY_REDIS_RESOURCES \<or> res \<in> set ABSOLUTE_REDIS_RESOURCES"

text \<open>\<open>day or _day_key()\<close>: an absent or empty day falls back to the current one.\<close>

definition quota_counter_key :: "time \<Rightarrow> uuid \<Rightarrow> quota_resource \<Rightarrow> string option \<Rightarrow> string" where
  "quota_counter_key now user_id res day =
     (if res \<in> set DAILY_REDIS_RESOURCES
      then ''perzforge:quota:'' @ str_uuid user_id @ '':'' @ quota_resource_value res @ '':'' @
        (case day of None \<Rightarrow> day_stamp now | Some s \<Rightarrow> if s = [] then day_stamp now else s)
      else ''perzforge:quota:'' @ str_uuid user_id @ '':'' @ quota_resource_value res)"

section \<open>Limits\<close>

definition default_quota :: "settings \<Rightarrow> uuid \<Rightarrow> quota" where
  "default_quota cfg user_id = \<lparr>q_user_id = user_id,
     max_concurrent_jobs = max_concurrent_jobs_per_user cfg,
     max_jobs_per_day = max_jobs_per_day_per_user cfg,
     max_storage_mb = max_storage_mb_per_user cfg,
     max_instances = max_instances_per_user cfg,
     max_llm_tokens_per_day = max_llm_tokens_per_day_per_user cfg,
     max_live_endpoints = max_live_endpoints_per_user cfg\<rparr>"

definition get_or_create_quota :: "settings \<Rightarrow> user \<Rightarrow> (db, quota) handler" where
  "get_or_create_quota cfg u =
     bindE (liftE (\<lambda>d. scalar_one_or_none (filter (\<lambda>q. q_user_id q = u_id u) (quotas d)))) (\<lambda>found.
     case found of
       Some q \<Rightarrow> returnE q
     | None \<Rightarrow>
         bindE (modifyE (quotas_update (\<lambda>t. t @ [default_quota cfg (u_id u)]))) (\<lambda>_.
         returnE (default_quota cfg (u_id u))))"

fun limit_for :: "quota \<Rightarrow> quota_resource \<Rightarrow> int" where
  "limit_for q CONCURRENT_JOBS = max_concurrent_jobs q"
| "limit_for q JOBS_PER_DAY = max_jobs_per_day q"
| "limit_for q STORAGE_MB = max_storage_mb q"
| "limit_for q INSTANCES = max_instances q"
| "limit_for q LLM_TOKENS_PER_DAY = max_llm_tokens_per_day q"
| "limit_for q LIVE_ENDPOINTS = max_live_endpoints q"

section \<open>Usage\<close>

definition count_concurrent_jobs :: "db \<Rightarrow> uuid \<Rightarrow> int" where
  "count_concurrent_jobs d user_id =
     int (length (filter (\<lambda>j. j_user_id j = user_id \<and> j_status j \<in> set quota_active_job_statuses) (jobs d)))"

definition count_live_endpoints :: "db \<Rightarrow> uuid \<Rightarrow> int" where
  "count_live_endpoints d user_id =
     int (length (filter (\<lambda>e. e_user_id e = user_id \<and> e_status e \<in> set ACTIVE_ENDPOINT_STATUSES) (endpoints d)))"

definition read_redis_counter :: "'r redis_ops \<Rightarrow> string \<Rightarrow> ('r, int) handler" where
  "read_redis_counter R key =
     bindE (rd_get R key) (\<lambda>raw.
     case raw of None \<Rightarrow> returnE 0 | Some v \<Rightarrow> liftE (\<lambda>_. py_int v))"

definition current_usage ::
  "'r redis_ops \<Rightarrow> time \<Rightarrow> user \<Rightarrow> quota_resource \<Rightarrow> ('r world, int) handler" where
  "current_usage R now u res =
     (if res = CONCURRENT_JOBS then on_db (getsE (\<lambda>d. count_concurrent_jobs d (u_id u)))
      else if res = LIVE_ENDPOINTS then on_db (getsE (\<lambda>d. count_live_endpoints d (u_id u)))
      else on_redis (read_redis_counter R (quota_counter_key now (u_id u) res None)))"

section \<open>Enforcing and releasing\<close>

definition quota_exceeded :: "quota_resource \<Rightarrow> int \<Rightarrow> int \<Rightarrow> exn" where
  "quota_exceeded res limit current =
     QuotaExceededError (QUOTA_LIMIT_NAMES res @ '' quota exceeded ('' @ str_int current @ ''/'' @
        str_int limit @ '')'') (QUOTA_LIMIT_NAMES res) limit current"

definition enforce_check ::
  "'r redis_ops \<Rightarrow> settings \<Rightarrow> time \<Rightarrow> user \<Rightarrow> quota_resource \<Rightarrow> int \<Rightarrow> ('r world, unit) handler" where
  "enforce_check R cfg now u res amount =
     (if amount < 1 then raiseE (ValueError ''amount must be >= 1'')
      else bindE (on_db (get_or_create_quota cfg u)) (\<lambda>q.
        bindE (current_usage R now u res) (\<lambda>current.
        if current + amount > limit_for q res
        then raiseE (quota_exceeded res (limit_for q res) current)
        else returnE ())))"

definition enforce_consume ::
  "'r redis_ops \<Rightarrow> settings \<Rightarrow> time \<Rightarrow> user \<Rightarrow> quota_resource \<Rightarrow> int \<Rightarrow> ('r world, unit) handler" where
  "enforce_consume R cfg now u res amount =
     (if redis_backed res
      then bindE (on_redis (rd_incrby R (quota_counter_key now (u_id u) res None) amount)) (\<lambda>new_value.
        whenE (new_value = amount \<or> res \<in> set DAILY_REDIS_RESOURCES)
          (on_redis (rd_expire R (quota_counter_key now (u_id u) res None) (quota_counter_ttl_seconds cfg))))
      else returnE ())"

text \<open>The clock is read once for the check and once for the consumption.\<close>

definition enforce ::
  "'r redis_ops \<Rightarrow> settings \<Rightarrow> time \<Rightarrow> time \<Rightarrow> user \<Rightarrow> quota_resource \<Rightarrow> int \<Rightarrow> ('r world, unit) handler" where
  "enforce R cfg now now' u res amount =
     bindE (enforce_check R cfg now u res amount) (\<lambda>_. enforce_consume R cfg now' u res amount)"

definition release ::
  "'r redis_ops \<Rightarrow> time \<Rightarrow> user \<Rightarrow> quota_resource \<Rightarrow> int \<Rightarrow> ('r world, unit) handler" where
  "release R now u res amount =
     (if amount < 1 then raiseE (ValueError ''amount must be >= 1'')
      else if res \<notin> set ABSOLUTE_REDIS_RESOURCES \<and> res \<notin> set DAILY_REDIS_RESOURCES then returnE ()
      else bindE (on_redis (rd_decrby R (quota_counter_key now (u_id u) res None) amount)) (\<lambda>new_value.
        whenE (new_value < 0)
          (on_redis (rd_set R (quota_counter_key now (u_id u) res None) (str_int 0)))))"

text \<open>The snapshot: per resource, in the order of the enumeration, its name, limit and usage.\<close>

fun snapshot_of ::
  "'r redis_ops \<Rightarrow> time \<Rightarrow> user \<Rightarrow> quota \<Rightarrow> quota_resource list \<Rightarrow> ('r world, (string \<times> int \<times> int) list) handler" where
  "snapshot_of R now u q [] = returnE []"
| "snapshot_of R now u q (res # rest) =
     bindE (current_usage R now u res) (\<lambda>current.
     bindE (snapshot_of R now u q rest) (\<lambda>entries.
     returnE ((QUOTA_LIMIT_NAMES res, limit_for q res, current) # entries)))"

definition usage_snapshot ::
  "'r redis_ops \<Rightarrow> settings \<Rightarrow> time \<Rightarrow> user \<Rightarrow> ('r world, (string \<times> int \<times> int) list) handler" where
  "usage_snapshot R cfg now u =
     bindE (on_db (get_or_create_quota cfg u)) (\<lambda>q. snapshot_of R now u q enum_class.enum)"

section \<open>Routes\<close>

record quota_limits_response =
  ql_max_concurrent_jobs :: int
  ql_max_jobs_per_day :: int
  ql_max_storage_mb :: int
  ql_max_instances :: int
  ql_max_llm_tokens_per_day :: int
  ql_max_live_endpoints :: int

definition limits_response :: "quota \<Rightarrow> quota_limits_response" where
  "limits_response q = \<lparr>ql_max_concurrent_jobs = max_concurrent_jobs q,
     ql_max_jobs_per_day = max_jobs_per_day q, ql_max_storage_mb = max_storage_mb q,
     ql_max_instances = max_instances q, ql_max_llm_tokens_per_day = max_llm_tokens_per_day q,
     ql_max_live_endpoints = max_live_endpoints q\<rparr>"

text \<open>The limits and, by the name of the limit, the limit and the current usage.\<close>

type_synonym me_quota_response = "quota_limits_response \<times> (string \<times> int \<times> int) list"

definition get_my_quota ::
  "'r redis_ops \<Rightarrow> settings \<Rightarrow> time \<Rightarrow> user \<Rightarrow>
   ('r world, me_quota_response) handler" where
  "get_my_quota R cfg now u =
     bindE (usage_snapshot R cfg now u) (\<lambda>snapshot.
     bindE (on_db (get_or_create_quota cfg u)) (\<lambda>q.
     returnE (limits_response q, snapshot)))"

text \<open>
  The patch body: an absent field is \<open>None\<close>, an explicit \<open>null\<close> is \<open>Some None\<close>; pydantic
  rejects negative values.
\<close>

record patch_quota_request =
  pq_max_concurrent_jobs :: "int option option"
  pq_max_jobs_per_day :: "int option option"
  pq_max_storage_mb :: "int option option"
  pq_max_instances :: "int option option"
  pq_max_llm_tokens_per_day :: "int option option"
  pq_max_live_endpoints :: "int option option"

fun patch_field :: "patch_quota_request \<Rightarrow> quota_resource \<Rightarrow> int option option" where
  "patch_field b CONCURRENT_JOBS = pq_max_concurrent_jobs b"
| "patch_field b JOBS_PER_DAY = pq_max_jobs_per_day b"
| "patch_field b STORAGE_MB = pq_max_storage_mb b"
| "patch_field b INSTANCES = pq_max_instances b"
| "patch_field b LLM_TOKENS_PER_DAY = pq_max_llm_tokens_per_day b"
| "patch_field b LIVE_ENDPOINTS = pq_max_live_endpoints b"

definition validate_patch_quota :: "patch_quota_request \<Rightarrow> exn + patch_quota_request" where
  "validate_patch_quota b =
     (if list_all (\<lambda>res. case patch_field b res of Some (Some v) \<Rightarrow> 0 \<le> v | _ \<Rightarrow> True) enum_class.enum
      then Inr b else Inl (ValidationError ''greater_than_equal''))"

text \<open>\<open>model_dump(exclude_unset=True)\<close>\<close>

definition patch_updates :: "patch_quota_request \<Rightarrow> (quota_resource \<times> int option) list" where
  "patch_updates b = concat (map (\<lambda>res. case patch_field b res of None \<Rightarrow> [] | Some v \<Rightarrow> [(res, v)])
     enum_class.enum)"

fun set_limit :: "quota_resource \<Rightarrow> int \<Rightarrow> quota \<Rightarrow> quota" where
  "set_limit CONCURRENT_JOBS v q = q\<lparr>max_concurrent_jobs := v\<rparr>"
| "set_limit JOBS_PER_DAY v q = q\<lparr>max_jobs_per_day := v\<rparr>"
| "set_limit STORAGE_MB v q = q\<lparr>max_storage_mb := v\<rparr>"
| "set_limit INSTANCES v q = q\<lparr>max_instances := v\<rparr>"
| "set_limit LLM_TOKENS_PER_DAY v q = q\<lparr>max_llm_tokens_per_day := v\<rparr>"
| "set_limit LIVE_ENDPOINTS v q = q\<lparr>max_live_endpoints := v\<rparr>"

text \<open>The attribute writes: a \<open>None\<close> violates the column's NOT NULL when the session commits.\<close>

fun apply_updates :: "(quota_resource \<times> int option) list \<Rightarrow> quota \<Rightarrow> exn + quota" where
  "apply_updates [] q = Inr q"
| "apply_updates ((res, None) # rest) q = Inl (OtherException ''IntegrityError'')"
| "apply_updates ((res, Some v) # rest) q = apply_updates rest (set_limit res v q)"

definition patch_user_quota ::
  "settings \<Rightarrow> uuid \<Rightarrow> patch_quota_request \<Rightarrow> (db, quota_limits_response) handler" where
  "patch_user_quota cfg user_id body =
     bindE (liftE (\<lambda>d. scalar_one_or_none (filter (\<lambda>u. u_id u = user_id) (users d)))) (\<lambda>found.
     case found of
       None \<Rightarrow> raiseE (HTTPException 404 ''User not found'')
     | Some target \<Rightarrow>
         if patch_updates body = [] then raiseE (HTTPException 422 ''No quota fields provided'')
         else bindE (get_or_create_quota cfg target) (\<lambda>q.
           bindE (liftE (\<lambda>_. apply_updates (patch_updates body) q)) (\<lambda>q'.
           bindE (modifyE (quotas_update (row_put q_user_id q'))) (\<lambda>_.
           returnE (limits_response q')))))"

section \<open>Keys\<close>

lemmas redis_resource_defs = DAILY_REDIS_RESOURCES_def ABSOLUTE_REDIS_RESOURCES_def

abbreviation usage_key :: "time \<Rightarrow> uuid \<Rightarrow> quota_resource \<Rightarrow> string" where
  "usage_key now i res \<equiv> quota_counter_key now i res None"

lemma usage_key_inject:
  "usage_key t i res = usage_key t' i' res' \<longleftrightarrow>
     i = i' \<and> res = res' \<and> (res \<in> set DAILY_REDIS_RESOURCES \<longrightarrow> day_number t = day_number t')"
proof -
  define tail where "tail t res = quota_resource_value res @
      (if res \<in> set DAILY_REDIS_RESOURCES then '':'' @ day_stamp t else [])" for t res
  have key: "usage_key t i res = ''perzforge:quota:'' @ str_uuid i @ CHR '':'' # tail t res" for t i res
    by (simp add: quota_counter_key_def tail_def)
  have tails: "tail t res = tail t' res' \<longleftrightarrow>
      res = res' \<and> (res \<in> set DAILY_REDIS_RESOURCES \<longrightarrow> day_number t = day_number t')"
    by (cases res; cases res') (auto simp: tail_def redis_resource_defs day_stamp_inject)
  have "usage_key t i res = usage_key t' i' res' \<longleftrightarrow>
      str_uuid i @ CHR '':'' # tail t res = str_uuid i' @ CHR '':'' # tail t' res'"
    by (simp add: key)
  also have "\<dots> \<longleftrightarrow> i = i' \<and> tail t res = tail t' res'"
    by (subst sep_append_inject) simp_all
  finally show ?thesis by (simp add: tails)
qed

lemma usage_key_day: "day_number t = day_number t' \<Longrightarrow> usage_key t i res = usage_key t' i res"
  by (simp add: usage_key_inject)

section \<open>What the handlers read\<close>

definition user_limit :: "settings \<Rightarrow> uuid \<Rightarrow> quota_resource \<Rightarrow> db \<Rightarrow> int" where
  "user_limit cfg i res d = limit_for
     (case row_get q_user_id i (quotas d) of Some q \<Rightarrow> q | None \<Rightarrow> default_quota cfg i) res"

definition usage ::
  "('r \<Rightarrow> string \<Rightarrow> entry) \<Rightarrow> time \<Rightarrow> uuid \<Rightarrow> quota_resource \<Rightarrow> 'r world \<Rightarrow> int option" where
  "usage view now i res w =
     (if res = CONCURRENT_JOBS then Some (count_concurrent_jobs (w_db w) i)
      else if res = LIVE_ENDPOINTS then Some (count_live_endpoints (w_db w) i)
      else counter view (w_redis w) (usage_key now i res))"

text \<open>The database with the user's quota row in place.\<close>

definition with_quota :: "settings \<Rightarrow> uuid \<Rightarrow> db \<Rightarrow> db" where
  "with_quota cfg i d = (case row_get q_user_id i (quotas d) of
     Some _ \<Rightarrow> d | None \<Rightarrow> quotas_update (\<lambda>t. t @ [default_quota cfg i]) d)"

lemma get_or_create_quota_run:
  assumes "distinct (map q_user_id (quotas d))"
  shows "get_or_create_quota cfg u d =
    (Inr (case row_get q_user_id (u_id u) (quotas d) of Some q \<Rightarrow> q | None \<Rightarrow> default_quota cfg (u_id u)),
     with_quota cfg (u_id u) d)"
  using assms
  by (simp add: get_or_create_quota_def handler_simps with_quota_def split: option.splits)

lemma with_quota_frame [simp]:
  "jobs (with_quota cfg i d) = jobs d" "endpoints (with_quota cfg i d) = endpoints d"
  "users (with_quota cfg i d) = users d" "models (with_quota cfg i d) = models d"
  by (simp_all add: with_quota_def split: option.split)

lemma user_limit_with_quota [simp]: "user_limit cfg j res (with_quota cfg i d) = user_limit cfg j res d"
  by (auto simp: user_limit_def with_quota_def row_get_append row_get_Cons default_quota_def
      split: option.split)

lemma distinct_with_quota:
  "distinct (map q_user_id (quotas d)) \<Longrightarrow> distinct (map q_user_id (quotas (with_quota cfg i d)))"
  by (auto simp: with_quota_def default_quota_def row_get_None split: option.split)

lemma with_quota_idem [simp]: "with_quota cfg i (with_quota cfg i d) = with_quota cfg i d"
  by (simp add: with_quota_def row_get_append row_get_Cons default_quota_def split: option.split)

lemma counts_with_quota [simp]:
  "count_concurrent_jobs (with_quota cfg i d) j = count_concurrent_jobs d j"
  "count_live_endpoints (with_quota cfg i d) j = count_live_endpoints d j"
  by (simp_all add: count_concurrent_jobs_def count_live_endpoints_def)

lemma usage_with_quota [simp]:
  "usage view now j res (w\<lparr>w_db := with_quota cfg i d\<rparr>) = usage view now j res (w\<lparr>w_db := d\<rparr>)"
  by (simp add: usage_def)

lemma redis_backed_usage:
  "redis_backed res \<Longrightarrow> usage view t i res w = counter view (w_redis w) (usage_key t i res)"
  by (auto simp: usage_def redis_resource_defs)

lemma db_usage:
  "\<not> redis_backed res \<Longrightarrow> usage view t i res (w\<lparr>w_redis := r\<rparr>) = usage view t i res w"
  by (cases res) (auto simp: usage_def redis_resource_defs)

text \<open>A write to one counter changes one usage.\<close>

lemma usage_write:
  assumes "counter view r = (counter view (w_redis w))(usage_key t i res := Some n)"
    and "redis_backed res" and "day_number t' = day_number t"
  shows "usage view t' j res' (w\<lparr>w_redis := r\<rparr>) =
    (if j = i \<and> res' = res then Some n else usage view t' j res' w)"
proof (cases "redis_backed res'")
  case True
  with assms show ?thesis by (simp add: redis_backed_usage usage_key_inject)
next
  case False
  with assms(2) show ?thesis by (auto simp: db_usage)
qed

context redis_strings
begin

lemma current_usage_run:
  assumes "up (w_redis w)" and "usage entry now (u_id u) res w = Some n"
  shows "current_usage R now u res w = (Inr n, w)"
proof -
  have "py_int v = Inr i" if "entry_int (Some (v, t)) = Some i" for v t i
    using that by (simp add: entry_int_def split: sum.splits)
  then show ?thesis
    using assms
    by (cases "entry (w_redis w) (usage_key now (u_id u) res)")
      (auto simp: current_usage_def usage_def read_redis_counter_def counter_def handler_simps
        get_law split: if_splits)
qed

lemma enforce_check_run:
  assumes "up (w_redis w)" and "usage entry now (u_id u) res w = Some n"
    and "distinct (map q_user_id (quotas (w_db w)))" and "1 \<le> amount"
  shows "enforce_check R cfg now u res amount w =
    (if n + amount \<le> user_limit cfg (u_id u) res (w_db w) then Inr ()
     else Inl (quota_exceeded res (user_limit cfg (u_id u) res (w_db w)) n),
     w\<lparr>w_db := with_quota cfg (u_id u) (w_db w)\<rparr>)"
proof -
  let ?w = "w\<lparr>w_db := with_quota cfg (u_id u) (w_db w)\<rparr>"
  have "usage entry now (u_id u) res ?w = Some n" using assms(2) by simp
  then have "current_usage R now u res ?w = (Inr n, ?w)"
    by (intro current_usage_run) (use assms(1) in simp_all)
  with assms(3,4) show ?thesis
    by (simp add: enforce_check_def handler_simps get_or_create_quota_run user_limit_def)
qed

lemma enforce_consume_run:
  assumes "up (w_redis w)" and "usage entry now (u_id u) res w = Some n" and "in_int64 (n + amount)"
    and "0 < quota_counter_ttl_seconds cfg" and "redis_backed res"
  obtains r where "enforce_consume R cfg now u res amount w = (Inr (), w\<lparr>w_redis := r\<rparr>)" "up r"
    "counter entry r = (counter entry (w_redis w))(usage_key now (u_id u) res := Some (n + amount))"
    "n = 0 \<or> res \<in> set DAILY_REDIS_RESOURCES \<Longrightarrow>
      entry_ttl (entry r (usage_key now (u_id u) res)) = Some (quota_counter_ttl_seconds cfg)"
proof -
  let ?k = "usage_key now (u_id u) res"
  have c: "counter entry (w_redis w) ?k = Some n"
    using assms(2,5) by (auto simp: usage_def redis_resource_defs split: if_splits)
  from incrby_law [OF assms(1) c [unfolded counter_def] assms(3)] obtain r' where
    r': "rd_incrby R ?k amount (w_redis w) = (Inr (n + amount), r')" "up r'"
    and e: "entry r' = (entry (w_redis w))(?k := Some (str_int (n + amount), entry_ttl (entry (w_redis w) ?k)))"
    by (rule effectE)
  have c': "counter entry r' = (counter entry (w_redis w))(?k := Some (n + amount))"
    by (simp add: counter_def e fun_eq_iff)
  from r'(2) assms(4) obtain r'' where
    r'': "rd_expire R ?k (quota_counter_ttl_seconds cfg) r' = (Inr (), r'')" "up r''"
      "counter entry r'' = counter entry r'"
      "entry_ttl (entry r'' ?k) = Some (quota_counter_ttl_seconds cfg)"
    using e by (metis expire_counter fun_upd_same option.distinct(1))
  show ?thesis
  proof (cases "n + amount = amount \<or> res \<in> set DAILY_REDIS_RESOURCES")
    case True
    then show ?thesis
      using assms(5) r' r'' c' by (intro that [of r'']) (auto simp: enforce_consume_def handler_simps)
  next
    case False
    then show ?thesis
      using assms(5) r' c' by (intro that [of r']) (auto simp: enforce_consume_def handler_simps)
  qed
qed

lemma enforce_accepted:
  assumes up: "up (w_redis w)" and n: "usage entry now (u_id u) res w = Some n"
    and dist: "distinct (map q_user_id (quotas (w_db w)))" and a: "1 \<le> amount"
    and fits: "n + amount \<le> user_limit cfg (u_id u) res (w_db w)" and red: "redis_backed res"
    and b: "in_int64 (n + amount)" and ttl: "0 < quota_counter_ttl_seconds cfg"
    and day: "day_number now' = day_number now"
  obtains r where
    "enforce R cfg now now' u res amount w =
       (Inr (), w\<lparr>w_db := with_quota cfg (u_id u) (w_db w), w_redis := r\<rparr>)" "up r"
    "counter entry r = (counter entry (w_redis w))(usage_key now (u_id u) res := Some (n + amount))"
    "n = 0 \<Longrightarrow> entry_ttl (entry r (usage_key now (u_id u) res)) = Some (quota_counter_ttl_seconds cfg)"
proof -
  let ?w = "w\<lparr>w_db := with_quota cfg (u_id u) (w_db w)\<rparr>"
  have key: "usage_key now' (u_id u) res = usage_key now (u_id u) res" by (rule usage_key_day [OF day])
  have n': "usage entry now' (u_id u) res ?w = Some n"
    using n red by (simp add: redis_backed_usage key)
  have up': "up (w_redis ?w)" using up by simp
  from enforce_consume_run [OF up' n' b ttl red] obtain r where
    r: "enforce_consume R cfg now' u res amount ?w = (Inr (), ?w\<lparr>w_redis := r\<rparr>)" "up r"
      "counter entry r = (counter entry (w_redis ?w))(usage_key now' (u_id u) res := Some (n + amount))"
      "n = 0 \<or> res \<in> set DAILY_REDIS_RESOURCES \<Longrightarrow>
        entry_ttl (entry r (usage_key now' (u_id u) res)) = Some (quota_counter_ttl_seconds cfg)" by blast
  have "enforce R cfg now now' u res amount w = (Inr (), ?w\<lparr>w_redis := r\<rparr>)"
    using fits r(1) enforce_check_run [OF up n dist a, of cfg] by (simp add: enforce_def handler_simps)
  with that [of r] r(2-4) show ?thesis by (simp add: key)
qed

lemma enforce_refused:
  assumes "up (w_redis w)" and "usage entry now (u_id u) res w = Some n"
    and "distinct (map q_user_id (quotas (w_db w)))" and "1 \<le> amount"
    and "\<not> (n + amount \<le> user_limit cfg (u_id u) res (w_db w) \<and> redis_backed res)"
  shows "enforce R cfg now now' u res amount w =
    (if n + amount \<le> user_limit cfg (u_id u) res (w_db w) then Inr ()
     else Inl (quota_exceeded res (user_limit cfg (u_id u) res (w_db w)) n),
     w\<lparr>w_db := with_quota cfg (u_id u) (w_db w)\<rparr>)"
  using assms(5) enforce_check_run [OF assms(1-4), of cfg]
  by (auto simp: enforce_def handler_simps enforce_consume_def)

lemma release_run:
  assumes "up (w_redis w)" and "usage entry now (u_id u) res w = Some n" and "in_int64 (n - amount)"
    and "1 \<le> amount" and "redis_backed res"
  obtains r where "release R now u res amount w = (Inr (), w\<lparr>w_redis := r\<rparr>)" "up r"
    "counter entry r = (counter entry (w_redis w))(usage_key now (u_id u) res := Some (max 0 (n - amount)))"
proof -
  let ?k = "usage_key now (u_id u) res"
  have c: "counter entry (w_redis w) ?k = Some n"
    using assms(2,5) by (auto simp: usage_def redis_resource_defs split: if_splits)
  from decrby_counter [OF assms(1) c assms(3)] obtain r' where
    r': "rd_decrby R ?k amount (w_redis w) = (Inr (n - amount), r')" "up r'"
      "counter entry r' = (counter entry (w_redis w))(?k := Some (n - amount))" by blast
  from set_counter [OF r'(2), of ?k 0] obtain r'' where
    r'': "rd_set R ?k (str_int 0) r' = (Inr (), r'')" "up r''"
      "counter entry r'' = (counter entry r')(?k := Some 0)" by blast
  show ?thesis
  proof (cases "n - amount < 0")
    case True
    then show ?thesis
      using assms(4,5) r' r'' by (intro that [of r'']) (auto simp: release_def handler_simps)
  next
    case False
    then show ?thesis
      using assms(4,5) r' by (intro that [of r']) (auto simp: release_def handler_simps)
  qed
qed

end

section \<open>Sequences of requests\<close>

definition counters_ok ::
  "settings \<Rightarrow> ('r \<Rightarrow> bool) \<Rightarrow> ('r \<Rightarrow> string \<Rightarrow> entry) \<Rightarrow> 'r world \<Rightarrow> bool" where
  "counters_ok cfg up view w \<longleftrightarrow> up (w_redis w) \<and> distinct (map q_user_id (quotas (w_db w))) \<and>
     (\<forall>i res. user_limit cfg i res (w_db w) < 2 ^ 63) \<and>
     (\<forall>t i res. redis_backed res \<longrightarrow> (\<exists>n. counter view (w_redis w) (usage_key t i res) = Some n \<and>
        0 \<le> n \<and> n \<le> max 0 (user_limit cfg i res (w_db w))))"

text \<open>
  One request at a time, on a server that stays up: enforcement (within one day), release, the
  quota page, time passing on the server, and any other change of the database that leaves the
  quota rows alone.
\<close>

inductive quota_step :: "'r redis_ops \<Rightarrow> settings \<Rightarrow> 'r world \<Rightarrow> 'r world \<Rightarrow> bool"
  for R cfg where
  qs_enforce: "day_number t' = day_number t \<Longrightarrow> enforce R cfg t t' u res amount w = (out, w') \<Longrightarrow>
     quota_step R cfg w w'"
| qs_release: "amount < 2 ^ 62 \<Longrightarrow> release R t u res amount w = (out, w') \<Longrightarrow> quota_step R cfg w w'"
| qs_page: "get_my_quota R cfg t u w = (out', w') \<Longrightarrow> quota_step R cfg w w'"
| qs_elapse: "0 \<le> n \<Longrightarrow> quota_step R cfg w (w\<lparr>w_redis := rd_elapse R n (w_redis w)\<rparr>)"
| qs_other: "quotas d = quotas (w_db w) \<Longrightarrow> quota_step R cfg w (w\<lparr>w_db := d\<rparr>)"

inductive quota_run :: "'r redis_ops \<Rightarrow> settings \<Rightarrow> 'r world \<Rightarrow> 'r world \<Rightarrow> bool"
  for R cfg where
  qr_refl: "quota_run R cfg w w"
| qr_step: "quota_run R cfg w w' \<Longrightarrow> quota_step R cfg w' w'' \<Longrightarrow> quota_run R cfg w w''"

lemma user_limit_cong: "quotas d = quotas d' \<Longrightarrow> user_limit cfg i res d = user_limit cfg i res d'"
  by (simp add: user_limit_def)

lemma counters_ok_with_quota:
  "counters_ok cfg up view w \<Longrightarrow> counters_ok cfg up view (w\<lparr>w_db := with_quota cfg i (w_db w)\<rparr>)"
  by (simp add: counters_ok_def distinct_with_quota)

lemma counters_ok_write:
  assumes ok: "counters_ok cfg up view w" and r: "up r"
    and c: "counter view r = (counter view (w_redis w))(usage_key t i res := Some n)"
    and n: "0 \<le> n" "n \<le> max 0 (user_limit cfg i res (w_db w))"
  shows "counters_ok cfg up view (w\<lparr>w_redis := r\<rparr>)"
  using assms by (auto simp: counters_ok_def c usage_key_inject)

lemma counters_okD:
  assumes "counters_ok cfg up view w" and "redis_backed res"
  obtains n where "usage view t i res w = Some n" "0 \<le> n" "n \<le> max 0 (user_limit cfg i res (w_db w))"
proof -
  from assms obtain n where "counter view (w_redis w) (usage_key t i res) = Some n" "0 \<le> n"
    "n \<le> max 0 (user_limit cfg i res (w_db w))" unfolding counters_ok_def by blast
  with assms(2) show ?thesis by (intro that [of n]) (auto simp: usage_def redis_resource_defs)
qed

lemma not_redis_usage:
  "\<not> redis_backed res \<Longrightarrow> \<exists>n. usage view t i res w = Some n"
  by (cases res) (auto simp: usage_def redis_resource_defs)

lemma counters_ok_usage: "counters_ok cfg up view w \<Longrightarrow> \<exists>n. usage view t i res w = Some n"
  using counters_okD [of cfg up view w res t i] not_redis_usage [of res view t i w] by blast

context redis_strings
begin

lemma enforce_counters_ok:
  assumes ok: "counters_ok cfg up entry w" and day: "day_number t' = day_number t"
    and ttl: "0 < quota_counter_ttl_seconds cfg"
    and run: "enforce R cfg t t' u res amount w = (out, w')"
  shows "counters_ok cfg up entry w'"
proof (cases "amount < 1")
  case True
  with run ok show ?thesis by (auto simp: enforce_def enforce_check_def handler_simps)
next
  case False
  let ?w = "w\<lparr>w_db := with_quota cfg (u_id u) (w_db w)\<rparr>"
  have ok': "counters_ok cfg up entry ?w" by (rule counters_ok_with_quota [OF ok])
  obtain n where n: "usage entry t (u_id u) res w = Some n" using counters_ok_usage [OF ok] by blast
  from ok have up: "up (w_redis w)" and dist: "distinct (map q_user_id (quotas (w_db w)))"
    and lim: "user_limit cfg (u_id u) res (w_db w) < 2 ^ 63" by (auto simp: counters_ok_def)
  have a: "1 \<le> amount" using False by simp
  show ?thesis
  proof (cases "n + amount \<le> user_limit cfg (u_id u) res (w_db w) \<and> redis_backed res")
    case False
    with run enforce_refused [OF up n dist a False] ok' show ?thesis by simp
  next
    case True
    then have red: "redis_backed res" and fits: "n + amount \<le> user_limit cfg (u_id u) res (w_db w)" by auto
    from counters_okD [OF ok red] n have "0 \<le> n" by (metis option.inject)
    then have b: "in_int64 (n + amount)" using fits a lim by (simp add: in_int64_def)
    from enforce_accepted [OF up n dist a fits red b ttl day] obtain r where
      r: "enforce R cfg t t' u res amount w = (Inr (), ?w\<lparr>w_redis := r\<rparr>)" "up r"
        "counter entry r = (counter entry (w_redis w))(usage_key t (u_id u) res := Some (n + amount))" by blast
    then have "counter entry r = (counter entry (w_redis ?w))(usage_key t (u_id u) res := Some (n + amount))"
      by simp
    from counters_ok_write [OF ok' r(2) this] \<open>0 \<le> n\<close> a fits r(1) run show ?thesis by simp
  qed
qed

lemma release_counters_ok:
  assumes ok: "counters_ok cfg up entry w" and b: "amount < 2 ^ 62"
    and run: "release R t u res amount w = (out, w')"
  shows "counters_ok cfg up entry w'"
proof (cases "amount < 1 \<or> \<not> redis_backed res")
  case True
  with run ok show ?thesis by (auto simp: release_def handler_simps split: if_splits)
next
  case False
  then have red: "redis_backed res" and a: "1 \<le> amount" by auto
  from ok have up: "up (w_redis w)" and lim: "user_limit cfg (u_id u) res (w_db w) < 2 ^ 63"
    by (auto simp: counters_ok_def)
  from counters_okD [OF ok red] obtain n where n: "usage entry t (u_id u) res w = Some n"
    "0 \<le> n" "n \<le> max 0 (user_limit cfg (u_id u) res (w_db w))" by blast
  have "in_int64 (n - amount)" using n a b lim by (auto simp: in_int64_def)
  from release_run [OF up n(1) this a red] obtain r where
    "release R t u res amount w = (Inr (), w\<lparr>w_redis := r\<rparr>)" "up r"
    "counter entry r = (counter entry (w_redis w))(usage_key t (u_id u) res := Some (max 0 (n - amount)))"
    by blast
  with counters_ok_write [OF ok this(2,3)] n a run show ?thesis by auto
qed

lemma snapshot_of_run:
  assumes "up (w_redis w)" and "\<And>res. res \<in> set rs \<Longrightarrow> usage entry now (u_id u) res w = Some (f res)"
  shows "snapshot_of R now u q rs w = (Inr (map (\<lambda>res. (QUOTA_LIMIT_NAMES res, limit_for q res, f res)) rs), w)"
  using assms by (induction rs) (auto simp: handler_simps current_usage_run)

lemma usage_snapshot_run:
  assumes "up (w_redis w)" and "distinct (map q_user_id (quotas (w_db w)))"
    and "\<And>res. usage entry now (u_id u) res w = Some (f res)"
  shows "usage_snapshot R cfg now u w =
    (Inr (map (\<lambda>res. (QUOTA_LIMIT_NAMES res, user_limit cfg (u_id u) res (w_db w), f res)) enum_class.enum),
     w\<lparr>w_db := with_quota cfg (u_id u) (w_db w)\<rparr>)"
proof -
  have "usage entry now (u_id u) res (w\<lparr>w_db := with_quota cfg (u_id u) (w_db w)\<rparr>) = Some (f res)" for res
    using assms(3) by simp
  with assms(1,2) show ?thesis
    by (simp add: usage_snapshot_def handler_simps get_or_create_quota_run snapshot_of_run user_limit_def)
qed

lemma page_counters_ok:
  assumes ok: "counters_ok cfg up entry w" and run: "get_my_quota R cfg t u w = (out, w')"
  shows "counters_ok cfg up entry w'"
proof -
  from counters_ok_usage [OF ok] obtain f where "\<And>res. usage entry t (u_id u) res w = Some (f res)"
    by metis
  with ok have "usage_snapshot R cfg t u w = (Inr (map (\<lambda>res. (QUOTA_LIMIT_NAMES res,
      user_limit cfg (u_id u) res (w_db w), f res)) enum_class.enum), w\<lparr>w_db := with_quota cfg (u_id u) (w_db w)\<rparr>)"
    by (intro usage_snapshot_run) (auto simp: counters_ok_def)
  with run ok have "w' = w\<lparr>w_db := with_quota cfg (u_id u) (w_db w)\<rparr>"
    by (auto simp: get_my_quota_def handler_simps get_or_create_quota_run counters_ok_def distinct_with_quota)
  with counters_ok_with_quota [OF ok] show ?thesis by simp
qed

lemma elapse_counters_ok:
  assumes ok: "counters_ok cfg up entry w" and "0 \<le> n"
  shows "counters_ok cfg up entry (w\<lparr>w_redis := rd_elapse R n (w_redis w)\<rparr>)"
proof -
  from ok have up: "up (w_redis w)" by (simp add: counters_ok_def)
  have "\<exists>m. counter entry (rd_elapse R n (w_redis w)) (usage_key t i res) = Some m \<and>
      0 \<le> m \<and> m \<le> max 0 (user_limit cfg i res (w_db w))" if "redis_backed res" for t i res
    using ok that elapse_counter [OF up assms(2), of "usage_key t i res"]
    by (fastforce simp: counters_ok_def)
  with ok elapse_law [OF up assms(2)] show ?thesis by (simp add: counters_ok_def)
qed

lemma quota_step_ok:
  assumes "quota_step R cfg w w'" and "0 < quota_counter_ttl_seconds cfg" and "counters_ok cfg up entry w"
  shows "counters_ok cfg up entry w'"
  using assms
proof (cases rule: quota_step.cases)
  case (qs_other d)
  with assms(3) user_limit_cong [of d "w_db w"] show ?thesis by (simp add: counters_ok_def)
qed (auto intro: enforce_counters_ok release_counters_ok page_counters_ok elapse_counters_ok assms)

lemma quota_run_ok:
  "quota_run R cfg w w' \<Longrightarrow> 0 < quota_counter_ttl_seconds cfg \<Longrightarrow> counters_ok cfg up entry w \<Longrightarrow>
   counters_ok cfg up entry w'"
  by (induction rule: quota_run.induct) (auto intro: quota_step_ok)

end

end
