(* ===== verification/Quota_Properties.thy ===== *)
theory Quota_Properties
  imports Quotas
begin

text \<open>
  What \<open>api/quotas.py\<close> guarantees: exact decisions, bounded counters for requests handled one
  at a time, the round trip of enforcement and release, and the two places where the counters
  and the resources they stand for come apart (interleaved requests, expiry).
\<close>

text \<open>C37: \<open>enforce\<close> accepts an amount exactly when usage plus amount stays within the limit.  A
  refusal names the limit and the current usage and touches no counter; an acceptance adds the
  amount to the user's own counter of that resource (nothing for usage counted in the
  database) and leaves every other usage as it was; an amount below one is an error.\<close>

theorem enforce_decides:
  assumes "redis_strings R up entry" and "up (w_redis w)" and "distinct (map q_user_id (quotas (w_db w)))"
    and "usage entry now (u_id u) res w = Some n" and "in_int64 (n + amount)"
    and "0 < quota_counter_ttl_seconds cfg" and "day_number now' = day_number now"
    and "enforce R cfg now now' u res amount w = (out, w')"
  shows "if amount < 1 then out = Inl (ValueError ''amount must be >= 1'') \<and> w' = w
    else if user_limit cfg (u_id u) res (w_db w) < n + amount
    then out = Inl (quota_exceeded res (user_limit cfg (u_id u) res (w_db w)) n) \<and> w_redis w' = w_redis w
    else out = Inr () \<and> up (w_redis w') \<and> (\<forall>i res'. usage entry now i res' w' =
       (if i = u_id u \<and> res' = res \<and> redis_backed res then Some (n + amount) else usage entry now i res' w))"
proof (cases "amount < 1")
  case True
  with assms(8) show ?thesis by (auto simp: enforce_def enforce_check_def handler_simps)
next
  case False
  let ?w = "w\<lparr>w_db := with_quota cfg (u_id u) (w_db w)\<rparr>"
  have a: "1 \<le> amount" using False by simp
  show ?thesis
  proof (cases "n + amount \<le> user_limit cfg (u_id u) res (w_db w) \<and> redis_backed res")
    case True
    then have fits: "n + amount \<le> user_limit cfg (u_id u) res (w_db w)" and red: "redis_backed res" by auto
    from redis_strings.enforce_accepted [OF assms(1,2,4,3) a fits red assms(5,6,7)] obtain r where
      r: "enforce R cfg now now' u res amount w = (Inr (), ?w\<lparr>w_redis := r\<rparr>)" "up r"
        "counter entry r = (counter entry (w_redis w))(usage_key now (u_id u) res := Some (n + amount))" by blast
    have "usage entry now i res' (w\<lparr>w_redis := r\<rparr>) =
        (if i = u_id u \<and> res' = res then Some (n + amount) else usage entry now i res' w)" for i res'
      by (rule usage_write [OF r(3) red refl])
    moreover have "usage entry now i res' (?w\<lparr>w_redis := r\<rparr>) = usage entry now i res' (w\<lparr>w_redis := r\<rparr>)"
      for i res' by (simp add: usage_def)
    ultimately show ?thesis using r(1,2) assms(8) True False by simp
  next
    case no: False
    from redis_strings.enforce_refused [OF assms(1,2,4,3) a no] assms(2,8) no False show ?thesis by auto
  qed
qed

definition world0 :: "ref_state world" where
  "world0 = \<lparr>w_db = db0, w_redis = ref_redis0\<rparr>"

lemma world0_simps [simp]: "w_db world0 = db0" "w_redis world0 = ref_redis0"
  by (simp_all add: world0_def)

lemma user_limit_db0: "user_limit cfg0 i res db0 = limit_for (default_quota cfg0 i) res"
  by (simp add: user_limit_def)

lemma usage_world0: "usage rr_entry t i res world0 = Some 0"
  by (simp add: usage_def counter_def count_concurrent_jobs_def count_live_endpoints_def)

lemma cfg0_quota [simp]: "quota_counter_ttl_seconds cfg0 = 172800"
  "max_concurrent_jobs (default_quota cfg0 i) = 2" "max_jobs_per_day (default_quota cfg0 i) = 10"
  "max_storage_mb (default_quota cfg0 i) = 2048" "max_instances (default_quota cfg0 i) = 1"
  "max_llm_tokens_per_day (default_quota cfg0 i) = 50000" "max_live_endpoints (default_quota cfg0 i) = 1"
  by (simp_all add: default_quota_def cfg0_def default_settings_def)

theorem enforce_decides_witness:
  "fst (enforce ref_redis cfg0 5 5 alice STORAGE_MB 3000 world0) =
     Inl (quota_exceeded STORAGE_MB 2048 0) \<and>
   fst (enforce ref_redis cfg0 5 5 alice STORAGE_MB 40 world0) = Inr ()"
proof -
  note d = enforce_decides [OF ref_srv.redis_strings_axioms, where w = world0 and u = alice
      and res = STORAGE_MB and n = 0 and now = 5 and now' = 5 and cfg = cfg0]
  have "fst (enforce ref_redis cfg0 5 5 alice STORAGE_MB 3000 world0) = Inl (quota_exceeded STORAGE_MB 2048 0)"
    using d [where amount = 3000, OF _ _ _ _ _ _ prod.collapse [symmetric]]
    by (simp add: usage_world0 user_limit_db0 in_int64_def)
  moreover have "fst (enforce ref_redis cfg0 5 5 alice STORAGE_MB 40 world0) = Inr ()"
    using d [where amount = 40, OF _ _ _ _ _ _ prod.collapse [symmetric]]
    by (simp add: usage_world0 user_limit_db0 in_int64_def)
  ultimately show ?thesis ..
qed

text \<open>Handled one request at a time, no sequence of enforcements, releases, quota pages and
  expiries takes a Redis counter below zero or above the user's limit, on any day.\<close>

theorem quota_counters_bounded:
  assumes "redis_strings R up entry" and "quota_run R cfg w w'" and "0 < quota_counter_ttl_seconds cfg"
    and "counters_ok cfg up entry w" and "redis_backed res"
  shows "\<exists>n. usage entry t i res w' = Some n \<and> 0 \<le> n \<and> n \<le> max 0 (user_limit cfg i res (w_db w'))"
proof -
  from redis_strings.quota_run_ok [OF assms(1-4)] have "counters_ok cfg up entry w'" .
  from counters_okD [OF this assms(5)] show ?thesis by metis
qed

lemma counters_ok_world0: "counters_ok cfg0 rr_up rr_entry world0"
proof -
  have "user_limit cfg0 i res db0 < 2 ^ 63" for i res
    by (cases res) (simp_all add: user_limit_db0)
  then show ?thesis by (simp add: counters_ok_def counter_def)
qed

theorem quota_counters_bounded_witness:
  "\<exists>n. usage rr_entry 5 1 INSTANCES (snd (enforce ref_redis cfg0 5 5 alice INSTANCES 1 world0)) = Some n \<and>
     0 \<le> n \<and> n \<le> 1"
proof -
  let ?w = "snd (enforce ref_redis cfg0 5 5 alice INSTANCES 1 world0)"
  have run: "quota_run ref_redis cfg0 world0 ?w"
    by (rule qr_step [OF qr_refl qs_enforce [OF refl prod.collapse [symmetric]]])
  have "user_limit cfg0 1 INSTANCES (w_db ?w) = 1"
    using ref_srv.enforce_counters_ok
    by (simp add: enforce_def enforce_check_def enforce_consume_def handler_simps user_limit_db0
        get_or_create_quota_run current_usage_def read_redis_counter_def ref_redis_simps
        redis_resource_defs split: sum.split prod.split)
  with quota_counters_bounded [OF ref_srv.redis_strings_axioms run _ counters_ok_world0, of INSTANCES 5 1]
  show ?thesis by (simp add: redis_resource_defs)
qed

lemma enforce_fits:
  assumes "redis_strings R up entry" and "up (w_redis w)" and "usage entry now (u_id u) res w = Some n"
    and "distinct (map q_user_id (quotas (w_db w)))" and "enforce R cfg now now' u res amount w = (Inr (), w1)"
  shows "1 \<le> amount \<and> n + amount \<le> user_limit cfg (u_id u) res (w_db w)"
proof (cases "amount < 1")
  case True
  with assms(5) show ?thesis by (auto simp: enforce_def enforce_check_def handler_simps)
next
  case False
  then have "1 \<le> amount" by simp
  from redis_strings.enforce_check_run [OF assms(1-4) this, of cfg] assms(5) False
  show ?thesis by (auto simp: enforce_def handler_simps split: if_splits)
qed

text \<open>Releasing what an accepted \<open>enforce\<close> consumed restores every usage of every user, and a
  release of more than is in use stops at zero.\<close>

theorem release_after_enforce:
  assumes "redis_strings R up entry" and "counters_ok cfg up entry w" and "redis_backed res"
    and "0 < quota_counter_ttl_seconds cfg" and "day_number now' = day_number now"
    and "enforce R cfg now now' u res amount w = (Inr (), w1)"
    and "1 \<le> amount'" and "amount' < 2 ^ 62"
  shows "\<exists>w2. release R now u res amount' w1 = (Inr (), w2) \<and>
     (\<forall>i res'. usage entry now i res' w2 =
        (if i = u_id u \<and> res' = res
         then map_option (\<lambda>n. max 0 (n + amount - amount')) (usage entry now i res w)
         else usage entry now i res' w))"
proof -
  obtain n where n: "usage entry now (u_id u) res w = Some n" "0 \<le> n"
    "n \<le> max 0 (user_limit cfg (u_id u) res (w_db w))"
    by (rule counters_okD [OF assms(2,3)])
  from assms(2) have up: "up (w_redis w)" and dist: "distinct (map q_user_id (quotas (w_db w)))"
    and lim: "user_limit cfg (u_id u) res (w_db w) < 2 ^ 63" by (auto simp: counters_ok_def)
  from enforce_fits [OF assms(1) up n(1) dist assms(6)]
  have a: "1 \<le> amount" and fits: "n + amount \<le> user_limit cfg (u_id u) res (w_db w)" by auto
  have b: "in_int64 (n + amount)" using fits a n lim by (simp add: in_int64_def)
  from redis_strings.enforce_accepted [OF assms(1) up n(1) dist a fits assms(3) b assms(4,5)] obtain r where
    r: "enforce R cfg now now' u res amount w = (Inr (), w\<lparr>w_db := with_quota cfg (u_id u) (w_db w), w_redis := r\<rparr>)"
      "up r" "counter entry r = (counter entry (w_redis w))(usage_key now (u_id u) res := Some (n + amount))"
    by blast
  with assms(6) have w1: "w1 = w\<lparr>w_db := with_quota cfg (u_id u) (w_db w), w_redis := r\<rparr>" by simp
  have u1: "usage entry now i res' w1 = (if i = u_id u \<and> res' = res then Some (n + amount)
      else usage entry now i res' w)" for i res'
  proof -
    have "usage entry now i res' w1 = usage entry now i res' (w\<lparr>w_redis := r\<rparr>)"
      by (simp add: w1 usage_def)
    then show ?thesis by (simp only: usage_write [OF r(3) assms(3) refl])
  qed
  have b': "in_int64 (n + amount - amount')" using b a n(2) assms(7,8) by (simp add: in_int64_def)
  have up1: "up (w_redis w1)" using r(2) w1 by simp
  have n1: "usage entry now (u_id u) res w1 = Some (n + amount)" by (simp add: u1)
  from redis_strings.release_run [OF assms(1) up1 n1 b' assms(7,3)] obtain r2 where
    r2: "release R now u res amount' w1 = (Inr (), w1\<lparr>w_redis := r2\<rparr>)"
      "counter entry r2 = (counter entry (w_redis w1))(usage_key now (u_id u) res := Some (max 0 (n + amount - amount')))"
    by blast
  with usage_write [OF r2(2) assms(3) refl] u1 n(1) show ?thesis by auto
qed

theorem release_after_enforce_witness:
  "\<exists>w1 w2. enforce ref_redis cfg0 5 5 alice STORAGE_MB 40 world0 = (Inr (), w1) \<and>
     release ref_redis 5 alice STORAGE_MB 15 w1 = (Inr (), w2) \<and> usage rr_entry 5 1 STORAGE_MB w2 = Some 25"
proof -
  have "fst (enforce ref_redis cfg0 5 5 alice STORAGE_MB 40 world0) = Inr ()"
    by (simp add: enforce_def enforce_check_def enforce_consume_def handler_simps get_or_create_quota_run
        current_usage_def read_redis_counter_def ref_redis_simps redis_resource_defs in_int64_def)
  then obtain w1 where w1: "enforce ref_redis cfg0 5 5 alice STORAGE_MB 40 world0 = (Inr (), w1)"
    by (metis prod.collapse)
  have "redis_backed STORAGE_MB" by (simp add: redis_resource_defs)
  from release_after_enforce [OF ref_srv.redis_strings_axioms counters_ok_world0 this _ refl w1, of 15]
  obtain w2 where "release ref_redis 5 alice STORAGE_MB 15 w1 = (Inr (), w2)"
    "usage rr_entry 5 1 STORAGE_MB w2 = Some 25"
    by (auto simp: usage_world0 split: if_splits)
  with w1 show ?thesis by blast
qed

text \<open>The check and the consumption of \<open>enforce\<close> are separate commands: when one unit is
  left, two requests that both check before either consumes are both accepted, and the counter
  ends above the limit.\<close>

theorem concurrent_enforce_overshoots:
  assumes "redis_strings R up entry" and "up (w_redis w)" and "distinct (map q_user_id (quotas (w_db w)))"
    and "redis_backed res" and "usage entry now (u_id u) res w = Some n"
    and "user_limit cfg (u_id u) res (w_db w) = n + 1" and "in_int64 n" and "in_int64 (n + 2)"
    and "0 < quota_counter_ttl_seconds cfg"
  shows "\<exists>w1 w2 w3. enforce_check R cfg now u res 1 w = (Inr (), w1) \<and>
    enforce_check R cfg now u res 1 w1 = (Inr (), w1) \<and>
    enforce_consume R cfg now u res 1 w1 = (Inr (), w2) \<and>
    enforce_consume R cfg now u res 1 w2 = (Inr (), w3) \<and>
    usage entry now (u_id u) res w3 = Some (user_limit cfg (u_id u) res (w_db w3) + 1)"
proof -
  let ?w1 = "w\<lparr>w_db := with_quota cfg (u_id u) (w_db w)\<rparr>"
  have c1: "enforce_check R cfg now u res 1 w = (Inr (), ?w1)"
    using redis_strings.enforce_check_run [OF assms(1,2,5,3), of 1 cfg] assms(6) by simp
  have up1: "up (w_redis ?w1)" and n1: "usage entry now (u_id u) res ?w1 = Some n"
    and d1: "distinct (map q_user_id (quotas (w_db ?w1)))"
    using assms(2,3,5) by (simp_all add: distinct_with_quota)
  have c2: "enforce_check R cfg now u res 1 ?w1 = (Inr (), ?w1)"
    using redis_strings.enforce_check_run [OF assms(1) up1 n1 d1, of 1 cfg] assms(6) by simp
  have b1: "in_int64 (n + 1)" using assms(7,8) by (simp add: in_int64_def)
  from redis_strings.enforce_consume_run [OF assms(1) up1 n1 b1 assms(9,4)] obtain r2 where
    r2: "enforce_consume R cfg now u res 1 ?w1 = (Inr (), ?w1\<lparr>w_redis := r2\<rparr>)" "up r2"
      "counter entry r2 = (counter entry (w_redis ?w1))(usage_key now (u_id u) res := Some (n + 1))" by blast
  let ?w2 = "?w1\<lparr>w_redis := r2\<rparr>"
  have up2: "up (w_redis ?w2)" and n2: "usage entry now (u_id u) res ?w2 = Some (n + 1)"
    using r2(2,3) assms(4) by (simp_all add: redis_backed_usage)
  have b2: "in_int64 (n + 1 + 1)" using assms(8) by (simp add: add.assoc)
  from redis_strings.enforce_consume_run [OF assms(1) up2 n2 b2 assms(9,4)] obtain r3 where
    r3: "enforce_consume R cfg now u res 1 ?w2 = (Inr (), ?w2\<lparr>w_redis := r3\<rparr>)"
      "counter entry r3 = (counter entry (w_redis ?w2))(usage_key now (u_id u) res := Some (n + 1 + 1))" by blast
  have "usage entry now (u_id u) res (?w2\<lparr>w_redis := r3\<rparr>) = Some (n + 2)"
    using r3(2) assms(4) by (simp add: redis_backed_usage)
  with c1 c2 r2(1) r3(1) assms(6) show ?thesis by (intro exI conjI) (assumption | simp)+
qed

theorem concurrent_enforce_overshoots_witness:
  "\<exists>w1 w2 w3. enforce_check ref_redis cfg0 5 alice INSTANCES 1 world0 = (Inr (), w1) \<and>
    enforce_consume ref_redis cfg0 5 alice INSTANCES 1 w1 = (Inr (), w2) \<and>
    enforce_consume ref_redis cfg0 5 alice INSTANCES 1 w2 = (Inr (), w3) \<and>
    usage rr_entry 5 1 INSTANCES w3 = Some (user_limit cfg0 1 INSTANCES (w_db w3) + 1)"
  using concurrent_enforce_overshoots [OF ref_srv.redis_strings_axioms, where w = world0 and u = alice
      and res = INSTANCES and n = 0 and now = 5 and cfg = cfg0]
  by (simp add: usage_world0 user_limit_db0 in_int64_def redis_resource_defs) blast

text \<open>The storage counter is not absolute: the enforcement that starts it gives it the time to
  live of the daily counters, and once that has passed the user's usage reads zero and the full
  limit is available again, whatever is still stored.\<close>

theorem storage_counter_expires:
  assumes "redis_strings R up entry" and "up (w_redis w)" and "distinct (map q_user_id (quotas (w_db w)))"
    and "usage entry now (u_id u) STORAGE_MB w = Some 0" and "in_int64 amount"
    and "0 < quota_counter_ttl_seconds cfg"
    and "enforce R cfg now now u STORAGE_MB amount w = (Inr (), w1)"
    and "w2 = w1\<lparr>w_redis := rd_elapse R (quota_counter_ttl_seconds cfg) (w_redis w1)\<rparr>"
  shows "usage entry now (u_id u) STORAGE_MB w1 = Some amount \<and>
    usage entry later (u_id u) STORAGE_MB w2 = Some 0"
proof -
  have red: "redis_backed STORAGE_MB" by (simp add: redis_resource_defs)
  from enforce_fits [OF assms(1,2,4,3,7)]
  have a: "1 \<le> amount" and fits: "0 + amount \<le> user_limit cfg (u_id u) STORAGE_MB (w_db w)" by auto
  have b: "in_int64 (0 + amount)" using assms(5) by simp
  from redis_strings.enforce_accepted [OF assms(1,2,4,3) a fits red b assms(6) refl] assms(7)
  obtain r where up1: "up (w_redis w1)" and w1: "w1 = w\<lparr>w_db := with_quota cfg (u_id u) (w_db w), w_redis := r\<rparr>"
    and c: "counter entry r = (counter entry (w_redis w))(usage_key now (u_id u) STORAGE_MB := Some amount)"
    and ttl: "entry_ttl (entry r (usage_key now (u_id u) STORAGE_MB)) = Some (quota_counter_ttl_seconds cfg)"
    by fastforce
  have key: "usage_key later (u_id u) STORAGE_MB = usage_key now (u_id u) STORAGE_MB"
    by (simp add: usage_key_inject redis_resource_defs)
  from redis_strings.elapse_law [OF assms(1) up1, of "quota_counter_ttl_seconds cfg"] assms(6)
  have e2: "entry (w_redis w2) = (\<lambda>k. entry_after (quota_counter_ttl_seconds cfg) (entry r k))"
    by (simp add: assms(8) w1)
  from ttl obtain v where "entry r (usage_key now (u_id u) STORAGE_MB) = Some (v, Some (quota_counter_ttl_seconds cfg))"
    by (auto simp: entry_ttl_def split: option.splits)
  then have "entry (w_redis w2) (usage_key later (u_id u) STORAGE_MB) = None"
    by (simp add: e2 key entry_after_def)
  with c red show ?thesis by (simp add: redis_backed_usage counter_def w1)
qed

theorem storage_counter_expires_witness:
  "\<exists>w1. enforce ref_redis cfg0 5 5 alice STORAGE_MB 2048 world0 = (Inr (), w1) \<and>
     usage rr_entry (5 + seconds 172800) 1 STORAGE_MB (w1\<lparr>w_redis := rd_elapse ref_redis 172800 (w_redis w1)\<rparr>) = Some 0"
proof -
  have "fst (enforce ref_redis cfg0 5 5 alice STORAGE_MB 2048 world0) = Inr ()"
    by (simp add: enforce_def enforce_check_def enforce_consume_def handler_simps get_or_create_quota_run
        current_usage_def read_redis_counter_def ref_redis_simps redis_resource_defs in_int64_def)
  then obtain w1 where w1: "enforce ref_redis cfg0 5 5 alice STORAGE_MB 2048 world0 = (Inr (), w1)"
    by (metis prod.collapse)
  from storage_counter_expires [OF ref_srv.redis_strings_axioms _ _ _ _ _ w1 refl, of "5 + seconds 172800"] w1
  show ?thesis by (simp add: usage_world0 in_int64_def)
qed

section \<open>The quota page and the admin override\<close>

text \<open>The usage page shows, for each resource in turn, exactly the limit and the usage that
  \<open>enforce\<close> decides with, and moves no counter.\<close>

theorem snapshot_agrees_with_enforce:
  assumes "redis_strings R up entry" and "up (w_redis w)" and "distinct (map q_user_id (quotas (w_db w)))"
    and "\<And>res. usage entry now (u_id u) res w = Some (f res)"
  shows "\<exists>w'. usage_snapshot R cfg now u w =
      (Inr (map (\<lambda>res. (QUOTA_LIMIT_NAMES res, user_limit cfg (u_id u) res (w_db w), f res)) enum_class.enum), w') \<and>
    w_redis w' = w_redis w \<and>
    (\<forall>res amount. 1 \<le> amount \<longrightarrow> (fst (enforce_check R cfg now u res amount w') = Inr () \<longleftrightarrow>
       f res + amount \<le> user_limit cfg (u_id u) res (w_db w)))"
proof -
  let ?w = "w\<lparr>w_db := with_quota cfg (u_id u) (w_db w)\<rparr>"
  have "fst (enforce_check R cfg now u res amount ?w) = Inr () \<longleftrightarrow>
      f res + amount \<le> user_limit cfg (u_id u) res (w_db w)" if "1 \<le> amount" for res amount
    using redis_strings.enforce_check_run [OF assms(1) _ _ _ that, of ?w now u res "f res" cfg] assms(2-4)
    by (simp add: distinct_with_quota)
  with redis_strings.usage_snapshot_run [OF assms(1-4), of cfg] show ?thesis by simp
qed

theorem snapshot_agrees_with_enforce_witness:
  "fst (usage_snapshot ref_redis cfg0 5 alice world0) = Inr
     [(''max_concurrent_jobs'', 2, 0), (''max_jobs_per_day'', 10, 0), (''max_storage_mb'', 2048, 0),
      (''max_instances'', 1, 0), (''max_llm_tokens_per_day'', 50000, 0), (''max_live_endpoints'', 1, 0)]"
  using snapshot_agrees_with_enforce [OF ref_srv.redis_strings_axioms, where w = world0 and u = alice
      and now = 5 and f = "\<lambda>_. 0" and cfg = cfg0]
  by (auto simp: usage_world0 user_limit_db0 enum_quota_resource_def)

lemma map_of_set_fields:
  "map_of (concat (map (\<lambda>r. case f r of None \<Rightarrow> [] | Some v \<Rightarrow> [(r, v)]) rs)) x =
     (if x \<in> set rs then f x else None)"
  by (induction rs) (auto split: option.splits)

lemma distinct_set_fields:
  "distinct rs \<Longrightarrow> distinct (map fst (concat (map (\<lambda>r. case f r of None \<Rightarrow> [] | Some v \<Rightarrow> [(r, v)]) rs)))"
  by (induction rs) (auto split: option.splits)

lemma in_enum_quota_resource: "res \<in> set (enum_class.enum :: quota_resource list)"
  by (rule in_enum)

lemma map_of_patch_updates: "map_of (patch_updates b) = patch_field b"
  by (rule ext) (simp add: patch_updates_def map_of_set_fields in_enum_quota_resource)

lemma distinct_patch_updates: "distinct (map fst (patch_updates b))"
  by (simp add: patch_updates_def distinct_set_fields enum_distinct)

lemma limit_for_set_limit: "limit_for (set_limit res v q) res' = (if res' = res then v else limit_for q res')"
  by (cases res; cases res') simp_all

lemma set_limit_user [simp]: "q_user_id (set_limit res v q) = q_user_id q"
  by (cases res) simp_all

lemma apply_updates_null:
  "(res, None) \<in> set us \<Longrightarrow> apply_updates us q = Inl (OtherException ''IntegrityError'')"
  by (induction us q rule: apply_updates.induct) auto

lemma apply_updates_limits:
  "distinct (map fst us) \<Longrightarrow> (\<forall>res. (res, None) \<notin> set us) \<Longrightarrow>
   \<exists>q'. apply_updates us q = Inr q' \<and> q_user_id q' = q_user_id q \<and>
     (\<forall>res. limit_for q' res = (case map_of us res of Some (Some v) \<Rightarrow> v | _ \<Rightarrow> limit_for q res))"
proof (induction us q rule: apply_updates.induct)
  case (3 res v rest q)
  then obtain q' where q': "apply_updates rest (set_limit res v q) = Inr q'" "q_user_id q' = q_user_id q"
    "\<forall>r. limit_for q' r = (case map_of rest r of Some (Some v) \<Rightarrow> v | _ \<Rightarrow> limit_for (set_limit res v q) r)"
    by auto
  moreover have "map_of rest res = None"
    using 3(2) by (auto simp: map_of_eq_None_iff)
  ultimately show ?case
    by (intro exI [of _ q']) (auto simp: limit_for_set_limit split: option.splits)
qed auto

text \<open>The admin override changes exactly the limits the body names, for that user only; an
  explicit \<open>null\<close> passes validation but fails at the commit and changes no limit.\<close>

theorem patch_quota_sets_limits:
  assumes "distinct (map u_id (users d))" and "distinct (map q_user_id (quotas d))"
    and "row_get u_id i (users d) = Some v" and "patch_updates body \<noteq> []"
    and "patch_user_quota cfg i body d = (out, d')"
  shows "if \<exists>res. patch_field body res = Some None
    then out = Inl (OtherException ''IntegrityError'') \<and> (\<forall>j res. user_limit cfg j res d' = user_limit cfg j res d)
    else \<not> isl out \<and> (\<forall>j res. user_limit cfg j res d' =
       (case patch_field body res of Some (Some n) \<Rightarrow> if j = i then n else user_limit cfg j res d
        | _ \<Rightarrow> user_limit cfg j res d))"
proof -
  let ?q = "case row_get q_user_id i (quotas d) of Some q \<Rightarrow> q | None \<Rightarrow> default_quota cfg i"
  let ?d = "with_quota cfg i d"
  have iv: "u_id v = i" using assms(3) row_get_Some by metis
  have sel: "scalar_one_or_none (filter (\<lambda>u. u_id u = i) (users d)) = Inr (Some v)"
    using assms(1,3) by simp
  have goc: "get_or_create_quota cfg v d = (Inr ?q, ?d)"
    using get_or_create_quota_run [OF assms(2), of cfg v] by (simp only: iv)
  have run: "patch_user_quota cfg i body d =
      (case apply_updates (patch_updates body) ?q of Inl e \<Rightarrow> (Inl e, ?d)
       | Inr q' \<Rightarrow> (Inr (limits_response q'), quotas_update (row_put q_user_id q') ?d))"
    using assms(4) sel goc by (simp add: patch_user_quota_def handler_simps split: sum.split)
  show ?thesis
  proof (cases "\<exists>res. patch_field body res = Some None")
    case True
    then have "\<exists>res. (res, None) \<in> set (patch_updates body)"
      by (metis map_of_SomeD map_of_patch_updates)
    with apply_updates_null have "apply_updates (patch_updates body) ?q = Inl (OtherException ''IntegrityError'')"
      by blast
    with run assms(5) True show ?thesis by simp
  next
    case False
    then have "\<forall>res. (res, None) \<notin> set (patch_updates body)"
      by (metis distinct_patch_updates map_of_eq_Some_iff map_of_patch_updates)
    from apply_updates_limits [OF distinct_patch_updates this, of ?q] obtain q' where
      q': "apply_updates (patch_updates body) ?q = Inr q'" "q_user_id q' = q_user_id ?q"
        "\<forall>res. limit_for q' res = (case patch_field body res of Some (Some v) \<Rightarrow> v | _ \<Rightarrow> limit_for ?q res)"
      by (auto simp: map_of_patch_updates)
    have qi: "q_user_id q' = i"
      using q'(2) by (auto simp: default_quota_def split: option.splits dest: row_get_Some)
    have mem: "i \<in> q_user_id ` set (quotas ?d)"
      by (auto simp: with_quota_def default_quota_def image_iff dest: row_get_Some split: option.split)
    have "row_get q_user_id j (row_put q_user_id q' (quotas ?d)) =
        (if j = i then Some q' else row_get q_user_id j (quotas ?d))" for j
      using mem qi row_put_same [of q_user_id q' "quotas ?d"] by auto
    then have lim: "user_limit cfg j res (quotas_update (row_put q_user_id q') ?d) =
        (if j = i then limit_for q' res else user_limit cfg j res ?d)" for j res
      by (simp add: user_limit_def del: user_limit_with_quota)
    from run q'(1) assms(5) have out: "\<not> isl out" "d' = quotas_update (row_put q_user_id q') ?d" by auto
    have "user_limit cfg j res d' = (case patch_field body res of
        Some (Some n) \<Rightarrow> if j = i then n else user_limit cfg j res d | _ \<Rightarrow> user_limit cfg j res d)" for j res
      using q'(3) by (auto simp: out(2) lim user_limit_def [of cfg i res d] split: option.split)
    with out(1) False show ?thesis by simp
  qed
qed

definition patch0 :: patch_quota_request where
  "patch0 = \<lparr>pq_max_concurrent_jobs = Some (Some 7), pq_max_jobs_per_day = None, pq_max_storage_mb = None,
     pq_max_instances = None, pq_max_llm_tokens_per_day = None, pq_max_live_endpoints = None\<rparr>"

theorem patch_quota_sets_limits_witness:
  "user_limit cfg0 1 CONCURRENT_JOBS (snd (patch_user_quota cfg0 1 patch0 db0)) = 7 \<and>
   fst (patch_user_quota cfg0 1 (patch0\<lparr>pq_max_instances := Some None\<rparr>) db0) =
     Inl (OtherException ''IntegrityError'')"
proof -
  let ?null = "patch0\<lparr>pq_max_instances := Some None\<rparr>"
  note p = patch_quota_sets_limits [where d = db0 and i = 1 and v = alice and cfg = cfg0,
      OF _ _ _ _ prod.collapse [symmetric]]
  have fields: "patch_field patch0 res \<noteq> Some None" for res by (cases res) (simp_all add: patch0_def)
  have nul: "\<exists>res. patch_field ?null res = Some None" by (rule exI [of _ INSTANCES]) simp
  have ne: "patch_updates patch0 \<noteq> []" "patch_updates ?null \<noteq> []"
    by (simp_all add: patch_updates_def enum_quota_resource_def patch0_def)
  have "user_limit cfg0 1 CONCURRENT_JOBS (snd (patch_user_quota cfg0 1 patch0 db0)) =
      (case patch_field patch0 CONCURRENT_JOBS of Some (Some n) \<Rightarrow> n | _ \<Rightarrow> 0)"
    using p [OF _ _ _ ne(1)] fields by (simp add: row_get_Cons patch0_def)
  moreover have "fst (patch_user_quota cfg0 1 ?null db0) = Inl (OtherException ''IntegrityError'')"
    using p [OF _ _ _ ne(2)] nul by (simp only: if_True) (simp add: row_get_Cons)
  ultimately show ?thesis by (simp add: patch0_def)
qed

end
