(* ===== verification/Ownership.thy ===== *)
theory Ownership
  imports Deps
begin

text \<open>
  The ownership check that the job, model and endpoint routes share: fetch the row by its
  identifier and answer 404, as for a row that does not exist, unless the caller owns it or is
  an admin.  Each router has its own copy (\<open>_get_owned_job\<close>, \<open>_get_owned_model\<close>,
  \<open>_get_owned_endpoint\<close>); the contract is stated here once and interpreted on each of them.
\<close>

definition visible_to :: "principal \<Rightarrow> uuid \<Rightarrow> bool" where
  "visible_to p owner \<longleftrightarrow> owner = u_id (p_user p) \<or> u_role (p_user p) = RoleAdmin"

locale owned_resource =
  fixes get_owned :: "uuid \<Rightarrow> principal \<Rightarrow> (db, 'r) handler"
    and rows :: "db \<Rightarrow> 'r list"
    and rid :: "'r \<Rightarrow> uuid"
    and owner :: "'r \<Rightarrow> uuid"
    and missing :: exn
  assumes get_owned_run: "get_owned i p d =
    (case scalar_one_or_none (filter (\<lambda>r. rid r = i) (rows d)) of
       Inl e \<Rightarrow> (Inl e, d)
     | Inr None \<Rightarrow> (Inl missing, d)
     | Inr (Some r) \<Rightarrow>
         if owner r \<noteq> u_id (p_user p) \<and> u_role (p_user p) \<noteq> RoleAdmin then (Inl missing, d) else (Inr r, d))"
begin

lemma get_owned_frame: "snd (get_owned i p d) = d"
  by (simp add: get_owned_run split: sum.split option.split)

lemma get_owned_Inr:
  assumes "get_owned i p d = (Inr r, d')"
  shows "d' = d \<and> r \<in> set (rows d) \<and> rid r = i \<and> visible_to p (owner r)"
  using assms
  by (auto simp: get_owned_run visible_to_def dest!: scalar_one_filterD
      split: sum.splits option.splits if_splits)

lemma get_owned_cases:
  obtains e where "get_owned i p d = (Inl e, d)"
  | r where "get_owned i p d = (Inr r, d)" "r \<in> set (rows d)" "rid r = i" "visible_to p (owner r)"
  using get_owned_frame [of i p d] get_owned_Inr [of i p d]
  by (cases "get_owned i p d"; cases "fst (get_owned i p d)") auto

lemma get_owned_decides:
  assumes "distinct (map rid (rows d))"
  shows "get_owned i p d = (case row_get rid i (rows d) of
     Some r \<Rightarrow> if visible_to p (owner r) then (Inr r, d) else (Inl missing, d) | None \<Rightarrow> (Inl missing, d))"
  using assms by (auto simp: get_owned_run visible_to_def split: option.split)

text \<open>A stranger cannot tell a row of someone else from one that does not exist.\<close>

lemma get_owned_hides:
  assumes "distinct (map rid (rows d))" and "row_get rid i (rows d) = Some r"
    and "\<not> visible_to p (owner r)" and "row_get rid i (rows d2) = None" and "distinct (map rid (rows d2))"
  shows "fst (get_owned i p d) = fst (get_owned i p d2)"
  using assms by (simp add: get_owned_decides)

end

end
