(* ===== verification/Json.thy ===== *)
theory Json
  imports Calendar
begin

text \<open>
  Python's \<open>json\<close> module on the values the code exchanges: \<open>json.dumps\<close> with its default
  separators and escapes, and \<open>json.loads\<close>.  Strings are sequences of code points below 256;
  numbers with a fraction or an exponent are kept as their text.  The parser takes fuel, one
  unit per nested call, and \<open>json_loads\<close> supplies more than the input has characters.
\<close>

datatype json =
    JNull
  | JBool bool
  | JInt int
  | JReal string
  | JStr string
  | JList "json list"
  | JObj "(string \<times> json) list"

text \<open>Duplicate keys: the last one wins.  \<open>dict.get\<close> on anything else is an \<open>AttributeError\<close>.\<close>

definition jlookup :: "string \<Rightarrow> (string \<times> json) list \<Rightarrow> json option" where
  "jlookup k ps = map_of (rev ps) k"

section \<open>Writing\<close>

definition json_escape :: "char \<Rightarrow> string" where
  "json_escape c =
     (if c = CHR 0x22 then [CHR 0x5C, CHR 0x22]
      else if c = CHR 0x5C then [CHR 0x5C, CHR 0x5C]
      else if c = CHR 0x0A then [CHR 0x5C, CHR ''n'']
      else if c = CHR 0x0D then [CHR 0x5C, CHR ''r'']
      else if c = CHR 0x09 then [CHR 0x5C, CHR ''t'']
      else if c = CHR 0x08 then [CHR 0x5C, CHR ''b'']
      else if c = CHR 0x0C then [CHR 0x5C, CHR ''f'']
      else if (of_char c :: nat) < 32 \<or> 128 \<le> (of_char c :: nat)
      then [CHR 0x5C, CHR ''u''] @ hex_fixed 4 (of_char c)
      else [c])"

definition json_quote :: "string \<Rightarrow> string" where
  "json_quote s = CHR 0x22 # concat (map json_escape s) @ [CHR 0x22]"

fun json_dumps :: "json \<Rightarrow> string" where
  "json_dumps JNull = ''null''"
| "json_dumps (JBool b) = (if b then ''true'' else ''false'')"
| "json_dumps (JInt i) = str_int i"
| "json_dumps (JReal t) = t"
| "json_dumps (JStr s) = json_quote s"
| "json_dumps (JList vs) = ''['' @ py_join '', '' (map json_dumps vs) @ '']''"
| "json_dumps (JObj ps) =
     ''{'' @ py_join '', '' (map (\<lambda>(k, v). json_quote k @ '': '' @ json_dumps v) ps) @ ''}''"

section \<open>Reading\<close>

definition json_space :: "char \<Rightarrow> bool" where
  "json_space c \<longleftrightarrow> c = CHR '' '' \<or> c = CHR 0x09 \<or> c = CHR 0x0A \<or> c = CHR 0x0D"

abbreviation skip_ws :: "string \<Rightarrow> string" where
  "skip_ws \<equiv> dropWhile json_space"

definition dec_digit :: "char \<Rightarrow> bool" where
  "dec_digit c \<longleftrightarrow> (48 :: nat) \<le> of_char c \<and> (of_char c :: nat) \<le> 57"

fun unescape :: "char \<Rightarrow> char option" where
  "unescape e =
     (if e = CHR 0x22 \<or> e = CHR 0x5C \<or> e = CHR ''/'' then Some e
      else if e = CHR ''n'' then Some (CHR 0x0A)
      else if e = CHR ''r'' then Some (CHR 0x0D)
      else if e = CHR ''t'' then Some (CHR 0x09)
      else if e = CHR ''b'' then Some (CHR 0x08)
      else if e = CHR ''f'' then Some (CHR 0x0C)
      else None)"

definition put_char :: "char \<Rightarrow> (string \<times> string) option \<Rightarrow> (string \<times> string) option" where
  "put_char c r = map_option (\<lambda>(s, rest). (c # s, rest)) r"

text \<open>The rest of a string literal after its opening quote.\<close>

fun parse_string :: "string \<Rightarrow> (string \<times> string) option" where
  "parse_string [] = None"
| "parse_string (c # cs) =
     (if c = CHR 0x22 then Some ([], cs)
      else if c = CHR 0x5C
      then (case cs of
          [] \<Rightarrow> None
        | e # es \<Rightarrow>
            if e = CHR ''u''
            then (case es of
                h1 # h2 # h3 # h4 # rest \<Rightarrow>
                  (case digits_val 16 0 False [h1, h2, h3, h4] of
                     Some n \<Rightarrow> if CHR ''_'' \<notin> {h1, h2, h3, h4} \<and> n < 256 then put_char (char_of n) (parse_string rest) else None
                   | None \<Rightarrow> None)
              | _ \<Rightarrow> None)
            else (case unescape e of Some d \<Rightarrow> put_char d (parse_string es) | None \<Rightarrow> None))
      else if (of_char c :: nat) < 32 then None
      else put_char c (parse_string cs))"

definition frac_part :: "string \<Rightarrow> string" where
  "frac_part s = (case s of
     c # cs \<Rightarrow> if c = CHR ''.'' \<and> takeWhile dec_digit cs \<noteq> [] then c # takeWhile dec_digit cs else []
   | [] \<Rightarrow> [])"

definition exp_part :: "string \<Rightarrow> string" where
  "exp_part s = (case s of
     [] \<Rightarrow> []
   | e # cs \<Rightarrow>
       if e = CHR ''e'' \<or> e = CHR ''E''
       then (let sign = (case cs of c # _ \<Rightarrow> if c = CHR ''+'' \<or> c = CHR ''-'' then [c] else [] | [] \<Rightarrow> []);
                 ds = takeWhile dec_digit (drop (length sign) cs)
             in if ds = [] then [] else e # sign @ ds)
       else [])"

text \<open>A number: no superfluous leading zero; an integer unless a fraction or an exponent follows.\<close>

definition parse_unsigned :: "bool \<Rightarrow> string \<Rightarrow> (json \<times> string) option" where
  "parse_unsigned neg t =
     (let run = takeWhile dec_digit t;
          ds = (if run \<noteq> [] \<and> hd run = CHR ''0'' then take 1 run else run);
          r1 = drop (length ds) t;
          fp = frac_part r1;
          ep = exp_part (drop (length fp) r1);
          rest = drop (length ep) (drop (length fp) r1)
      in if ds = [] then None
         else if fp = [] \<and> ep = []
         then (case digits_val 10 0 False ds of
                 Some n \<Rightarrow> Some (JInt (if neg then - int n else int n), rest) | None \<Rightarrow> None)
         else Some (JReal ((if neg then ''-'' else []) @ ds @ fp @ ep), rest))"

definition parse_number :: "string \<Rightarrow> (json \<times> string) option" where
  "parse_number s =
     (if s \<noteq> [] \<and> hd s = CHR ''-'' then parse_unsigned True (tl s) else parse_unsigned False s)"

definition parse_literal :: "string \<Rightarrow> (json \<times> string) option" where
  "parse_literal s =
     (if startswith s ''null'' then Some (JNull, drop 4 s)
      else if startswith s ''true'' then Some (JBool True, drop 4 s)
      else if startswith s ''false'' then Some (JBool False, drop 5 s)
      else if startswith s ''NaN'' then Some (JReal ''NaN'', drop 3 s)
      else if startswith s ''Infinity'' then Some (JReal ''Infinity'', drop 8 s)
      else if startswith s ''-Infinity'' then Some (JReal ''-Infinity'', drop 9 s)
      else parse_number s)"

fun parse_value :: "nat \<Rightarrow> string \<Rightarrow> (json \<times> string) option"
  and parse_elements :: "nat \<Rightarrow> string \<Rightarrow> (json list \<times> string) option"
  and parse_members :: "nat \<Rightarrow> string \<Rightarrow> ((string \<times> json) list \<times> string) option" where
  "parse_value 0 s = None"
| "parse_value (Suc n) s =
     (case s of
        [] \<Rightarrow> None
      | c # cs \<Rightarrow>
          if c = CHR 0x22 then map_option (\<lambda>(t, r). (JStr t, r)) (parse_string cs)
          else if c = CHR ''['' then
            (case skip_ws cs of
               [] \<Rightarrow> None
             | x # r \<Rightarrow> if x = CHR '']'' then Some (JList [], r)
                 else map_option (\<lambda>(vs, r'). (JList vs, r')) (parse_elements n (x # r)))
          else if c = CHR ''{'' then
            (case skip_ws cs of
               [] \<Rightarrow> None
             | x # r \<Rightarrow> if x = CHR ''}'' then Some (JObj [], r)
                 else map_option (\<lambda>(ps, r'). (JObj ps, r')) (parse_members n (x # r)))
          else parse_literal s)"
| "parse_elements 0 s = None"
| "parse_elements (Suc n) s =
     (case parse_value n s of
        None \<Rightarrow> None
      | Some (v, r) \<Rightarrow>
          (case skip_ws r of
             [] \<Rightarrow> None
           | x # r' \<Rightarrow>
               if x = CHR '']'' then Some ([v], r')
               else if x = CHR '','' then map_option (\<lambda>(vs, r''). (v # vs, r'')) (parse_elements n (skip_ws r'))
               else None))"
| "parse_members 0 s = None"
| "parse_members (Suc n) s =
     (case s of
        [] \<Rightarrow> None
      | q # cs \<Rightarrow>
          if q \<noteq> CHR 0x22 then None
          else (case parse_string cs of
              None \<Rightarrow> None
            | Some (k, r) \<Rightarrow>
                (case skip_ws r of
                   [] \<Rightarrow> None
                 | x # r1 \<Rightarrow>
                     if x \<noteq> CHR '':'' then None
                     else (case parse_value n (skip_ws r1) of
                         None \<Rightarrow> None
                       | Some (v, r2) \<Rightarrow>
                           (case skip_ws r2 of
                              [] \<Rightarrow> None
                            | y # r3 \<Rightarrow>
                                if y = CHR ''}'' then Some ([(k, v)], r3)
                                else if y = CHR '',''
                                then map_option (\<lambda>(ps, r4). ((k, v) # ps, r4)) (parse_members n (skip_ws r3))
                                else None)))))"

text \<open>\<open>None\<close> is a \<open>JSONDecodeError\<close>.\<close>

definition json_loads :: "string \<Rightarrow> json option" where
  "json_loads s =
     (case parse_value (length s + 1) (skip_ws s) of
        Some (v, r) \<Rightarrow> if skip_ws r = [] then Some v else None
      | None \<Rightarrow> None)"

section \<open>Reading what was written\<close>

text \<open>Values without a \<open>JReal\<close>, whose text the model does not interpret.\<close>

fun plain_json :: "json \<Rightarrow> bool" where
  "plain_json (JReal t) \<longleftrightarrow> False"
| "plain_json (JList vs) \<longleftrightarrow> list_all plain_json vs"
| "plain_json (JObj ps) \<longleftrightarrow> list_all (\<lambda>(_, v). plain_json v) ps"
| "plain_json _ \<longleftrightarrow> True"

definition delim :: "string \<Rightarrow> bool" where
  "delim rest \<longleftrightarrow> rest = [] \<or> hd rest = CHR '','' \<or> hd rest = CHR '']'' \<or> hd rest = CHR ''}''"

lemma hex_fixed_4: "\<exists>h1 h2 h3 h4. hex_fixed 4 n = [h1, h2, h3, h4]"
proof -
  have "\<exists>a b c d. xs = [a, b, c, d]" if "length xs = 4" for xs :: string
    using that by (auto simp: numeral_eq_Suc length_Suc_conv)
  then show ?thesis by (meson length_hex_fixed)
qed

lemma digits_hex_fixed_4:
  assumes "n < 65536"
  shows "digits_val 16 0 False (hex_fixed 4 n) = Some n"
proof -
  have "digits_val 16 0 False (hex_fixed 4 n) = digits_val 16 0 True (hex_fixed 4 n)"
    by (rule digits_val_ok [symmetric]) (use set_hex_fixed length_hex_fixed [of 4 n] in \<open>auto simp del: length_hex_fixed\<close>)
  with assms show ?thesis by (simp add: digits_val_hex_fixed)
qed

lemma parse_string_escaped: "parse_string (json_escape c @ t) = put_char c (parse_string t)"
proof -
  have c: "of_char c < (256 :: nat)" by (rule nat_of_char_less_256)
  consider "c \<in> {CHR 0x22, CHR 0x5C, CHR 0x0A, CHR 0x0D, CHR 0x09, CHR 0x08, CHR 0x0C}"
    | "c \<notin> {CHR 0x22, CHR 0x5C, CHR 0x0A, CHR 0x0D, CHR 0x09, CHR 0x08, CHR 0x0C}"
      "(of_char c :: nat) < 32 \<or> 128 \<le> (of_char c :: nat)"
    | "c \<notin> {CHR 0x22, CHR 0x5C, CHR 0x0A, CHR 0x0D, CHR 0x09, CHR 0x08, CHR 0x0C}"
      "\<not> ((of_char c :: nat) < 32 \<or> 128 \<le> (of_char c :: nat))" by blast
  then show ?thesis
  proof cases
    case 1
    then show ?thesis by (auto simp: json_escape_def)
  next
    case 2
    then have esc: "json_escape c = [CHR 0x5C, CHR ''u''] @ hex_fixed 4 (of_char c)"
      by (simp add: json_escape_def)
    have dig: "digits_val 16 0 False (hex_fixed 4 (of_char c)) = Some (of_char c)"
      by (rule digits_hex_fixed_4) (use c in linarith)
    obtain h1 h2 h3 h4 where h: "hex_fixed 4 (of_char c) = [h1, h2, h3, h4]"
      using hex_fixed_4 by blast
    have "CHR ''_'' \<notin> {h1, h2, h3, h4}"
      using set_hex_fixed [of 4 "of_char c"] not_digit_chars by (auto simp: h)
    with dig c show ?thesis by (simp add: esc h)
  next
    case 3
    then show ?thesis by (simp add: json_escape_def)
  qed
qed

lemma parse_string_quoted:
  "parse_string (concat (map json_escape s) @ CHR 0x22 # rest) = Some (s, rest)"
  by (induction s) (simp_all add: parse_string_escaped put_char_def del: parse_string.simps(2),
      simp add: parse_string.simps)

lemma py_join_Cons2: "py_join sep (x # y # ys) = x @ sep @ py_join sep (y # ys)"
  by (simp add: py_join_def)

lemma py_join_single [simp]: "py_join sep [x] = x"
  by (simp add: py_join_def)

lemma dec_digit_char: "dec_digit (digit_char n) \<longleftrightarrow> n < 10" if "n < 16"
  using that by (auto simp: dec_digit_def of_char_digit_char)

lemma str_nat_digits: "list_all dec_digit (str_nat n)"
proof (induction n rule: str_nat.induct)
  case (1 n)
  then show ?case by (subst str_nat.simps) (auto simp: dec_digit_char)
qed

lemma hd_str_nat: "hd (str_nat n) = CHR ''0'' \<longleftrightarrow> n = 0"
proof (induction n rule: str_nat.induct)
  case (1 n)
  have "digit_val (CHR ''0'') = Some 0" "digit_char 0 = CHR ''0''" by code_simp+
  then have z: "digit_char m = CHR ''0'' \<longleftrightarrow> m = 0" if "m < 10" for m
  proof -
    have "digit_val (digit_char m) = Some m" using that by simp
    with \<open>digit_val (CHR ''0'') = Some 0\<close> \<open>digit_char 0 = CHR ''0''\<close> show ?thesis by (metis option.inject)
  qed
  show ?case
  proof (cases "n < 10")
    case True
    then show ?thesis by (subst str_nat.simps) (simp add: z)
  next
    case False
    with 1 show ?thesis by (subst str_nat.simps) auto
  qed
qed

lemma delim_number:
  assumes "delim rest"
  shows "takeWhile dec_digit (str_nat n @ rest) = str_nat n" and "frac_part rest = []" and "exp_part rest = []"
proof -
  have "takeWhile dec_digit rest = []"
    using assms by (cases rest) (auto simp: delim_def dec_digit_def)
  then show "takeWhile dec_digit (str_nat n @ rest) = str_nat n"
    using str_nat_digits [of n] by (simp add: takeWhile_append2 list_all_iff)
  show "frac_part rest = []" "exp_part rest = []"
    using assms by (cases rest; auto simp: delim_def frac_part_def exp_part_def)+
qed

lemma parse_unsigned_str_nat:
  assumes "delim rest"
  shows "parse_unsigned neg (str_nat n @ rest) = Some (JInt (if neg then - int n else int n), rest)"
proof -
  have "str_nat 0 = ''0''" by code_simp
  then have ds: "(if str_nat n \<noteq> [] \<and> hd (str_nat n) = CHR ''0'' then take 1 (str_nat n) else str_nat n) = str_nat n"
    by (auto simp: hd_str_nat)
  have "drop (length (str_nat n)) (str_nat n @ rest) = rest" by simp
  then show ?thesis
    unfolding parse_unsigned_def Let_def delim_number(1) [OF assms] ds
    by (simp add: delim_number(2,3) [OF assms] digits_val_str_nat)
qed

lemma parse_number_str_int:
  assumes "delim rest"
  shows "parse_number (str_int i @ rest) = Some (JInt i, rest)"
proof (cases "i < 0")
  case True
  then show ?thesis
    using parse_unsigned_str_nat [OF assms, of True "nat (- i)"] by (simp add: str_int_def parse_number_def)
next
  case False
  have "hd (str_nat (nat i) @ rest) \<noteq> CHR ''-''"
    using str_nat_digits [of "nat i"] by (cases "str_nat (nat i)") (auto simp: dec_digit_def)
  with False show ?thesis
    using parse_unsigned_str_nat [OF assms, of False "nat i"] by (simp add: str_int_def parse_number_def)
qed

text \<open>What the text of a value starts with.\<close>

definition value_start :: "char \<Rightarrow> bool" where
  "value_start c \<longleftrightarrow> \<not> json_space c \<and> c \<noteq> CHR '']'' \<and> c \<noteq> CHR ''}''"

lemma dumps_start:
  assumes "plain_json v"
  shows "\<exists>c t. json_dumps v = c # t \<and> value_start c"
proof (cases v)
  case (JInt i)
  obtain c t where c: "str_nat (nat i) = c # t" "dec_digit c"
    using str_nat_digits [of "nat i"] by (cases "str_nat (nat i)") auto
  have "value_start c" using c(2) by (auto simp: value_start_def dec_digit_def json_space_def)
  moreover have "value_start (CHR ''-'')" by (simp add: value_start_def json_space_def)
  ultimately show ?thesis using c(1) by (auto simp: JInt str_int_def)
qed (use assms in \<open>auto simp: value_start_def json_space_def json_quote_def\<close>)

definition parses_back :: "json \<Rightarrow> bool" where
  "parses_back v \<longleftrightarrow> (\<forall>n rest. length (json_dumps v) \<le> n \<longrightarrow> delim rest \<longrightarrow>
     parse_value n (json_dumps v @ rest) = Some (v, rest))"

lemma skip_ws_start: "value_start c \<Longrightarrow> skip_ws (c # t) = c # t"
  by (simp add: value_start_def)

lemma parses_backD:
  "parses_back v \<Longrightarrow> length (json_dumps v) \<le> n \<Longrightarrow> delim rest \<Longrightarrow>
   parse_value n (json_dumps v @ rest) = Some (v, rest)"
  by (simp add: parses_back_def)

lemma parse_elements_back:
  assumes "list_all plain_json vs" and "\<forall>v \<in> set vs. parses_back v"
    and "vs \<noteq> []" and "length (py_join '', '' (map json_dumps vs)) < n"
  shows "parse_elements n (py_join '', '' (map json_dumps vs) @ CHR '']'' # rest) = Some (vs, rest)"
  using assms
proof (induction vs arbitrary: n)
  case Nil
  then show ?case by simp
next
  case (Cons v vs)
  then obtain m where n: "n = Suc m" by (cases n) auto
  have sp: "json_space (CHR '' '')" "\<not> json_space (CHR '','')" "\<not> json_space (CHR '']'')"
    by (simp_all add: json_space_def)
  show ?case
  proof (cases vs)
    case Nil
    have "delim (CHR '']'' # rest)" by (simp add: delim_def)
    with Cons.prems n Nil have "parse_value m (json_dumps v @ CHR '']'' # rest) = Some (v, CHR '']'' # rest)"
      by (intro parses_backD) auto
    then show ?thesis by (simp add: n Nil sp)
  next
    case (Cons w ws)
    let ?j = "py_join '', '' (map json_dumps vs)"
    have j: "py_join '', '' (map json_dumps (v # vs)) = json_dumps v @ '', '' @ ?j"
      by (simp add: Cons py_join_Cons2)
    have len: "length ?j < m" "length (json_dumps v) \<le> m" using Cons.prems(4) unfolding j n by simp_all
    have "delim ('', '' @ ?j @ CHR '']'' # rest)" by (simp add: delim_def)
    with Cons.prems len(2) have pv: "parse_value m (json_dumps v @ '', '' @ ?j @ CHR '']'' # rest) =
        Some (v, '', '' @ ?j @ CHR '']'' # rest)"
      by (intro parses_backD) auto
    from Cons.prems(1) Cons obtain c t where ct: "json_dumps w = c # t" "value_start c"
      using dumps_start [of w] by auto
    then have "skip_ws (CHR '' '' # ?j @ CHR '']'' # rest) = ?j @ CHR '']'' # rest"
      using skip_ws_start by (simp add: Cons py_join_def sp)
    moreover have "parse_elements m (?j @ CHR '']'' # rest) = Some (vs, rest)"
      using Cons.prems len(1) Cons by (intro Cons.IH) auto
    ultimately show ?thesis using pv unfolding n j by (simp add: sp)
  qed
qed

lemma parse_members_back:
  assumes "list_all (\<lambda>(_, v). plain_json v) ps" and "\<forall>(k, v) \<in> set ps. parses_back v"
    and "ps \<noteq> []"
    and "length (py_join '', '' (map (\<lambda>(k, v). json_quote k @ '': '' @ json_dumps v) ps)) < n"
  shows "parse_members n (py_join '', '' (map (\<lambda>(k, v). json_quote k @ '': '' @ json_dumps v) ps) @
    CHR ''}'' # rest) = Some (ps, rest)"
  using assms
proof (induction ps arbitrary: n)
  case Nil
  then show ?case by simp
next
  case (Cons x ps)
  then obtain m where n: "n = Suc m" by (cases n) auto
  obtain k v where x: "x = (k, v)" by fastforce
  let ?f = "\<lambda>(k, v). json_quote k @ '': '' @ json_dumps v"
  have sp: "json_space (CHR '' '')" "\<not> json_space (CHR '','')" "\<not> json_space (CHR ''}'')" "\<not> json_space (CHR '':'')"
    by (simp_all add: json_space_def)
  from Cons.prems(1) x obtain c t where ct: "json_dumps v = c # t" "value_start c"
    using dumps_start [of v] by auto
  have key: "parse_members n (json_quote k @ '': '' @ json_dumps v @ u) =
      (case parse_value m (json_dumps v @ u) of
         None \<Rightarrow> None
       | Some (v, r2) \<Rightarrow> (case skip_ws r2 of [] \<Rightarrow> None
         | y # r3 \<Rightarrow> if y = CHR ''}'' then Some ([(k, v)], r3)
             else if y = CHR '','' then map_option (\<lambda>(ps, r4). ((k, v) # ps, r4)) (parse_members m (skip_ws r3))
             else None))" for u
    using skip_ws_start [OF ct(2)] parse_string_quoted [of k "'': '' @ json_dumps v @ u"]
    by (simp add: n json_quote_def sp ct(1))
  show ?case
  proof (cases ps)
    case Nil
    have "delim (CHR ''}'' # rest)" by (simp add: delim_def)
    with Cons.prems n Nil x have "parse_value m (json_dumps v @ CHR ''}'' # rest) = Some (v, CHR ''}'' # rest)"
      by (intro parses_backD) auto
    then show ?thesis using key [of "CHR ''}'' # rest"] by (simp add: Nil sp x)
  next
    case (Cons y ys)
    let ?j = "py_join '', '' (map ?f ps)"
    have j: "py_join '', '' (map ?f (x # ps)) = json_quote k @ '': '' @ json_dumps v @ '', '' @ ?j"
      by (simp add: Cons x py_join_Cons2)
    have len: "length ?j < m" "length (json_dumps v) \<le> m" using Cons.prems(4) unfolding j n by simp_all
    have "delim ('', '' @ ?j @ CHR ''}'' # rest)" by (simp add: delim_def)
    with Cons.prems len(2) x have pv: "parse_value m (json_dumps v @ '', '' @ ?j @ CHR ''}'' # rest) =
        Some (v, '', '' @ ?j @ CHR ''}'' # rest)"
      by (intro parses_backD) auto
    have "\<exists>t. ?j = CHR 0x22 # t" by (cases y) (simp add: Cons py_join_def json_quote_def)
    then have "skip_ws (CHR '' '' # ?j @ CHR ''}'' # rest) = ?j @ CHR ''}'' # rest"
      by (auto simp: sp) (simp add: json_space_def)
    moreover have "parse_members m (?j @ CHR ''}'' # rest) = Some (ps, rest)"
      using Cons.prems len(1) Cons by (intro Cons.IH) auto
    ultimately have "parse_members n ((json_quote k @ '': '' @ json_dumps v @ '', '' @ ?j) @ CHR ''}'' # rest) =
        Some (x # ps, rest)"
      using pv key [of "'', '' @ ?j @ CHR ''}'' # rest"] by (simp add: sp x)
    then show ?thesis by (simp only: j)
  qed
qed

lemma str_int_start: "\<exists>c t. str_int i = c # t \<and> (c = CHR ''-'' \<or> dec_digit c)"
proof (cases "i < 0")
  case False
  then show ?thesis
    using str_nat_digits [of "nat i"] by (cases "str_nat (nat i)") (auto simp: str_int_def)
qed (simp add: str_int_def)

text \<open>Each kind of value is read back from its text.\<close>

lemma parse_literal_int:
  assumes "delim rest"
  shows "parse_literal (str_int i @ rest) = Some (JInt i, rest)"
proof -
  have "hd (str_int i) = CHR ''-'' \<or> dec_digit (hd (str_int i))" "str_int i \<noteq> []"
    using str_nat_digits [of "nat i"] by (cases "str_nat (nat i)"; auto simp: str_int_def)+
  moreover have "\<not> startswith (str_int i @ rest) ''-Infinity''"
  proof
    assume "startswith (str_int i @ rest) ''-Infinity''"
    then obtain t where t: "str_int i @ rest = ''-Infinity'' @ t" by (auto simp: startswith_iff)
    then have "i < 0"
      using str_nat_digits [of "nat i"] by (cases "str_nat (nat i)") (auto simp: str_int_def dec_digit_def split: if_splits)
    with t have "str_nat (nat (- i)) @ rest = ''Infinity'' @ t" by (simp add: str_int_def)
    then show False
      using str_nat_digits [of "nat (- i)"] by (cases "str_nat (nat (- i))") (auto simp: dec_digit_def)
  qed
  moreover have "\<not> startswith (str_int i @ rest) (x # xs)" if "x \<noteq> CHR ''-''" "\<not> dec_digit x" for x xs
    using that calculation(1,2) by (cases "str_int i") (auto simp: startswith_def)
  ultimately show ?thesis
    unfolding parse_literal_def using parse_number_str_int [OF assms, of i] by (simp add: dec_digit_def)
qed

lemma parses_back_int: "parses_back (JInt i)"
  unfolding parses_back_def
proof (intro allI impI)
  fix n rest
  assume n: "length (json_dumps (JInt i)) \<le> n" and d: "delim rest"
  obtain c t where c: "str_int i = c # t" "c = CHR ''-'' \<or> dec_digit c"
    using str_int_start by blast
  then obtain m where "n = Suc m" using n by (cases n) auto
  with c parse_literal_int [OF d, of i] show "parse_value n (json_dumps (JInt i) @ rest) = Some (JInt i, rest)"
    by (auto simp: dec_digit_def)
qed

lemma parses_back_str: "parses_back (JStr s)"
  unfolding parses_back_def
proof (intro allI impI)
  fix n rest
  assume "length (json_dumps (JStr s)) \<le> n"
  then obtain m where "n = Suc m" by (cases n) (auto simp: json_quote_def)
  then show "parse_value n (json_dumps (JStr s) @ rest) = Some (JStr s, rest)"
    by (simp add: json_quote_def parse_string_quoted)
qed

lemma parses_back_list:
  assumes "\<And>v. v \<in> set vs \<Longrightarrow> parses_back v" and "list_all plain_json vs"
  shows "parses_back (JList vs)"
  unfolding parses_back_def
proof (intro allI impI)
  fix n rest
  assume len: "length (json_dumps (JList vs)) \<le> n"
  then obtain m where n: "n = Suc m" by (cases n) auto
  show "parse_value n (json_dumps (JList vs) @ rest) = Some (JList vs, rest)"
  proof (cases vs)
    case Nil
    then show ?thesis by (simp add: n py_join_def json_space_def)
  next
    case (Cons w ws)
    let ?j = "py_join '', '' (map json_dumps vs)"
    from assms(2) Cons obtain c t where ct: "json_dumps w = c # t" "value_start c"
      using dumps_start [of w] by auto
    then obtain u where u: "?j @ CHR '']'' # rest = c # u" by (simp add: Cons py_join_def)
    have "parse_elements m (?j @ CHR '']'' # rest) = Some (vs, rest)"
      using assms len n Cons by (intro parse_elements_back) (auto simp: list_all_iff)
    then show ?thesis
      using ct(2) u skip_ws_start [OF ct(2), of u] by (simp add: n value_start_def)
  qed
qed

lemma parses_back_obj:
  assumes "\<And>k v. (k, v) \<in> set ps \<Longrightarrow> parses_back v" and "list_all (\<lambda>(_, v). plain_json v) ps"
  shows "parses_back (JObj ps)"
  unfolding parses_back_def
proof (intro allI impI)
  fix n rest
  assume len: "length (json_dumps (JObj ps)) \<le> n"
  then obtain m where n: "n = Suc m" by (cases n) auto
  show "parse_value n (json_dumps (JObj ps) @ rest) = Some (JObj ps, rest)"
  proof (cases ps)
    case Nil
    then show ?thesis by (simp add: n py_join_def json_space_def)
  next
    case (Cons w ws)
    let ?j = "py_join '', '' (map (\<lambda>(k, v). json_quote k @ '': '' @ json_dumps v) ps)"
    obtain u where u: "?j @ CHR ''}'' # rest = CHR 0x22 # u"
      by (cases w) (simp add: Cons py_join_def json_quote_def)
    have "parse_members m (?j @ CHR ''}'' # rest) = Some (ps, rest)"
      using assms len n Cons by (intro parse_members_back) auto
    then show ?thesis using u by (simp add: n json_space_def)
  qed
qed

lemma dumps_parses_back: "plain_json v \<Longrightarrow> parses_back v"
proof (induction v)
  case (JList vs)
  then show ?case by (intro parses_back_list) (auto simp: list_all_iff)
next
  case (JObj ps)
  have "parses_back v" if "(k, v) \<in> set ps" for k v
    by (rule JObj.IH [OF that]) (use JObj.prems that in \<open>auto simp: list_all_iff\<close>)
  then show ?case using JObj.prems by (intro parses_back_obj) auto
next
  case (JBool b)
  then show ?case by (auto simp: parses_back_def parse_literal_def startswith_def Suc_le_eq gr0_conv_Suc split: nat.split elim!: less_natE)
next
  case JNull
  then show ?case by (auto simp: parses_back_def parse_literal_def startswith_def Suc_le_eq gr0_conv_Suc elim!: less_natE)
qed (simp_all add: parses_back_int parses_back_str)

text \<open>Whatever the code dumps, it loads back.\<close>

lemma loads_dumps: "plain_json v \<Longrightarrow> json_loads (json_dumps v) = Some v"
proof -
  assume v: "plain_json v"
  obtain c t where ct: "json_dumps v = c # t" "value_start c" using dumps_start [OF v] by blast
  have "parse_value (length (json_dumps v) + 1) (json_dumps v @ []) = Some (v, [])"
    by (rule parses_backD [OF dumps_parses_back [OF v]]) (simp_all add: delim_def)
  then show ?thesis using ct skip_ws_start [OF ct(2), of t] by (simp add: json_loads_def)
qed

end
