(* ===== verification/Jobs.thy ===== *)
theory Jobs
  imports Quota_Properties Ownership Keys Json
begin

text \<open>
  Job submission and control: \<open>api/schemas/job.py\<close>, \<open>api/queue.py\<close>, \<open>api/job_control.py\<close> and the
  routes of \<open>api/routers/jobs.py\<close>.  A request reads the clock several times; the model takes one
  reading per request.
\<close>

section \<open>Specifications\<close>

text \<open>
  The checks of \<open>JobSpec\<close>, with the field constraints first; pydantic collects every failure in
  one \<open>ValidationError\<close>.  A spec read back from the database is validated again.
\<close>

definition validate_command_is_argv :: "string list \<Rightarrow> bool" where
  "validate_command_is_argv command \<longleftrightarrow> list_all (\<lambda>part. part \<noteq> []) command"

definition validate_allowed_image :: "settings \<Rightarrow> string \<Rightarrow> bool" where
  "validate_allowed_image cfg img \<longleftrightarrow> list_ex (\<lambda>prefix. startswith img prefix) (image_prefixes cfg)"

definition valid_spec :: "settings \<Rightarrow> job_spec \<Rightarrow> bool" where
  "valid_spec cfg spec \<longleftrightarrow> js_image spec \<noteq> [] \<and> js_command spec \<noteq> [] \<and>
     1 \<le> js_timeout_minutes spec \<and> js_timeout_minutes spec \<le> 720 \<and>
     validate_command_is_argv (js_command spec) \<and> validate_allowed_image cfg (js_image spec)"

definition job_spec_model_validate :: "settings \<Rightarrow> job_spec \<Rightarrow> exn + job_spec" where
  "job_spec_model_validate cfg spec =
     (if valid_spec cfg spec then Inr spec else Inl (ValidationError ''JobSpec''))"

record submit_job_request =
  sj_name :: string
  sj_spec :: job_spec

definition validate_submit_job :: "settings \<Rightarrow> submit_job_request \<Rightarrow> exn + submit_job_request" where
  "validate_submit_job cfg body =
     (if 1 \<le> length (sj_name body) \<and> length (sj_name body) \<le> 128 \<and> valid_spec cfg (sj_spec body)
      then Inr body else Inl (ValidationError ''SubmitJobRequest''))"

section \<open>The queue and the control channel\<close>

definition enqueue_job :: "'r redis_ops \<Rightarrow> settings \<Rightarrow> string \<Rightarrow> ('r, unit) handler" where
  "enqueue_job R cfg job_id = rd_lpush R (job_queue_key cfg) job_id"

definition job_control_channel :: "string \<Rightarrow> string" where
  "job_control_channel job_id = ''perzforge:jobs:'' @ job_id @ '':control''"

definition cancel_command_message :: string where
  "cancel_command_message = json_dumps (JObj [(''cmd'', JStr ''cancel'')])"

definition parse_cancel_command :: "string \<Rightarrow> bool" where
  "parse_cancel_command payload =
     (case json_loads payload of
        None \<Rightarrow> False
      | Some (JObj data) \<Rightarrow> jlookup ''cmd'' data = Some (JStr ''cancel'')
      | Some _ \<Rightarrow> False)"

section \<open>Routes\<close>

definition TERMINAL_JOB_STATUSES :: "job_status list" where
  "TERMINAL_JOB_STATUSES = [SUCCEEDED, FAILED, CANCELLED]"

definition JOB_ALREADY_FINISHED :: exn where
  "JOB_ALREADY_FINISHED = HTTPException 409 ''job already finished''"

definition JOB_NOT_FOUND :: exn where
  "JOB_NOT_FOUND = HTTPException 404 ''Job not found''"

record job_response =
  jr_id :: uuid
  jr_name :: string
  jr_spec :: job_spec
  jr_status :: string
  jr_queued_at :: time
  jr_started_at :: "time option"
  jr_finished_at :: "time option"
  jr_worker_id :: "string option"
  jr_exit_code :: "int option"
  jr_error_message :: "string option"
  jr_mlflow_run_id :: "string option"
  jr_artifact_error :: "string option"

definition to_job_response :: "settings \<Rightarrow> job \<Rightarrow> exn + job_response" where
  "to_job_response cfg j = (case job_spec_model_validate cfg (j_spec j) of Inl e \<Rightarrow> Inl e
     | Inr spec \<Rightarrow> Inr \<lparr>jr_id = j_id j, jr_name = j_name j, jr_spec = spec,
         jr_status = job_status_value (j_status j), jr_queued_at = j_queued_at j,
         jr_started_at = j_started_at j, jr_finished_at = j_finished_at j, jr_worker_id = j_worker_id j,
         jr_exit_code = j_exit_code j, jr_error_message = j_error_message j,
         jr_mlflow_run_id = j_mlflow_run_id j, jr_artifact_error = j_artifact_error j\<rparr>)"

definition get_owned_job :: "uuid \<Rightarrow> principal \<Rightarrow> (db, job) handler" where
  "get_owned_job job_id p =
     bindE (liftE (\<lambda>d. scalar_one_or_none (filter (\<lambda>j. j_id j = job_id) (jobs d)))) (\<lambda>found.
     case found of
       None \<Rightarrow> raiseE JOB_NOT_FOUND
     | Some j \<Rightarrow>
         if j_user_id j \<noteq> u_id (p_user p) \<and> u_role (p_user p) \<noteq> RoleAdmin
         then raiseE JOB_NOT_FOUND else returnE j)"

interpretation own_job: owned_resource get_owned_job jobs j_id j_user_id JOB_NOT_FOUND
  by unfold_locales (simp add: get_owned_job_def handler_simps split: sum.split option.split)

text \<open>
  \<open>str(exc)\<close>.  The exceptions of a library carry the text the library gives them; the ones with a
  fixed text are written out.
\<close>

fun exn_str :: "exn \<Rightarrow> string" where
  "exn_str (HTTPException code detail) = str_int code @ '': '' @ detail"
| "exn_str (WebSocketException code reason) = str_int code @ '': '' @ reason"
| "exn_str (QuotaExceededError detail q limit current) = detail"
| "exn_str (ServingError m) = m"
| "exn_str (ValueError m) = m"
| "exn_str (ValidationError m) = m"
| "exn_str MultipleResultsFound = ''Multiple rows were found when one or none was required''"
| "exn_str (RedisError m) = m"
| "exn_str RedisTimeoutError = ''Timeout reading from socket''"
| "exn_str CancelledError = []"
| "exn_str (ImageNotFound m) = m"
| "exn_str (NotFound m) = m"
| "exn_str (APIError m) = m"
| "exn_str (TimeoutException m) = m"
| "exn_str (HTTPError m) = m"
| "exn_str (OtherException m) = m"

text \<open>
  A commit of a changed job: the statement writes the changed columns of the stored row, all at
  once or, when a text is too long for its column, not at all.
\<close>

definition column_fits :: "nat \<Rightarrow> string option \<Rightarrow> bool" where
  "column_fits n v \<longleftrightarrow> (case v of Some s \<Rightarrow> length s \<le> n | None \<Rightarrow> True)"

definition job_columns_fit :: "job \<Rightarrow> bool" where
  "job_columns_fit j \<longleftrightarrow> column_fits 128 (j_worker_id j) \<and> column_fits 1024 (j_error_message j) \<and>
     column_fits 64 (j_mlflow_run_id j) \<and> column_fits 1024 (j_artifact_error j)"

definition update_job :: "uuid \<Rightarrow> (job \<Rightarrow> job) \<Rightarrow> db \<Rightarrow> db" where
  "update_job i f d = jobs_update (rows_update (\<lambda>j. j_id j = i) f) d"

definition commit_job :: "job \<Rightarrow> (job \<Rightarrow> job) \<Rightarrow> (db, job) handler" where
  "commit_job j f =
     (if job_columns_fit (f j) then bindE (modifyE (update_job (j_id j) f)) (\<lambda>_. returnE (f j))
      else raiseE (OtherException ''StringDataRightTruncation''))"

lemma column_fits_simps [simp]: "column_fits n None" "column_fits n (Some s) \<longleftrightarrow> length s \<le> n"
  by (simp_all add: column_fits_def)

definition new_job :: "time \<Rightarrow> uuid \<Rightarrow> uuid \<Rightarrow> submit_job_request \<Rightarrow> job" where
  "new_job now job_id user_id body = \<lparr>j_id = job_id, j_user_id = user_id, j_name = sj_name body,
     j_spec = sj_spec body, j_status = QUEUED, j_queued_at = now, j_started_at = None,
     j_finished_at = None, j_worker_id = None, j_exit_code = None, j_error_message = None,
     j_mlflow_run_id = None, j_artifact_error = None\<rparr>"

text \<open>The row a failed enqueue leaves behind.\<close>

definition enqueue_failed :: "time \<Rightarrow> exn \<Rightarrow> job \<Rightarrow> job" where
  "enqueue_failed now exc j = j\<lparr>j_status := FAILED,
     j_error_message := Some (''Queue enqueue failed: '' @ exn_str exc), j_finished_at := Some now\<rparr>"

text \<open>\<open>job_id\<close> is the drawn identifier of the row; \<open>body\<close> has been validated.\<close>

definition submit_job ::
  "'r redis_ops \<Rightarrow> settings \<Rightarrow> time \<Rightarrow> uuid \<Rightarrow> submit_job_request \<Rightarrow> principal \<Rightarrow>
   ('r world, job_response) handler" where
  "submit_job R cfg now job_id body p =
     bindE (enforce R cfg now now (p_user p) CONCURRENT_JOBS 1) (\<lambda>_.
     bindE (enforce R cfg now now (p_user p) JOBS_PER_DAY 1) (\<lambda>_.
     let job = new_job now job_id (u_id (p_user p)) body in
     bindE (on_db (modifyE (jobs_update (\<lambda>t. t @ [job])))) (\<lambda>_.
     bindE (\<lambda>w. case on_redis (enqueue_job R cfg (str_uuid job_id)) w of
         (Inr _, w') \<Rightarrow> (Inr job, w')
       | (Inl exc, w') \<Rightarrow>
           on_db (commit_job job (enqueue_failed now exc)) w') (\<lambda>job'.
     liftE (\<lambda>_. to_job_response cfg job')))))"

fun all_ok :: "(exn + 'a) list \<Rightarrow> exn + 'a list" where
  "all_ok [] = Inr []"
| "all_ok (x # xs) = (case x of Inl e \<Rightarrow> Inl e
     | Inr a \<Rightarrow> (case all_ok xs of Inl e \<Rightarrow> Inl e | Inr as \<Rightarrow> Inr (a # as)))"

type_synonym job_list_response = "job_response listing"

definition list_jobs ::
  "settings \<Rightarrow> job_status option \<Rightarrow> int \<Rightarrow> int \<Rightarrow> principal \<Rightarrow> (db, job_list_response) handler" where
  "list_jobs cfg status_filter limit offset p =
     (if \<not> valid_page limit offset then raiseE (ValidationError ''limit, offset'')
      else liftE (\<lambda>d.
        let own = filter (\<lambda>j. j_user_id j = u_id (p_user p) \<and>
              (case status_filter of None \<Rightarrow> True | Some st \<Rightarrow> j_status j = st)) (jobs d)
        in (case all_ok (map (to_job_response cfg) (page limit offset (order_desc j_queued_at own))) of
             Inl e \<Rightarrow> Inl e
           | Inr items \<Rightarrow> Inr \<lparr>l_items = items, l_total = int (length own), l_limit = limit, l_offset = offset\<rparr>)))"

definition get_job :: "settings \<Rightarrow> uuid \<Rightarrow> principal \<Rightarrow> (db, job_response) handler" where
  "get_job cfg job_id p = bindE (get_owned_job job_id p) (\<lambda>j. liftE (\<lambda>_. to_job_response cfg j))"

text \<open>\<open>cancel_job\<close> after its first statement has read the row.\<close>

definition cancel_loaded ::
  "'r redis_ops \<Rightarrow> settings \<Rightarrow> time \<Rightarrow> job \<Rightarrow> ('r world, job_response) handler" where
  "cancel_loaded R cfg now j =
     (if j_status j \<in> set TERMINAL_JOB_STATUSES \<or> j_status j = CANCELLING then raiseE JOB_ALREADY_FINISHED
      else if j_status j = QUEUED
      then bindE (on_db (commit_job j (\<lambda>r. r\<lparr>j_status := CANCELLED, j_finished_at := Some now\<rparr>))) (\<lambda>j'.
        liftE (\<lambda>_. to_job_response cfg j'))
      else bindE (on_db (commit_job j (\<lambda>r. r\<lparr>j_status := CANCELLING\<rparr>))) (\<lambda>j'.
        bindE (on_redis (rd_publish R (job_control_channel (str_uuid (j_id j))) cancel_command_message)) (\<lambda>_.
        liftE (\<lambda>_. to_job_response cfg j'))))"

definition cancel_job ::
  "'r redis_ops \<Rightarrow> settings \<Rightarrow> time \<Rightarrow> uuid \<Rightarrow> principal \<Rightarrow> ('r world, job_response) handler" where
  "cancel_job R cfg now job_id p =
     bindE (on_db (get_owned_job job_id p)) (\<lambda>j. cancel_loaded R cfg now j)"

section \<open>What the routes do\<close>

lemma to_job_response_valid:
  "valid_spec cfg (j_spec j) \<Longrightarrow> \<not> isl (to_job_response cfg j)"
  by (simp add: to_job_response_def job_spec_model_validate_def)

lemma new_job_simps [simp]: "j_id (new_job now i uid body) = i" "j_status (new_job now i uid body) = QUEUED"
  "j_spec (new_job now i uid body) = sj_spec body" "j_user_id (new_job now i uid body) = uid"
  "j_artifact_error (new_job now i uid body) = None" "j_worker_id (new_job now i uid body) = None"
  "j_mlflow_run_id (new_job now i uid body) = None"
  by (simp_all add: new_job_def)

lemma rows_update_appended:
  "key r \<notin> key ` set t \<Longrightarrow> rows_update (\<lambda>x. key x = key r) f (t @ [r]) = t @ [f r]"
  by (auto simp: rows_update_def image_iff intro!: map_idI)

lemma commit_enqueue_failed:
  "commit_job (new_job t i uid body) (enqueue_failed now exc) d =
     (if 1002 < length (exn_str exc) then (Inl (OtherException ''StringDataRightTruncation''), d)
      else (Inr (enqueue_failed now exc (new_job t i uid body)), update_job i (enqueue_failed now exc) d))"
  by (simp add: commit_job_def enqueue_failed_def handler_simps job_columns_fit_def)

text \<open>What is left of a submission once both limits have admitted it.\<close>

lemma submit_admitted:
  fixes body :: submit_job_request
  assumes "enforce R cfg now now (p_user p) CONCURRENT_JOBS 1 w = (Inr (), w1)"
    and "enforce R cfg now now (p_user p) JOBS_PER_DAY 1 w1 = (Inr (), w\<lparr>w_db := d, w_redis := r\<rparr>)"
    and "job_id \<notin> j_id ` set (jobs d)"
  defines "j \<equiv> new_job now job_id (u_id (p_user p)) body"
  shows "submit_job R cfg now job_id body p w = (case rd_lpush R (job_queue_key cfg) (str_uuid job_id) r of
      (Inr _, r') \<Rightarrow> (to_job_response cfg j, w\<lparr>w_db := jobs_update (\<lambda>t. t @ [j]) d, w_redis := r'\<rparr>)
    | (Inl exc, r') \<Rightarrow> if 1002 < length (exn_str exc)
        then (Inl (OtherException ''StringDataRightTruncation''),
           w\<lparr>w_db := jobs_update (\<lambda>t. t @ [j]) d, w_redis := r'\<rparr>)
        else (to_job_response cfg (enqueue_failed now exc j),
           w\<lparr>w_db := jobs_update (\<lambda>t. t @ [enqueue_failed now exc j]) d, w_redis := r'\<rparr>))"
proof -
  have "j_id j \<notin> j_id ` set (jobs d)" using assms(3) by (simp add: j_def)
  then have "update_job job_id (enqueue_failed now e) (jobs_update (\<lambda>t. t @ [j]) d) =
      jobs_update (\<lambda>t. t @ [enqueue_failed now e j]) d" for e
    using rows_update_appended [of j_id j "jobs d" "enqueue_failed now e"] by (simp add: update_job_def j_def)
  with assms(1,2) show ?thesis
    by (auto simp: submit_job_def handler_simps Let_def enqueue_job_def commit_enqueue_failed j_def
        split: prod.split sum.split)
qed

text \<open>C15: submitting a job.  A request over either limit is refused and creates nothing.  Otherwise
  the row is committed and the daily counter goes up before the identifier is pushed to the
  queue: when the push fails, the row is kept as FAILED with its end time and the daily unit
  stays spent; a message too long for its column leaves the row QUEUED though no worker will
  ever see it.\<close>

theorem submit_job_outcome:
  assumes "redis_strings R up entry" and "up (w_redis w)"
    and "distinct (map q_user_id (quotas (w_db w)))" and "job_id \<notin> j_id ` set (jobs (w_db w))"
    and "usage entry now (u_id (p_user p)) JOBS_PER_DAY w = Some m" and "in_int64 (m + 1)"
    and "0 < quota_counter_ttl_seconds cfg" and "valid_spec cfg (sj_spec body)"
  shows "let uid = u_id (p_user p); n = count_concurrent_jobs (w_db w) uid;
      d = with_quota cfg uid (w_db w); j = new_job now job_id uid body;
      failed = (\<lambda>exc. j\<lparr>j_status := FAILED, j_error_message := Some (''Queue enqueue failed: '' @ exn_str exc),
        j_finished_at := Some now\<rparr>);
      run = submit_job R cfg now job_id body p w
    in if user_limit cfg uid CONCURRENT_JOBS (w_db w) < n + 1
       then run = (Inl (quota_exceeded CONCURRENT_JOBS (user_limit cfg uid CONCURRENT_JOBS (w_db w)) n),
              w\<lparr>w_db := d\<rparr>)
       else if user_limit cfg uid JOBS_PER_DAY (w_db w) < m + 1
       then run = (Inl (quota_exceeded JOBS_PER_DAY (user_limit cfg uid JOBS_PER_DAY (w_db w)) m),
              w\<lparr>w_db := d\<rparr>)
       else \<exists>r. up r \<and> counter entry r = (counter entry (w_redis w))(usage_key now uid JOBS_PER_DAY := Some (m + 1)) \<and>
         run = (case rd_lpush R (job_queue_key cfg) (str_uuid job_id) r of
             (Inr _, r') \<Rightarrow> (to_job_response cfg j,
                w\<lparr>w_db := jobs_update (\<lambda>t. t @ [j]) d, w_redis := r'\<rparr>)
           | (Inl exc, r') \<Rightarrow>
               if 1002 < length (exn_str exc)
               then (Inl (OtherException ''StringDataRightTruncation''),
                 w\<lparr>w_db := jobs_update (\<lambda>t. t @ [j]) d, w_redis := r'\<rparr>)
               else (to_job_response cfg (failed exc),
                 w\<lparr>w_db := jobs_update (\<lambda>t. t @ [failed exc]) d, w_redis := r'\<rparr>))"
proof -
  let ?u = "p_user p" and ?uid = "u_id (p_user p)"
  let ?n = "count_concurrent_jobs (w_db w) ?uid" and ?d = "with_quota cfg ?uid (w_db w)"
  let ?j = "new_job now job_id ?uid body" and ?w1 = "w\<lparr>w_db := with_quota cfg ?uid (w_db w)\<rparr>"
  let ?l1 = "user_limit cfg ?uid CONCURRENT_JOBS (w_db w)" and ?l2 = "user_limit cfg ?uid JOBS_PER_DAY (w_db w)"
  have n: "usage entry now ?uid CONCURRENT_JOBS w = Some ?n" by (simp add: usage_def)
  have nr: "\<not> redis_backed CONCURRENT_JOBS" and red: "redis_backed JOBS_PER_DAY"
    by (simp_all add: redis_resource_defs)
  have e1: "enforce R cfg now now ?u CONCURRENT_JOBS 1 w =
      (if ?n + 1 \<le> ?l1 then Inr () else Inl (quota_exceeded CONCURRENT_JOBS ?l1 ?n), ?w1)"
    using redis_strings.enforce_refused [OF assms(1,2) n assms(3), of 1 cfg now] nr by simp
  have up1: "up (w_redis ?w1)" and m1: "usage entry now ?uid JOBS_PER_DAY ?w1 = Some m"
    and d1: "distinct (map q_user_id (quotas (w_db ?w1)))"
    using assms(2,3,5) red by (simp_all add: distinct_with_quota redis_backed_usage)
  have same: "with_quota cfg ?uid ?d = ?d"
    by (simp add: with_quota_def row_get_append row_get_Cons default_quota_def split: option.split)
  have w1w1: "?w1\<lparr>w_db := with_quota cfg ?uid (w_db ?w1)\<rparr> = ?w1" by (simp add: same)
  consider (over1) "?l1 < ?n + 1" | (over2) "\<not> ?l1 < ?n + 1" "?l2 < m + 1"
    | (fits) "\<not> ?l1 < ?n + 1" "\<not> ?l2 < m + 1" by blast
  then show ?thesis
  proof cases
    case over1
    with e1 show ?thesis by (simp add: submit_job_def handler_simps Let_def)
  next
    case over2
    have "enforce R cfg now now ?u JOBS_PER_DAY 1 ?w1 = (Inl (quota_exceeded JOBS_PER_DAY ?l2 m), ?w1)"
      using redis_strings.enforce_refused [OF assms(1) up1 m1 d1, of 1 cfg now] over2 w1w1 by simp
    with e1 over2 show ?thesis by (simp add: submit_job_def handler_simps Let_def)
  next
    case fits
    have le: "m + 1 \<le> user_limit cfg ?uid JOBS_PER_DAY (w_db ?w1)" using fits by simp
    from redis_strings.enforce_accepted [OF assms(1) up1 m1 d1 _ le red assms(6,7) refl] obtain r where
      r: "enforce R cfg now now ?u JOBS_PER_DAY 1 ?w1 = (Inr (), ?w1\<lparr>w_db := with_quota cfg ?uid (w_db ?w1), w_redis := r\<rparr>)"
        "up r" "counter entry r = (counter entry (w_redis ?w1))(usage_key now ?uid JOBS_PER_DAY := Some (m + 1))"
      by (metis order_refl)
    have e2: "enforce R cfg now now ?u JOBS_PER_DAY 1 ?w1 = (Inr (), w\<lparr>w_db := ?d, w_redis := r\<rparr>)"
      using r(1) same by simp
    have fresh: "job_id \<notin> j_id ` set (jobs ?d)" using assms(4) by (simp add: with_quota_def split: option.split)
    from fits(1) e1 have e1': "enforce R cfg now now ?u CONCURRENT_JOBS 1 w = (Inr (), ?w1)" by simp
    show ?thesis
      using submit_admitted [OF e1' e2 fresh, of body] r(2,3) fits
      by (auto simp: Let_def enqueue_failed_def intro!: exI [of _ r] split: prod.split sum.split)
  qed
qed

text \<open>A server whose lists are out of order, its counters intact.\<close>

definition no_lists :: "ref_state redis_ops" where
  "no_lists = ref_redis\<lparr>rd_lpush := \<lambda>k v r. (Inl (RedisError ''OOM command not allowed''), r)\<rparr>"

lemma no_lists_strings: "redis_strings no_lists rr_up rr_entry"
  using ref_srv.redis_strings_axioms by (simp add: redis_strings_def no_lists_def)

definition spec0 :: job_spec where
  "spec0 = \<lparr>js_image = ''python:3.12-slim'', js_command = [''python'', ''-V''], js_env = [], js_gpu = False,
     js_timeout_minutes = 60\<rparr>"

definition submit0 :: submit_job_request where
  "submit0 = \<lparr>sj_name = ''train'', sj_spec = spec0\<rparr>"

definition alice_principal :: principal where
  "alice_principal = \<lparr>p_user = alice, p_api_key = None\<rparr>"

lemma alice_principal_user [simp]: "p_user alice_principal = alice" "p_api_key alice_principal = None"
  by (simp_all add: alice_principal_def)

lemma valid_spec0: "valid_spec cfg0 spec0"
  by code_simp

lemma submit0_simps [simp]: "sj_spec submit0 = spec0" "sj_name submit0 = ''train''"
  by (simp_all add: submit0_def)

theorem submit_job_outcome_witness:
  "jobs (w_db (snd (submit_job no_lists cfg0 5 77 submit0 alice_principal world0))) =
     [(new_job 5 77 1 submit0)\<lparr>j_status := FAILED, j_finished_at := Some 5,
        j_error_message := Some ''Queue enqueue failed: OOM command not allowed''\<rparr>]"
proof -
  have n: "count_concurrent_jobs db0 1 = 0" by (simp add: count_concurrent_jobs_def)
  have t: "0 < quota_counter_ttl_seconds cfg0" by (simp add: cfg0_def default_settings_def)
  show ?thesis
    using submit_job_outcome [OF no_lists_strings, where w = world0 and p = alice_principal and now = 5
        and m = 0 and job_id = 77 and cfg = cfg0 and body = submit0]
    by (auto simp: usage_world0 user_limit_db0 in_int64_def n t valid_spec0 Let_def no_lists_def
        with_quota_def)
qed

text \<open>C16: cancelling a job the caller may see: a finished or already cancelling job is refused with
  409; a QUEUED job becomes CANCELLED at once, with its end time; a RUNNING job becomes
  CANCELLING and the cancel command is published on its control channel.  The row keeps every
  other column, nobody else's row changes, and to a stranger the job does not exist.\<close>

theorem cancel_job_outcome:
  assumes "redis_service R up entry items sent" and "up (w_redis w)"
    and "distinct (map j_id (jobs (w_db w)))" and "\<forall>j \<in> set (jobs (w_db w)). job_columns_fit j"
    and "cancel_job R cfg now job_id p w = (out, w')"
  shows "case row_get j_id job_id (jobs (w_db w)) of
      None \<Rightarrow> out = Inl JOB_NOT_FOUND \<and> w' = w
    | Some j \<Rightarrow>
        if \<not> visible_to p (j_user_id j) then out = Inl JOB_NOT_FOUND \<and> w' = w
        else if j_status j \<in> {SUCCEEDED, FAILED, CANCELLED, CANCELLING}
        then out = Inl JOB_ALREADY_FINISHED \<and> w' = w
        else if j_status j = QUEUED
        then out = to_job_response cfg (j\<lparr>j_status := CANCELLED, j_finished_at := Some now\<rparr>) \<and>
          w' = w\<lparr>w_db := update_job job_id (\<lambda>r. r\<lparr>j_status := CANCELLED, j_finished_at := Some now\<rparr>) (w_db w)\<rparr>
        else out = to_job_response cfg (j\<lparr>j_status := CANCELLING\<rparr>) \<and>
          w_db w' = update_job job_id (\<lambda>r. r\<lparr>j_status := CANCELLING\<rparr>) (w_db w) \<and>
          sent (w_redis w') = sent (w_redis w) @ [(job_control_channel (str_uuid job_id), cancel_command_message)] \<and>
          items (w_redis w') = items (w_redis w) \<and> entry (w_redis w') = entry (w_redis w)"
proof (cases "row_get j_id job_id (jobs (w_db w))")
  case None
  with assms(3,5) show ?thesis by (simp add: cancel_job_def own_job.get_owned_decides handler_simps)
next
  case (Some j)
  have id: "j_id j = job_id" and mem: "j \<in> set (jobs (w_db w))" using row_get_Some [OF Some] by auto
  have len: "job_columns_fit j" using assms(4) mem by blast
  have commit: "commit_job j (\<lambda>r. r\<lparr>j_status := st, j_finished_at := f\<rparr>) (w_db w) =
      (Inr (j\<lparr>j_status := st, j_finished_at := f\<rparr>),
       update_job job_id (\<lambda>r. r\<lparr>j_status := st, j_finished_at := f\<rparr>) (w_db w))" for st f
    using len id by (simp add: commit_job_def handler_simps job_columns_fit_def)
  have commit': "commit_job j (\<lambda>r. r\<lparr>j_status := st\<rparr>) (w_db w) =
      (Inr (j\<lparr>j_status := st\<rparr>), update_job job_id (\<lambda>r. r\<lparr>j_status := st\<rparr>) (w_db w))" for st
    using len id by (simp add: commit_job_def handler_simps job_columns_fit_def)
  have publish: "effect up sent (rd_publish R c v (w_redis w)) () (sent (w_redis w) @ [(c, v)])" for c v
    using assms(1,2) by (simp add: redis_service_def redis_pubsub.publish_law)
  have frame: "items (snd (rd_publish R c v (w_redis w))) = items (w_redis w)"
      "entry (snd (rd_publish R c v (w_redis w))) = entry (w_redis w)" for c v
    using redis_service.publish_frame [OF assms(1,2)] by auto
  have pub: "fst (rd_publish R c v (w_redis w)) = Inr ()" for c v
    using publish [of c v] by (simp add: effect_def)
  have own: "get_owned_job job_id p (w_db w) = (if visible_to p (j_user_id j) then (Inr j, w_db w)
      else (Inl JOB_NOT_FOUND, w_db w))"
    using own_job.get_owned_decides [OF assms(3)] Some by simp
  show ?thesis
    using assms(5) own commit commit' publish [of "job_control_channel (str_uuid job_id)" cancel_command_message]
      pub frame
    by (cases "j_status j")
      (auto simp: Some id cancel_job_def cancel_loaded_def handler_simps TERMINAL_JOB_STATUSES_def effect_def Let_def
          split: if_splits)
qed

definition job0 :: job where
  "job0 = new_job 1 77 1 submit0"

definition world_job :: "job_status \<Rightarrow> ref_state world" where
  "world_job st = world0\<lparr>w_db := db0\<lparr>jobs := [job0\<lparr>j_status := st\<rparr>]\<rparr>\<rparr>"

lemma world_job_simps [simp]: "w_redis (world_job st) = ref_redis0"
  "jobs (w_db (world_job st)) = [job0\<lparr>j_status := st\<rparr>]" "j_id job0 = 77" "j_user_id job0 = 1"
  "j_spec job0 = spec0" "job_columns_fit (job0\<lparr>j_status := st\<rparr>)"
  by (simp_all add: world_job_def job0_def job_columns_fit_def new_job_def)

theorem cancel_job_outcome_witness:
  "rr_sent (w_redis (snd (cancel_job ref_redis cfg0 9 77 alice_principal (world_job RUNNING)))) =
     [(job_control_channel (str_uuid 77), cancel_command_message)] \<and>
   fst (cancel_job ref_redis cfg0 9 77 alice_principal (world_job SUCCEEDED)) = Inl JOB_ALREADY_FINISHED \<and>
   jobs (w_db (snd (cancel_job ref_redis cfg0 9 77 alice_principal (world_job QUEUED)))) =
     [job0\<lparr>j_status := CANCELLED, j_finished_at := Some 9\<rparr>]"
proof -
  note c = cancel_job_outcome [OF ref_srv.redis_service_axioms _ _ _ prod.collapse [symmetric], where p = alice_principal
      and job_id = 77 and cfg = cfg0 and now = 9]
  show ?thesis
    using c [of "world_job RUNNING"] c [of "world_job SUCCEEDED"] c [of "world_job QUEUED"]
    by (simp add: row_get_Cons visible_to_def update_job_def rows_update_def)
qed

text \<open>The worker's listener takes a message for a cancellation exactly when it is a JSON object
  whose \<open>cmd\<close> is the string \<open>cancel\<close>, and what the API publishes is such a message.\<close>

theorem cancel_command_recognised:
  assumes "plain_json v"
  shows "parse_cancel_command cancel_command_message \<and>
    (parse_cancel_command (json_dumps v) \<longleftrightarrow> (\<exists>ps. v = JObj ps \<and> jlookup ''cmd'' ps = Some (JStr ''cancel'')))"
proof
  have "plain_json (JObj [(''cmd'', JStr ''cancel'')])" by simp
  then have "json_loads cancel_command_message = Some (JObj [(''cmd'', JStr ''cancel'')])"
    unfolding cancel_command_message_def by (rule loads_dumps)
  then show "parse_cancel_command cancel_command_message"
    by (simp add: parse_cancel_command_def jlookup_def)
qed (use loads_dumps [OF assms] in \<open>auto simp: parse_cancel_command_def split: json.splits\<close>)

theorem cancel_command_recognised_witness:
  "parse_cancel_command (json_dumps (JObj [(''cmd'', JStr ''cancel''), (''n'', JInt 3)])) \<and>
   \<not> parse_cancel_command (json_dumps (JList [JStr ''cancel'']))"
  using cancel_command_recognised [of "JObj [(''cmd'', JStr ''cancel''), (''n'', JInt 3)]"]
    cancel_command_recognised [of "JList [JStr ''cancel'']"]
  by (simp add: jlookup_def)

lemma all_ok_map:
  "(case all_ok (map f xs) of Inr ys \<Rightarrow> (\<forall>x \<in> set xs. \<not> isl (f x)) \<and> map f xs = map Inr ys
    | Inl e \<Rightarrow> \<exists>x \<in> set xs. f x = Inl e)"
  by (induction xs) (auto split: sum.splits)

lemma to_job_response_Inl:
  "to_job_response cfg j = Inl e \<longleftrightarrow> \<not> valid_spec cfg (j_spec j) \<and> e = ValidationError ''JobSpec''"
  by (auto simp: to_job_response_def job_spec_model_validate_def)

lemma to_job_response_id: "to_job_response cfg j = Inr r \<Longrightarrow> jr_id r = j_id j"
  by (auto simp: to_job_response_def split: sum.splits)

text \<open>The job listing returns the requested page of the caller's own jobs, newest first, with
  the count of all that match; but every spec on the page is validated again under the present
  settings, so one job whose image prefix is no longer allowed makes the whole page fail.\<close>

theorem list_jobs_outcome:
  assumes "valid_page limit offset"
    and "own = filter (\<lambda>j. j_user_id j = u_id (p_user p) \<and> (case st of None \<Rightarrow> True | Some s \<Rightarrow> j_status j = s)) (jobs d)"
    and "pg = page limit offset (order_desc j_queued_at own)"
  shows "if \<forall>j \<in> set pg. valid_spec cfg (j_spec j)
    then \<exists>r. list_jobs cfg st limit offset p d = (Inr r, d) \<and> map jr_id (l_items r) = map j_id pg \<and>
      l_total r = int (length own)
    else list_jobs cfg st limit offset p d = (Inl (ValidationError ''JobSpec''), d)"
proof (cases "all_ok (map (to_job_response cfg) pg)")
  case (Inl e)
  with all_ok_map [where f = "to_job_response cfg" and xs = pg] obtain j where j: "j \<in> set pg" "to_job_response cfg j = Inl e"
    by auto
  then have "\<not> valid_spec cfg (j_spec j)" "e = ValidationError ''JobSpec''"
    by (simp_all add: to_job_response_Inl)
  with j(1) Inl assms show ?thesis
    by (auto simp: list_jobs_def handler_simps Let_def)
next
  case (Inr rs)
  with all_ok_map [where f = "to_job_response cfg" and xs = pg]
  have ok: "\<forall>j \<in> set pg. \<not> isl (to_job_response cfg j)" and rs: "map (to_job_response cfg) pg = map Inr rs" by auto
  from ok have v: "\<forall>j \<in> set pg. valid_spec cfg (j_spec j)" using to_job_response_Inl by (metis sum.disc(1))
  from rs have "map jr_id rs = map j_id pg"
    by (auto simp: list_eq_iff_nth_eq dest: to_job_response_id)
      (metis length_map nth_map to_job_response_id)
  with Inr v assms show ?thesis
    by (auto simp: list_jobs_def handler_simps Let_def)
qed

definition cfg_tight :: settings where
  "cfg_tight = cfg0\<lparr>allowed_image_prefixes := ''registry.local/''\<rparr>"

theorem list_jobs_outcome_witness:
  "(\<exists>r. list_jobs cfg0 None 20 0 alice_principal (w_db (world_job FAILED)) =
     (Inr r, w_db (world_job FAILED)) \<and> map jr_id (l_items r) = [77] \<and> l_total r = 1) \<and>
   fst (list_jobs cfg_tight None 20 0 alice_principal (w_db (world_job FAILED))) =
     Inl (ValidationError ''JobSpec'')"
proof -
  have bad: "\<not> valid_spec cfg_tight spec0" by code_simp
  have v: "valid_page 20 0" by (simp add: valid_page_def)
  show ?thesis
    using list_jobs_outcome [OF v refl refl, where cfg = cfg0 and p = alice_principal and st = None
        and d = "w_db (world_job FAILED)"]
      list_jobs_outcome [OF v refl refl, where cfg = cfg_tight and p = alice_principal and st = None
        and d = "w_db (world_job FAILED)"]
    by (simp add: order_desc_def page_def valid_spec0 bad)
qed

end
