(* ===== verification/Token_Bucket.thy ===== *)
theory Token_Bucket
  imports Settings
begin

text \<open>
  The Lua script of \<open>api/rate_limit.py\<close> (\<open>TOKEN_BUCKET_LUA\<close>) and the token bucket it implements.
  Redis runs a script atomically; the hash it keeps per key is a parameter with the documented
  effects of the three commands the script calls.  Lua numbers are exact rationals and times
  are milliseconds.
\<close>

section \<open>The script\<close>

text \<open>
  \<open>HMGET key tokens ts\<close>, \<open>HSET key tokens \<dots> ts \<dots>\<close>, \<open>PEXPIRE key ms\<close>; \<open>ho_elapse\<close> is the passing of
  milliseconds on the server.
\<close>

record 'h hash_ops =
  ho_hmget :: "string \<Rightarrow> 'h \<Rightarrow> rat option \<times> int option"
  ho_hset :: "string \<Rightarrow> rat \<Rightarrow> int \<Rightarrow> 'h \<Rightarrow> 'h"
  ho_pexpire :: "string \<Rightarrow> int \<Rightarrow> 'h \<Rightarrow> 'h"
  ho_elapse :: "int \<Rightarrow> 'h \<Rightarrow> 'h"

record bucket_reply =
  br_allowed :: int
  br_remaining :: int
  br_limit :: int
  br_retry_after :: int
  br_reset_unix :: int

definition ttl_ms :: "int \<Rightarrow> rat \<Rightarrow> int" where
  "ttl_ms capacity rate = max 1000 \<lceil>of_int capacity / rate * 2000\<rceil>"

definition token_bucket ::
  "'h hash_ops \<Rightarrow> string \<Rightarrow> int \<Rightarrow> rat \<Rightarrow> int \<Rightarrow> int \<Rightarrow> 'h \<Rightarrow> bucket_reply \<times> 'h" where
  "token_bucket H key capacity rate now_ms cost h =
     (let (tokens, ts) = (case ho_hmget H key h of
            (Some tokens, Some ts) \<Rightarrow> (tokens, ts) | _ \<Rightarrow> (of_int capacity, now_ms));
          elapsed = (of_int (now_ms - ts) / 1000 :: rat);
          elapsed = (if elapsed < 0 then 0 else elapsed);
          tokens = min (of_int capacity) (tokens + elapsed * rate);
          ts = now_ms;
          (tokens, allowed, retry_after) =
            (if of_int cost \<le> tokens then (tokens - of_int cost, 1, 0)
             else (tokens, 0, max 1 \<lceil>(of_int cost - tokens) / rate\<rceil>));
          h = ho_hset H key tokens ts h;
          h = ho_pexpire H key (ttl_ms capacity rate) h
      in (\<lparr>br_allowed = allowed, br_remaining = \<lfloor>tokens\<rfloor>, br_limit = capacity,
           br_retry_after = retry_after,
           br_reset_unix = now_ms div 1000 + \<lceil>(of_int capacity - tokens) / rate\<rceil>\<rparr>, h))"

section \<open>The hash server\<close>

type_synonym bucket = "(rat \<times> int \<times> int option) option"

definition bucket_after :: "int \<Rightarrow> bucket \<Rightarrow> bucket" where
  "bucket_after n b = (case b of
     Some (t, ts, Some l) \<Rightarrow> if l \<le> n then None else Some (t, ts, Some (l - n)) | _ \<Rightarrow> b)"

locale hash_server =
  fixes H :: "'h hash_ops" and bucket :: "'h \<Rightarrow> string \<Rightarrow> bucket"
  assumes hmget_law: "ho_hmget H k h =
      (case bucket h k of None \<Rightarrow> (None, None) | Some (t, ts, _) \<Rightarrow> (Some t, Some ts))"
    and hset_law: "bucket (ho_hset H k t ts h) = (bucket h)(k := Some (t, ts,
      case bucket h k of None \<Rightarrow> None | Some (_, _, l) \<Rightarrow> l))"
    and pexpire_law: "0 < n \<Longrightarrow> bucket (ho_pexpire H k n h) =
      (bucket h)(k := map_option (\<lambda>(t, ts, _). (t, ts, Some n)) (bucket h k))"
    and elapse_law: "0 \<le> n \<Longrightarrow> bucket (ho_elapse H n h) = (\<lambda>k. bucket_after n (bucket h k))"

text \<open>An in-memory server.\<close>

definition ref_hash :: "(string \<Rightarrow> bucket) hash_ops" where
  "ref_hash = \<lparr>
     ho_hmget = (\<lambda>k h. case h k of None \<Rightarrow> (None, None) | Some (t, ts, _) \<Rightarrow> (Some t, Some ts)),
     ho_hset = (\<lambda>k t ts h. h(k := Some (t, ts, case h k of None \<Rightarrow> None | Some (_, _, l) \<Rightarrow> l))),
     ho_pexpire = (\<lambda>k n h. h(k := map_option (\<lambda>(t, ts, _). (t, ts, Some n)) (h k))),
     ho_elapse = (\<lambda>n h k. bucket_after n (h k))\<rparr>"

interpretation ref_hash: hash_server ref_hash "\<lambda>h. h"
  by unfold_locales (simp_all add: ref_hash_def split: option.split)

section \<open>The bucket it implements\<close>

text \<open>
  The specification: a level between zero and the capacity that rises with time and falls by
  one with each accepted request; no clock value and no expiry.
\<close>

definition refill :: "int \<Rightarrow> rat \<Rightarrow> int \<Rightarrow> rat \<Rightarrow> rat" where
  "refill capacity rate ms level = min (of_int capacity) (level + of_int ms / 1000 * rate)"

definition take_token :: "rat \<Rightarrow> bool \<times> rat" where
  "take_token level = (if 1 \<le> level then (True, level - 1) else (False, level))"

text \<open>The level a stored bucket stands for: a missing one is full.\<close>

definition level_of :: "int \<Rightarrow> rat \<Rightarrow> int \<Rightarrow> bucket \<Rightarrow> rat" where
  "level_of capacity rate now b =
     (case b of None \<Rightarrow> of_int capacity | Some (t, ts, _) \<Rightarrow> refill capacity rate (now - ts) t)"

definition bucket_ok :: "int \<Rightarrow> rat \<Rightarrow> int \<Rightarrow> bucket \<Rightarrow> bool" where
  "bucket_ok capacity rate now b =
     (case b of None \<Rightarrow> True
      | Some (t, ts, l) \<Rightarrow> 0 \<le> t \<and> t \<le> of_int capacity \<and> ts \<le> now \<and>
          l = Some (ttl_ms capacity rate - (now - ts)))"

lemma refill_bounds: "0 \<le> level \<Longrightarrow> 0 \<le> rate \<Longrightarrow> 0 \<le> capacity \<Longrightarrow> 0 \<le> ms \<Longrightarrow>
    0 \<le> refill capacity rate ms level \<and> refill capacity rate ms level \<le> of_int capacity"
  by (simp add: refill_def)

lemma level_of_bounds:
  assumes "bucket_ok capacity rate now b" and "0 \<le> rate" and "0 \<le> capacity"
  shows "0 \<le> level_of capacity rate now b \<and> level_of capacity rate now b \<le> of_int capacity"
  using assms refill_bounds by (auto simp: bucket_ok_def level_of_def split: option.splits)

lemma refill_refill:
  assumes "0 \<le> rate" and "0 \<le> m" and "0 \<le> n"
  shows "refill capacity rate n (refill capacity rate m level) = refill capacity rate (m + n) level"
proof -
  have "0 \<le> of_int n / 1000 * rate" using assms(1,3) by simp
  then show ?thesis by (simp add: refill_def min_def add_divide_distrib distrib_right)
qed

text \<open>By the time a bucket expires it would be full anyway.\<close>

lemma ttl_refills:
  assumes "0 < rate" and "0 \<le> t" and "0 \<le> capacity" and "ttl_ms capacity rate \<le> ms"
  shows "refill capacity rate ms t = of_int capacity"
proof -
  have "of_int capacity / rate * 2000 \<le> of_int \<lceil>of_int capacity / rate * 2000\<rceil>"
    by (rule le_of_int_ceiling)
  also have "\<dots> \<le> of_int (ttl_ms capacity rate)" by (simp add: ttl_ms_def)
  also have "\<dots> \<le> of_int ms" using assms(4) by simp
  finally have "of_int capacity * 2000 \<le> of_int ms * rate"
    using assms(1) by (simp add: field_simps)
  moreover have "of_int ms / 1000 * rate = of_int ms * rate / 1000" by simp
  ultimately have "of_int capacity \<le> t + of_int ms / 1000 * rate" using assms(2,3) by linarith
  then show ?thesis by (simp add: refill_def)
qed

lemma bucket_after_ok:
  assumes ok: "bucket_ok capacity rate now b" and "0 < rate" and "0 \<le> capacity" and "0 \<le> n"
  shows "bucket_ok capacity rate (now + n) (bucket_after n b) \<and>
    level_of capacity rate (now + n) (bucket_after n b) = refill capacity rate n (level_of capacity rate now b)"
proof (cases b)
  case None
  with assms show ?thesis by (simp add: bucket_after_def bucket_ok_def level_of_def refill_def)
next
  case (Some x)
  then obtain t ts l where b: "b = Some (t, ts, l)" by (cases x) auto
  with ok have t: "0 \<le> t" "t \<le> of_int capacity" "ts \<le> now" "l = Some (ttl_ms capacity rate - (now - ts))"
    by (auto simp: bucket_ok_def)
  have two: "refill capacity rate n (refill capacity rate (now - ts) t) = refill capacity rate (now + n - ts) t"
    using assms(2,4) t(3) by (subst refill_refill) (simp_all add: algebra_simps)
  show ?thesis
  proof (cases "ttl_ms capacity rate \<le> now + n - ts")
    case True
    with b t two ttl_refills [OF assms(2) t(1) assms(3) True] show ?thesis
      by (simp add: bucket_after_def bucket_ok_def level_of_def)
  next
    case False
    with b t two assms(4) show ?thesis
      by (simp add: bucket_after_def bucket_ok_def level_of_def)
  qed
qed

lemma ttl_ms_pos [simp]: "0 < ttl_ms capacity rate"
  by (simp add: ttl_ms_def)

context hash_server
begin

lemma token_bucket_other:
  "k \<noteq> key \<Longrightarrow> bucket (snd (token_bucket H key capacity rate now cost h)) k = bucket h k"
  by (simp add: token_bucket_def Let_def split_def hset_law pexpire_law)

lemma token_bucket_step:
  assumes ok: "bucket_ok capacity rate now (bucket h key)" and "0 < rate" and "0 \<le> capacity"
  defines "a \<equiv> level_of capacity rate now (bucket h key)"
  shows "bucket_ok capacity rate now (bucket (snd (token_bucket H key capacity rate now 1 h)) key) \<and>
    level_of capacity rate now (bucket (snd (token_bucket H key capacity rate now 1 h)) key) =
      snd (take_token a) \<and>
    br_allowed (fst (token_bucket H key capacity rate now 1 h)) = (if fst (take_token a) then 1 else 0) \<and>
    br_remaining (fst (token_bucket H key capacity rate now 1 h)) = \<lfloor>snd (take_token a)\<rfloor> \<and>
    br_retry_after (fst (token_bucket H key capacity rate now 1 h)) =
      (if fst (take_token a) then 0 else max 1 \<lceil>(1 - a) / rate\<rceil>)"
proof -
  define tts where "tts = (case ho_hmget H key h of
      (Some tokens, Some ts) \<Rightarrow> (tokens, ts) | _ \<Rightarrow> (of_int capacity :: rat, now))"
  obtain t0 ts where t0: "tts = (t0, ts)" by fastforce
  have "ts \<le> now \<and> refill capacity rate (now - ts) t0 = a"
    using ok t0 by (auto simp: tts_def hmget_law a_def level_of_def bucket_ok_def refill_def
        split: option.splits)
  then have ts: "\<not> of_int (now - ts) / 1000 < (0 :: rat)"
    and a: "min (of_int capacity) (t0 + of_int (now - ts) / 1000 * rate) = a"
    by (auto simp: refill_def)
  have bounds: "0 \<le> a" "a \<le> of_int capacity"
    using level_of_bounds [OF ok] assms(2,3) by (auto simp: a_def)
  let ?l = "snd (take_token a)"
  have out: "token_bucket H key capacity rate now 1 h =
      (\<lparr>br_allowed = (if fst (take_token a) then 1 else 0), br_remaining = \<lfloor>?l\<rfloor>, br_limit = capacity,
        br_retry_after = (if fst (take_token a) then 0 else max 1 \<lceil>(1 - a) / rate\<rceil>),
        br_reset_unix = now div 1000 + \<lceil>(of_int capacity - ?l) / rate\<rceil>\<rparr>,
       ho_pexpire H key (ttl_ms capacity rate) (ho_hset H key ?l now h))"
    unfolding token_bucket_def tts_def [symmetric] t0 Let_def prod.case
    by (simp only: ts if_False a) (simp add: take_token_def)
  have "0 \<le> ?l" "?l \<le> of_int capacity" using bounds by (auto simp: take_token_def)
  then show ?thesis
    by (simp add: out hset_law pexpire_law bucket_ok_def level_of_def refill_def)
qed

end

section \<open>Sequences of requests\<close>

text \<open>
  Requests \<open>(gap, key, capacity, rate)\<close>: \<open>gap\<close> milliseconds pass, on the server and on the clock
  that the API reads, and the script runs on \<open>key\<close>.  \<open>serve\<close> lists the keys with the decisions.
\<close>

type_synonym request = "int \<times> string \<times> int \<times> rat"

fun serve :: "'h hash_ops \<Rightarrow> int \<Rightarrow> request list \<Rightarrow> 'h \<Rightarrow> (string \<times> bool) list" where
  "serve H now [] h = []"
| "serve H now ((gap, key, capacity, rate) # rs) h =
     (let (reply, h') = token_bucket H key capacity rate (now + gap) 1 (ho_elapse H gap h)
      in (key, br_allowed reply = 1) # serve H (now + gap) rs h')"

definition decisions_for :: "string \<Rightarrow> (string \<times> bool) list \<Rightarrow> bool list" where
  "decisions_for key ds = map snd (filter (\<lambda>(k, _). k = key) ds)"

fun ideal_decisions :: "string \<Rightarrow> int \<Rightarrow> rat \<Rightarrow> rat \<Rightarrow> request list \<Rightarrow> bool list" where
  "ideal_decisions key capacity rate level [] = []"
| "ideal_decisions key capacity rate level ((gap, k, _, _) # rs) =
     (let level = refill capacity rate gap level in
      if k = key then fst (take_token level) # ideal_decisions key capacity rate (snd (take_token level)) rs
      else ideal_decisions key capacity rate level rs)"

text \<open>The requests run on a forward clock, those of \<open>key\<close> all under one policy.\<close>

definition requests_ok :: "string \<Rightarrow> int \<Rightarrow> rat \<Rightarrow> request list \<Rightarrow> bool" where
  "requests_ok key capacity rate rs \<longleftrightarrow>
     list_all (\<lambda>(gap, k, c, r). 0 \<le> gap \<and> (k = key \<longrightarrow> c = capacity \<and> r = rate)) rs"

definition total_gap :: "request list \<Rightarrow> int" where
  "total_gap rs = sum_list (map fst rs)"

definition accepted :: "bool list \<Rightarrow> nat" where
  "accepted ds = length (filter (\<lambda>d. d) ds)"

lemma accepted_simps [simp]:
  "accepted [] = 0" "accepted (d # ds) = (if d then Suc (accepted ds) else accepted ds)"
  by (simp_all add: accepted_def)

lemma total_gap_nonneg: "list_all (\<lambda>(gap, _). 0 \<le> gap) rs \<Longrightarrow> 0 \<le> total_gap rs"
  by (induction rs) (auto simp: total_gap_def)

lemma ideal_window:
  "list_all (\<lambda>(gap, _). 0 \<le> gap) rs \<Longrightarrow> 0 \<le> level \<Longrightarrow> 0 \<le> rate \<Longrightarrow> 0 \<le> capacity \<Longrightarrow>
   of_nat (accepted (ideal_decisions key capacity rate level rs)) \<le>
     level + of_int (total_gap rs) / 1000 * rate"
proof (induction key capacity rate level rs rule: ideal_decisions.induct)
  case (1 key capacity rate level)
  then show ?case by (simp add: total_gap_def)
next
  case (2 key capacity rate level gap k c r rs)
  define b where "b = refill capacity rate gap level"
  have b0: "0 \<le> b" using 2 refill_bounds by (auto simp: b_def)
  have bl: "b \<le> level + of_int gap / 1000 * rate" by (simp add: b_def refill_def)
  have gaps: "of_int (total_gap ((gap, k, c, r) # rs)) / 1000 * rate =
      of_int gap / 1000 * rate + of_int (total_gap rs) / 1000 * rate"
    by (simp add: total_gap_def add_divide_distrib distrib_right)
  show ?case
  proof (cases "k = key \<and> 1 \<le> b")
    case True
    then have "of_nat (accepted (ideal_decisions key capacity rate (b - 1) rs)) \<le>
        b - 1 + of_int (total_gap rs) / 1000 * rate"
      using 2 by (auto simp: Let_def take_token_def simp flip: b_def)
    with True bl gaps show ?thesis by (simp add: Let_def take_token_def add_divide_distrib flip: b_def)
  next
    case False
    then have "of_nat (accepted (ideal_decisions key capacity rate b rs)) \<le>
        b + of_int (total_gap rs) / 1000 * rate"
      using 2 b0 by (cases "k = key") (auto simp: Let_def take_token_def simp flip: b_def)
    with False bl gaps show ?thesis
      by (cases "k = key") (auto simp: Let_def take_token_def add_divide_distrib simp flip: b_def)
  qed
qed

lemma ideal_others:
  "list_all (\<lambda>(gap, k, _). 0 \<le> gap \<and> k \<noteq> key) rs \<Longrightarrow> 0 \<le> rate \<Longrightarrow> 0 \<le> g \<Longrightarrow> level \<le> of_int capacity \<Longrightarrow>
   ideal_decisions key capacity rate level (rs @ [(g, key, c, r)]) =
     [fst (take_token (refill capacity rate (total_gap rs + g) level))]"
proof (induction rs arbitrary: level)
  case Nil
  then show ?case by (simp add: Let_def total_gap_def)
next
  case (Cons x rs)
  then obtain gap k c' r' where x: "x = (gap, k, c', r')" by (metis prod_cases4)
  have "0 \<le> total_gap rs"
    using Cons.prems(1) by (intro total_gap_nonneg) (auto simp: list_all_iff)
  with Cons x have "refill capacity rate (total_gap rs + g) (refill capacity rate gap level) =
      refill capacity rate (total_gap (x # rs) + g) level"
    by (subst refill_refill) (auto simp: total_gap_def algebra_simps)
  moreover have "refill capacity rate gap level \<le> of_int capacity" by (simp add: refill_def)
  ultimately show ?case using Cons x by (simp add: Let_def)
qed

context hash_server
begin

lemma serve_ideal:
  assumes "0 < rate" and "0 \<le> capacity"
  shows "requests_ok key capacity rate rs \<Longrightarrow> bucket_ok capacity rate now (bucket h key) \<Longrightarrow>
    decisions_for key (serve H now rs h) =
      ideal_decisions key capacity rate (level_of capacity rate now (bucket h key)) rs"
proof (induction rs arbitrary: now h)
  case Nil
  then show ?case by (simp add: decisions_for_def)
next
  case (Cons x rs)
  obtain gap k c r where x: "x = (gap, k, c, r)" by (metis prod_cases4)
  from Cons.prems x have g: "0 \<le> gap" and k: "k = key \<Longrightarrow> c = capacity \<and> r = rate"
    and rs: "requests_ok key capacity rate rs" by (auto simp: requests_ok_def)
  define h1 where "h1 = ho_elapse H gap h"
  define b where "b = level_of capacity rate now (bucket h key)"
  define h2 where "h2 = snd (token_bucket H k c r (now + gap) 1 h1)"
  have h1: "bucket_ok capacity rate (now + gap) (bucket h1 key)"
      "level_of capacity rate (now + gap) (bucket h1 key) = refill capacity rate gap b"
    using bucket_after_ok [OF Cons.prems(2) assms g] g by (simp_all add: h1_def b_def elapse_law)
  have run: "serve H now (x # rs) h =
      (k, br_allowed (fst (token_bucket H k c r (now + gap) 1 h1)) = 1) # serve H (now + gap) rs h2"
    by (simp add: x h1_def h2_def split_def Let_def)
  show ?case
  proof (cases "k = key")
    case True
    with k have cr: "c = capacity" "r = rate" by auto
    note step = token_bucket_step [OF h1(1) assms, unfolded h1(2)]
    have "bucket_ok capacity rate (now + gap) (bucket h2 key)"
      "level_of capacity rate (now + gap) (bucket h2 key) = snd (take_token (refill capacity rate gap b))"
      using step by (simp_all add: h2_def True cr)
    from Cons.IH [OF rs this(1)] this(2) step True cr show ?thesis
      unfolding run by (simp add: x decisions_for_def Let_def flip: b_def)
  next
    case False
    have "bucket h2 key = bucket h1 key" using False by (simp add: h2_def token_bucket_other)
    with Cons.IH [OF rs, of "now + gap" h2] h1 False show ?thesis
      unfolding run by (simp add: x decisions_for_def Let_def flip: b_def)
  qed
qed

end

section \<open>Properties\<close>



text \<open>The number of requests accepted on a key is at most its burst plus the rate times the
  time that passed.\<close>

theorem accepted_within_window:
  assumes "hash_server H bucket" and "0 < rate" and "0 \<le> capacity"
    and "requests_ok key capacity rate rs" and "bucket_ok capacity rate now (bucket h key)"
  shows "of_nat (accepted (decisions_for key (serve H now rs h))) \<le>
    of_int capacity + of_int (total_gap rs) / 1000 * rate"
proof -
  let ?l = "level_of capacity rate now (bucket h key)"
  have l: "0 \<le> ?l" "?l \<le> of_int capacity"
    using level_of_bounds [OF assms(5)] assms(2,3) by auto
  have "list_all (\<lambda>(gap, _). 0 \<le> gap) rs"
    using assms(4) by (auto simp: requests_ok_def list_all_iff)
  from ideal_window [OF this l(1), of rate capacity key] assms(2,3) l(2)
  have "of_nat (accepted (ideal_decisions key capacity rate ?l rs)) \<le>
      of_int capacity + of_int (total_gap rs) / 1000 * rate" by linarith
  then show ?thesis using hash_server.serve_ideal [OF assms] by simp
qed

theorem accepted_within_window_witness:
  "(of_nat (accepted (decisions_for ''k'' (serve ref_hash 0 (replicate 40 (500, ''k'', 5, 1 / 12)) (\<lambda>_. None)))) :: rat)
     \<le> 5 + 20 * (1 / 12)"
proof -
  let ?rs = "replicate 40 (500, ''k'', 5, 1 / 12) :: request list"
  have "list_all P (replicate n x)" if "P x" for P n and x :: request
    using that by (simp add: list_all_iff)
  then have rs: "requests_ok ''k'' 5 (1 / 12) ?rs" by (simp add: requests_ok_def)
  have "total_gap ?rs = 20000" by (simp add: total_gap_def sum_list_replicate)
  with accepted_within_window [OF ref_hash.hash_server_axioms _ _ rs, of 0 "\<lambda>_. None"]
  show ?thesis by (simp add: bucket_ok_def)
qed

text \<open>\<open>Retry-After\<close> is honest: after a refusal, a client that waits the seconds it was told is
  accepted, whatever other clients do in the meantime.\<close>

theorem retry_after_suffices:
  assumes "hash_server H bucket" and "0 < rate" and "1 \<le> capacity"
    and "bucket_ok capacity rate now (bucket h key)"
    and "token_bucket H key capacity rate now 1 h = (reply, h')" and "br_allowed reply = 0"
    and "list_all (\<lambda>(gap, k, _). 0 \<le> gap \<and> k \<noteq> key) others" and "0 \<le> gap"
    and "1000 * br_retry_after reply \<le> total_gap others + gap"
  shows "decisions_for key (serve H now (others @ [(gap, key, capacity, rate)]) h') = [True]"
proof -
  let ?a = "level_of capacity rate now (bucket h key)" and ?rs = "others @ [(gap, key, capacity, rate)]"
  have cap: "0 \<le> capacity" using assms(3) by simp
  note step = hash_server.token_bucket_step [OF assms(1,4,2) cap, unfolded assms(5) fst_conv snd_conv]
  have no: "\<not> fst (take_token ?a)" using step assms(6) by (auto split: if_splits)
  then have a: "?a < 1" "snd (take_token ?a) = ?a" by (auto simp: take_token_def split: if_splits)
  have ok': "bucket_ok capacity rate now (bucket h' key)" and
      lev: "level_of capacity rate now (bucket h' key) = ?a" and
      retry: "br_retry_after reply = max 1 \<lceil>(1 - ?a) / rate\<rceil>"
    using step no a(2) by auto
  have rs: "requests_ok key capacity rate ?rs"
    using assms(7,8) by (auto simp: requests_ok_def list_all_iff)
  have dec: "decisions_for key (serve H now ?rs h') =
      [fst (take_token (refill capacity rate (total_gap others + gap) ?a))]"
    using hash_server.serve_ideal [OF assms(1,2) cap rs ok', unfolded lev]
      ideal_others [OF assms(7), of rate gap ?a capacity] assms(2,8) a(1) assms(3) by simp
  have "(1 - ?a) / rate \<le> of_int \<lceil>(1 - ?a) / rate\<rceil>" by (rule le_of_int_ceiling)
  also have "\<dots> \<le> of_int (br_retry_after reply)" unfolding retry of_int_le_iff by simp
  also have "\<dots> \<le> of_int (total_gap others + gap) / 1000"
    using assms(9) by (simp add: le_divide_eq)
  finally have "1 - ?a \<le> of_int (total_gap others + gap) / 1000 * rate"
    using assms(2) by (simp add: pos_divide_le_eq)
  then have "1 \<le> refill capacity rate (total_gap others + gap) ?a"
    using assms(3) by (simp add: refill_def)
  then show ?thesis by (simp add: dec take_token_def)
qed

theorem retry_after_suffices_witness:
  "br_retry_after (fst (token_bucket ref_hash ''k'' 1 (1 / 2) 7 1 (\<lambda>_. Some (1 / 4, 7, Some 4000)))) = 2 \<and>
   decisions_for ''k'' (serve ref_hash 7 [(900, ''o'', 1, 1), (1100, ''k'', 1, 1 / 2)]
     (snd (token_bucket ref_hash ''k'' 1 (1 / 2) 7 1 (\<lambda>_. Some (1 / 4, 7, Some 4000))))) = [True]"
proof -
  let ?h = "\<lambda>_ :: string. Some (1 / 4 :: rat, 7 :: int, Some (4000 :: int))"
  let ?t = "token_bucket ref_hash ''k'' 1 (1 / 2) 7 1 ?h"
  have ok: "bucket_ok 1 (1 / 2) 7 (?h ''k'')" by (simp add: bucket_ok_def ttl_ms_def)
  have t: "br_allowed (fst ?t) = 0" "br_retry_after (fst ?t) = 2"
    by (simp_all add: token_bucket_def ref_hash_def Let_def ceiling_eq_iff)
  with retry_after_suffices [OF ref_hash.hash_server_axioms _ _ ok prod.collapse [symmetric] t(1),
      of "[(900, ''o'', 1, 1)]" 1100]
  show ?thesis by (simp add: total_gap_def)
qed

text \<open>A clock that steps back mints tokens: the script stores the earlier time although it
  refilled nothing, so the same interval refills the bucket again.  A key that is refused at a
  time is accepted at that same time once a request has been stamped \<open>d\<close> milliseconds earlier,
  as soon as \<open>d\<close> milliseconds are worth a token.\<close>

theorem backward_clock_refills:
  assumes "hash_server H bucket" and "0 < rate" and "1 \<le> capacity"
    and "bucket h key = Some (0, now, l)" and "0 < d" and "1 \<le> of_int d / 1000 * rate"
  shows "br_allowed (fst (token_bucket H key capacity rate now 1 h)) = 0 \<and>
    br_allowed (fst (token_bucket H key capacity rate now 1
      (snd (token_bucket H key capacity rate (now - d) 1 h)))) = 1"
  using assms
  by (simp add: token_bucket_def hash_server.hmget_law hash_server.hset_law hash_server.pexpire_law Let_def)

theorem backward_clock_refills_witness:
  "br_allowed (fst (token_bucket ref_hash ''k'' 5 (1 / 12) 50000 1
     (snd (token_bucket ref_hash ''k'' 5 (1 / 12) 38000 1 (\<lambda>_. Some (0, 50000, Some 9)))))) = 1"
  using backward_clock_refills [OF ref_hash.hash_server_axioms, of "1 / 12" 5 "\<lambda>_. Some (0, 50000, Some 9)"
      "''k''" 50000 "Some 9" 12000] by simp

end
