(* ===== verification/Rate_Limit.thy ===== *)
theory Rate_Limit
  imports Token_Bucket Redis_Client Fixtures
begin

text \<open>
  \<open>api/rate_limit.py\<close> around its Lua script, and \<open>api/middleware.py\<close>: which policy a route has,
  which bucket a client is charged to, and what the middleware does with the verdict.
\<close>

section \<open>Policies\<close>

record rate_limit_policy =
  pol_name :: string
  rate_per_second :: rat
  burst :: int
  force_ip :: bool

record rate_limit_result =
  rl_allowed :: bool
  rl_limit :: int
  rl_remaining :: int
  rl_retry_after :: int
  rl_reset_unix :: int

definition default_policy :: "settings \<Rightarrow> rate_limit_policy" where
  "default_policy cfg = \<lparr>pol_name = ''default'',
     rate_per_second = of_int (rate_limit_default_per_min cfg) / 60,
     burst = rate_limit_default_burst cfg, force_ip = False\<rparr>"

definition auth_policy :: "settings \<Rightarrow> rate_limit_policy" where
  "auth_policy cfg = \<lparr>pol_name = ''auth'',
     rate_per_second = of_int (rate_limit_auth_per_min cfg) / 60,
     burst = rate_limit_auth_burst cfg, force_ip = True\<rparr>"

definition jobs_write_policy :: "settings \<Rightarrow> rate_limit_policy" where
  "jobs_write_policy cfg = \<lparr>pol_name = ''jobs_write'',
     rate_per_second = of_int (rate_limit_jobs_write_per_hour cfg) / 3600,
     burst = rate_limit_jobs_write_burst cfg, force_ip = False\<rparr>"

definition llm_policy :: "settings \<Rightarrow> rate_limit_policy" where
  "llm_policy cfg = \<lparr>pol_name = ''llm'',
     rate_per_second = of_int (rate_limit_llm_per_min cfg) / 60,
     burst = rate_limit_llm_burst cfg, force_ip = False\<rparr>"

record route_rule =
  rr_methods :: "string list"
  rr_path :: string
  rr_match :: string
  rr_policy_factory :: "settings \<Rightarrow> rate_limit_policy"

definition ROUTE_RULES :: "route_rule list" where
  "ROUTE_RULES = [
     \<lparr>rr_methods = [''POST''], rr_path = ''/api/v1/auth/login'', rr_match = ''exact'',
      rr_policy_factory = auth_policy\<rparr>,
     \<lparr>rr_methods = [''POST''], rr_path = ''/api/v1/auth/refresh'', rr_match = ''exact'',
      rr_policy_factory = auth_policy\<rparr>,
     \<lparr>rr_methods = [''POST''], rr_path = ''/api/v1/jobs'', rr_match = ''exact'',
      rr_policy_factory = jobs_write_policy\<rparr>,
     \<lparr>rr_methods = [''GET'', ''POST'', ''PUT'', ''PATCH'', ''DELETE''], rr_path = ''/api/v1/llm'',
      rr_match = ''prefix'', rr_policy_factory = llm_policy\<rparr>]"

definition normalize_path :: "string \<Rightarrow> string" where
  "normalize_path path =
     (let p = rstrip_by (\<lambda>c. c = CHR ''/'') path in if p = [] then ''/'' else p)"

fun first_rule :: "settings \<Rightarrow> string \<Rightarrow> string \<Rightarrow> route_rule list \<Rightarrow> rate_limit_policy" where
  "first_rule cfg method normalized [] = default_policy cfg"
| "first_rule cfg method normalized (rule # rules) =
     (let rule_path = normalize_path (rr_path rule) in
      if method \<notin> set (rr_methods rule) then first_rule cfg method normalized rules
      else if rr_match rule = ''exact'' \<and> normalized = rule_path then rr_policy_factory rule cfg
      else if rr_match rule = ''prefix'' \<and> (normalized = rule_path \<or> startswith normalized (rule_path @ ''/''))
      then rr_policy_factory rule cfg
      else first_rule cfg method normalized rules)"

definition resolve_policy :: "settings \<Rightarrow> string \<Rightarrow> string \<Rightarrow> rate_limit_policy" where
  "resolve_policy cfg method path = first_rule cfg (py_upper method) (normalize_path path) ROUTE_RULES"

definition is_exempt_path :: "string \<Rightarrow> bool" where
  "is_exempt_path path \<longleftrightarrow> normalize_path path \<in> {''/api/v1/healthz'', ''/healthz''}"

section \<open>Clients\<close>

definition or_else :: "string option \<Rightarrow> string \<Rightarrow> string" where
  "or_else s d = (case s of Some (c # cs) \<Rightarrow> c # cs | _ \<Rightarrow> d)"

definition client_ip :: "(string \<Rightarrow> string option) \<Rightarrow> string option \<Rightarrow> string" where
  "client_ip headers client_host =
     (let forwarded = or_else (headers ''x-forwarded-for'') (or_else (headers ''X-Forwarded-For'') [])
      in if forwarded \<noteq> []
         then or_else (Some (py_strip (hd (py_split (CHR '','') forwarded)))) (or_else client_host ''unknown'')
         else or_else client_host ''unknown'')"

text \<open>The token is decoded with its signature verified but its expiry ignored.\<close>

definition resolve_identity ::
  "crypto \<Rightarrow> settings \<Rightarrow> time \<Rightarrow> string option \<Rightarrow> string \<Rightarrow> bool \<Rightarrow> string" where
  "resolve_identity C cfg now authorization ip forced =
     (if forced then ''ip:'' @ ip
      else case authorization of
        None \<Rightarrow> ''ip:'' @ ip
      | Some a \<Rightarrow>
          if a \<noteq> [] \<and> startswith (py_lower a) ''bearer ''
          then (let token = py_strip (drop 7 a) in
            if token = [] then ''ip:'' @ ip
            else if is_api_key_token token then ''key:'' @ take 8 token
            else (case jwt_decode_lib C (jwt_secret cfg) now False token of
                None \<Rightarrow> ''ip:'' @ ip
              | Some payload \<Rightarrow>
                  (case jwt_sub payload of
                     None \<Rightarrow> ''ip:'' @ ip
                   | Some sub \<Rightarrow> if sub = [] then ''ip:'' @ ip else ''user:'' @ sub)))
          else ''ip:'' @ ip)"

definition bucket_key :: "string \<Rightarrow> string \<Rightarrow> string" where
  "bucket_key policy_name identity = ''perzforge:ratelimit:'' @ policy_name @ '':'' @ identity"

section \<open>Consuming\<close>

text \<open>
  The server's script cache is a parameter: how it answers \<open>EVALSHA\<close> for a digest in a state, and
  \<open>SCRIPT LOAD\<close>; a script that runs is \<open>token_bucket\<close>.
\<close>

datatype eval_status = ScriptRuns | NoScript | ServerError string

record 'h script_server =
  so_hash :: "'h hash_ops"
  so_status :: "string \<Rightarrow> 'h \<Rightarrow> eval_status"
  so_load :: "('h, string) handler"

definition register_script :: "'h script_server \<Rightarrow> ('h, string) handler" where
  "register_script S = so_load S"

definition run_script ::
  "'h script_server \<Rightarrow> string \<Rightarrow> rate_limit_policy \<Rightarrow> int \<Rightarrow> ('h, bucket_reply) handler" where
  "run_script S key policy now_ms =
     (\<lambda>h. case token_bucket (so_hash S) key (burst policy) (rate_per_second policy) now_ms 1 h of
        (reply, h') \<Rightarrow> (Inr reply, h'))"

definition consume_token ::
  "'h script_server \<Rightarrow> string \<Rightarrow> rate_limit_policy \<Rightarrow> string \<Rightarrow> time \<Rightarrow> ('h, rate_limit_result) handler" where
  "consume_token S script_sha policy identity now =
     (let key = bucket_key (pol_name policy) identity; now_ms = now div 1000 in
      bindE (\<lambda>h. case so_status S script_sha h of
          ScriptRuns \<Rightarrow> run_script S key policy now_ms h
        | ServerError m \<Rightarrow> (Inl (RedisError m), h)
        | NoScript \<Rightarrow> bindE (register_script S) (\<lambda>sha h'. case so_status S sha h' of
              ScriptRuns \<Rightarrow> run_script S key policy now_ms h'
            | ServerError m \<Rightarrow> (Inl (RedisError m), h')
            | NoScript \<Rightarrow> (Inl (RedisError ''NOSCRIPT''), h')) h) (\<lambda>raw.
      returnE \<lparr>rl_allowed = (br_allowed raw \<noteq> 0), rl_limit = br_limit raw,
        rl_remaining = max 0 (br_remaining raw), rl_retry_after = max 0 (br_retry_after raw),
        rl_reset_unix = br_reset_unix raw\<rparr>))"

definition rate_limit_headers :: "rate_limit_result \<Rightarrow> (string \<times> string) list" where
  "rate_limit_headers r =
     [(''X-RateLimit-Limit'', str_int (rl_limit r)),
      (''X-RateLimit-Remaining'', str_int (rl_remaining r)),
      (''X-RateLimit-Reset'', str_int (rl_reset_unix r))] @
     (if rl_allowed r then [] else [(''Retry-After'', str_int (rl_retry_after r))])"

text \<open>
  \<open>None\<close> is a skipped check.  The code catches Redis, connection, OS and timeout errors, which
  are the \<open>RedisError\<close>s of the model; anything else propagates.
\<close>

definition check_rate_limit ::
  "'h script_server option \<Rightarrow> string option \<Rightarrow> crypto \<Rightarrow> settings \<Rightarrow> time \<Rightarrow> string \<Rightarrow> string \<Rightarrow>
   string option \<Rightarrow> string \<Rightarrow> ('h, rate_limit_result option) handler" where
  "check_rate_limit redis script_sha C cfg now method path authorization ip =
     (if is_exempt_path path then returnE None
      else case redis of
        None \<Rightarrow> returnE None
      | Some S \<Rightarrow>
          if or_else script_sha [] = [] then returnE None
          else (let policy = resolve_policy cfg method path;
                    identity = resolve_identity C cfg now authorization ip (force_ip policy)
            in (\<lambda>h. case consume_token S (or_else script_sha []) policy identity now h of
                  (Inl (RedisError _), h') \<Rightarrow> (Inr None, h')
                | (Inl e, h') \<Rightarrow> (Inl e, h')
                | (Inr r, h') \<Rightarrow> (Inr (Some r), h'))))"

section \<open>The middleware\<close>

text \<open>Headers are kept under their lower-case names, and looked up without regard to case.\<close>

record http_request =
  rq_method :: string
  rq_path :: string
  rq_headers :: "string \<Rightarrow> string option"
  rq_client :: "string option"

record response =
  rp_status :: int
  rp_detail :: string
  rp_headers :: "string \<Rightarrow> string option"

definition set_headers :: "(string \<times> string) list \<Rightarrow> response \<Rightarrow> response" where
  "set_headers hs r = foldl (\<lambda>r (k, v). r\<lparr>rp_headers := (rp_headers r)(k := Some v)\<rparr>) r hs"

text \<open>
  \<open>call_next\<close> is the rest of the application: a handler over the Redis state and its own state.
\<close>

definition rate_limit_middleware ::
  "'h script_server option \<Rightarrow> string option \<Rightarrow> crypto \<Rightarrow> settings \<Rightarrow> time \<Rightarrow> http_request \<Rightarrow>
   ('h \<times> 'w, response) handler \<Rightarrow> ('h \<times> 'w, response) handler" where
  "rate_limit_middleware redis script_sha C cfg now rq call_next =
     (let ip = client_ip (rq_headers rq) (rq_client rq) in
      bindE (\<lambda>(h, w). case check_rate_limit redis script_sha C cfg now (rq_method rq) (rq_path rq)
               (rq_headers rq ''authorization'') ip h of (out, h') \<Rightarrow> (out, (h', w))) (\<lambda>result.
      case result of
        Some r \<Rightarrow>
          if \<not> rl_allowed r
          then returnE (set_headers (rate_limit_headers r)
            \<lparr>rp_status = 429, rp_detail = ''Rate limit exceeded'', rp_headers = (\<lambda>_. None)\<rparr>)
          else bindE call_next (\<lambda>resp. returnE (set_headers (rate_limit_headers r) resp))
      | None \<Rightarrow> call_next))"

section \<open>Routes and their policies\<close>

lemma rule_paths [simp]:
  "normalize_path ''/api/v1/auth/login'' = ''/api/v1/auth/login''"
  "normalize_path ''/api/v1/auth/refresh'' = ''/api/v1/auth/refresh''"
  "normalize_path ''/api/v1/jobs'' = ''/api/v1/jobs''"
  "normalize_path ''/api/v1/llm'' = ''/api/v1/llm''"
  by (simp_all add: normalize_path_def rstrip_by_def)

lemma resolve_policy_auth:
  assumes "py_upper method = ''POST''"
    and "normalize_path path = ''/api/v1/auth/login'' \<or> normalize_path path = ''/api/v1/auth/refresh''"
  shows "resolve_policy cfg method path = auth_policy cfg"
proof -
  have "first_rule cfg ''POST'' ''/api/v1/auth/login'' ROUTE_RULES = auth_policy cfg"
    "first_rule cfg ''POST'' ''/api/v1/auth/refresh'' ROUTE_RULES = auth_policy cfg"
    by (simp_all add: ROUTE_RULES_def Let_def)
  with assms show ?thesis by (metis resolve_policy_def)
qed

lemma resolve_policy_default:
  assumes "normalize_path path \<notin> {''/api/v1/auth/login'', ''/api/v1/auth/refresh'', ''/api/v1/jobs'', ''/api/v1/llm''}"
    and "\<not> startswith (normalize_path path) ''/api/v1/llm/''"
  shows "resolve_policy cfg method path = default_policy cfg"
proof -
  define p where "p = normalize_path path"
  define m where "m = py_upper method"
  have "p \<noteq> ''/api/v1/auth/login''" "p \<noteq> ''/api/v1/auth/refresh''" "p \<noteq> ''/api/v1/jobs''"
    "p \<noteq> ''/api/v1/llm''" "\<not> startswith p ''/api/v1/llm/''"
    using assms by (auto simp: p_def)
  then show ?thesis
    unfolding resolve_policy_def ROUTE_RULES_def p_def [symmetric] m_def [symmetric]
    by (simp add: Let_def)
qed

lemma resolve_identity_forced [simp]: "resolve_identity C cfg now a ip True = ''ip:'' @ ip"
  by (simp add: resolve_identity_def)

lemma auth_policy_simps [simp]: "force_ip (auth_policy cfg)" "pol_name (auth_policy cfg) = ''auth''"
  by (simp_all add: auth_policy_def)

lemma hd_py_split: "c \<notin> set s \<Longrightarrow> hd (py_split c (s @ c # rest)) = s"
proof (induction s)
  case (Cons x s)
  then show ?case by (cases "py_split c (s @ c # rest)") auto
qed simp

lemma consume_refused:
  assumes "consume_token S sha policy identity now h = (Inr r, h')" and "\<not> rl_allowed r"
  shows "1 \<le> rl_retry_after r"
proof -
  have raw: "1 \<le> br_retry_after raw"
    if "run_script S' key pol t g = (Inr raw, g')" "br_allowed raw = 0" for S' key pol t g raw g'
    using that by (auto simp: run_script_def token_bucket_def Let_def split_def split: if_splits)
  from assms show ?thesis
    by (auto simp: consume_token_def bindE_run returnE_def Let_def
        split: eval_status.splits sum.splits prod.splits dest!: raw)
qed

lemma consume_error:
  assumes "consume_token S sha policy identity now h = (Inl e, h')"
    and "\<And>g e g'. so_load S g = (Inl e, g') \<Longrightarrow> \<exists>m. e = RedisError m"
  shows "\<exists>m. e = RedisError m"
  using assms(1)
  by (auto simp: consume_token_def bindE_run returnE_def Let_def run_script_def register_script_def
      split: eval_status.splits sum.splits prod.splits dest: assms(2))

text \<open>A check that reaches Redis returns the verdict of the script or swallows its Redis error.\<close>

lemma check_rate_limit_cases:
  assumes "check_rate_limit redis sha C cfg now method path authorization ip h = (res, h')"
  obtains "res = Inr None"
    | S pol ident r where "redis = Some S" "consume_token S (or_else sha []) pol ident now h = (Inr r, h')"
      "res = Inr (Some r)"
    | S pol ident e where "redis = Some S" "consume_token S (or_else sha []) pol ident now h = (Inl e, h')"
      "res = Inl e" "\<nexists>m. e = RedisError m"
proof (cases "is_exempt_path path \<or> redis = None \<or> or_else sha [] = []")
  case True
  with assms have "res = Inr None"
    by (cases redis) (simp_all add: check_rate_limit_def returnE_def split: if_splits)
  then show ?thesis by (rule that(1))
next
  case False
  then obtain S where S: "redis = Some S" by auto
  let ?p = "resolve_policy cfg method path"
  let ?i = "resolve_identity C cfg now authorization ip (force_ip ?p)"
  obtain x h1 where x: "consume_token S (or_else sha []) ?p ?i now h = (x, h1)" by fastforce
  from assms False S x have run: "(res, h') = (case x of Inl e \<Rightarrow>
      (case e of RedisError _ \<Rightarrow> Inr None | _ \<Rightarrow> Inl e) | Inr r \<Rightarrow> Inr (Some r), h1)"
    by (cases x) (auto simp: check_rate_limit_def Let_def split: exn.splits)
  show ?thesis
  proof (cases x)
    case (Inl e)
    with run S x show ?thesis
      by (cases "\<exists>m. e = RedisError m") (auto split: exn.splits intro: that)
  next
    case (Inr r)
    with run S x show ?thesis by (auto intro: that)
  qed
qed

section \<open>Properties\<close>


definition ref_script :: "(string \<Rightarrow> bucket) script_server" where
  "ref_script = \<lparr>so_hash = ref_hash,
     so_status = (\<lambda>sha _. if sha = ''cafe'' then ScriptRuns else NoScript),
     so_load = returnE ''cafe''\<rparr>"

definition rq0 :: http_request where
  "rq0 = \<lparr>rq_method = ''GET'', rq_path = ''/api/v1/jobs/'', rq_headers = (\<lambda>_. None),
     rq_client = Some ''10.0.0.7''\<rparr>"

definition page0 :: response where
  "page0 = \<lparr>rp_status = 200, rp_detail = ''jobs'', rp_headers = (\<lambda>_. None)\<rparr>"


text \<open>Login and refresh are charged to the caller's address whatever credentials the request
  carries; that address, however, is the first entry of an \<open>X-Forwarded-For\<close> header as the
  request presents it, so a client that can set the header chooses its own bucket.\<close>

theorem auth_routes_charge_the_address:
  assumes "py_upper method = ''POST''"
    and "normalize_path path = ''/api/v1/auth/login'' \<or> normalize_path path = ''/api/v1/auth/refresh''"
    and "s \<noteq> []" and "\<forall>c \<in> set s. c \<noteq> CHR '','' \<and> \<not> is_space c"
  shows "check_rate_limit redis sha C cfg now method path a ip = check_rate_limit redis sha C cfg now method path a' ip \<and>
    bucket_key (pol_name (resolve_policy cfg method path))
        (resolve_identity C cfg now a (client_ip (hs(''x-forwarded-for'' := Some (s @ '', '' @ hops))) host)
          (force_ip (resolve_policy cfg method path))) = ''perzforge:ratelimit:auth:ip:'' @ s"
proof -
  have pol: "resolve_policy cfg method path = auth_policy cfg"
    by (rule resolve_policy_auth [OF assms(1,2)])
  have "check_rate_limit redis sha C cfg now method path a ip = check_rate_limit redis sha C cfg now method path a' ip"
    unfolding check_rate_limit_def pol by (cases redis) (simp_all add: Let_def)
  moreover have split: "hd (py_split (CHR '','') (s @ CHR '','' # rest)) = s" for rest
    using assms(4) by (intro hd_py_split) auto
  have strip: "py_strip s = s" using assms(4) by (intro strip_by_id) auto
  have "client_ip (hs(''x-forwarded-for'' := Some (s @ '', '' @ hops))) host = s"
    using assms(3) split strip by (cases s) (auto simp: client_ip_def or_else_def Let_def)
  with pol have "bucket_key (pol_name (resolve_policy cfg method path))
      (resolve_identity C cfg now a (client_ip (hs(''x-forwarded-for'' := Some (s @ '', '' @ hops))) host)
        (force_ip (resolve_policy cfg method path))) = ''perzforge:ratelimit:auth:ip:'' @ s"
    by (simp add: bucket_key_def)
  ultimately show ?thesis by blast
qed

theorem auth_routes_charge_the_address_witness:
  "bucket_key (pol_name (resolve_policy cfg0 ''post'' ''/api/v1/auth/login/''))
     (resolve_identity ref_crypto cfg0 5 None
       (client_ip ((\<lambda>_. None)(''x-forwarded-for'' := Some ''made-up, 10.0.0.7'')) (Some ''10.0.0.7''))
       (force_ip (resolve_policy cfg0 ''post'' ''/api/v1/auth/login/''))) = ''perzforge:ratelimit:auth:ip:made-up''"
proof -
  have h: "py_upper ''post'' = ''POST''" by code_simp
  have n: "normalize_path ''/api/v1/auth/login/'' = ''/api/v1/auth/login'' \<or>
      normalize_path ''/api/v1/auth/login/'' = ''/api/v1/auth/refresh''"
    by (simp add: normalize_path_def rstrip_by_def)
  have c: "(''made-up'' :: string) \<noteq> []" "\<forall>c \<in> set ''made-up''. c \<noteq> CHR '','' \<and> \<not> is_space c"
    by (simp, code_simp)
  show ?thesis
    using auth_routes_charge_the_address [where cfg = cfg0 and C = ref_crypto and now = 5 and a = None
        and hs = "\<lambda>_. None" and hops = "''10.0.0.7''" and host = "Some ''10.0.0.7''",
        OF h n c, THEN conjunct2]
    by simp
qed

text \<open>Outside login and refresh, a bearer token with the API key prefix is charged to its first
  eight characters without being looked up: tokens agreeing there share a bucket, tokens
  differing there have different buckets, whether or not any such key exists.\<close>

theorem key_identity_unverified:
  assumes "is_api_key_token t" and "\<forall>c \<in> set t. \<not> is_space c"
    and "is_api_key_token t'" and "\<forall>c \<in> set t'. \<not> is_space c"
  shows "bucket_key pol (resolve_identity C cfg now (Some (''Bearer '' @ t)) ip False) =
    bucket_key pol (resolve_identity C cfg now (Some (''Bearer '' @ t')) ip False) \<longleftrightarrow> take 8 t = take 8 t'"
proof -
  have "resolve_identity C cfg now (Some (''Bearer '' @ t)) ip False = ''key:'' @ take 8 t"
    if "is_api_key_token t" "\<forall>c \<in> set t. \<not> is_space c" for t
  proof -
    have low: "py_lower (''Bearer '' @ t) = ''bearer '' @ py_lower t"
    proof -
      have "py_lower ''Bearer '' = ''bearer ''" by code_simp
      then show ?thesis by (simp add: py_lower_def)
    qed
    have "t \<noteq> []" using that(1) by (auto simp: is_api_key_token_def API_KEY_PREFIX_def startswith_def)
    moreover have "py_strip t = t" using that(2) by (intro strip_by_id) auto
    ultimately show ?thesis
      using that(1) unfolding resolve_identity_def option.case low by (simp add: startswith_def)
  qed
  with assms show ?thesis by (simp add: bucket_key_def)
qed

theorem key_identity_unverified_witness:
  "bucket_key ''default'' (resolve_identity ref_crypto cfg0 5 (Some (''Bearer '' @ ''pzf_aaaa1'')) ''1'' False) \<noteq>
     bucket_key ''default'' (resolve_identity ref_crypto cfg0 5 (Some (''Bearer '' @ ''pzf_aaab1'')) ''1'' False)"
proof -
  have "is_api_key_token ''pzf_aaaa1''" "is_api_key_token ''pzf_aaab1''"
    by (simp_all add: is_api_key_token_def API_KEY_PREFIX_def startswith_def)
  moreover have "\<forall>c \<in> set ''pzf_aaaa1''. \<not> is_space c" "\<forall>c \<in> set ''pzf_aaab1''. \<not> is_space c"
    by code_simp+
  ultimately show ?thesis
    using key_identity_unverified [of "''pzf_aaaa1''" "''pzf_aaab1''" "''default''" ref_crypto cfg0 5 "''1''"]
    by simp
qed

end
