(* ===== verification/Log_Stream.thy ===== *)
theory Log_Stream
  imports Jobs
begin

text \<open>
  The log stream of a running job: the channel, buffer and end-of-stream messages of
  \<open>api/log_stream.py\<close>, and the worker's side in \<open>worker/logs.py\<close>, which cuts the container's output
  into lines, publishes them, keeps a capped replay buffer in Redis and the last lines for the
  database.
\<close>

section \<open>Messages\<close>

definition job_log_channel :: "string \<Rightarrow> string" where
  "job_log_channel job_id = ''perzforge:jobs:'' @ job_id @ '':logs''"

definition job_log_buffer_key :: "string \<Rightarrow> string" where
  "job_log_buffer_key job_id = ''perzforge:jobs:'' @ job_id @ '':logbuf''"

definition eof_message :: "int option \<Rightarrow> string" where
  "eof_message exit_code = json_dumps (JObj [(''event'', JStr ''eof''),
     (''exit_code'', case exit_code of None \<Rightarrow> JNull | Some i \<Rightarrow> JInt i)])"

definition eof_cancelled_message :: string where
  "eof_cancelled_message = json_dumps (JObj [(''event'', JStr ''eof''), (''cancelled'', JBool True)])"

text \<open>A line to relay, or the data of an end of stream.\<close>

definition parse_stream_payload :: "string \<Rightarrow> string option \<times> (string \<times> json) list option" where
  "parse_stream_payload payload =
     (if \<not> startswith payload ''{'' then (Some payload, None)
      else (case json_loads payload of
          None \<Rightarrow> (Some payload, None)
        | Some (JObj data) \<Rightarrow>
            if jlookup ''event'' data = Some (JStr ''eof'') then (None, Some data) else (Some payload, None)
        | Some _ \<Rightarrow> (Some payload, None)))"

definition replay_buffer_max_index :: "settings \<Rightarrow> int" where
  "replay_buffer_max_index cfg = job_log_replay_max_lines cfg - 1"

section \<open>Publishing\<close>

definition publish_line :: "'r redis_ops \<Rightarrow> settings \<Rightarrow> string \<Rightarrow> string \<Rightarrow> ('r, unit) handler" where
  "publish_line R cfg job_id line =
     bindE (rd_publish R (job_log_channel job_id) line) (\<lambda>_.
     bindE (rd_rpush R (job_log_buffer_key job_id) line) (\<lambda>_.
     rd_ltrim R (job_log_buffer_key job_id) (- job_log_replay_max_lines cfg) (-1)))"

text \<open>The two end-of-stream functions repeat the commands of \<open>publish_line\<close>.\<close>

definition publish_eof :: "'r redis_ops \<Rightarrow> settings \<Rightarrow> string \<Rightarrow> int option \<Rightarrow> ('r, unit) handler" where
  "publish_eof R cfg job_id exit_code = publish_line R cfg job_id (eof_message exit_code)"

definition publish_eof_cancelled :: "'r redis_ops \<Rightarrow> settings \<Rightarrow> string \<Rightarrow> ('r, unit) handler" where
  "publish_eof_cancelled R cfg job_id = publish_line R cfg job_id eof_cancelled_message"

section \<open>The collector\<close>

abbreviation newline :: char where
  "newline \<equiv> CHR 0x0A"

text \<open>\<open>deque(maxlen = n)\<close> keeps the last \<open>n\<close> elements.\<close>

definition lastn :: "nat \<Rightarrow> 'a list \<Rightarrow> 'a list" where
  "lastn n xs = drop (length xs - n) xs"

record collector =
  lc_job_id :: string
  lc_maxlen :: nat
  lc_lines :: "string list"
  lc_partial :: string

definition new_collector :: "settings \<Rightarrow> string \<Rightarrow> collector" where
  "new_collector cfg job_id = \<lparr>lc_job_id = job_id, lc_maxlen = nat (job_log_tail_lines cfg),
     lc_lines = [], lc_partial = []\<rparr>"

text \<open>\<open>partial.split(newline, 1)\<close> when there is a newline.\<close>

definition break_line :: "string \<Rightarrow> (string \<times> string) option" where
  "break_line s =
     (if newline \<in> set s then Some (takeWhile (\<lambda>c. c \<noteq> newline) s, tl (dropWhile (\<lambda>c. c \<noteq> newline) s))
      else None)"

lemma break_line_Some: "break_line s = Some (l, rest) \<longleftrightarrow> newline \<notin> set l \<and> s = l @ newline # rest"
proof
  assume a: "break_line s = Some (l, rest)"
  then have "dropWhile (\<lambda>c. c \<noteq> newline) s \<noteq> []" by (auto simp: break_line_def split: if_splits)
  then obtain x xs where x: "dropWhile (\<lambda>c. c \<noteq> newline) s = x # xs" by (cases "dropWhile (\<lambda>c. c \<noteq> newline) s") auto
  then have "x = newline" using hd_dropWhile [of "\<lambda>c. c \<noteq> newline" s] by auto
  moreover have "newline \<notin> set (takeWhile (\<lambda>c. c \<noteq> newline) s)" by (auto dest: set_takeWhileD)
  ultimately show "newline \<notin> set l \<and> s = l @ newline # rest"
    using a x takeWhile_dropWhile_id [of "\<lambda>c. c \<noteq> newline" s] by (auto simp: break_line_def split: if_splits)
next
  assume "newline \<notin> set l \<and> s = l @ newline # rest"
  then show "break_line s = Some (l, rest)"
    by (auto simp: break_line_def takeWhile_append2 dropWhile_append2 takeWhile_append dropWhile_append)
qed

lemma break_line_shorter: "break_line s = Some (l, rest) \<Longrightarrow> length rest < length s"
  by (simp add: break_line_Some)

text \<open>
  The loop of \<open>append\<close>: the line leaves \<open>_partial\<close> before it is published, and is kept only after.
\<close>

function drain :: "'r redis_ops \<Rightarrow> settings \<Rightarrow> collector \<Rightarrow> 'r \<Rightarrow> (exn + unit) \<times> collector \<times> 'r" where
  "drain R cfg c r =
     (case break_line (lc_partial c) of
        None \<Rightarrow> (Inr (), c, r)
      | Some (line, rest) \<Rightarrow>
          (case publish_line R cfg (lc_job_id c) (line @ [newline]) r of
             (Inl e, r') \<Rightarrow> (Inl e, c\<lparr>lc_partial := rest\<rparr>, r')
           | (Inr _, r') \<Rightarrow>
               drain R cfg (c\<lparr>lc_partial := rest,
                  lc_lines := lastn (lc_maxlen c) (lc_lines c @ [line @ [newline]])\<rparr>) r'))"
  by pat_completeness auto
termination
  by (relation "measure (\<lambda>(R, cfg, c, r). length (lc_partial c))") (auto dest: break_line_shorter)

declare drain.simps [simp del]

definition collector_append ::
  "'r redis_ops \<Rightarrow> settings \<Rightarrow> string \<Rightarrow> collector \<Rightarrow> 'r \<Rightarrow> (exn + unit) \<times> collector \<times> 'r" where
  "collector_append R cfg chunk c r = drain R cfg (c\<lparr>lc_partial := lc_partial c @ chunk\<rparr>) r"

definition collector_flush ::
  "'r redis_ops \<Rightarrow> settings \<Rightarrow> collector \<Rightarrow> 'r \<Rightarrow> (exn + unit) \<times> collector \<times> 'r" where
  "collector_flush R cfg c r =
     (if lc_partial c = [] then (Inr (), c, r)
      else (case publish_line R cfg (lc_job_id c) (lc_partial c) r of
          (Inl e, r') \<Rightarrow> (Inl e, c, r')
        | (Inr _, r') \<Rightarrow> (Inr (), c\<lparr>lc_lines := lastn (lc_maxlen c) (lc_lines c @ [lc_partial c]),
             lc_partial := []\<rparr>, r')))"

definition collector_tail ::
  "'r redis_ops \<Rightarrow> settings \<Rightarrow> collector \<Rightarrow> 'r \<Rightarrow> (exn + string) \<times> collector \<times> 'r" where
  "collector_tail R cfg c r =
     (case collector_flush R cfg c r of
        (Inl e, c', r') \<Rightarrow> (Inl e, c', r')
      | (Inr _, c', r') \<Rightarrow> (Inr (concat (lc_lines c')), c', r'))"

text \<open>\<open>_follow_logs\<close>, for the chunks the container's log stream yields.\<close>

fun follow_logs ::
  "'r redis_ops \<Rightarrow> settings \<Rightarrow> string list \<Rightarrow> collector \<Rightarrow> 'r \<Rightarrow> (exn + unit) \<times> collector \<times> 'r" where
  "follow_logs R cfg [] c r = (Inr (), c, r)"
| "follow_logs R cfg (chunk # chunks) c r =
     (case collector_append R cfg chunk c r of
        (Inl e, c', r') \<Rightarrow> (Inl e, c', r')
      | (Inr _, c', r') \<Rightarrow> follow_logs R cfg chunks c' r')"

section \<open>Lines\<close>

text \<open>The lines of a text, each with its newline; the last may lack one.\<close>

fun text_lines :: "string \<Rightarrow> string list" where
  "text_lines [] = []"
| "text_lines (c # cs) =
     (if c = newline then [c] # text_lines cs
      else (case text_lines cs of [] \<Rightarrow> [[c]] | l # ls \<Rightarrow> (c # l) # ls))"

lemma concat_text_lines [simp]: "concat (text_lines s) = s"
proof (induction s)
  case (Cons c cs)
  then show ?case by (cases "text_lines cs") auto
qed simp

lemma text_lines_break: "newline \<notin> set l \<Longrightarrow> text_lines (l @ newline # rest) = (l @ [newline]) # text_lines rest"
  by (induction l) auto

lemma text_lines_single: "newline \<notin> set l \<Longrightarrow> text_lines l = (if l = [] then [] else [l])"
  by (induction l) (auto split: if_splits)

text \<open>The finished lines of a text and the rest after its last newline.\<close>

definition complete_lines :: "string \<Rightarrow> string list" where
  "complete_lines s = filter (\<lambda>l. newline \<in> set l) (text_lines s)"

definition remainder :: "string \<Rightarrow> string" where
  "remainder s = concat (filter (\<lambda>l. newline \<notin> set l) (text_lines s))"

lemma complete_None: "newline \<notin> set s \<Longrightarrow> complete_lines s = [] \<and> remainder s = s"
  by (simp add: complete_lines_def remainder_def text_lines_single)

lemma complete_break:
  "newline \<notin> set l \<Longrightarrow> complete_lines (l @ newline # rest) = (l @ [newline]) # complete_lines rest"
  "newline \<notin> set l \<Longrightarrow> remainder (l @ newline # rest) = remainder rest"
  by (simp_all add: complete_lines_def remainder_def text_lines_break)

lemma break_line_induct [case_names plain break]:
  assumes "\<And>s. newline \<notin> set s \<Longrightarrow> P s" and "\<And>l s. newline \<notin> set l \<Longrightarrow> P s \<Longrightarrow> P (l @ newline # s)"
  shows "P s"
proof (induction s rule: length_induct)
  case (1 s)
  show ?case
  proof (cases "break_line s")
    case None
    then show ?thesis using assms(1) by (simp add: break_line_def split: if_splits)
  next
    case (Some x)
    then obtain l rest where "break_line s = Some (l, rest)" by (cases x) auto
    then show ?thesis using 1 assms(2) by (auto simp: break_line_Some)
  qed
qed

lemma remainder_no_newline: "newline \<notin> set (remainder s)"
  by (induction s rule: break_line_induct) (simp_all add: complete_None complete_break)

lemma text_lines_split:
  "text_lines s = complete_lines s @ (if remainder s = [] then [] else [remainder s])"
  by (induction s rule: break_line_induct)
    (simp_all add: complete_None complete_break text_lines_break text_lines_single)

lemma complete_append:
  "complete_lines (s @ t) = complete_lines s @ complete_lines (remainder s @ t) \<and>
   remainder (s @ t) = remainder (remainder s @ t)"
  by (induction s rule: break_line_induct) (simp_all add: complete_None complete_break)

lemma lastn_lastn: "lastn n (lastn n xs @ ys) = lastn n (xs @ ys)"
  by (cases "n \<le> length xs") (auto simp: lastn_def add.commute)

lemma lastn_all: "length xs \<le> n \<Longrightarrow> lastn n xs = xs"
  by (simp add: lastn_def)

lemma length_lastn: "length (lastn n xs) \<le> n"
  by (simp add: lastn_def)

lemma redis_range_lastn: "1 \<le> m \<Longrightarrow> redis_range (- m) (-1) xs = lastn (nat m) xs"
  by (auto simp: redis_range_def redis_index_def lastn_def Let_def max_def nat_diff_distrib intro!: arg_cong2 [of _ _ _ _ take])

section \<open>What reaches the subscribers, the buffer and the database\<close>

text \<open>The state after the lines \<open>ls\<close> of a job were published.\<close>

definition published ::
  "('r \<Rightarrow> string \<Rightarrow> string list) \<Rightarrow> ('r \<Rightarrow> (string \<times> string) list) \<Rightarrow> int \<Rightarrow> string \<Rightarrow> string list \<Rightarrow> 'r \<Rightarrow> 'r \<Rightarrow> bool" where
  "published items sent m job_id ls r r' \<longleftrightarrow>
     sent r' = sent r @ map (\<lambda>l. (job_log_channel job_id, l)) ls \<and>
     items r' = (items r)(job_log_buffer_key job_id := lastn (nat m) (items r (job_log_buffer_key job_id) @ ls))"

lemma published_trans:
  "published items sent m i ls r r' \<Longrightarrow> published items sent m i ls' r' r'' \<Longrightarrow>
   published items sent m i (ls @ ls') r r''"
  by (simp add: published_def lastn_lastn)

lemma published_Nil:
  "length (items r (job_log_buffer_key i)) \<le> nat m \<Longrightarrow> published items sent m i [] r r"
  by (simp add: published_def lastn_all fun_upd_idem)

lemma published_bound:
  "published items sent m i ls r r' \<Longrightarrow> length (items r' (job_log_buffer_key i)) \<le> nat m"
  by (simp add: published_def length_lastn)

context redis_service
begin

lemma publish_line_run:
  assumes "up r" and m: "1 \<le> job_log_replay_max_lines cfg"
  obtains r' where "publish_line R cfg job_id line r = (Inr (), r')" "up r'"
    "published items sent (job_log_replay_max_lines cfg) job_id [line] r r'"
proof -
  let ?k = "job_log_buffer_key job_id" and ?c = "job_log_channel job_id"
  from publish_law [OF assms(1), of ?c line] obtain r1 where
    r1: "rd_publish R ?c line r = (Inr (), r1)" "up r1" "sent r1 = sent r @ [(?c, line)]" by (rule effectE)
  from rpush_law [OF r1(2), of ?k line] obtain r2 where
    r2: "rd_rpush R ?k line r1 = (Inr (), r2)" "up r2" "items r2 = (items r1)(?k := items r1 ?k @ [line])"
    by (rule effectE)
  from ltrim_law [OF r2(2), of ?k "- job_log_replay_max_lines cfg" "-1"] obtain r3 where
    r3: "rd_ltrim R ?k (- job_log_replay_max_lines cfg) (-1) r2 = (Inr (), r3)" "up r3"
      "items r3 = (items r2)(?k := redis_range (- job_log_replay_max_lines cfg) (-1) (items r2 ?k))"
    by (rule effectE)
  have "items r1 = items r" using publish_frame [OF assms(1)] r1(1) by (metis snd_conv)
  moreover have "sent r2 = sent r1" using lists_silent [OF r1(2)] r2(1) by (metis snd_conv)
  moreover have "sent r3 = sent r2" using lists_silent [OF r2(2)] r3(1) by (metis snd_conv)
  ultimately have "published items sent (job_log_replay_max_lines cfg) job_id [line] r r3"
    using r1(3) r2(3) r3(3) by (simp add: published_def redis_range_lastn [OF m] fun_upd_idem)
  with r1(1) r2(1) r3(1,2) show ?thesis
    by (intro that [of r3]) (simp_all add: publish_line_def handler_simps)
qed

lemma drain_run:
  assumes "up r" and m: "1 \<le> job_log_replay_max_lines cfg"
    and "length (items r (job_log_buffer_key (lc_job_id c))) \<le> nat (job_log_replay_max_lines cfg)"
    and "length (lc_lines c) \<le> lc_maxlen c"
  shows "\<exists>r'. drain R cfg c r = (Inr (), c\<lparr>lc_partial := remainder (lc_partial c),
      lc_lines := lastn (lc_maxlen c) (lc_lines c @ complete_lines (lc_partial c))\<rparr>, r') \<and> up r' \<and>
    published items sent (job_log_replay_max_lines cfg) (lc_job_id c) (complete_lines (lc_partial c)) r r'"
  using assms(1,3,4)
proof (induction "lc_partial c" arbitrary: c r rule: break_line_induct)
  case (plain c r)
  then show ?case
    by (subst drain.simps) (simp add: complete_None break_line_def published_Nil lastn_all)
next
  case (break l s c r)
  let ?c = "c\<lparr>lc_partial := s, lc_lines := lastn (lc_maxlen c) (lc_lines c @ [l @ [newline]])\<rparr>"
  have br: "break_line (lc_partial c) = Some (l, s)"
    using break(1,3) by (simp add: break_line_Some)
  from publish_line_run [OF break.prems(1) m, of "lc_job_id c" "l @ [newline]"] obtain r1 where
    r1: "publish_line R cfg (lc_job_id c) (l @ [newline]) r = (Inr (), r1)" "up r1"
      "published items sent (job_log_replay_max_lines cfg) (lc_job_id c) [l @ [newline]] r r1" by blast
  have "length (items r1 (job_log_buffer_key (lc_job_id ?c))) \<le> nat (job_log_replay_max_lines cfg)"
    using published_bound [OF r1(3)] by simp
  with break.hyps(2) [of ?c r1] r1(2) obtain r2 where
    r2: "drain R cfg ?c r1 = (Inr (), ?c\<lparr>lc_partial := remainder s,
        lc_lines := lastn (lc_maxlen c) (lc_lines ?c @ complete_lines s)\<rparr>, r2)" "up r2"
      "published items sent (job_log_replay_max_lines cfg) (lc_job_id c) (complete_lines s) r1 r2"
    by (auto simp: length_lastn)
  have "drain R cfg c r = drain R cfg ?c r1" by (subst drain.simps) (simp add: br r1(1))
  with r2 published_trans [OF r1(3) r2(3)] show ?case
    by (simp add: break.hyps(3) [symmetric] complete_break break.hyps(1) lastn_lastn)
qed

lemma follow_logs_run:
  assumes "up r" and m: "1 \<le> job_log_replay_max_lines cfg"
    and "length (items r (job_log_buffer_key (lc_job_id c))) \<le> nat (job_log_replay_max_lines cfg)"
    and "length (lc_lines c) \<le> lc_maxlen c" and "newline \<notin> set (lc_partial c)"
  shows "\<exists>r'. follow_logs R cfg chunks c r = (Inr (), c\<lparr>lc_partial := remainder (lc_partial c @ concat chunks),
      lc_lines := lastn (lc_maxlen c) (lc_lines c @ complete_lines (lc_partial c @ concat chunks))\<rparr>, r') \<and> up r' \<and>
    published items sent (job_log_replay_max_lines cfg) (lc_job_id c)
      (complete_lines (lc_partial c @ concat chunks)) r r'"
  using assms(1,3-5)
proof (induction chunks arbitrary: c r)
  case Nil
  then show ?case by (simp add: complete_None published_Nil lastn_all)
next
  case (Cons chunk chunks)
  let ?p = "lc_partial c @ chunk"
  let ?c = "c\<lparr>lc_partial := remainder ?p, lc_lines := lastn (lc_maxlen c) (lc_lines c @ complete_lines ?p)\<rparr>"
  from drain_run [OF Cons.prems(1) m, of "c\<lparr>lc_partial := ?p\<rparr>"] Cons.prems(2,3) obtain r1 where
    r1: "drain R cfg (c\<lparr>lc_partial := ?p\<rparr>) r = (Inr (), ?c, r1)" "up r1"
      "published items sent (job_log_replay_max_lines cfg) (lc_job_id c) (complete_lines ?p) r r1" by auto
  have "length (items r1 (job_log_buffer_key (lc_job_id ?c))) \<le> nat (job_log_replay_max_lines cfg)"
    using published_bound [OF r1(3)] by simp
  with Cons.IH [OF r1(2), of ?c] obtain r2 where
    r2: "follow_logs R cfg chunks ?c r1 = (Inr (), ?c\<lparr>lc_partial := remainder (remainder ?p @ concat chunks),
        lc_lines := lastn (lc_maxlen c) (lc_lines ?c @ complete_lines (remainder ?p @ concat chunks))\<rparr>, r2)"
      "up r2" "published items sent (job_log_replay_max_lines cfg) (lc_job_id c)
        (complete_lines (remainder ?p @ concat chunks)) r1 r2"
    by (auto simp: length_lastn remainder_no_newline)
  show ?case
    using r1(1) r2 published_trans [OF r1(3) r2(3)] complete_append [of ?p "concat chunks"]
    by (simp add: collector_append_def lastn_lastn)
qed

end

context redis_service
begin

lemma tail_run:
  assumes "up r" and m: "1 \<le> job_log_replay_max_lines cfg"
    and "length (items r (job_log_buffer_key (lc_job_id c))) \<le> nat (job_log_replay_max_lines cfg)"
    and "length (lc_lines c) \<le> lc_maxlen c"
  shows "\<exists>c' r'. let rest = if lc_partial c = [] then [] else [lc_partial c] in
    collector_tail R cfg c r = (Inr (concat (lastn (lc_maxlen c) (lc_lines c @ rest))), c', r') \<and>
    published items sent (job_log_replay_max_lines cfg) (lc_job_id c) rest r r'"
proof (cases "lc_partial c = []")
  case True
  with assms show ?thesis
    by (simp add: collector_tail_def collector_flush_def published_Nil lastn_all)
next
  case False
  from publish_line_run [OF assms(1) m, of "lc_job_id c" "lc_partial c"] obtain r1 where
    "publish_line R cfg (lc_job_id c) (lc_partial c) r = (Inr (), r1)"
    "published items sent (job_log_replay_max_lines cfg) (lc_job_id c) [lc_partial c] r r1" by blast
  with False show ?thesis by (simp add: collector_tail_def collector_flush_def Let_def)
qed

end


definition cfg_short :: settings where
  "cfg_short = cfg0\<lparr>job_log_tail_lines := 2, job_log_replay_max_lines := 1\<rparr>"

lemma cfg_short_simps [simp]: "job_log_tail_lines cfg_short = 2" "job_log_replay_max_lines cfg_short = 1"
  by (simp_all add: cfg_short_def)


text \<open>Both end-of-stream messages are recognised as such, whatever the exit code, and a line that
  does not start with a brace is always relayed as it is; but a line the job itself prints can
  be an end of stream too.\<close>

theorem stream_payloads:
  "(\<exists>data. parse_stream_payload (eof_message exit_code) = (None, Some data) \<and>
      jlookup ''exit_code'' data = Some (case exit_code of None \<Rightarrow> JNull | Some i \<Rightarrow> JInt i)) \<and>
   (\<exists>data. parse_stream_payload eof_cancelled_message = (None, Some data) \<and>
      jlookup ''cancelled'' data = Some (JBool True)) \<and>
   (startswith line ''{'' \<or> parse_stream_payload line = (Some line, None)) \<and>
   (plain_json (JObj ps) \<and> jlookup ''event'' ps = Some (JStr ''eof'') \<longrightarrow>
     parse_stream_payload (json_dumps (JObj ps)) = (None, Some ps))"
proof -
  have obj: "parse_stream_payload (json_dumps (JObj qs)) = (None, Some qs)"
    if "plain_json (JObj qs)" "jlookup ''event'' qs = Some (JStr ''eof'')" for qs
    using loads_dumps [OF that(1)] that(2) by (simp add: parse_stream_payload_def startswith_def)
  have "parse_stream_payload (eof_message exit_code) = (None, Some [(''event'', JStr ''eof''),
      (''exit_code'', case exit_code of None \<Rightarrow> JNull | Some i \<Rightarrow> JInt i)])"
    unfolding eof_message_def by (rule obj) (simp_all add: jlookup_def split: option.split)
  moreover have "parse_stream_payload eof_cancelled_message =
      (None, Some [(''event'', JStr ''eof''), (''cancelled'', JBool True)])"
    unfolding eof_cancelled_message_def by (rule obj) (simp_all add: jlookup_def)
  ultimately show ?thesis
    using obj [of ps] by (simp add: jlookup_def) (simp add: parse_stream_payload_def)
qed

theorem stream_payloads_witness:
  "parse_stream_payload (json_dumps (JObj [(''event'', JStr ''eof'')])) = (None, Some [(''event'', JStr ''eof'')])"
  using stream_payloads [where ps = "[(''event'', JStr ''eof'')]"] by (simp add: jlookup_def)

end
