(* ===== verification/Storage.thy ===== *)
theory Storage
  imports Data_Model
begin

text \<open>
  \<open>api/storage.py\<close>: object keys, sizes and the seam to the S3-compatible store.  boto3 and the
  store behind it are a parameter: a record of the calls the seam makes over an unknown state,
  whose documented effects are the locale \<open>object_store\<close>.  Bytes are characters.
\<close>

section \<open>Keys and sizes\<close>

definition PRESIGN_EXPIRY_SECONDS :: int where
  "PRESIGN_EXPIRY_SECONDS = 15 * 60"

definition user_prefix :: "uuid \<Rightarrow> string" where
  "user_prefix user_id = ''users/'' @ str_uuid user_id @ ''/''"

definition model_prefix :: "uuid \<Rightarrow> string \<Rightarrow> int \<Rightarrow> string" where
  "model_prefix user_id name version =
     ''models/'' @ str_uuid user_id @ ''/'' @ name @ ''/'' @ str_int version @ ''/''"

definition size_to_storage_mb :: "int \<Rightarrow> int" where
  "size_to_storage_mb size_bytes =
     (if size_bytes \<le> 0 then 0 else max 1 \<lceil>(of_int size_bytes :: rat) / (1024 * 1024)\<rceil>)"

section \<open>The store\<close>

text \<open>
  \<open>s3_list prefix\<close> is the paginated listing: pages of keys and sizes.  \<open>s3_head_bucket\<close> fails with a
  \<open>ClientError\<close> (\<open>False\<close>) when there is no bucket, \<open>s3_head\<close> when there is no such object.
\<close>

record 's s3_ops =
  s3_head_bucket :: "'s \<Rightarrow> bool"
  s3_create_bucket :: "('s, unit) handler"
  s3_put :: "string \<Rightarrow> string \<Rightarrow> ('s, unit) handler"
  s3_get :: "string \<Rightarrow> ('s, string) handler"
  s3_head :: "string \<Rightarrow> 's \<Rightarrow> bool"
  s3_list :: "string \<Rightarrow> ('s, (string \<times> int) list list) handler"
  s3_delete_objects :: "string list \<Rightarrow> ('s, unit) handler"
  s3_presign :: "string \<Rightarrow> int \<Rightarrow> string"

text \<open>What the client of the bucket is opened with.\<close>

record object_storage =
  os_bucket :: string
  os_endpoint_url :: string
  os_access_key :: string
  os_secret_key :: string
  os_region :: string
  os_signature_version :: string
  os_use_ssl :: bool

definition new_object_storage :: "settings \<Rightarrow> object_storage" where
  "new_object_storage cfg = \<lparr>os_bucket = minio_bucket cfg, os_endpoint_url = minio_endpoint cfg,
     os_access_key = minio_access_key cfg, os_secret_key = minio_secret_key cfg, os_region = minio_region cfg,
     os_signature_version = ''s3v4'', os_use_ssl = minio_secure cfg\<rparr>"

definition ensure_bucket :: "'s s3_ops \<Rightarrow> ('s, unit) handler" where
  "ensure_bucket S = (\<lambda>s. if s3_head_bucket S s then (Inr (), s) else s3_create_bucket S s)"

text \<open>The one client of a process, whose first use makes sure that the bucket exists; a failure is not kept.\<close>

definition get_storage :: "'s s3_ops \<Rightarrow> ('s \<times> bool, unit) handler" where
  "get_storage S = (\<lambda>(s, cached). if cached then (Inr (), s, True)
     else (case ensure_bucket S s of (Inl e, s') \<Rightarrow> (Inl e, s', False) | (Inr _, s') \<Rightarrow> (Inr (), s', True)))"

definition reset_storage_cache :: "('s \<times> bool, unit) handler" where
  "reset_storage_cache = modifyE (\<lambda>(s, _). (s, False))"

definition put_bytes :: "'s s3_ops \<Rightarrow> string \<Rightarrow> string \<Rightarrow> ('s, unit) handler" where
  "put_bytes S key data = s3_put S key data"

text \<open>The same for an open file, from where it stands.\<close>

definition put_file :: "'s s3_ops \<Rightarrow> string \<Rightarrow> string \<Rightarrow> ('s, unit) handler" where
  "put_file S key rest = s3_put S key rest"

definition get_bytes :: "'s s3_ops \<Rightarrow> string \<Rightarrow> ('s, string) handler" where
  "get_bytes S key = s3_get S key"

definition object_exists :: "'s s3_ops \<Rightarrow> string \<Rightarrow> 's \<Rightarrow> bool" where
  "object_exists S key s = s3_head S key s"

definition list_keys :: "'s s3_ops \<Rightarrow> string \<Rightarrow> ('s, string list) handler" where
  "list_keys S prefix = bindE (s3_list S prefix) (\<lambda>pages. returnE (concat (map (map fst) pages)))"

record file_entry =
  f_key :: string
  f_size :: int
  f_full_key :: string

definition file_entries :: "string \<Rightarrow> (string \<times> int) list \<Rightarrow> file_entry list" where
  "file_entries prefix items = concat (map (\<lambda>(key, size).
     let relative = (if startswith key prefix then drop (length prefix) key else key)
     in if relative = [] \<or> endswith relative ''/'' then []
        else [\<lparr>f_key = relative, f_size = size, f_full_key = key\<rparr>]) items)"

definition list_files :: "'s s3_ops \<Rightarrow> string \<Rightarrow> ('s, file_entry list) handler" where
  "list_files S prefix = bindE (s3_list S prefix) (\<lambda>pages. returnE (file_entries prefix (concat pages)))"

definition presign_get :: "'s s3_ops \<Rightarrow> string \<Rightarrow> string" where
  "presign_get S key = s3_presign S key PRESIGN_EXPIRY_SECONDS"

text \<open>Keys are deleted in chunks of a thousand.\<close>

function delete_chunks :: "'s s3_ops \<Rightarrow> string list \<Rightarrow> int \<Rightarrow> ('s, int) handler" where
  "delete_chunks S keys deleted =
     (if keys = [] then returnE deleted
      else bindE (s3_delete_objects S (take 1000 keys)) (\<lambda>_.
        delete_chunks S (drop 1000 keys) (deleted + int (length (take 1000 keys)))))"
  by pat_completeness auto
termination
  by (relation "measure (\<lambda>(_, keys, _). length keys)") auto

declare delete_chunks.simps [simp del]

definition delete_prefix :: "'s s3_ops \<Rightarrow> string \<Rightarrow> ('s, int) handler" where
  "delete_prefix S prefix = bindE (list_keys S prefix) (\<lambda>keys. delete_chunks S keys 0)"

definition prefix_has_file :: "'s s3_ops \<Rightarrow> string \<Rightarrow> string \<Rightarrow> 's \<Rightarrow> bool" where
  "prefix_has_file S prefix relative_name =
     object_exists S (if endswith prefix ''/'' then prefix @ relative_name
       else prefix @ ''/'' @ relative_name)"

section \<open>Downloading\<close>

text \<open>
  Absolute paths without symbolic links are the list of their components.  \<open>resolve_from\<close> is
  \<open>(dest / relative).resolve()\<close>: an absolute \<open>relative\<close> replaces \<open>dest\<close>, empty and \<open>.\<close> components
  vanish and \<open>..\<close> removes the component before it.  Directories are created as needed; a file
  system is the map from path strings to contents.
\<close>

type_synonym path = "string list"

definition path_str :: "path \<Rightarrow> string" where
  "path_str p = (if p = [] then ''/'' else concat (map (\<lambda>c. CHR ''/'' # c) p))"

fun walk :: "path \<Rightarrow> string list \<Rightarrow> path" where
  "walk p [] = p"
| "walk p (c # cs) =
     (if c = [] \<or> c = ''.'' then walk p cs
      else if c = ''..'' then walk (butlast p) cs
      else walk (p @ [c]) cs)"

definition resolve_from :: "path \<Rightarrow> string \<Rightarrow> path" where
  "resolve_from dest relative =
     walk (if startswith relative ''/'' then [] else dest) (py_split (CHR ''/'') relative)"

type_synonym file_system = "string \<Rightarrow> string option"

record 's disk =
  dk_store :: 's
  dk_files :: file_system

fun write_files :: "'s s3_ops \<Rightarrow> path \<Rightarrow> file_entry list \<Rightarrow> ('s disk, unit) handler" where
  "write_files S dest [] = returnE ()"
| "write_files S dest (item # items) =
     (let target = resolve_from dest (f_key item) in
      if \<not> startswith (path_str target) (path_str dest)
      then raiseE (ValueError (''refusing path outside destination: '' @ f_key item))
      else bindE (\<lambda>k. case get_bytes S (f_full_key item) (dk_store k) of
             (Inl e, s) \<Rightarrow> (Inl e, k\<lparr>dk_store := s\<rparr>)
           | (Inr data, s) \<Rightarrow> (Inr (), k\<lparr>dk_store := s, dk_files := (dk_files k)(path_str target := Some data)\<rparr>)) (\<lambda>_.
        write_files S dest items))"

definition download_prefix :: "'s s3_ops \<Rightarrow> string \<Rightarrow> path \<Rightarrow> ('s disk, int) handler" where
  "download_prefix S prefix dest =
     (\<lambda>k. case list_files S prefix (dk_store k) of
        (Inl e, s) \<Rightarrow> (Inl e, k\<lparr>dk_store := s\<rparr>)
      | (Inr files, s) \<Rightarrow>
          bindE (write_files S dest files) (\<lambda>_. returnE (int (length files))) (k\<lparr>dk_store := s\<rparr>))"

lemma mem_file_entries:
  "list_all (\<lambda>(k, _). startswith k p) items \<Longrightarrow> f \<in> set (file_entries p items) \<longleftrightarrow>
     (\<exists>r n. (p @ r, n) \<in> set items \<and> r \<noteq> [] \<and> \<not> endswith r ''/'' \<and>
        f = \<lparr>f_key = r, f_size = n, f_full_key = p @ r\<rparr>)"
proof (induction items)
  case Nil
  then show ?case by (simp add: file_entries_def)
next
  case (Cons x items)
  then obtain r n where x: "x = (p @ r, n)" by (cases x) (auto simp: startswith_iff)
  have "file_entries p (x # items) =
      (if r = [] \<or> endswith r ''/'' then [] else [\<lparr>f_key = r, f_size = n, f_full_key = p @ r\<rparr>]) @
      file_entries p items"
    by (simp add: file_entries_def x Let_def)
  with Cons show ?case by (auto simp: x)
qed

section \<open>What the store does\<close>

text \<open>
  \<open>objects s\<close> is the content of the bucket.  A listing is complete, without duplicates, and
  reports sizes; calls on a store that is up succeed.
\<close>

locale object_store =
  fixes S :: "'s s3_ops"
    and up :: "'s \<Rightarrow> bool"
    and objects :: "'s \<Rightarrow> string \<Rightarrow> string option"
  assumes put_law: "up s \<Longrightarrow> \<exists>s'. s3_put S k v s = (Inr (), s') \<and> up s' \<and> objects s' = (objects s)(k := Some v)"
    and get_law: "up s \<Longrightarrow> objects s k = Some v \<Longrightarrow> s3_get S k s = (Inr v, s)"
    and head_law: "up s \<Longrightarrow> s3_head S k s \<longleftrightarrow> objects s k \<noteq> None"
    and list_law: "up s \<Longrightarrow> \<exists>pages. s3_list S p s = (Inr pages, s) \<and> distinct (map fst (concat pages)) \<and>
      (\<forall>k n. (k, n) \<in> set (concat pages) \<longleftrightarrow>
        startswith k p \<and> (\<exists>v. objects s k = Some v \<and> n = int (length v)))"
    and delete_law: "up s \<Longrightarrow> \<exists>s'. s3_delete_objects S ks s = (Inr (), s') \<and> up s' \<and>
      objects s' = (\<lambda>k. if k \<in> set ks then None else objects s k)"
begin

lemma delete_chunks_run:
  "up s \<Longrightarrow> \<exists>s'. delete_chunks S keys n s = (Inr (n + int (length keys)), s') \<and> up s' \<and>
     objects s' = (\<lambda>k. if k \<in> set keys then None else objects s k)"
proof (induction keys arbitrary: n s rule: length_induct)
  case (1 keys)
  show ?case
  proof (cases "keys = []")
    case True
    with 1 show ?thesis by (simp add: delete_chunks.simps returnE_run)
  next
    case False
    from delete_law [OF 1(2), of "take 1000 keys"] obtain s' where s':
      "s3_delete_objects S (take 1000 keys) s = (Inr (), s')" "up s'"
      "objects s' = (\<lambda>k. if k \<in> set (take 1000 keys) then None else objects s k)" by blast
    have "length (drop 1000 keys) < length keys" using False by simp
    with 1(1) s'(2) obtain s'' where s'':
      "delete_chunks S (drop 1000 keys) (n + int (length (take 1000 keys))) s' =
        (Inr (n + int (length (take 1000 keys)) + int (length (drop 1000 keys))), s'')" "up s''"
      "objects s'' = (\<lambda>k. if k \<in> set (drop 1000 keys) then None else objects s' k)" by blast
    have len: "length (take 1000 keys) + length (drop 1000 keys) = length keys"
      by (metis append_take_drop_id length_append)
    have keys: "set (take 1000 keys) \<union> set (drop 1000 keys) = set keys"
      by (metis append_take_drop_id set_append)
    have "delete_chunks S keys n s = (Inr (n + int (length keys)), s'')"
      using False s'(1) s''(1) len by (subst delete_chunks.simps) (simp add: bindE_run flip: of_nat_add)
    moreover have "objects s'' = (\<lambda>k. if k \<in> set keys then None else objects s k)"
      unfolding s''(3) s'(3) keys [symmetric] by (simp add: fun_eq_iff)
    ultimately show ?thesis using s''(2) by blast
  qed
qed

lemma delete_prefix_run:
  assumes "up s"
  shows "\<exists>n s'. delete_prefix S p s = (Inr n, s') \<and> up s' \<and>
     objects s' = (\<lambda>k. if startswith k p then None else objects s k)"
proof -
  from list_law [OF assms, of p] obtain pages where
    pages: "s3_list S p s = (Inr pages, s)" and
    mem: "\<And>k n. (k, n) \<in> set (concat pages) \<longleftrightarrow>
        startswith k p \<and> (\<exists>v. objects s k = Some v \<and> n = int (length v))" by blast
  define items where "items = concat pages"
  note mem = mem [folded items_def]
  define ks where "ks = map fst items"
  have ks: "k \<in> set ks \<longleftrightarrow> startswith k p \<and> objects s k \<noteq> None" for k
  proof -
    have "k \<in> set ks \<longleftrightarrow> (\<exists>n. (k, n) \<in> set items)" by (force simp: ks_def)
    then show ?thesis by (auto simp: mem)
  qed
  obtain s' where s': "delete_chunks S ks 0 s = (Inr (0 + int (length ks)), s')" "up s'"
    "objects s' = (\<lambda>k. if k \<in> set ks then None else objects s k)"
    using delete_chunks_run [OF assms] by blast
  have "delete_prefix S p s = delete_chunks S ks 0 s"
    by (simp add: delete_prefix_def list_keys_def pages handler_simps ks_def items_def map_concat)
  with s' ks show ?thesis by (auto simp: fun_eq_iff)
qed

lemma list_files_run:
  assumes "up s"
  obtains files where "list_files S p s = (Inr files, s)"
    "\<And>r v. (\<lparr>f_key = r, f_size = int (length v), f_full_key = p @ r\<rparr> \<in> set files \<and> objects s (p @ r) = Some v)
       \<longleftrightarrow> (objects s (p @ r) = Some v \<and> r \<noteq> [] \<and> \<not> endswith r ''/'')"
    "\<And>f. f \<in> set files \<Longrightarrow> f_full_key f = p @ f_key f \<and> objects s (f_full_key f) \<noteq> None"
proof -
  from list_law [OF assms, of p] obtain pages where
    pages: "s3_list S p s = (Inr pages, s)" and
    mem: "\<And>k n. (k, n) \<in> set (concat pages) \<longleftrightarrow>
        startswith k p \<and> (\<exists>v. objects s k = Some v \<and> n = int (length v))" by blast
  define items where "items = concat pages"
  note mem = mem [folded items_def]
  let ?fs = "file_entries p items"
  have "list_files S p s = (Inr ?fs, s)" by (simp add: list_files_def pages handler_simps items_def)
  moreover have f: "f \<in> set ?fs \<longleftrightarrow> (\<exists>r v. objects s (p @ r) = Some v \<and> r \<noteq> [] \<and> \<not> endswith r ''/'' \<and>
      f = \<lparr>f_key = r, f_size = int (length v), f_full_key = p @ r\<rparr>)" for f
  proof -
    have "list_all (\<lambda>(k, _). startswith k p) items"
      using mem by (auto simp: list_all_iff)
    from mem_file_entries [OF this, of f] show ?thesis by (auto simp: mem)
  qed
  ultimately show ?thesis by (intro that [of ?fs]) (auto simp: f)
qed

end

text \<open>An in-memory bucket: keys and contents, no key twice.\<close>

definition ref_s3 :: "(string \<times> string) list s3_ops" where
  "ref_s3 = \<lparr>
     s3_head_bucket = (\<lambda>_. True),
     s3_create_bucket = returnE (),
     s3_put = (\<lambda>k v. modifyE (\<lambda>s. filter (\<lambda>(k', _). k' \<noteq> k) s @ [(k, v)])),
     s3_get = (\<lambda>k. liftE (\<lambda>s. case map_of s k of Some v \<Rightarrow> Inr v | None \<Rightarrow> Inl (OtherException ''NoSuchKey''))),
     s3_head = (\<lambda>k s. map_of s k \<noteq> None),
     s3_list = (\<lambda>p. getsE (\<lambda>s. [map (\<lambda>(k, v). (k, int (length v))) (filter (\<lambda>(k, _). startswith k p) s)])),
     s3_delete_objects = (\<lambda>ks. modifyE (filter (\<lambda>(k, _). k \<notin> set ks))),
     s3_presign = (\<lambda>k t. ''https://'' @ k)\<rparr>"

lemma map_of_filter_keys: "map_of (filter (\<lambda>(k, _). P k) s) k = (if P k then map_of s k else None)"
  by (induction s) auto

lemma distinct_filter_keys: "distinct (map fst s) \<Longrightarrow> distinct (map fst (filter P s))"
  by (induction s) auto

lemma map_of_append_None: "map_of s k = None \<Longrightarrow> map_of (s @ t) k = map_of t k"
  by (induction s) (auto split: if_splits)

interpretation ref_s3: object_store ref_s3 "\<lambda>s. distinct (map fst s)" map_of
proof unfold_locales
  fix s :: "(string \<times> string) list" and k v p :: string and ks :: "string list"
  assume up: "distinct (map fst s)"
  let ?s = "filter (\<lambda>(k', _). k' \<noteq> k) s @ [(k, v)]"
  have "distinct (map fst ?s)" using up by (auto simp: distinct_filter_keys)
  moreover have "map_of ?s = (map_of s)(k \<mapsto> v)"
    by (rule ext) (simp add: map_add_def map_of_filter_keys split: option.split)
  ultimately show "\<exists>s'. s3_put ref_s3 k v s = (Inr (), s') \<and> distinct (map fst s') \<and> map_of s' = (map_of s)(k \<mapsto> v)"
    by (intro exI [of _ ?s]) (simp add: ref_s3_def handler_simps)
  show "s3_get ref_s3 k s = (Inr v, s)" if "map_of s k = Some v"
    using that by (simp add: ref_s3_def handler_simps)
  show "s3_head ref_s3 k s \<longleftrightarrow> map_of s k \<noteq> None" by (simp add: ref_s3_def)
  let ?items = "map (\<lambda>(k, v). (k, int (length v))) (filter (\<lambda>(k, _). startswith k p) s)"
  have "distinct (map fst ?items)"
    using distinct_filter_keys [OF up] by (simp add: map_map comp_def case_prod_beta')
  moreover have "(k, n) \<in> set ?items \<longleftrightarrow> startswith k p \<and> (\<exists>v. map_of s k = Some v \<and> n = int (length v))" for k n
    using up by (auto simp: map_of_eq_Some_iff)
  ultimately show "\<exists>pages. s3_list ref_s3 p s = (Inr pages, s) \<and> distinct (map fst (concat pages)) \<and>
      (\<forall>k n. (k, n) \<in> set (concat pages) \<longleftrightarrow>
        startswith k p \<and> (\<exists>v. map_of s k = Some v \<and> n = int (length v)))"
    by (intro exI [of _ "[?items]"]) (simp add: ref_s3_def handler_simps)
  show "\<exists>s'. s3_delete_objects ref_s3 ks s = (Inr (), s') \<and> distinct (map fst s') \<and>
      map_of s' = (\<lambda>k. if k \<in> set ks then None else map_of s k)"
    using distinct_filter_keys [OF up]
    by (intro exI [of _ "filter (\<lambda>(k, _). k \<notin> set ks) s"])
      (simp add: ref_s3_def handler_simps fun_eq_iff map_of_filter_keys)
qed

section \<open>Properties\<close>

text \<open>A size is charged as the least whole number of mebibytes that holds it; nothing is charged
  exactly when nothing is stored.\<close>

theorem storage_mb_rounds_up:
  "n \<le> size_to_storage_mb n * 1048576 \<and> (size_to_storage_mb n - 1) * 1048576 < max 1 n \<and>
   (size_to_storage_mb n = 0 \<longleftrightarrow> n \<le> 0)"
proof (cases "n \<le> 0")
  case True
  then show ?thesis by (simp add: size_to_storage_mb_def)
next
  case False
  let ?q = "\<lceil>(of_int n :: rat) / 1048576\<rceil>"
  have "(of_int n :: rat) / 1048576 \<le> of_int ?q" by (rule le_of_int_ceiling)
  then have lo: "(of_int n :: rat) \<le> of_int (?q * 1048576)"
    unfolding of_int_mult of_int_numeral by (subst (asm) pos_divide_le_eq) simp_all
  have "of_int ?q - 1 < (of_int n :: rat) / 1048576" by linarith
  then have "(of_int ((?q - 1) * 1048576) :: rat) < of_int n" by (simp add: field_simps)
  with lo have q: "n \<le> ?q * 1048576" "(?q - 1) * 1048576 < n" by (simp_all only: of_int_le_iff of_int_less_iff)
  then have "1 \<le> ?q" using False by linarith
  with q False show ?thesis by (simp add: size_to_storage_mb_def)
qed

lemma write_files_confined:
  "write_files S dest items k = (out, k') \<Longrightarrow> dk_files k' p \<noteq> dk_files k p \<Longrightarrow> startswith p (path_str dest)"
proof (induction items arbitrary: k)
  case Nil
  then show ?case by (simp add: handler_simps)
next
  case (Cons x items)
  show ?case
  proof (cases "startswith (path_str (resolve_from dest (f_key x))) (path_str dest)")
    case False
    with Cons.prems show ?thesis by (auto simp: handler_simps Let_def)
  next
    case True
    obtain r s where g: "get_bytes S (f_full_key x) (dk_store k) = (r, s)" by fastforce
    show ?thesis
    proof (cases r)
      case (Inl e)
      with Cons.prems True g show ?thesis by (auto simp: handler_simps Let_def)
    next
      case (Inr data)
      let ?k = "k\<lparr>dk_store := s, dk_files := (dk_files k)(path_str (resolve_from dest (f_key x)) := Some data)\<rparr>"
      from Cons.prems(1) True g Inr have rest: "write_files S dest items ?k = (out, k')"
        by (auto simp: handler_simps Let_def)
      show ?thesis
      proof (cases "dk_files ?k p = dk_files k p")
        case True
        with Cons.IH [OF rest] Cons.prems(2) show ?thesis by simp
      next
        case False
        then have "p = path_str (resolve_from dest (f_key x))" by (auto split: if_splits)
        with True show ?thesis by simp
      qed
    qed
  qed
qed

lemma length_str_uuid: "length (str_uuid u) = 36"
  by (simp add: str_uuid_def Let_def uuid_hex_def)

lemma path_str_snoc: "path_str (p @ [c]) = concat (map (\<lambda>c. CHR ''/'' # c) p) @ CHR ''/'' # c"
  by (simp add: path_str_def)

text \<open>Whatever keys an artifact prefix lists, with \<open>..\<close> or absolute, a download changes only
  files whose path begins with the destination's; since the directories of endpoints are named
  by their identifiers, no download touches the directory of another endpoint, although the
  test compares strings and not path components.\<close>

theorem download_stays_in_endpoint:
  assumes "download_prefix S prefix (base @ [str_uuid i]) k = (out, k')" and "i \<noteq> j"
  shows "dk_files k' (path_str (base @ [str_uuid j]) @ rest) = dk_files k (path_str (base @ [str_uuid j]) @ rest)"
proof (rule ccontr)
  let ?p = "path_str (base @ [str_uuid j]) @ rest"
  assume ne: "dk_files k' ?p \<noteq> dk_files k ?p"
  obtain r s where l: "list_files S prefix (dk_store k) = (r, s)" by fastforce
  show False
  proof (cases r)
    case (Inl e)
    with assms(1) l ne show False by (auto simp: download_prefix_def)
  next
    case (Inr files)
    with assms(1) l have "\<exists>out'. write_files S (base @ [str_uuid i]) files (k\<lparr>dk_store := s\<rparr>) = (out', k')"
      by (auto simp: download_prefix_def bindE_run returnE_def split: prod.splits sum.splits)
    with ne have "startswith ?p (path_str (base @ [str_uuid i]))"
      using write_files_confined by fastforce
    then obtain t where "str_uuid j @ rest = str_uuid i @ t"
      by (auto simp: startswith_iff path_str_snoc)
    then have "str_uuid j = str_uuid i" by (simp add: append_eq_append_conv length_str_uuid)
    with assms(2) show False by simp
  qed
qed

theorem download_stays_in_endpoint_witness:
  "dk_files (snd (download_prefix ref_s3 ''m/'' ([''srv''] @ [str_uuid 1])
      \<lparr>dk_store = [(''m/../x'', ''data'')], dk_files = (\<lambda>_. None)\<rparr>)) (path_str ([''srv''] @ [str_uuid 2]) @ ''/x'') = None"
  using download_stays_in_endpoint [OF prod.collapse [symmetric], of 1 2 ref_s3 "''m/''" "[''srv'']"
      "\<lparr>dk_store = [(''m/../x'', ''data'')], dk_files = (\<lambda>_. None)\<rparr>" "''/x''"] by simp

end
