(* ===== verification/Registry.thy ===== *)
theory Registry
  imports Quota_Properties Storage Ownership Keys
begin

text \<open>
  The model registry: \<open>worker/artifacts.py\<close>, which turns the outputs of a job into stored objects
  and a row, and the routes of \<open>api/routers/models.py\<close> that list, read, download and delete
  models (deployment is with the endpoints).
\<close>

section \<open>State\<close>

record ('r, 's) platform =
  pl_world :: "'r world"
  pl_store :: 's

definition on_world :: "('r world, 'a) handler \<Rightarrow> (('r, 's) platform, 'a) handler" where
  "on_world m = (\<lambda>p. case m (pl_world p) of (out, w) \<Rightarrow> (out, p\<lparr>pl_world := w\<rparr>))"

definition on_store :: "('s, 'a) handler \<Rightarrow> (('r, 's) platform, 'a) handler" where
  "on_store m = (\<lambda>p. case m (pl_store p) of (out, s) \<Rightarrow> (out, p\<lparr>pl_store := s\<rparr>))"

lemma on_world_run [handler_simps]:
  "on_world m p = (fst (m (pl_world p)), p\<lparr>pl_world := snd (m (pl_world p))\<rparr>)"
  by (simp add: on_world_def split: prod.splits)

lemma on_store_run [handler_simps]:
  "on_store m p = (fst (m (pl_store p)), p\<lparr>pl_store := snd (m (pl_store p))\<rparr>)"
  by (simp add: on_store_def split: prod.splits)

abbreviation pl_db :: "('r, 's) platform \<Rightarrow> db" where
  "pl_db p \<equiv> w_db (pl_world p)"

section \<open>Promotion of outputs\<close>

text \<open>The files below the outputs directory: relative path and content.\<close>

type_synonym outputs = "(string \<times> string) list"

definition dir_size_bytes :: "outputs \<Rightarrow> int" where
  "dir_size_bytes files = sum_list (map (\<lambda>(_, data). int (length data)) files)"

definition next_model_version :: "db \<Rightarrow> uuid \<Rightarrow> string \<Rightarrow> int" where
  "next_model_version d user_id name =
     (case map m_version (filter (\<lambda>m. m_user_id m = user_id \<and> m_name m = name) (models d)) of
        [] \<Rightarrow> 0 | v # vs \<Rightarrow> foldr max vs v) + 1"

fun upload :: "'s s3_ops \<Rightarrow> string \<Rightarrow> outputs \<Rightarrow> ('s, unit) handler" where
  "upload S prefix [] = returnE ()"
| "upload S prefix ((relative, data) # files) =
     bindE (put_bytes S (prefix @ relative) data) (\<lambda>_. upload S prefix files)"

text \<open>The insert of a model row: \<open>uq_models_user_name_version\<close> rejects a second row of a version.\<close>

definition add_model :: "model \<Rightarrow> (db, model) handler" where
  "add_model m = (\<lambda>d.
     if \<exists>m' \<in> set (models d). m_user_id m' = m_user_id m \<and> m_name m' = m_name m \<and> m_version m' = m_version m
     then (Inl (OtherException ''IntegrityError''), d)
     else (Inr m, models_update (\<lambda>t. t @ [m]) d))"

definition promote_outputs ::
  "'r redis_ops \<Rightarrow> 's s3_ops \<Rightarrow> settings \<Rightarrow> time \<Rightarrow> uuid \<Rightarrow> uuid \<Rightarrow> uuid \<Rightarrow> string \<Rightarrow> outputs option \<Rightarrow>
   string option \<Rightarrow> (('r, 's) platform, model option \<times> string option) handler" where
  "promote_outputs R S cfg now model_id job_id user_id job_name outputs_dir framework =
     (case outputs_dir of
        None \<Rightarrow> returnE (None, None)
      | Some files \<Rightarrow>
          if files = [] then returnE (None, None)
          else (let size_bytes = dir_size_bytes files; storage_mb = size_to_storage_mb size_bytes in
            bindE (on_world (on_db (getsE (\<lambda>d. row_get u_id user_id (users d))))) (\<lambda>found.
            case found of
              None \<Rightarrow> returnE (None, Some ''user not found for artifact upload'')
            | Some u \<Rightarrow>
                bindE (\<lambda>p. case on_world (enforce R cfg now now u STORAGE_MB storage_mb) p of
                    (Inl (QuotaExceededError detail quota limit current), p') \<Rightarrow> (Inr (Some detail), p')
                  | (Inl e, p') \<Rightarrow> (Inl e, p')
                  | (Inr _, p') \<Rightarrow> (Inr None, p')) (\<lambda>refused.
                case refused of
                  Some detail \<Rightarrow> returnE (None, Some detail)
                | None \<Rightarrow>
                    bindE (on_world (on_db (getsE (\<lambda>d. next_model_version d user_id job_name)))) (\<lambda>version.
                    let prefix = model_prefix user_id job_name version in
                    bindE (on_store (upload S prefix files)) (\<lambda>_.
                    bindE (on_world (on_db (add_model \<lparr>m_id = model_id, m_user_id = user_id, m_name = job_name,
                        m_version = version, m_source_job_id = Some job_id, m_minio_prefix = prefix,
                        m_size_bytes = size_bytes, m_framework = framework, m_created_at = now\<rparr>))) (\<lambda>m.
                    returnE (Some m, None))))))))"

section \<open>Routes\<close>

record model_response =
  mr_id :: uuid
  mr_name :: string
  mr_version :: int
  mr_source_job_id :: "uuid option"
  mr_minio_prefix :: string
  mr_size_bytes :: int
  mr_framework :: "string option"
  mr_created_at :: time

definition to_model_response :: "model \<Rightarrow> model_response" where
  "to_model_response m = \<lparr>mr_id = m_id m, mr_name = m_name m, mr_version = m_version m,
     mr_source_job_id = m_source_job_id m, mr_minio_prefix = m_minio_prefix m,
     mr_size_bytes = m_size_bytes m, mr_framework = m_framework m, mr_created_at = m_created_at m\<rparr>"

definition MODEL_NOT_FOUND :: exn where
  "MODEL_NOT_FOUND = HTTPException 404 ''Model not found''"

definition get_owned_model :: "uuid \<Rightarrow> principal \<Rightarrow> (db, model) handler" where
  "get_owned_model model_id p =
     bindE (liftE (\<lambda>d. scalar_one_or_none (filter (\<lambda>m. m_id m = model_id) (models d)))) (\<lambda>found.
     case found of
       None \<Rightarrow> raiseE MODEL_NOT_FOUND
     | Some m \<Rightarrow>
         if m_user_id m \<noteq> u_id (p_user p) \<and> u_role (p_user p) \<noteq> RoleAdmin
         then raiseE MODEL_NOT_FOUND else returnE m)"

interpretation own_model: owned_resource get_owned_model models m_id m_user_id MODEL_NOT_FOUND
  by unfold_locales (simp add: get_owned_model_def handler_simps split: sum.split option.split)

definition list_models :: "principal \<Rightarrow> int \<Rightarrow> int \<Rightarrow> (db, model_response listing) handler" where
  "list_models p limit offset =
     (if \<not> valid_page limit offset then raiseE (ValidationError ''limit, offset'')
      else getsE (\<lambda>d. listing_of m_created_at to_model_response limit offset
        (filter (\<lambda>m. m_user_id m = u_id (p_user p)) (models d))))"

definition get_model :: "uuid \<Rightarrow> principal \<Rightarrow> (db, model_response) handler" where
  "get_model model_id p = bindE (get_owned_model model_id p) (\<lambda>m. returnE (to_model_response m))"

record presigned_file =
  pf_key :: string
  pf_url :: string
  pf_size :: int

type_synonym model_download_response = "presigned_file list \<times> int"

definition download_model ::
  "'s s3_ops \<Rightarrow> uuid \<Rightarrow> principal \<Rightarrow> (('r, 's) platform, model_download_response) handler" where
  "download_model S model_id p =
     bindE (on_world (on_db (get_owned_model model_id p))) (\<lambda>m.
     bindE (on_store (list_files S (m_minio_prefix m))) (\<lambda>files.
     returnE (map (\<lambda>f. \<lparr>pf_key = f_key f, pf_url = presign_get S (f_full_key f), pf_size = f_size f\<rparr>) files,
       PRESIGN_EXPIRY_SECONDS)))"

text \<open>
  \<open>delete \<dots> where Model.id = \<dots>\<close>: the foreign keys of the schema cascade to the model's endpoints
  and to their usage logs.
\<close>

definition delete_model_rows :: "uuid \<Rightarrow> db \<Rightarrow> db" where
  "delete_model_rows model_id d =
     (let gone = map e_id (filter (\<lambda>e. e_model_id e = model_id) (endpoints d)) in
      d\<lparr>models := filter (\<lambda>m. m_id m \<noteq> model_id) (models d),
        endpoints := filter (\<lambda>e. e_model_id e \<noteq> model_id) (endpoints d),
        usage_logs := filter (\<lambda>l. ul_endpoint_id l \<notin> set gone) (usage_logs d)\<rparr>)"

definition delete_model ::
  "'r redis_ops \<Rightarrow> 's s3_ops \<Rightarrow> time \<Rightarrow> uuid \<Rightarrow> principal \<Rightarrow> (('r, 's) platform, unit) handler" where
  "delete_model R S now model_id p =
     bindE (on_world (on_db (get_owned_model model_id p))) (\<lambda>m.
     bindE (on_store (delete_prefix S (m_minio_prefix m))) (\<lambda>_.
     bindE (whenE (size_to_storage_mb (m_size_bytes m) > 0)
       (on_world (release R now (p_user p) STORAGE_MB (size_to_storage_mb (m_size_bytes m))))) (\<lambda>_.
     on_world (on_db (modifyE (delete_model_rows (m_id m)))))))"

section \<open>Versions\<close>

definition version_key :: "model \<Rightarrow> uuid \<times> string \<times> int" where
  "version_key m = (m_user_id m, m_name m, m_version m)"

lemma foldr_max_ge: "x \<in> set (v # vs) \<Longrightarrow> x \<le> foldr max vs (v :: int)"
  by (induction vs) (fastforce simp: le_max_iff_disj)+

lemma next_model_version_above:
  assumes "m \<in> set (models d)" and "m_user_id m = i" and "m_name m = name"
  shows "m_version m < next_model_version d i name"
proof -
  have "m_version m \<in> set (map m_version (filter (\<lambda>m. m_user_id m = i \<and> m_name m = name) (models d)))"
    using assms by auto
  then show ?thesis
    using foldr_max_ge [of "m_version m"]
    by (cases "map m_version (filter (\<lambda>m. m_user_id m = i \<and> m_name m = name) (models d))")
      (simp, simp only: next_model_version_def list.case zle_add1_eq_le [symmetric] zless_add1_eq)
qed

lemma add_next_version:
  assumes "m_version m = next_model_version d (m_user_id m) (m_name m)"
  shows "add_model m d = (Inr m, models_update (\<lambda>t. t @ [m]) d)"
  using assms next_model_version_above by (fastforce simp: add_model_def)

section \<open>Objects\<close>

context object_store
begin

lemma upload_run:
  "up s \<Longrightarrow> \<exists>s'. upload S prefix files s = (Inr (), s') \<and> up s' \<and>
     objects s' = objects s ++ map_of (rev (map (\<lambda>(r, d). (prefix @ r, d)) files))"
proof (induction files arbitrary: s)
  case Nil
  then show ?case by (simp add: handler_simps)
next
  case (Cons x files)
  obtain r d where x: "x = (r, d)" by fastforce
  from put_law [OF Cons.prems, of "prefix @ r" d] obtain s1 where
    s1: "s3_put S (prefix @ r) d s = (Inr (), s1)" "up s1" "objects s1 = (objects s)(prefix @ r \<mapsto> d)" by blast
  from Cons.IH [OF s1(2)] obtain s2 where
    s2: "upload S prefix files s1 = (Inr (), s2)" "up s2"
      "objects s2 = objects s1 ++ map_of (rev (map (\<lambda>(r, d). (prefix @ r, d)) files))" by blast
  then show ?case
    by (intro exI [of _ s2]) (simp add: x put_bytes_def handler_simps s1(1,3))
qed

end

lemma uploaded_file:
  assumes "distinct (map fst files)" and "(r, d) \<in> set files"
  shows "(f ++ map_of (rev (map (\<lambda>(r, d). (prefix @ r, d)) files))) (prefix @ r) = Some d"
proof -
  have "distinct (map fst (map (\<lambda>(r, d). (prefix @ r, d)) files))"
    using assms(1) by (induction files) (auto simp: image_iff)
  then have "distinct (map fst (rev (map (\<lambda>(r, d). (prefix @ r, d)) files)))"
    by (simp only: rev_map [symmetric] distinct_rev)
  then have "map_of (rev (map (\<lambda>(r, d). (prefix @ r, d)) files)) (prefix @ r) = Some d"
    by (rule map_of_is_SomeI) (use assms(2) in force)
  then show ?thesis by simp
qed

lemma uploaded_outside:
  assumes "\<not> startswith k prefix"
  shows "(f ++ map_of (rev (map (\<lambda>(r, d). (prefix @ r, d)) files))) k = f k"
proof -
  have "map_of (rev (map (\<lambda>(r, d). (prefix @ r, d)) files)) k = None"
    using assms by (auto simp: map_of_eq_None_iff startswith_iff)
  then show ?thesis by (simp add: map_add_def)
qed

text \<open>The row that a promotion adds.\<close>

definition promoted_model ::
  "db \<Rightarrow> time \<Rightarrow> uuid \<Rightarrow> uuid \<Rightarrow> uuid \<Rightarrow> string \<Rightarrow> outputs \<Rightarrow> string option \<Rightarrow> model" where
  "promoted_model d now model_id job_id user_id name files framework =
     \<lparr>m_id = model_id, m_user_id = user_id, m_name = name,
      m_version = next_model_version d user_id name, m_source_job_id = Some job_id,
      m_minio_prefix = model_prefix user_id name (next_model_version d user_id name),
      m_size_bytes = dir_size_bytes files, m_framework = framework, m_created_at = now\<rparr>"

lemma next_version_with_quota [simp]:
  "next_model_version (with_quota cfg i d) j name = next_model_version d j name"
  by (simp add: next_model_version_def)

lemma promoted_with_quota [simp]:
  "promoted_model (with_quota cfg j d) now mid jid i name files fw = promoted_model d now mid jid i name files fw"
  by (simp add: promoted_model_def)

lemma add_promoted:
  "add_model (promoted_model d now mid jid i name files fw) (with_quota cfg j d) =
     (Inr (promoted_model d now mid jid i name files fw),
      models_update (\<lambda>t. t @ [promoted_model d now mid jid i name files fw]) (with_quota cfg j d))"
  by (rule add_next_version) (simp add: promoted_model_def)

lemma promote_refused:
  assumes "redis_strings R up entry" and "up (w_redis w)" and "distinct (map q_user_id (quotas (w_db w)))"
    and "row_get u_id i (users (w_db w)) = Some u" and "usage entry now (u_id u) STORAGE_MB w = Some n"
    and "files \<noteq> []" and "0 < dir_size_bytes files"
    and "user_limit cfg (u_id u) STORAGE_MB (w_db w) < n + size_to_storage_mb (dir_size_bytes files)"
  shows "promote_outputs R S cfg now mid jid i name (Some files) fw \<lparr>pl_world = w, pl_store = s\<rparr> =
    (Inr (None, Some (''max_storage_mb quota exceeded ('' @ str_int n @ ''/'' @
        str_int (user_limit cfg (u_id u) STORAGE_MB (w_db w)) @ '')'')),
     \<lparr>pl_world = w\<lparr>w_db := with_quota cfg (u_id u) (w_db w)\<rparr>, pl_store = s\<rparr>)"
proof -
  have mb: "1 \<le> size_to_storage_mb (dir_size_bytes files)"
    using assms(7) by (simp add: size_to_storage_mb_def)
  have "\<not> (n + size_to_storage_mb (dir_size_bytes files) \<le> user_limit cfg (u_id u) STORAGE_MB (w_db w) \<and>
      redis_backed STORAGE_MB)" using assms(8) by simp
  from redis_strings.enforce_refused [OF assms(1,2,5,3) mb this] assms(8)
  have "enforce R cfg now now u STORAGE_MB (size_to_storage_mb (dir_size_bytes files)) w =
      (Inl (quota_exceeded STORAGE_MB (user_limit cfg (u_id u) STORAGE_MB (w_db w)) n),
       w\<lparr>w_db := with_quota cfg (u_id u) (w_db w)\<rparr>)" by simp
  then show ?thesis
    using assms(4,6) by (simp add: promote_outputs_def handler_simps Let_def quota_exceeded_def on_world_def)
qed

lemma promote_accepted:
  assumes laws: "redis_strings R up entry" and store: "object_store S ups objects"
    and w: "up (w_redis w)" "distinct (map q_user_id (quotas (w_db w)))" and s: "ups s"
    and u: "row_get u_id i (users (w_db w)) = Some u"
    and n: "usage entry now (u_id u) STORAGE_MB w = Some n"
    and files: "files \<noteq> []" "0 < dir_size_bytes files"
    and fits: "n + size_to_storage_mb (dir_size_bytes files) \<le> user_limit cfg (u_id u) STORAGE_MB (w_db w)"
    and b: "in_int64 (n + size_to_storage_mb (dir_size_bytes files))" and ttl: "0 < quota_counter_ttl_seconds cfg"
  obtains r s' where
    "promote_outputs R S cfg now mid jid i name (Some files) fw \<lparr>pl_world = w, pl_store = s\<rparr> =
      (Inr (Some (promoted_model (w_db w) now mid jid i name files fw), None),
       \<lparr>pl_world = w\<lparr>w_db := models_update (\<lambda>t. t @ [promoted_model (w_db w) now mid jid i name files fw])
            (with_quota cfg (u_id u) (w_db w)), w_redis := r\<rparr>, pl_store = s'\<rparr>)"
    "up r" "ups s'"
    "counter entry r = (counter entry (w_redis w))(usage_key now (u_id u) STORAGE_MB :=
       Some (n + size_to_storage_mb (dir_size_bytes files)))"
    "objects s' = objects s ++ map_of (rev (map (\<lambda>(r, d).
       (m_minio_prefix (promoted_model (w_db w) now mid jid i name files fw) @ r, d)) files))"
proof -
  let ?mb = "size_to_storage_mb (dir_size_bytes files)"
  let ?m = "promoted_model (w_db w) now mid jid i name files fw"
  have mb: "1 \<le> ?mb" using files(2) by (simp add: size_to_storage_mb_def)
  have red: "redis_backed STORAGE_MB" by (simp add: redis_resource_defs)
  from redis_strings.enforce_accepted [OF laws w(1) n w(2) mb fits red b ttl refl] obtain r where
    r: "enforce R cfg now now u STORAGE_MB ?mb w =
        (Inr (), w\<lparr>w_db := with_quota cfg (u_id u) (w_db w), w_redis := r\<rparr>)" "up r"
      "counter entry r = (counter entry (w_redis w))(usage_key now (u_id u) STORAGE_MB := Some (n + ?mb))"
    by blast
  from object_store.upload_run [OF store s, of "m_minio_prefix ?m" files] obtain s' where
    s': "upload S (m_minio_prefix ?m) files s = (Inr (), s')" "ups s'"
      "objects s' = objects s ++ map_of (rev (map (\<lambda>(r, d). (m_minio_prefix ?m @ r, d)) files))" by blast
  have pre: "m_minio_prefix ?m = model_prefix i name (next_model_version (w_db w) i name)"
    by (simp add: promoted_model_def)
  show ?thesis
    by (rule that [OF _ r(2) s'(2) r(3) s'(3)])
      (use files u r(1) s'(1) [unfolded pre] add_promoted [of "w_db w" now mid jid i name files fw cfg "u_id u"] in
        \<open>cases w; simp add: returnE_def promote_outputs_def handler_simps Let_def on_world_def on_store_def on_db_def
          flip: promoted_model_def\<close>)
qed

text \<open>Outputs that are all empty files round to zero mebibytes, which \<open>enforce\<close> rejects as an amount.\<close>

lemma promote_empty_files:
  assumes "row_get u_id i (users (w_db w)) = Some u" and "files \<noteq> []" and "dir_size_bytes files = 0"
  shows "promote_outputs R S cfg now mid jid i name (Some files) fw \<lparr>pl_world = w, pl_store = s\<rparr> =
    (Inl (ValueError ''amount must be >= 1''), \<lparr>pl_world = w, pl_store = s\<rparr>)"
  using assms
  by (simp add: promote_outputs_def handler_simps Let_def on_world_def enforce_def enforce_check_def
      size_to_storage_mb_def)

lemma delete_model_run:
  assumes laws: "redis_strings R up entry" and store: "object_store S ups objects"
    and w: "up (w_redis w)" "distinct (map m_id (models (w_db w)))" and s: "ups s"
    and m: "row_get m_id mid (models (w_db w)) = Some m" and vis: "visible_to p (m_user_id m)"
    and n: "usage entry now (u_id (p_user p)) STORAGE_MB w = Some n"
    and size: "0 < m_size_bytes m" and b: "in_int64 (n - size_to_storage_mb (m_size_bytes m))"
  obtains r s' where
    "delete_model R S now mid p \<lparr>pl_world = w, pl_store = s\<rparr> =
      (Inr (), \<lparr>pl_world = w\<lparr>w_db := delete_model_rows mid (w_db w), w_redis := r\<rparr>, pl_store = s'\<rparr>)"
    "up r" "ups s'" "objects s' = (\<lambda>k. if startswith k (m_minio_prefix m) then None else objects s k)"
    "counter entry r = (counter entry (w_redis w))(usage_key now (u_id (p_user p)) STORAGE_MB :=
       Some (max 0 (n - size_to_storage_mb (m_size_bytes m))))"
proof -
  have mb: "1 \<le> size_to_storage_mb (m_size_bytes m)" using size by (simp add: size_to_storage_mb_def)
  have red: "redis_backed STORAGE_MB" by (simp add: redis_resource_defs)
  have id: "m_id m = mid" using m row_get_Some by metis
  have own: "get_owned_model mid p (w_db w) = (Inr m, w_db w)"
    using own_model.get_owned_decides [OF w(2)] m vis by simp
  from object_store.delete_prefix_run [OF store s] obtain k s' where
    s': "delete_prefix S (m_minio_prefix m) s = (Inr k, s')" "ups s'"
      "objects s' = (\<lambda>k. if startswith k (m_minio_prefix m) then None else objects s k)" by blast
  from redis_strings.release_run [OF laws w(1) n b mb red] obtain r where
    r: "release R now (p_user p) STORAGE_MB (size_to_storage_mb (m_size_bytes m)) w = (Inr (), w\<lparr>w_redis := r\<rparr>)"
      "up r" "counter entry r = (counter entry (w_redis w))(usage_key now (u_id (p_user p)) STORAGE_MB :=
       Some (max 0 (n - size_to_storage_mb (m_size_bytes m))))" by blast
  show ?thesis
    by (rule that [OF _ r(2) s'(2,3) r(3)])
      (use own s'(1) r(1) mb id in \<open>simp add: delete_model_def handler_simps on_world_def on_store_def on_db_def\<close>)
qed

section \<open>Properties\<close>


lemma user_alice: "row_get u_id 1 (users (w_db world0)) = Some alice"
  by (simp add: row_get_Cons)

definition files0 :: outputs where
  "files0 = [(''serve.py'', ''x''), (''w/b'', ''y'')]"

lemma files0_size [simp]: "dir_size_bytes files0 = 2" "size_to_storage_mb 2 = 1" "files0 \<noteq> []"
  by (simp_all add: files0_def dir_size_bytes_def size_to_storage_mb_def ceiling_eq_iff max_def)

lemma promote_files0:
  "\<exists>m p. promote_outputs ref_redis ref_s3 cfg0 5 7 8 1 ''net'' (Some files0) None
      \<lparr>pl_world = world0, pl_store = []\<rparr> = (Inr (Some m, None), p) \<and>
     m = promoted_model db0 5 7 8 1 ''net'' files0 None"
proof -
  have h: "rr_up (w_redis world0)" "distinct (map q_user_id (quotas (w_db world0)))"
    "distinct (map fst ([] :: (string \<times> string) list))" "0 < dir_size_bytes files0"
    "usage rr_entry 5 (u_id alice) STORAGE_MB world0 = Some 0"
    "0 + size_to_storage_mb (dir_size_bytes files0) \<le> user_limit cfg0 (u_id alice) STORAGE_MB (w_db world0)"
    "in_int64 (0 + size_to_storage_mb (dir_size_bytes files0))" "0 < quota_counter_ttl_seconds cfg0"
    by (simp_all add: usage_world0 user_limit_db0 in_int64_def)
  show ?thesis
    by (rule promote_accepted [OF ref_srv.redis_strings_axioms ref_s3.object_store_axioms h(1,2,3) user_alice
          h(5) files0_size(3) h(4,6,7,8), where mid = 7 and jid = 8 and name = "''net''" and fw = None]) simp
qed


text \<open>A promotion that reports a model was within the limit, and left the row, the counter and the objects.\<close>

lemma promote_succeeded:
  assumes "redis_strings R up entry" and "object_store S ups objects" and "counters_ok cfg up entry w" and "ups s"
    and user: "row_get u_id i (users (w_db w)) = Some u" and size: "0 < dir_size_bytes files"
    and "0 < quota_counter_ttl_seconds cfg"
    and run: "promote_outputs R S cfg now mid jid i name (Some files) fw \<lparr>pl_world = w, pl_store = s\<rparr> =
      (Inr (Some m, None), p1)"
  obtains n r s' where "usage entry now i STORAGE_MB w = Some n" "0 \<le> n"
    "in_int64 (n + size_to_storage_mb (dir_size_bytes files))" "m = promoted_model (w_db w) now mid jid i name files fw"
    "p1 = \<lparr>pl_world = w\<lparr>w_db := models_update (\<lambda>t. t @ [m]) (with_quota cfg i (w_db w)), w_redis := r\<rparr>,
      pl_store = s'\<rparr>" "up r" "ups s'"
    "counter entry r = (counter entry (w_redis w))(usage_key now i STORAGE_MB :=
      Some (n + size_to_storage_mb (dir_size_bytes files)))"
    "objects s' = objects s ++ map_of (rev (map (\<lambda>(r, d). (m_minio_prefix m @ r, d)) files))"
proof -
  let ?mb = "size_to_storage_mb (dir_size_bytes files)"
  have ui: "u_id u = i" using user row_get_Some by metis
  have ne: "files \<noteq> []" using size by (auto simp: dir_size_bytes_def)
  have mb: "1 \<le> ?mb" using size by (simp add: size_to_storage_mb_def)
  have red: "redis_backed STORAGE_MB" by (simp add: redis_resource_defs)
  from counters_okD [OF assms(3) red] obtain n where n: "usage entry now (u_id u) STORAGE_MB w = Some n" "0 \<le> n"
    by blast
  from assms(3) have w: "up (w_redis w)" "distinct (map q_user_id (quotas (w_db w)))"
    and lim: "user_limit cfg (u_id u) STORAGE_MB (w_db w) < 2 ^ 63" by (auto simp: counters_ok_def)
  have fits: "n + ?mb \<le> user_limit cfg (u_id u) STORAGE_MB (w_db w)"
  proof (rule ccontr)
    assume "\<not> ?thesis"
    then have over: "user_limit cfg (u_id u) STORAGE_MB (w_db w) < n + ?mb" by simp
    from promote_refused [OF assms(1) w user n(1) ne size over, of S mid jid name fw s] run show False by simp
  qed
  then have b: "in_int64 (n + ?mb)" using lim n(2) mb by (simp add: in_int64_def)
  let ?m = "promoted_model (w_db w) now mid jid i name files fw"
  from promote_accepted [OF assms(1,2) w assms(4) user n(1) ne size fits b assms(7)] obtain r s' where
    ok: "promote_outputs R S cfg now mid jid i name (Some files) fw \<lparr>pl_world = w, pl_store = s\<rparr> =
      (Inr (Some ?m, None), \<lparr>pl_world = w\<lparr>w_db := models_update (\<lambda>t. t @ [?m])
          (with_quota cfg (u_id u) (w_db w)), w_redis := r\<rparr>, pl_store = s'\<rparr>)"
    and "up r" "ups s'" "counter entry r = (counter entry (w_redis w))(usage_key now (u_id u) STORAGE_MB := Some (n + ?mb))"
      "objects s' = objects s ++ map_of (rev (map (\<lambda>(r, d). (m_minio_prefix ?m @ r, d)) files))" by blast
  moreover from ok run have "m = ?m" and "p1 = \<lparr>pl_world = w\<lparr>w_db := models_update (\<lambda>t. t @ [?m])
      (with_quota cfg (u_id u) (w_db w)), w_redis := r\<rparr>, pl_store = s'\<rparr>" by simp_all
  ultimately show thesis using n b unfolding ui by (intro that [of n r s']) simp_all
qed

text \<open>C20: deleting a model that was just promoted gives everything back: the owner's storage usage
  returns to what it was, every object outside the model's prefix is as before the promotion,
  none is left below it, and the row is gone.\<close>

theorem delete_undoes_promotion:
  assumes "redis_strings R up entry" and "object_store S ups objects" and "counters_ok cfg up entry w" and "ups s"
    and "row_get u_id i (users (w_db w)) = Some u" and "p_user p = u" and "0 < dir_size_bytes files"
    and "0 < quota_counter_ttl_seconds cfg" and "distinct (map m_id (models (w_db w)))"
    and "mid \<notin> m_id ` set (models (w_db w))"
    and "promote_outputs R S cfg now mid jid i name (Some files) fw \<lparr>pl_world = w, pl_store = s\<rparr> =
      (Inr (Some m, None), p1)"
  shows "\<exists>p2. delete_model R S now mid p p1 = (Inr (), p2) \<and> models (pl_db p2) = models (w_db w) \<and>
    usage entry now i STORAGE_MB (pl_world p2) = usage entry now i STORAGE_MB w \<and>
    objects (pl_store p2) = (\<lambda>k. if startswith k (m_minio_prefix m) then None else objects s k)"
proof -
  let ?mb = "size_to_storage_mb (dir_size_bytes files)"
  from promote_succeeded [OF assms(1-5,7,8,11)] obtain n r s' where
    n: "usage entry now i STORAGE_MB w = Some n" "0 \<le> n" and b: "in_int64 (n + ?mb)"
    and m: "m = promoted_model (w_db w) now mid jid i name files fw"
    and p1: "p1 = \<lparr>pl_world = w\<lparr>w_db := models_update (\<lambda>t. t @ [m]) (with_quota cfg i (w_db w)), w_redis := r\<rparr>,
      pl_store = s'\<rparr>" and r: "up r" "ups s'"
    and c: "counter entry r = (counter entry (w_redis w))(usage_key now i STORAGE_MB := Some (n + ?mb))"
    and obj: "objects s' = objects s ++ map_of (rev (map (\<lambda>(r, d). (m_minio_prefix m @ r, d)) files))" .
  let ?w1 = "w\<lparr>w_db := models_update (\<lambda>t. t @ [m]) (with_quota cfg i (w_db w)), w_redis := r\<rparr>"
  have id: "m_id m = mid" "m_user_id m = i" "m_size_bytes m = dir_size_bytes files" by (simp_all add: m promoted_model_def)
  have ui: "u_id u = i" using assms(5) row_get_Some by metis
  have red: "redis_backed STORAGE_MB" by (simp add: redis_resource_defs)
  have d1: "distinct (map m_id (models (w_db ?w1)))" using assms(9,10) id(1) by auto
  have get: "row_get m_id mid (models (w_db ?w1)) = Some m"
    using assms(10) by (simp add: row_get_append row_get_Cons id(1) row_get_None [THEN iffD2])
  have vis: "visible_to p (m_user_id m)" using assms(6) ui id(2) by (simp add: visible_to_def)
  have n1: "usage entry now (u_id (p_user p)) STORAGE_MB ?w1 = Some (n + ?mb)"
    using c red assms(6) ui by (simp add: redis_backed_usage)
  have mb: "1 \<le> ?mb" using assms(7) by (simp add: size_to_storage_mb_def)
  have b1: "in_int64 (n + ?mb - size_to_storage_mb (m_size_bytes m))" and z: "0 < m_size_bytes m" and up1: "up (w_redis ?w1)"
    using b n(2) mb id(3) assms(7) r by (simp_all add: in_int64_def)
  from delete_model_run [OF assms(1,2) up1 d1 r(2) get vis n1 z b1] obtain r2 s2 where
    del: "delete_model R S now mid p \<lparr>pl_world = ?w1, pl_store = s'\<rparr> =
      (Inr (), \<lparr>pl_world = ?w1\<lparr>w_db := delete_model_rows mid (w_db ?w1), w_redis := r2\<rparr>, pl_store = s2\<rparr>)"
    and obj2: "objects s2 = (\<lambda>k. if startswith k (m_minio_prefix m) then None else objects s' k)"
    and c2: "counter entry r2 = (counter entry (w_redis ?w1))(usage_key now (u_id (p_user p)) STORAGE_MB :=
      Some (max 0 (n + ?mb - size_to_storage_mb (m_size_bytes m))))" by blast
  have "filter (\<lambda>m. m_id m \<noteq> mid) (models (w_db w)) = models (w_db w)"
    using assms(10) by (intro filter_True) auto
  moreover have "objects s2 = (\<lambda>k. if startswith k (m_minio_prefix m) then None else objects s k)"
    by (simp add: obj2 obj uploaded_outside fun_eq_iff)
  ultimately show ?thesis
    using del p1 c2 n red assms(6) id
    by (simp add: redis_backed_usage ui delete_model_rows_def Let_def)
qed

theorem delete_undoes_promotion_witness:
  "\<exists>m p1 p2. promote_outputs ref_redis ref_s3 cfg0 5 7 8 1 ''net'' (Some files0) None
      \<lparr>pl_world = world0, pl_store = []\<rparr> = (Inr (Some m, None), p1) \<and>
     delete_model ref_redis ref_s3 5 7 \<lparr>p_user = alice, p_api_key = None\<rparr> p1 = (Inr (), p2) \<and>
     usage rr_entry 5 1 STORAGE_MB (pl_world p2) = Some 0 \<and> map_of (pl_store p2) = (\<lambda>_. None)"
proof -
  obtain m p1 where run: "promote_outputs ref_redis ref_s3 cfg0 5 7 8 1 ''net'' (Some files0) None
      \<lparr>pl_world = world0, pl_store = []\<rparr> = (Inr (Some m, None), p1)" using promote_files0 by blast
  let ?p = "\<lparr>p_user = alice, p_api_key = None\<rparr>"
  have h: "distinct (map fst ([] :: (string \<times> string) list))" "p_user ?p = alice" "0 < dir_size_bytes files0"
    "0 < quota_counter_ttl_seconds cfg0" "distinct (map m_id (models (w_db world0)))"
    "7 \<notin> m_id ` set (models (w_db world0))" by simp_all
  from delete_undoes_promotion [OF ref_srv.redis_strings_axioms ref_s3.object_store_axioms
      counters_ok_world0 h(1) user_alice h(2-6) run]
  obtain p2 where p2: "delete_model ref_redis ref_s3 5 7 ?p p1 = (Inr (), p2)"
    "usage rr_entry 5 1 STORAGE_MB (pl_world p2) = usage rr_entry 5 1 STORAGE_MB world0"
    "map_of (pl_store p2) = (\<lambda>k. if startswith k (m_minio_prefix m) then None else map_of [] k)"
    by blast
  have "map_of (pl_store p2) = (\<lambda>_. None)" by (rule ext) (simp add: p2(3))
  moreover have "usage rr_entry 5 1 STORAGE_MB (pl_world p2) = Some 0" by (simp only: p2(2) usage_world0)
  ultimately show ?thesis using run p2(1) by blast
qed

text \<open>A model deleted by an admin who does not own it gives its storage back to the admin: the
  owner stays charged for it.  The rows of its endpoints go with it, running ones included, and
  the handler stops no container.\<close>

theorem admin_delete_refunds_admin:
  assumes "redis_strings R up entry" and "object_store S ups objects" and "up (w_redis w)" and "ups s"
    and "distinct (map m_id (models (w_db w)))" and "row_get m_id mid (models (w_db w)) = Some m"
    and "u_role (p_user p) = RoleAdmin" and "m_user_id m \<noteq> u_id (p_user p)"
    and "usage entry now (u_id (p_user p)) STORAGE_MB w = Some n" and "0 < m_size_bytes m"
    and "in_int64 (n - size_to_storage_mb (m_size_bytes m))"
  shows "\<exists>p2. delete_model R S now mid p \<lparr>pl_world = w, pl_store = s\<rparr> = (Inr (), p2) \<and>
    usage entry now (m_user_id m) STORAGE_MB (pl_world p2) = usage entry now (m_user_id m) STORAGE_MB w \<and>
    usage entry now (u_id (p_user p)) STORAGE_MB (pl_world p2) =
      Some (max 0 (n - size_to_storage_mb (m_size_bytes m))) \<and>
    endpoints (pl_db p2) = filter (\<lambda>e. e_model_id e \<noteq> mid) (endpoints (w_db w))"
proof -
  have vis: "visible_to p (m_user_id m)" using assms(7) by (simp add: visible_to_def)
  have red: "redis_backed STORAGE_MB" by (simp add: redis_resource_defs)
  from delete_model_run [OF assms(1,2,3,5,4,6) vis assms(9,10,11)] obtain r s2 where
    del: "delete_model R S now mid p \<lparr>pl_world = w, pl_store = s\<rparr> =
      (Inr (), \<lparr>pl_world = w\<lparr>w_db := delete_model_rows mid (w_db w), w_redis := r\<rparr>, pl_store = s2\<rparr>)"
    and c: "counter entry r = (counter entry (w_redis w))(usage_key now (u_id (p_user p)) STORAGE_MB :=
      Some (max 0 (n - size_to_storage_mb (m_size_bytes m))))" by blast
  from assms(8) have "usage_key now (m_user_id m) STORAGE_MB \<noteq> usage_key now (u_id (p_user p)) STORAGE_MB"
    by (simp add: usage_key_inject)
  with del c red show ?thesis
    by (simp add: redis_backed_usage delete_model_rows_def Let_def)
qed

definition model0 :: model where
  "model0 = \<lparr>m_id = 7, m_user_id = 1, m_name = ''net'', m_version = 1, m_source_job_id = None,
     m_minio_prefix = model_prefix 1 ''net'' 1, m_size_bytes = 2, m_framework = None, m_created_at = 0\<rparr>"

theorem admin_delete_refunds_admin_witness:
  "\<exists>p2. delete_model ref_redis ref_s3 5 7 \<lparr>p_user = root, p_api_key = None\<rparr>
      \<lparr>pl_world = world0\<lparr>w_db := db0\<lparr>models := [model0]\<rparr>\<rparr>, pl_store = []\<rparr> = (Inr (), p2) \<and>
    usage rr_entry 5 1 STORAGE_MB (pl_world p2) = Some 0"
proof -
  let ?w = "world0\<lparr>w_db := db0\<lparr>models := [model0]\<rparr>\<rparr>" and ?p = "\<lparr>p_user = root, p_api_key = None\<rparr>"
  have u: "usage rr_entry 5 i STORAGE_MB ?w = Some 0" for i
    by (simp add: redis_backed_usage redis_resource_defs counter_def)
  have h: "rr_up (w_redis ?w)" "distinct (map fst ([] :: (string \<times> string) list))"
    "distinct (map m_id (models (w_db ?w)))" "row_get m_id 7 (models (w_db ?w)) = Some model0"
    "u_role (p_user ?p) = RoleAdmin" "m_user_id model0 \<noteq> u_id (p_user ?p)"
    "usage rr_entry 5 (u_id (p_user ?p)) STORAGE_MB ?w = Some 0" "0 < m_size_bytes model0"
    "in_int64 (0 - size_to_storage_mb (m_size_bytes model0))"
    using u by (simp_all add: row_get_Cons model0_def in_int64_def)
  from admin_delete_refunds_admin [OF ref_srv.redis_strings_axioms ref_s3.object_store_axioms h] u [of 1]
  show ?thesis by (auto simp: model0_def)
qed

text \<open>Names without a slash keep models apart: an object key lies below a model's prefix exactly
  when it was stored for that owner, name and version.  A name may contain slashes, though, and
  then the prefix of one model can contain another's, so that deleting the first deletes the
  objects of the second.\<close>

theorem model_prefixes:
  assumes "CHR ''/'' \<notin> set name" and "CHR ''/'' \<notin> set name'"
  shows "(startswith (model_prefix i' name' v' @ rel) (model_prefix i name v) \<longleftrightarrow> (i', name', v') = (i, name, v)) \<and>
    startswith (model_prefix i (name @ ''/'' @ str_int v @ ''/'' @ name') v' @ rel) (model_prefix i name v)"
proof -
  have sl: "CHR ''/'' \<notin> set (str_int n)" for n
    using set_str_int not_digit_chars(2) by fastforce
  have "startswith (model_prefix i' name' v' @ rel) (model_prefix i name v) \<longleftrightarrow>
      (\<exists>t. str_uuid i' @ CHR ''/'' # name' @ CHR ''/'' # str_int v' @ CHR ''/'' # rel =
        str_uuid i @ CHR ''/'' # name @ CHR ''/'' # str_int v @ CHR ''/'' # t)"
    by (simp add: startswith_iff model_prefix_def)
  also have "\<dots> \<longleftrightarrow> (i', name', v') = (i, name, v)"
    by (simp add: sep_append_inject assms sl)
  finally show ?thesis by (simp add: startswith_iff model_prefix_def)
qed

theorem model_prefixes_witness:
  "startswith (model_prefix 1 ''net/1/x'' 2 @ ''serve.py'') (model_prefix 1 ''net'' 1)"
proof -
  have "str_int 1 = ''1''" by code_simp
  with model_prefixes [of "''net''" "''x''" 1 2 "''serve.py''" 1 1] show ?thesis by simp
qed

end
