(* ===== verification/Container.thy ===== *)
theory Container
  imports Log_Stream Storage Registry
begin

text \<open>
  Running a job in a Docker container (\<open>worker/container.py\<close>).  The Docker client, the clock and the
  cancel event of the calling thread are parameters: a record of operations over a host state.
  Archives are unpacked by a parameter too.  Times are microseconds.
\<close>

section \<open>The host\<close>

record mount =
  mt_target :: string
  mt_source :: string
  mt_type :: string
  mt_read_only :: bool

text \<open>\<open>run_kwargs\<close>; \<open>detach\<close>, \<open>stdout\<close> and \<open>stderr\<close> are always true.\<close>

record run_args =
  ra_image :: string
  ra_command :: "string list"
  ra_environment :: "(string \<times> string) list"
  ra_user :: string
  ra_cap_drop :: "string list"
  ra_security_opt :: "string list"
  ra_mem_limit :: string
  ra_nano_cpus :: int
  ra_pids_limit :: int
  ra_read_only :: bool
  ra_tmpfs :: "(string \<times> string) list"
  ra_mounts :: "mount list"
  ra_working_dir :: string
  ra_network :: "string option"
  ra_network_mode :: "string option"
  ra_gpu :: bool

record 'd docker_ops =
  dk_image_get :: "string \<Rightarrow> ('d, unit) handler"
  dk_image_pull :: "string \<Rightarrow> ('d, unit) handler"
  dk_run :: "run_args \<Rightarrow> ('d, string) handler"
  dk_reload_status :: "string \<Rightarrow> ('d, string) handler"
  dk_wait :: "string \<Rightarrow> int \<Rightarrow> ('d, int option) handler"
  dk_stop :: "string \<Rightarrow> ('d, unit) handler"
  dk_kill :: "string \<Rightarrow> ('d, unit) handler"
  dk_get_archive :: "string \<Rightarrow> ('d, string) handler"
  dk_remove_container :: "string \<Rightarrow> ('d, unit) handler"
  dk_remove_volume :: "string \<Rightarrow> ('d, unit) handler"
  hs_monotonic :: "'d \<Rightarrow> time"
  hs_sleep :: "time \<Rightarrow> ('d, unit) handler"
  hs_cancel_set :: "'d \<Rightarrow> bool"

text \<open>
  \<open>dk_wait\<close> is \<open>container.wait\<close> with its timeout, its result the \<open>StatusCode\<close> if there is one;
  \<open>dk_reload_status\<close> is \<open>reload()\<close> followed by \<open>status\<close>; \<open>hs_cancel_set\<close> reads the cancel event.
\<close>

fun is_api_error :: "exn \<Rightarrow> bool" where
  "is_api_error (ImageNotFound _) = True"
| "is_api_error (NotFound _) = True"
| "is_api_error (APIError _) = True"
| "is_api_error _ = False"

text \<open>\<open>try: m except APIError: pass\<close>.\<close>

definition ignore_api_error :: "('d, unit) handler \<Rightarrow> ('d, unit) handler" where
  "ignore_api_error m = (\<lambda>d. case m d of
     (Inl e, d') \<Rightarrow> (if is_api_error e then Inr () else Inl e, d') | out \<Rightarrow> out)"

lemma ignore_api_error_run [handler_simps]:
  "ignore_api_error m d = (case m d of
     (Inl e, d') \<Rightarrow> (if is_api_error e then Inr () else Inl e, d') | out \<Rightarrow> out)"
  by (simp add: ignore_api_error_def)

section \<open>Arguments\<close>

definition setdefault :: "string \<Rightarrow> string \<Rightarrow> (string \<times> string) list \<Rightarrow> (string \<times> string) list" where
  "setdefault k v env = (if k \<in> fst ` set env then env else env @ [(k, v)])"

definition job_environment :: "settings \<Rightarrow> job_spec \<Rightarrow> string \<Rightarrow> string \<Rightarrow> (string \<times> string) list" where
  "job_environment cfg spec job_id job_name =
     (if mlflow_tracking_uri cfg = [] then js_env spec
      else setdefault ''MLFLOW_RUN_TAG_JOB_ID'' job_id
        (setdefault ''MLFLOW_EXPERIMENT_NAME'' job_name
          (setdefault ''MLFLOW_TRACKING_URI'' (mlflow_tracking_uri cfg) (js_env spec))))"

definition job_volume :: "string \<Rightarrow> string" where
  "job_volume job_id = ''perzforge-job-'' @ job_id"

definition job_run_args :: "settings \<Rightarrow> job_spec \<Rightarrow> string \<Rightarrow> string \<Rightarrow> run_args" where
  "job_run_args cfg spec job_id job_name = \<lparr>
     ra_image = js_image spec, ra_command = js_command spec,
     ra_environment = job_environment cfg spec job_id (if job_name = [] then job_id else job_name),
     ra_user = ''1000:1000'', ra_cap_drop = [''ALL''], ra_security_opt = [''no-new-privileges''],
     ra_mem_limit = ''6g'', ra_nano_cpus = 4000000000, ra_pids_limit = 256, ra_read_only = True,
     ra_tmpfs = [(''/tmp'', ''size=1g'')],
     ra_mounts = [\<lparr>mt_target = ''/workspace'', mt_source = job_volume job_id, mt_type = ''volume'',
        mt_read_only = False\<rparr>],
     ra_working_dir = ''/workspace'',
     ra_network = (if docker_job_network cfg = [] then None else Some (docker_job_network cfg)),
     ra_network_mode = (if docker_job_network cfg = [] then Some ''none'' else None),
     ra_gpu = js_gpu spec\<rparr>"

section \<open>Waiting\<close>

record container_result =
  cr_exit_code :: "int option"
  cr_error_message :: "string option"
  cr_log_tail :: string
  cr_timed_out :: bool
  cr_cancelled :: bool
  cr_outputs_dir :: "outputs option"

definition failed_result :: "string option \<Rightarrow> string \<Rightarrow> container_result" where
  "failed_result error_message log_tail = \<lparr>cr_exit_code = None, cr_error_message = error_message,
     cr_log_tail = log_tail, cr_timed_out = False, cr_cancelled = False, cr_outputs_dir = None\<rparr>"

text \<open>What \<open>_wait_for_container\<close> returns: the exit status, or a result of its own.\<close>

datatype wait_result = Exited "int option" | Ended container_result

definition stop_container_cancelled :: "'d docker_ops \<Rightarrow> string \<Rightarrow> ('d, container_result) handler" where
  "stop_container_cancelled D container =
     bindE (dk_stop D container) (\<lambda>_.
     bindE (\<lambda>d. case dk_wait D container 12 d of
         (Inl _, d') \<Rightarrow> ignore_api_error (dk_kill D container) d'
       | (Inr _, d') \<Rightarrow> (Inr (), d')) (\<lambda>_.
     returnE ((failed_result None [])\<lparr>cr_cancelled := True\<rparr>)))"

text \<open>The exception of a loop that has used up its fuel; the code's loop has none.\<close>

definition StillWaiting :: exn where
  "StillWaiting = OtherException ''still waiting''"

fun wait_for_container ::
  "'d docker_ops \<Rightarrow> nat \<Rightarrow> string \<Rightarrow> time \<Rightarrow> ('d, wait_result) handler" where
  "wait_for_container D 0 container deadline = raiseE StillWaiting"
| "wait_for_container D (Suc fuel) container deadline = (\<lambda>d.
     if hs_cancel_set D d
     then bindE (stop_container_cancelled D container) (\<lambda>r. returnE (Ended r)) d
     else if deadline - hs_monotonic D d \<le> 0
     then bindE (dk_stop D container) (\<lambda>_.
       bindE (ignore_api_error (dk_kill D container)) (\<lambda>_.
       returnE (Ended ((failed_result (Some ''timeout'') [])\<lparr>cr_timed_out := True\<rparr>)))) d
     else (let wait_seconds = min (seconds 1) (deadline - hs_monotonic D d) in
       bindE (dk_reload_status D container) (\<lambda>status.
       if status \<noteq> ''running''
       then bindE (dk_wait D container 1) (\<lambda>code. returnE (Exited code))
       else bindE (hs_sleep D wait_seconds) (\<lambda>_.
         wait_for_container D fuel container deadline)) d))"

declare wait_for_container.simps [simp del]

section \<open>Outputs\<close>

text \<open>
  The members an archive unpacks to: path and content, \<open>None\<close> for a directory.  A member's first
  path segment is its entry below the destination.
\<close>

type_synonym members = "(string \<times> string option) list"

definition top_name :: "string \<Rightarrow> string" where
  "top_name path = takeWhile (\<lambda>c. c \<noteq> CHR ''/'') path"

definition nested_dir :: string where
  "nested_dir = ''outputs/''"

text \<open>
  Moving \<open>dest/outputs/*\<close> up: an entry of the same name is removed first.  For a child called
  \<open>outputs\<close> that entry is the directory being emptied, so the move that follows finds nothing.
\<close>

definition flatten_outputs :: "members \<Rightarrow> exn + members" where
  "flatten_outputs ms =
     (let inner = map (\<lambda>(p, c). (drop (length nested_dir) p, c))
            (filter (\<lambda>(p, _). startswith p nested_dir \<and> p \<noteq> nested_dir) ms);
          names = map (top_name \<circ> fst) inner;
          others = filter (\<lambda>(p, _). top_name p \<noteq> ''outputs'') ms
      in if ''outputs'' \<in> set names then Inl (OtherException ''FileNotFoundError'')
         else Inr (filter (\<lambda>(p, _). top_name p \<notin> set names) others @ inner))"

definition member_files :: "members \<Rightarrow> outputs" where
  "member_files ms = concat (map (\<lambda>(p, c). case c of Some data \<Rightarrow> [(p, data)] | None \<Rightarrow> []) ms)"

definition extract_outputs ::
  "'d docker_ops \<Rightarrow> (string \<Rightarrow> members option) \<Rightarrow> string \<Rightarrow> ('d, outputs option) handler" where
  "extract_outputs D untar container = (\<lambda>d.
     case dk_get_archive D container d of
       (Inl e, d') \<Rightarrow> (if is_api_error e then Inr None else Inl e, d')
     | (Inr bits, d') \<Rightarrow>
         (case untar bits of
            None \<Rightarrow> (Inr None, d')
          | Some ms \<Rightarrow> (case flatten_outputs ms of
                Inl e \<Rightarrow> (Inl e, d')
              | Inr flat \<Rightarrow> (Inr (if member_files flat = [] then None else Some (member_files flat)), d'))))"

section \<open>Running\<close>

record ('d, 'r) node =
  nd_docker :: 'd
  nd_redis :: 'r

definition on_docker :: "('d, 'a) handler \<Rightarrow> (('d, 'r) node, 'a) handler" where
  "on_docker m = (\<lambda>n. case m (nd_docker n) of (out, d) \<Rightarrow> (out, n\<lparr>nd_docker := d\<rparr>))"

definition on_node_redis :: "('r, 'a) handler \<Rightarrow> (('d, 'r) node, 'a) handler" where
  "on_node_redis m = (\<lambda>n. case m (nd_redis n) of (out, r) \<Rightarrow> (out, n\<lparr>nd_redis := r\<rparr>))"

lemma on_docker_run [handler_simps]:
  "on_docker m n = (fst (m (nd_docker n)), n\<lparr>nd_docker := snd (m (nd_docker n))\<rparr>)"
  by (simp add: on_docker_def split: prod.splits)

lemma on_node_redis_run [handler_simps]:
  "on_node_redis m n = (fst (m (nd_redis n)), n\<lparr>nd_redis := snd (m (nd_redis n))\<rparr>)"
  by (simp add: on_node_redis_def split: prod.splits)

definition cleanup_container :: "'d docker_ops \<Rightarrow> string \<Rightarrow> string \<Rightarrow> ('d, unit) handler" where
  "cleanup_container D container volume_name =
     bindE (ignore_api_error (dk_remove_container D container)) (\<lambda>_.
     ignore_api_error (dk_remove_volume D volume_name))"

text \<open>
  The log thread: \<open>chunks\<close> is what it read of the container's stream before it was told to stop.  An
  exception ends the thread only.  The collector it leaves is flushed, and its tail taken, by the
  main thread.
\<close>

definition collected ::
  "'r redis_ops \<Rightarrow> settings \<Rightarrow> string \<Rightarrow> string list \<Rightarrow> ('r, string) handler" where
  "collected R cfg job_id chunks = (\<lambda>r.
     case follow_logs R cfg chunks (new_collector cfg job_id) r of
       (_, c, r') \<Rightarrow> (case collector_tail R cfg c r' of (out, _, r'') \<Rightarrow> (out, r'')))"

text \<open>From the start of the container to its result.\<close>

definition supervise ::
  "'d docker_ops \<Rightarrow> 'r redis_ops \<Rightarrow> settings \<Rightarrow> (string \<Rightarrow> members option) \<Rightarrow> nat \<Rightarrow> string list \<Rightarrow>
   string \<Rightarrow> string \<Rightarrow> int \<Rightarrow> (('d, 'r) node, container_result) handler" where
  "supervise D R cfg untar fuel chunks job_id container timeout_seconds =
     bindE (on_docker (\<lambda>d. wait_for_container D fuel container (hs_monotonic D d + seconds timeout_seconds) d)) (\<lambda>exit_result.
     bindE (on_node_redis (collected R cfg job_id chunks)) (\<lambda>tail.
     case exit_result of
       Ended r \<Rightarrow> returnE (r\<lparr>cr_log_tail := tail\<rparr>)
     | Exited code \<Rightarrow>
         (let exit_code = (case code of Some c \<Rightarrow> c | None \<Rightarrow> 1) in
          bindE (if exit_code = 0 then on_docker (extract_outputs D untar container) else returnE None) (\<lambda>extracted.
          returnE \<lparr>cr_exit_code = Some exit_code, cr_error_message = None, cr_log_tail = tail,
            cr_timed_out = False, cr_cancelled = False, cr_outputs_dir = extracted\<rparr>))))"

definition ensure_image :: "'d docker_ops \<Rightarrow> string \<Rightarrow> ('d, unit) handler" where
  "ensure_image D img = (\<lambda>d. case dk_image_get D img d of
     (Inl (ImageNotFound _), d') \<Rightarrow> dk_image_pull D img d' | out \<Rightarrow> out)"

text \<open>The two \<open>except\<close> clauses that cover everything after the validation.\<close>

definition caught :: "string \<Rightarrow> exn \<Rightarrow> exn + container_result" where
  "caught img e = (case e of
     ImageNotFound _ \<Rightarrow> Inr (failed_result (Some (''image not found: '' @ img)) [])
   | _ \<Rightarrow> if is_api_error e then Inr (failed_result (Some (exn_str e)) []) else Inl e)"

definition supervised ::
  "'d docker_ops \<Rightarrow> 'r redis_ops \<Rightarrow> settings \<Rightarrow> (string \<Rightarrow> members option) \<Rightarrow> nat \<Rightarrow> string list \<Rightarrow>
   string \<Rightarrow> string \<Rightarrow> int \<Rightarrow> string \<Rightarrow> (('d, 'r) node, container_result) handler" where
  "supervised D R cfg untar fuel chunks job_id container timeout_seconds img = (\<lambda>n.
     case supervise D R cfg untar fuel chunks job_id container timeout_seconds n of
       (Inl e, m) \<Rightarrow> (case caught img e of
           Inl e \<Rightarrow> (Inl e, m)
         | Inr r \<Rightarrow> bindE (on_node_redis (collected R cfg job_id chunks)) (\<lambda>tail. returnE (r\<lparr>cr_log_tail := tail\<rparr>)) m)
     | out \<Rightarrow> out)"

text \<open>
  \<open>run_container\<close>, given the message \<open>msg\<close> of the first validation error.  Before a container exists
  nothing was logged; the cleanup runs whenever one was created.
\<close>

definition run_container ::
  "'d docker_ops \<Rightarrow> 'r redis_ops \<Rightarrow> settings \<Rightarrow> (string \<Rightarrow> members option) \<Rightarrow> string \<Rightarrow> nat \<Rightarrow> string list \<Rightarrow>
   job_spec \<Rightarrow> string \<Rightarrow> int \<Rightarrow> string \<Rightarrow> (('d, 'r) node, container_result) handler" where
  "run_container D R cfg untar msg fuel chunks spec job_id timeout_seconds job_name = (\<lambda>n.
     case job_spec_model_validate cfg spec of
       Inl _ \<Rightarrow> (Inr (failed_result (Some (''invalid job spec: '' @ msg)) []), n)
     | Inr validated \<Rightarrow>
         (case on_docker (bindE (ensure_image D (js_image validated)) (\<lambda>_.
              dk_run D (job_run_args cfg validated job_id job_name))) n of
            (Inl e, n') \<Rightarrow> (caught (js_image validated) e, n')
          | (Inr container, n') \<Rightarrow>
              (let (out, n'') = supervised D R cfg untar fuel chunks job_id container timeout_seconds
                     (js_image validated) n';
                   (cleaned, n''') = on_docker (cleanup_container D container (job_volume job_id)) n''
               in (case cleaned of Inl e \<Rightarrow> Inl e | Inr _ \<Rightarrow> out, n'''))))"

section \<open>The contract of the host\<close>

text \<open>
  A clock that never goes back and sleeps that last; a daemon that creates one container per
  \<open>run\<close>, gives it a fresh identifier, and removes it when told to with force.  \<open>runs\<close> are the
  arguments of the containers created so far, \<open>existing\<close> the containers not yet removed.
\<close>

locale host_clock =
  fixes D :: "'d docker_ops"
  assumes sleep_law: "0 \<le> t \<Longrightarrow> fst (hs_sleep D t d) = Inr () \<and> hs_monotonic D d + t \<le> hs_monotonic D (snd (hs_sleep D t d))"
    and reload_clock: "hs_monotonic D d \<le> hs_monotonic D (snd (dk_reload_status D c d))"
    and no_fuel: "fst (dk_stop D c d) \<noteq> Inl StillWaiting \<and> fst (dk_kill D c d) \<noteq> Inl StillWaiting \<and>
      fst (dk_wait D c i d) \<noteq> Inl StillWaiting \<and> fst (dk_reload_status D c d) \<noteq> Inl StillWaiting"

locale docker_host = host_clock D for D :: "'d docker_ops" +
  fixes runs :: "'d \<Rightarrow> run_args list"
    and existing :: "'d \<Rightarrow> string set"
  assumes run_law: "case dk_run D args d of
      (Inr c, d') \<Rightarrow> runs d' = runs d @ [args] \<and> c \<notin> existing d \<and> existing d' = insert c (existing d)
    | (Inl _, d') \<Rightarrow> runs d' = runs d \<and> existing d' = existing d"
    and remove_law: "fst (dk_remove_container D c d) = Inr () \<and> runs (snd (dk_remove_container D c d)) = runs d \<and>
      existing (snd (dk_remove_container D c d)) = existing d - {c}"
    and keep_law: "x \<in> {snd (dk_image_get D i d), snd (dk_image_pull D i d), snd (dk_reload_status D c d),
        snd (dk_wait D c n d), snd (dk_stop D c d), snd (dk_kill D c d), snd (dk_get_archive D c d),
        snd (dk_remove_volume D v d), snd (hs_sleep D t d)} \<Longrightarrow> runs x = runs d \<and> existing x = existing d"

section \<open>The wait ends\<close>

lemma bindE_avoids:
  assumes "fst (m s) \<noteq> Inl e" and "\<And>a s'. m s = (Inr a, s') \<Longrightarrow> fst (f a s') \<noteq> Inl e"
  shows "fst (bindE m f s) \<noteq> Inl e"
  using assms by (cases "m s"; cases "fst (m s)") (auto simp: bindE_run)

lemma ignore_api_error_avoids: "fst (m s) \<noteq> Inl e \<Longrightarrow> fst (ignore_api_error m s) \<noteq> Inl e"
  by (cases "m s"; cases "fst (m s)") (auto simp: ignore_api_error_run)

lemma returnE_avoids: "fst (returnE a s) \<noteq> Inl e"
  by (simp add: returnE_run)

context host_clock
begin

lemma stop_cancelled_no_fuel: "fst (stop_container_cancelled D c d) \<noteq> Inl StillWaiting"
  unfolding stop_container_cancelled_def
proof (intro bindE_avoids returnE_avoids)
  show "fst (dk_stop D c d) \<noteq> Inl StillWaiting" using no_fuel by blast
  fix d1
  have "fst (ignore_api_error (dk_kill D c) d') \<noteq> Inl StillWaiting" for d'
    using no_fuel by (intro ignore_api_error_avoids) blast
  then show "fst (case dk_wait D c 12 d1 of (Inl _, d') \<Rightarrow> ignore_api_error (dk_kill D c) d' | (Inr _, d') \<Rightarrow> (Inr (), d'))
      \<noteq> Inl StillWaiting"
    by (cases "dk_wait D c 12 d1"; cases "fst (dk_wait D c 12 d1)") auto
qed

lemma timeout_no_fuel:
  "fst (bindE (dk_stop D c) (\<lambda>_. bindE (ignore_api_error (dk_kill D c)) (\<lambda>_. returnE r)) d) \<noteq> Inl StillWaiting"
  using no_fuel by (intro bindE_avoids returnE_avoids ignore_api_error_avoids) blast+

lemma wait_over_no_fuel:
  assumes "hs_cancel_set D d \<or> deadline - hs_monotonic D d \<le> 0"
  shows "fst (wait_for_container D (Suc fuel) c deadline d) \<noteq> Inl StillWaiting"
proof (cases "hs_cancel_set D d")
  case True
  have "fst (bindE (stop_container_cancelled D c) (\<lambda>r. returnE (Ended r)) d) \<noteq> Inl StillWaiting"
    by (intro bindE_avoids returnE_avoids stop_cancelled_no_fuel)
  with True show ?thesis by (simp add: wait_for_container.simps(2))
next
  case False
  with assms timeout_no_fuel [of c _ d] show ?thesis by (simp add: wait_for_container.simps(2))
qed

lemma wait_ends:
  assumes "deadline - hs_monotonic D d \<le> seconds (int n)"
  shows "fst (wait_for_container D (Suc n) c deadline d) \<noteq> Inl StillWaiting"
  using assms
proof (induction n arbitrary: d)
  case 0
  then show ?case by (intro wait_over_no_fuel) simp
next
  case (Suc n)
  show ?case
  proof (cases "hs_cancel_set D d \<or> deadline - hs_monotonic D d \<le> 0")
    case True
    then show ?thesis by (rule wait_over_no_fuel)
  next
    case False
    let ?w = "min (seconds 1) (deadline - hs_monotonic D d)"
    let ?go = "bindE (hs_sleep D ?w) (\<lambda>_. wait_for_container D (Suc n) c deadline)"
    have w: "0 \<le> ?w" using False by simp
    have go: "fst (?go d1) \<noteq> Inl StillWaiting" if "hs_monotonic D d \<le> hs_monotonic D d1" for d1
    proof (intro bindE_avoids)
      show "fst (hs_sleep D ?w d1) \<noteq> Inl StillWaiting" using sleep_law [OF w, of d1] by simp
      fix a d2
      assume "hs_sleep D ?w d1 = (Inr a, d2)"
      with sleep_law [OF w, of d1] that have "hs_monotonic D d + ?w \<le> hs_monotonic D d2" by auto
      with Suc.prems have "deadline - hs_monotonic D d2 \<le> seconds (int n)" by (auto simp: min_def split: if_splits)
      then show "fst (wait_for_container D (Suc n) c deadline d2) \<noteq> Inl StillWaiting" by (rule Suc.IH)
    qed
    have step: "wait_for_container D (Suc (Suc n)) c deadline d = bindE (dk_reload_status D c) (\<lambda>status.
        if status \<noteq> ''running'' then bindE (dk_wait D c 1) (\<lambda>code. returnE (Exited code)) else ?go) d"
      using False by (simp only: wait_for_container.simps(2) Let_def) simp
    have "fst (bindE (dk_wait D c 1) (\<lambda>code. returnE (Exited code)) d1) \<noteq> Inl StillWaiting" for d1
      using no_fuel by (intro bindE_avoids returnE_avoids) blast
    moreover have "fst (dk_reload_status D c d) \<noteq> Inl StillWaiting" using no_fuel by blast
    moreover have "hs_monotonic D d \<le> hs_monotonic D d1" if "dk_reload_status D c d = (Inr a, d1)" for a d1
      using reload_clock [of d c] that by simp
    ultimately show ?thesis
      unfolding step by (intro bindE_avoids) (auto simp only: if_run intro!: go split: if_split)
  qed
qed

end

text \<open>C18: waiting for a container always ends: with a clock that moves by what the loop sleeps, one
  round per second of the time limit and one more are enough, whatever the container does.\<close>

theorem wait_for_container_returns:
  assumes "host_clock D" and "deadline \<le> hs_monotonic D d + seconds timeout" and "nat timeout < fuel"
  shows "fst (wait_for_container D fuel container deadline d) \<noteq> Inl StillWaiting"
proof -
  from assms(3) obtain n where n: "fuel = Suc n" "nat timeout \<le> n" by (cases fuel) auto
  have "timeout \<le> int n" using n(2) by simp
  then have "deadline - hs_monotonic D d \<le> seconds (int n)" using assms(2) by linarith
  from host_clock.wait_ends [OF assms(1) this] n(1) show ?thesis by simp
qed

section \<open>What is started, and what is left behind\<close>

text \<open>A handler that creates and removes no container, or one that does so on the host of a node.\<close>

definition same_containers :: "('d \<Rightarrow> run_args list) \<Rightarrow> ('d \<Rightarrow> string set) \<Rightarrow> 'd \<Rightarrow> 'd \<Rightarrow> bool" where
  "same_containers runs existing d d' \<longleftrightarrow> runs d' = runs d \<and> existing d' = existing d"

lemma same_containers_refl [simp]: "same_containers runs existing d d"
  by (simp add: same_containers_def)

lemma same_containers_trans:
  "same_containers runs existing d d' \<Longrightarrow> same_containers runs existing d' d'' \<Longrightarrow> same_containers runs existing d d''"
  by (simp add: same_containers_def)

lemma bindE_same:
  assumes "same_containers runs existing (h s) (h (snd (m s)))"
    and "\<And>a s'. m s = (Inr a, s') \<Longrightarrow> same_containers runs existing (h s') (h (snd (f a s')))"
  shows "same_containers runs existing (h s) (h (snd (bindE m f s)))"
  using assms by (cases "m s"; cases "fst (m s)") (auto simp: bindE_run intro: same_containers_trans)

lemma ignore_same:
  "same_containers runs existing d (snd (m d)) \<Longrightarrow> same_containers runs existing d (snd (ignore_api_error m d))"
  by (cases "m d"; cases "fst (m d)") (auto simp: ignore_api_error_run)

lemma returnE_state [simp]: "snd (returnE a s) = s"
  by (simp add: returnE_run)

context docker_host
begin

lemma op_same [simp]:
  "same_containers runs existing d (snd (dk_image_get D i d))" "same_containers runs existing d (snd (dk_image_pull D i d))"
  "same_containers runs existing d (snd (dk_reload_status D c d))" "same_containers runs existing d (snd (dk_wait D c n d))"
  "same_containers runs existing d (snd (dk_stop D c d))" "same_containers runs existing d (snd (dk_kill D c d))"
  "same_containers runs existing d (snd (dk_get_archive D c d))" "same_containers runs existing d (snd (dk_remove_volume D v d))"
  "same_containers runs existing d (snd (hs_sleep D t d))"
  using keep_law unfolding same_containers_def by blast+

lemma stop_cancelled_same: "same_containers runs existing d (snd (stop_container_cancelled D c d))"
  unfolding stop_container_cancelled_def
proof (intro bindE_same [where h = "\<lambda>d. d"] op_same)
  fix d1
  have "same_containers runs existing d' (snd (ignore_api_error (dk_kill D c) d'))" for d'
    by (intro ignore_same op_same)
  moreover have "same_containers runs existing d1 (snd (dk_wait D c 12 d1))" by simp
  ultimately show "same_containers runs existing d1 (snd (case dk_wait D c 12 d1 of
      (Inl _, d') \<Rightarrow> ignore_api_error (dk_kill D c) d' | (Inr _, d') \<Rightarrow> (Inr (), d')))"
    by (cases "dk_wait D c 12 d1"; cases "fst (dk_wait D c 12 d1)") (auto intro: same_containers_trans)
qed simp

lemma wait_same: "same_containers runs existing d (snd (wait_for_container D n c deadline d))"
proof (induction n arbitrary: d)
  case 0
  then show ?case by (simp add: wait_for_container.simps raiseE_run)
next
  case (Suc n)
  have cancelled: "same_containers runs existing d (snd (bindE (stop_container_cancelled D c) (\<lambda>r. returnE (Ended r)) d))"
    by (intro bindE_same [where h = "\<lambda>d. d"] stop_cancelled_same) simp
  have timeout: "same_containers runs existing d (snd (bindE (dk_stop D c) (\<lambda>_.
      bindE (ignore_api_error (dk_kill D c)) (\<lambda>_. returnE r)) d))" for r :: wait_result
    by (intro bindE_same [where h = "\<lambda>d. d"] ignore_same op_same) simp
  have exit: "same_containers runs existing d1 (snd (bindE (dk_wait D c 1) (\<lambda>code. returnE (Exited code)) d1))" for d1
    by (intro bindE_same [where h = "\<lambda>d. d"] op_same) simp
  have go: "same_containers runs existing d1 (snd (bindE (hs_sleep D t) (\<lambda>_. wait_for_container D n c deadline) d1))" for t d1
    by (intro bindE_same [where h = "\<lambda>d. d"] op_same Suc.IH)
  have "same_containers runs existing d (snd (bindE (dk_reload_status D c) (\<lambda>status.
      if status \<noteq> ''running'' then bindE (dk_wait D c 1) (\<lambda>code. returnE (Exited code))
      else bindE (hs_sleep D t) (\<lambda>_. wait_for_container D n c deadline)) d))" for t
    by (intro bindE_same [where h = "\<lambda>d. d"] op_same) (auto simp only: exit go split: if_split)
  with cancelled timeout show ?case
    by (simp add: wait_for_container.simps(2) Let_def)
qed

lemma extract_same: "same_containers runs existing d (snd (extract_outputs D untar c d))"
proof -
  have "same_containers runs existing d (snd (dk_get_archive D c d))" by simp
  then show ?thesis
    by (cases "dk_get_archive D c d"; cases "fst (dk_get_archive D c d)")
      (auto simp: extract_outputs_def split: option.split sum.split)
qed

lemma node_same:
  "same_containers runs existing (nd_docker n) (nd_docker (snd (on_node_redis m n)))"
  "same_containers runs existing (nd_docker n) (snd (m' (nd_docker n))) \<Longrightarrow>
   same_containers runs existing (nd_docker n) (nd_docker (snd (on_docker m' n)))"
  by (simp_all add: on_docker_run on_node_redis_run)

lemma supervise_same:
  "same_containers runs existing (nd_docker n) (nd_docker (snd (supervise D R cfg untar fuel chunks job_id c timeout n)))"
  unfolding supervise_def
proof (intro bindE_same [where h = nd_docker] node_same wait_same)
  fix exit_result tail and n' :: "('d, 'b) node"
  let ?k = "\<lambda>exit_code extracted. returnE \<lparr>cr_exit_code = Some exit_code, cr_error_message = None, cr_log_tail = tail,
            cr_timed_out = False, cr_cancelled = False, cr_outputs_dir = extracted\<rparr>"
  have "same_containers runs existing (nd_docker n') (nd_docker (snd (bindE
      (if exit_code = 0 then on_docker (extract_outputs D untar c) else returnE None) (?k exit_code) n')))" for exit_code :: int
    by (intro bindE_same [where h = nd_docker]) (auto simp: if_run intro: node_same extract_same)
  then show "same_containers runs existing (nd_docker n') (nd_docker (snd ((case exit_result of
       Ended r \<Rightarrow> returnE (r\<lparr>cr_log_tail := tail\<rparr>)
     | Exited code \<Rightarrow>
         (let exit_code = (case code of Some c \<Rightarrow> c | None \<Rightarrow> 1) in
          bindE (if exit_code = 0 then on_docker (extract_outputs D untar c) else returnE None) (?k exit_code))) n')))"
    by (simp add: Let_def split: wait_result.split)
qed

lemma cleanup_existing:
  "runs (snd (cleanup_container D c v d)) = runs d \<and> existing (snd (cleanup_container D c v d)) = existing d - {c}"
proof -
  obtain d1 where r: "dk_remove_container D c d = (Inr (), d1)" "runs d1 = runs d" "existing d1 = existing d - {c}"
    using remove_law [of c d] by (cases "dk_remove_container D c d") auto
  have "same_containers runs existing d1 (snd (ignore_api_error (dk_remove_volume D v) d1))"
    by (intro ignore_same op_same)
  with r show ?thesis
    by (simp add: cleanup_container_def bindE_run ignore_api_error_run same_containers_def)
qed

end

context docker_host
begin

lemma ensure_image_same: "same_containers runs existing d (snd (ensure_image D img d))"
proof -
  have "same_containers runs existing d (snd (dk_image_get D img d))"
    and "same_containers runs existing d' (snd (dk_image_pull D img d'))" for d'
    by simp_all
  then show ?thesis
    by (cases "dk_image_get D img d")
      (auto simp: ensure_image_def split: sum.split exn.split intro: same_containers_trans)
qed

lemma supervised_same:
  "same_containers runs existing (nd_docker n) (nd_docker (snd (supervised D R cfg untar fuel chunks job_id c timeout img n)))"
proof -
  have "same_containers runs existing (nd_docker m) (nd_docker (snd
      (bindE (on_node_redis (collected R cfg job_id chunks)) (\<lambda>tail. returnE (r\<lparr>cr_log_tail := tail\<rparr>)) m)))"
    for r :: container_result and m
    by (intro bindE_same [where h = nd_docker] node_same) simp
  then show ?thesis
    using supervise_same [of n R cfg untar fuel chunks job_id c timeout]
    by (cases "supervise D R cfg untar fuel chunks job_id c timeout n")
      (auto simp: supervised_def split: sum.split intro: same_containers_trans)
qed

lemma start_cases:
  assumes "on_docker (bindE (ensure_image D img) (\<lambda>_. dk_run D args)) n = (out, n')"
  shows "case out of
      Inl e \<Rightarrow> same_containers runs existing (nd_docker n) (nd_docker n')
    | Inr c \<Rightarrow> runs (nd_docker n') = runs (nd_docker n) @ [args] \<and> c \<notin> existing (nd_docker n) \<and>
        existing (nd_docker n') = insert c (existing (nd_docker n))"
proof (cases "ensure_image D img (nd_docker n)")
  case (Pair r0 d0)
  with ensure_image_same [of "nd_docker n" img] have "same_containers runs existing (nd_docker n) d0" by simp
  with assms Pair run_law [where args = args and d = d0] show ?thesis
    by (cases r0; cases "dk_run D args d0") (auto simp: on_docker_run bindE_run same_containers_def split: sum.splits)
qed

end

text \<open>What every container of a job is denied.\<close>

definition hardened :: "settings \<Rightarrow> string \<Rightarrow> run_args \<Rightarrow> bool" where
  "hardened cfg job_id args \<longleftrightarrow> validate_allowed_image cfg (ra_image args) \<and> ra_user args = ''1000:1000'' \<and>
     ra_cap_drop args = [''ALL''] \<and> ra_security_opt args = [''no-new-privileges''] \<and> ra_read_only args \<and>
     ra_pids_limit args = 256 \<and> (\<forall>m \<in> set (ra_mounts args). mt_source m = job_volume job_id) \<and>
     (docker_job_network cfg = [] \<longrightarrow> ra_network args = None \<and> ra_network_mode args = Some ''none'')"

lemma job_run_args_hardened: "valid_spec cfg spec \<Longrightarrow> hardened cfg job_id (job_run_args cfg spec job_id job_name)"
  by (simp add: hardened_def job_run_args_def valid_spec_def)


section \<open>Reading the outputs\<close>

lemma top_name_nested [simp]: "top_name (nested_dir @ p) = ''outputs''" "top_name nested_dir = ''outputs''"
  by (simp_all add: top_name_def nested_dir_def)

text \<open>What becomes of the outputs directory.  Files below it are returned with their path in it,
  whatever their order in the archive; nothing is returned when there is none.  But a job that
  leaves an entry called \<open>outputs\<close> in its outputs directory makes the code remove the directory it is
  emptying, and the exception, which is not an API error, escapes \<open>run_container\<close>.\<close>

theorem extract_outputs_outcome:
  assumes "dk_get_archive D c d = (Inr bits, d')" and "untar bits = Some ((nested_dir, None) # map (\<lambda>(p, x). (nested_dir @ p, x)) ms)"
    and "\<forall>(p, x) \<in> set ms. p \<noteq> []"
  shows "extract_outputs D untar c d =
    (if \<exists>(p, x) \<in> set ms. top_name p = ''outputs'' then (Inl (OtherException ''FileNotFoundError''), d')
     else (Inr (if member_files ms = [] then None else Some (member_files ms)), d'))"
proof -
  let ?ms = "(nested_dir, None) # map (\<lambda>(p, x). (nested_dir @ p, x)) ms"
  have inner: "map (\<lambda>(p, c). (drop (length nested_dir) p, c))
      (filter (\<lambda>(p, _). startswith p nested_dir \<and> p \<noteq> nested_dir) ?ms) = ms"
    using assms(3)
    by (induction ms) (auto simp: startswith_def)
  have others: "filter (\<lambda>(p, _). top_name p \<noteq> ''outputs'') ?ms = []"
    by (induction ms) auto
  have flat: "flatten_outputs ?ms = (if ''outputs'' \<in> set (map (top_name \<circ> fst) ms)
      then Inl (OtherException ''FileNotFoundError'') else Inr ms)"
    by (simp only: flatten_outputs_def Let_def inner others filter.simps(1) append_Nil)
  have "''outputs'' \<in> set (map (top_name \<circ> fst) ms) \<longleftrightarrow> (\<exists>(p, x) \<in> set ms. top_name p = ''outputs'')"
    by (induction ms) auto
  with assms(1,2) flat show ?thesis
    by (simp add: extract_outputs_def del: list.map set_map)
qed

section \<open>A host\<close>

text \<open>
  For the witnesses: a clock, a container that exits at a given time with a given status, its
  archive, and the containers created so far.  The identifiers grow, so that they are fresh.
\<close>

record ref_host =
  rh_now :: time
  rh_exit_at :: time
  rh_exit_code :: int
  rh_archive :: string
  rh_runs :: "run_args list"
  rh_existing :: "string list"

definition ref_id :: "string list \<Rightarrow> string" where
  "ref_id cs = replicate (Suc (sum_list (map length cs))) (CHR ''c'')"

lemma ref_id_fresh: "ref_id cs \<notin> set cs"
proof
  assume "ref_id cs \<in> set cs"
  then have "length (ref_id cs) \<le> sum_list (map length cs)" by (simp add: member_le_sum_list)
  then show False by (simp add: ref_id_def)
qed

definition ref_docker :: "ref_host docker_ops" where
  "ref_docker = \<lparr>dk_image_get = (\<lambda>_. returnE ()), dk_image_pull = (\<lambda>_. returnE ()),
     dk_run = (\<lambda>args h. (Inr (ref_id (rh_existing h)),
        h\<lparr>rh_runs := rh_runs h @ [args], rh_existing := ref_id (rh_existing h) # rh_existing h\<rparr>)),
     dk_reload_status = (\<lambda>_ h. (Inr (if rh_now h < rh_exit_at h then ''running'' else ''exited''), h)),
     dk_wait = (\<lambda>_ _ h. (Inr (Some (rh_exit_code h)), h)),
     dk_stop = (\<lambda>_. returnE ()), dk_kill = (\<lambda>_. returnE ()),
     dk_get_archive = (\<lambda>_ h. (Inr (rh_archive h), h)),
     dk_remove_container = (\<lambda>c. modifyE (rh_existing_update (filter (\<lambda>x. x \<noteq> c)))),
     dk_remove_volume = (\<lambda>_. returnE ()), hs_monotonic = rh_now,
     hs_sleep = (\<lambda>t. modifyE (rh_now_update (\<lambda>n. n + t))), hs_cancel_set = (\<lambda>_. False)\<rparr>"

interpretation ref_host: docker_host ref_docker rh_runs "\<lambda>h. set (rh_existing h)"
  by unfold_locales (auto simp: ref_docker_def handler_simps StillWaiting_def ref_id_fresh)

definition host0 :: ref_host where
  "host0 = \<lparr>rh_now = 0, rh_exit_at = 1500000, rh_exit_code = 0, rh_archive = [], rh_runs = [], rh_existing = []\<rparr>"

theorem wait_for_container_returns_witness:
  "fst (wait_for_container ref_docker 4 ''c'' 3000000 host0) \<noteq> Inl StillWaiting"
  by (rule wait_for_container_returns [OF ref_host.host_clock_axioms, where timeout = 3])
    (simp_all add: ref_docker_def host0_def)

definition untar0 :: "string \<Rightarrow> members option" where
  "untar0 _ = Some [(''outputs/'', None), (''outputs/m.pt'', Some ''w'')]"

definition untar_nested :: "string \<Rightarrow> members option" where
  "untar_nested _ = Some [(''outputs/'', None), (''outputs/outputs/'', None)]"


theorem extract_outputs_outcome_witness:
  "fst (extract_outputs ref_docker untar0 ''c'' host0) = Inr (Some [(''m.pt'', ''w'')]) \<and>
   fst (extract_outputs ref_docker untar_nested ''c'' host0) = Inl (OtherException ''FileNotFoundError'')"
proof -
  have a: "dk_get_archive ref_docker ''c'' host0 = (Inr [], host0)" by (simp add: ref_docker_def host0_def)
  show ?thesis
    using extract_outputs_outcome [OF a, where untar = untar0 and ms = "[(''m.pt'', Some ''w'')]"]
      extract_outputs_outcome [OF a, where untar = untar_nested and ms = "[(''outputs/'', None)]"]
    by (simp add: untar0_def untar_nested_def nested_dir_def member_files_def top_name_def)
qed

end
