(* ===== verification/Serving.thy ===== *)
theory Serving
  imports Container
begin

text \<open>
  Serving a model (\<open>api/serving.py\<close>): the route of an endpoint, the download of its artifacts, the
  runner container, the wait for its health, and what activation, stopping and reconciliation
  write to the endpoint's row.  The Docker client, the clock and HTTP to the runner are one record
  of operations over a host state.
\<close>

section \<open>Routes\<close>

definition route_char :: "char \<Rightarrow> bool" where
  "route_char c \<longleftrightarrow> (let n = (of_char c :: nat) in (48 \<le> n \<and> n \<le> 57) \<or> (97 \<le> n \<and> n \<le> 122))"

text \<open>\<open>re.sub('[^a-z0-9]+', '-', s)\<close>; the flag says whether the run of other characters has begun.\<close>

fun sub_runs :: "bool \<Rightarrow> string \<Rightarrow> string" where
  "sub_runs began [] = []"
| "sub_runs began (c # cs) =
     (if route_char c then c # sub_runs False cs
      else if began then sub_runs True cs else CHR ''-'' # sub_runs True cs)"

definition make_route :: "string \<Rightarrow> uuid \<Rightarrow> string" where
  "make_route name endpoint_id =
     (let slug = take 48 (strip_by (\<lambda>c. c = CHR ''-'') (sub_runs False (py_lower name)));
          base = (if slug = [] then ''model'' else slug)
      in base @ ''-'' @ take 8 (uuid_hex endpoint_id))"

section \<open>The host of the runners\<close>

text \<open>The keyword arguments of the runner; \<open>detach\<close>, \<open>stdout\<close> and \<open>stderr\<close> are always true.\<close>

record runner_args =
  sa_image :: string
  sa_name :: string
  sa_user :: string
  sa_cap_drop :: "string list"
  sa_security_opt :: "string list"
  sa_mem_limit :: string
  sa_nano_cpus :: int
  sa_pids_limit :: int
  sa_read_only :: bool
  sa_tmpfs :: "(string \<times> string) list"
  sa_mounts :: "mount list"
  sa_network :: string
  sa_port :: string

record upstream =
  up_status :: int
  up_content_type :: "string option"
  up_text :: string

text \<open>
  \<open>sv_from_env\<close> is the connection to the daemon; \<open>sv_container\<close> looks a container up by name or
  identifier and gives its identifier; \<open>sv_host_ports\<close> reloads a container and gives the host ports
  bound to one of its ports; \<open>sv_health\<close> is the status of a GET.
\<close>

record 'd serve_ops =
  sv_from_env :: "('d, unit) handler"
  sv_network_get :: "string \<Rightarrow> ('d, unit) handler"
  sv_network_create :: "string \<Rightarrow> ('d, unit) handler"
  sv_container :: "string \<Rightarrow> ('d, string) handler"
  sv_remove :: "string \<Rightarrow> ('d, unit) handler"
  sv_image_get :: "string \<Rightarrow> ('d, unit) handler"
  sv_image_pull :: "string \<Rightarrow> ('d, unit) handler"
  sv_run :: "runner_args \<Rightarrow> ('d, string) handler"
  sv_host_ports :: "string \<Rightarrow> string \<Rightarrow> ('d, string option list) handler"
  sv_health :: "string \<Rightarrow> ('d, int) handler"
  sv_post :: "string \<Rightarrow> json \<Rightarrow> ('d, upstream) handler"
  sv_monotonic :: "'d \<Rightarrow> time"
  sv_sleep :: "time \<Rightarrow> ('d, unit) handler"

fun is_not_found :: "exn \<Rightarrow> bool" where
  "is_not_found (ImageNotFound _) = True"
| "is_not_found (NotFound _) = True"
| "is_not_found _ = False"

fun is_image_not_found :: "exn \<Rightarrow> bool" where
  "is_image_not_found (ImageNotFound _) = True"
| "is_image_not_found _ = False"

fun is_serving_error :: "exn \<Rightarrow> bool" where
  "is_serving_error (ServingError _) = True"
| "is_serving_error _ = False"

fun is_http_error :: "exn \<Rightarrow> bool" where
  "is_http_error (TimeoutException _) = True"
| "is_http_error (HTTPError _) = True"
| "is_http_error _ = False"

text \<open>\<open>try: m except E: handler\<close>, for the exceptions \<open>p\<close> selects.\<close>

definition catchE :: "(exn \<Rightarrow> bool) \<Rightarrow> ('d, 'a) handler \<Rightarrow> (exn \<Rightarrow> ('d, 'a) handler) \<Rightarrow> ('d, 'a) handler" where
  "catchE p m h = (\<lambda>d. case m d of
     (Inl e, d') \<Rightarrow> if p e then h e d' else (Inl e, d') | out \<Rightarrow> out)"

lemma catchE_run [handler_simps]:
  "catchE p m h d = (case m d of (Inl e, d') \<Rightarrow> if p e then h e d' else (Inl e, d') | out \<Rightarrow> out)"
  by (simp add: catchE_def)

definition ensure_serving_network :: "'d serve_ops \<Rightarrow> settings \<Rightarrow> ('d, unit) handler" where
  "ensure_serving_network V cfg =
     catchE is_not_found (sv_network_get V (serving_network_name cfg))
       (\<lambda>_. sv_network_create V (serving_network_name cfg))"

section \<open>Artifacts\<close>

text \<open>Directories are absolute; \<open>rmtree\<close> removes every file below one.\<close>

definition artifact_dir_for :: "settings \<Rightarrow> uuid \<Rightarrow> path" where
  "artifact_dir_for cfg endpoint_id = resolve_from [] (serving_artifact_root cfg) @ [str_uuid endpoint_id]"

definition rmtree :: "path \<Rightarrow> file_system \<Rightarrow> file_system" where
  "rmtree dir fs = (\<lambda>p. if startswith p (path_str dir @ ''/'') then None else fs p)"

definition SERVE_PY :: string where
  "SERVE_PY = ''serve.py''"

definition contract_violation :: exn where
  "contract_violation = ServingError (''serving contract violation: '' @ SERVE_PY @ '' missing from artifact prefix'')"

definition download_model_artifacts :: "'s s3_ops \<Rightarrow> string \<Rightarrow> path \<Rightarrow> ('s disk, unit) handler" where
  "download_model_artifacts S prefix dest =
     bindE (modifyE (dk_files_update (rmtree dest))) (\<lambda>_.
     bindE (download_prefix S prefix dest) (\<lambda>count.
     if count = 0 then raiseE (ServingError ''model artifact prefix is empty'')
     else liftE (\<lambda>k. if dk_files k (path_str (dest @ [SERVE_PY])) = None then Inl contract_violation else Inr ())))"

section \<open>The runner\<close>

definition runner_name :: "uuid \<Rightarrow> string" where
  "runner_name endpoint_id = ''perzforge-endpoint-'' @ str_uuid endpoint_id"

definition serve_run_args :: "settings \<Rightarrow> uuid \<Rightarrow> path \<Rightarrow> runner_args" where
  "serve_run_args cfg endpoint_id artifact_dir = \<lparr>
     sa_image = serve_runner_image cfg, sa_name = runner_name endpoint_id, sa_user = ''1000:1000'',
     sa_cap_drop = [''ALL''], sa_security_opt = [''no-new-privileges''], sa_mem_limit = ''2g'',
     sa_nano_cpus = 2000000000, sa_pids_limit = 128, sa_read_only = True, sa_tmpfs = [(''/tmp'', ''size=512m'')],
     sa_mounts = [\<lparr>mt_target = ''/model'', mt_source = path_str artifact_dir, mt_type = ''bind'', mt_read_only = True\<rparr>],
     sa_network = serving_network_name cfg, sa_port = str_int (serving_container_port cfg) @ ''/tcp''\<rparr>"

definition start_runner_container :: "'d serve_ops \<Rightarrow> settings \<Rightarrow> uuid \<Rightarrow> path \<Rightarrow> ('d, string) handler" where
  "start_runner_container V cfg endpoint_id artifact_dir =
     bindE (sv_from_env V) (\<lambda>_.
     bindE (ensure_serving_network V cfg) (\<lambda>_.
     bindE (catchE is_not_found
         (bindE (sv_container V (runner_name endpoint_id)) (sv_remove V)) (\<lambda>_. returnE ())) (\<lambda>_.
     bindE (catchE is_image_not_found (sv_image_get V (serve_runner_image cfg))
         (\<lambda>_. catchE is_api_error (sv_image_pull V (serve_runner_image cfg))
            (\<lambda>_. raiseE (ServingError (''serve runner image unavailable: '' @ serve_runner_image cfg))))) (\<lambda>_.
     catchE is_api_error (sv_run V (serve_run_args cfg endpoint_id artifact_dir))
       (\<lambda>e. raiseE (ServingError (''failed to start runner: '' @ exn_str e)))))))"

definition stop_runner_container :: "'d serve_ops \<Rightarrow> string \<Rightarrow> ('d, unit) handler" where
  "stop_runner_container V container_id =
     (if container_id = [] then returnE ()
      else bindE (sv_from_env V) (\<lambda>_.
        catchE is_api_error (bindE (sv_container V container_id) (sv_remove V)) (\<lambda>_. returnE ())))"

definition container_exists :: "'d serve_ops \<Rightarrow> string \<Rightarrow> ('d, bool) handler" where
  "container_exists V container_id =
     (if container_id = [] then returnE False
      else bindE (sv_from_env V) (\<lambda>_.
        catchE is_api_error (bindE (sv_container V container_id) (\<lambda>_. returnE True)) (\<lambda>_. returnE False)))"

definition runner_base_url :: "'d serve_ops \<Rightarrow> settings \<Rightarrow> string \<Rightarrow> ('d, string) handler" where
  "runner_base_url V cfg container_id =
     bindE (sv_from_env V) (\<lambda>_.
     bindE (catchE is_not_found (sv_container V container_id)
       (\<lambda>_. raiseE (ServingError ''endpoint container not found''))) (\<lambda>c.
     bindE (sv_host_ports V c (str_int (serving_container_port cfg) @ ''/tcp'')) (\<lambda>bindings.
     case bindings of
       [] \<Rightarrow> raiseE (ServingError ''endpoint container has no published port'')
     | None # _ \<Rightarrow> raiseE (ServingError ''endpoint container has no host port binding'')
     | Some host_port # _ \<Rightarrow>
         if host_port = [] then raiseE (ServingError ''endpoint container has no host port binding'')
         else returnE (''http://127.0.0.1:'' @ host_port))))"

text \<open>\<open>str(exc) or exc.__class__.__name__\<close>.\<close>

definition http_error_text :: "exn \<Rightarrow> string" where
  "http_error_text e = (if exn_str e \<noteq> [] then exn_str e
     else (case e of TimeoutException _ \<Rightarrow> ''TimeoutException'' | _ \<Rightarrow> ''HTTPError''))"

text \<open>The polling loop; the code's has no fuel.\<close>

fun poll_health :: "'d serve_ops \<Rightarrow> nat \<Rightarrow> string \<Rightarrow> time \<Rightarrow> string \<Rightarrow> ('d, unit) handler" where
  "poll_health V 0 url deadline last_error = raiseE StillWaiting"
| "poll_health V (Suc fuel) url deadline last_error = (\<lambda>d.
     if deadline \<le> sv_monotonic V d
     then (Inl (ServingError (''endpoint unhealthy within timeout: '' @ last_error)), d)
     else (case sv_health V url d of
         (Inr code, d') \<Rightarrow>
           if code = 200 then (Inr (), d')
           else bindE (sv_sleep V 500000) (\<lambda>_.
             poll_health V fuel url deadline (''healthz returned '' @ str_int code)) d'
       | (Inl e, d') \<Rightarrow>
           if is_http_error e
           then bindE (sv_sleep V 500000) (\<lambda>_. poll_health V fuel url deadline (http_error_text e)) d'
           else (Inl e, d')))"

declare poll_health.simps [simp del]

definition wait_for_health :: "'d serve_ops \<Rightarrow> settings \<Rightarrow> nat \<Rightarrow> string \<Rightarrow> int option \<Rightarrow> ('d, unit) handler" where
  "wait_for_health V cfg fuel base_url timeout_seconds = (\<lambda>d.
     poll_health V fuel (rstrip_by (\<lambda>c. c = CHR ''/'') base_url @ ''/healthz'')
       (sv_monotonic V d + seconds (case timeout_seconds of
          Some t \<Rightarrow> if t = 0 then serving_health_timeout_seconds cfg else t
        | None \<Rightarrow> serving_health_timeout_seconds cfg))
       ''health check did not succeed'' d)"

section \<open>The endpoint's row\<close>

text \<open>
  A commit of a changed endpoint object writes the columns in which it differs from what was
  loaded, and raises when its row is gone.  An exception of a commit leaves the session unusable.
\<close>

definition endpoint_columns_fit :: "endpoint \<Rightarrow> bool" where
  "endpoint_columns_fit e \<longleftrightarrow> length (e_name e) \<le> 128 \<and> column_fits 128 (e_container_id e) \<and>
     length (e_route e) \<le> 160 \<and> column_fits 1024 (e_error_message e)"

definition write_changed :: "endpoint \<Rightarrow> endpoint \<Rightarrow> endpoint \<Rightarrow> endpoint" where
  "write_changed old new r = r\<lparr>
     e_status := (if e_status new = e_status old then e_status r else e_status new),
     e_container_id := (if e_container_id new = e_container_id old then e_container_id r else e_container_id new),
     e_error_message := (if e_error_message new = e_error_message old then e_error_message r else e_error_message new),
     e_stopped_at := (if e_stopped_at new = e_stopped_at old then e_stopped_at r else e_stopped_at new)\<rparr>"

definition DataError :: exn where
  "DataError = OtherException ''StringDataRightTruncation''"

definition StaleDataError :: exn where
  "StaleDataError = OtherException ''StaleDataError''"

definition commit_endpoint :: "endpoint \<Rightarrow> endpoint \<Rightarrow> (db, endpoint) handler" where
  "commit_endpoint old new = (\<lambda>d.
     if new = old then (Inr new, d)
     else if \<not> endpoint_columns_fit new then (Inl DataError, d)
     else if row_get e_id (e_id old) (endpoints d) = None then (Inl StaleDataError, d)
     else (Inr new, endpoints_update (rows_update (\<lambda>r. e_id r = e_id old) (write_changed old new)) d))"

section \<open>Activation\<close>

text \<open>The database, the store, the file system of the API host, and the host of the runners.\<close>

record ('r, 's, 'd) site =
  si_world :: "'r world"
  si_store :: 's
  si_files :: file_system
  si_host :: 'd

definition on_site_world :: "('r world, 'a) handler \<Rightarrow> (('r, 's, 'd) site, 'a) handler" where
  "on_site_world m = (\<lambda>x. case m (si_world x) of (out, w) \<Rightarrow> (out, x\<lparr>si_world := w\<rparr>))"

definition on_site_db :: "(db, 'a) handler \<Rightarrow> (('r, 's, 'd) site, 'a) handler" where
  "on_site_db m = on_site_world (on_db m)"

definition on_disk :: "('s disk, 'a) handler \<Rightarrow> (('r, 's, 'd) site, 'a) handler" where
  "on_disk m = (\<lambda>x. case m \<lparr>dk_store = si_store x, dk_files = si_files x\<rparr> of
     (out, k) \<Rightarrow> (out, x\<lparr>si_store := dk_store k, si_files := dk_files k\<rparr>))"

definition on_host :: "('d, 'a) handler \<Rightarrow> (('r, 's, 'd) site, 'a) handler" where
  "on_host m = (\<lambda>x. case m (si_host x) of (out, d) \<Rightarrow> (out, x\<lparr>si_host := d\<rparr>))"

lemma on_site_world_run [handler_simps]:
  "on_site_world m x = (fst (m (si_world x)), x\<lparr>si_world := snd (m (si_world x))\<rparr>)"
  by (simp add: on_site_world_def split: prod.splits)

lemma on_disk_run [handler_simps]:
  "on_disk m x = (let r = m \<lparr>dk_store = si_store x, dk_files = si_files x\<rparr> in
     (fst r, x\<lparr>si_store := dk_store (snd r), si_files := dk_files (snd r)\<rparr>))"
  by (simp add: on_disk_def Let_def split: prod.splits)

lemma on_host_run [handler_simps]:
  "on_host m x = (fst (m (si_host x)), x\<lparr>si_host := snd (m (si_host x))\<rparr>)"
  by (simp add: on_host_def split: prod.splits)

definition cleanup_artifact_dir :: "settings \<Rightarrow> uuid \<Rightarrow> (('r, 's, 'd) site, unit) handler" where
  "cleanup_artifact_dir cfg endpoint_id = modifyE (si_files_update (rmtree (artifact_dir_for cfg endpoint_id)))"

definition stop_container_of :: "'d serve_ops \<Rightarrow> endpoint \<Rightarrow> ('d, unit) handler" where
  "stop_container_of V ep = (case e_container_id ep of
     Some cid \<Rightarrow> if cid = [] then returnE () else stop_runner_container V cid | None \<Rightarrow> returnE ())"

definition mark_failed ::
  "'d serve_ops \<Rightarrow> settings \<Rightarrow> endpoint \<Rightarrow> string \<Rightarrow> (('r, 's, 'd) site, endpoint) handler" where
  "mark_failed V cfg ep message =
     bindE (on_host (stop_container_of V ep)) (\<lambda>_.
     bindE (cleanup_artifact_dir cfg (e_id ep)) (\<lambda>_.
     on_site_db (commit_endpoint ep (ep\<lparr>e_status := EP_FAILED, e_container_id := None,
       e_error_message := Some (take 1024 message)\<rparr>))))"

text \<open>
  The two \<open>except\<close> clauses: \<open>CancelledError\<close> is no \<open>Exception\<close>, and after a failed commit the first
  attribute that \<open>_mark_failed\<close> reads of the endpoint raises.
\<close>

definition activation_failed ::
  "'d serve_ops \<Rightarrow> settings \<Rightarrow> endpoint \<Rightarrow> exn \<Rightarrow> (('r, 's, 'd) site, endpoint) handler" where
  "activation_failed V cfg ep e =
     (if e = CancelledError then raiseE e
      else if e = DataError \<or> e = StaleDataError then raiseE (OtherException ''PendingRollbackError'')
      else mark_failed V cfg ep (case e of ServingError m \<Rightarrow> m | _ \<Rightarrow> take 1024 (exn_str e)))"

definition fetch_and_start ::
  "'d serve_ops \<Rightarrow> 's s3_ops \<Rightarrow> settings \<Rightarrow> endpoint \<Rightarrow> model \<Rightarrow> (('r, 's, 'd) site, string) handler" where
  "fetch_and_start V S cfg ep m =
     bindE (liftE (\<lambda>x. if prefix_has_file S (m_minio_prefix m) SERVE_PY (si_store x) then Inr () else Inl contract_violation)) (\<lambda>_.
     bindE (on_disk (download_model_artifacts S (m_minio_prefix m) (artifact_dir_for cfg (e_id ep)))) (\<lambda>_.
     on_host (start_runner_container V cfg (e_id ep) (artifact_dir_for cfg (e_id ep)))))"

definition health_gate ::
  "'d serve_ops \<Rightarrow> settings \<Rightarrow> nat \<Rightarrow> endpoint \<Rightarrow> string \<Rightarrow> (('r, 's, 'd) site, endpoint) handler" where
  "health_gate V cfg fuel ep container_id =
     bindE (on_host (bindE (runner_base_url V cfg container_id) (\<lambda>base_url. wait_for_health V cfg fuel base_url None))) (\<lambda>_.
     on_site_db (commit_endpoint ep (ep\<lparr>e_status := EP_LIVE, e_error_message := None\<rparr>)))"

definition activate_endpoint ::
  "'d serve_ops \<Rightarrow> 's s3_ops \<Rightarrow> settings \<Rightarrow> nat \<Rightarrow> endpoint \<Rightarrow> model \<Rightarrow> (('r, 's, 'd) site, endpoint) handler" where
  "activate_endpoint V S cfg fuel ep m = (\<lambda>x.
     case fetch_and_start V S cfg ep m x of
       (Inl e, x') \<Rightarrow> activation_failed V cfg ep e x'
     | (Inr cid, x') \<Rightarrow>
         (let ep' = ep\<lparr>e_container_id := Some cid\<rparr> in
          catchE (\<lambda>_. True)
            (bindE (on_site_db (commit_endpoint ep ep')) (\<lambda>_. health_gate V cfg fuel ep' cid))
            (activation_failed V cfg ep') x'))"

section \<open>Stopping and reconciling\<close>

definition stop_endpoint_runtime ::
  "'d serve_ops \<Rightarrow> settings \<Rightarrow> time \<Rightarrow> endpoint \<Rightarrow> (('r, 's, 'd) site, endpoint) handler" where
  "stop_endpoint_runtime V cfg now ep =
     bindE (on_host (stop_container_of V ep)) (\<lambda>_.
     bindE (cleanup_artifact_dir cfg (e_id ep)) (\<lambda>_.
     on_site_db (commit_endpoint ep (ep\<lparr>e_status := EP_STOPPED, e_container_id := None,
       e_stopped_at := Some now, e_error_message := None\<rparr>))))"

definition VANISHED :: string where
  "VANISHED = ''container vanished (reconciled on API startup)''"

text \<open>The loop over the active endpoints: those it marks, in order.\<close>

fun reconcile_each :: "'d serve_ops \<Rightarrow> settings \<Rightarrow> endpoint list \<Rightarrow> (('r, 's, 'd) site, endpoint list) handler" where
  "reconcile_each V cfg [] = returnE []"
| "reconcile_each V cfg (ep # eps) =
     (let cid = (case e_container_id ep of Some c \<Rightarrow> c | None \<Rightarrow> []) in
      bindE (if cid = [] then returnE False else on_host (container_exists V cid)) (\<lambda>alive.
      if alive then reconcile_each V cfg eps
      else bindE (if cid = [] then returnE () else on_host (stop_runner_container V cid)) (\<lambda>_.
        bindE (cleanup_artifact_dir cfg (e_id ep)) (\<lambda>_.
        bindE (reconcile_each V cfg eps) (\<lambda>marked. returnE (ep # marked))))))"

definition vanished :: "endpoint \<Rightarrow> endpoint" where
  "vanished ep = ep\<lparr>e_status := EP_FAILED, e_container_id := None, e_error_message := Some VANISHED\<rparr>"

text \<open>The one commit at the end.\<close>

fun commit_vanished :: "endpoint list \<Rightarrow> (db, unit) handler" where
  "commit_vanished [] = returnE ()"
| "commit_vanished (ep # eps) = bindE (commit_endpoint ep (vanished ep)) (\<lambda>_. commit_vanished eps)"

definition reconcile_vanished_containers :: "'d serve_ops \<Rightarrow> settings \<Rightarrow> (('r, 's, 'd) site, int) handler" where
  "reconcile_vanished_containers V cfg =
     bindE (on_site_db (getsE (\<lambda>d. filter (\<lambda>e. e_status e \<in> set ACTIVE_ENDPOINT_STATUSES) (endpoints d)))) (\<lambda>eps.
     bindE (reconcile_each V cfg eps) (\<lambda>marked.
     bindE (whenE (marked \<noteq> []) (on_site_db (atomicE (commit_vanished marked)))) (\<lambda>_.
     returnE (int (length marked)))))"

end
