(* ===== verification/Endpoints.thy ===== *)
theory Endpoints
  imports Serving
begin

text \<open>
  The endpoint routes (\<open>api/routers/endpoints.py\<close>, \<open>api/schemas/endpoint.py\<close>) and the deployment of
  a model (\<open>deploy_model\<close> in \<open>api/routers/models.py\<close>), with the properties of serving.
\<close>

section \<open>Routes\<close>

record endpoint_response =
  er_id :: uuid
  er_model_id :: uuid
  er_name :: string
  er_status :: string
  er_route :: string
  er_container_id :: "string option"
  er_error_message :: "string option"
  er_created_at :: time
  er_stopped_at :: "time option"

definition to_endpoint_response :: "endpoint \<Rightarrow> endpoint_response" where
  "to_endpoint_response e = \<lparr>er_id = e_id e, er_model_id = e_model_id e, er_name = e_name e,
     er_status = endpoint_status_value (e_status e), er_route = e_route e, er_container_id = e_container_id e,
     er_error_message = e_error_message e, er_created_at = e_created_at e, er_stopped_at = e_stopped_at e\<rparr>"

definition ENDPOINT_NOT_FOUND :: exn where
  "ENDPOINT_NOT_FOUND = HTTPException 404 ''Endpoint not found''"

definition get_owned_endpoint :: "uuid \<Rightarrow> principal \<Rightarrow> (db, endpoint) handler" where
  "get_owned_endpoint endpoint_id p =
     bindE (liftE (\<lambda>d. scalar_one_or_none (filter (\<lambda>e. e_id e = endpoint_id) (endpoints d)))) (\<lambda>found.
     case found of
       None \<Rightarrow> raiseE ENDPOINT_NOT_FOUND
     | Some e \<Rightarrow>
         if e_user_id e \<noteq> u_id (p_user p) \<and> u_role (p_user p) \<noteq> RoleAdmin
         then raiseE ENDPOINT_NOT_FOUND else returnE e)"

interpretation own_endpoint: owned_resource get_owned_endpoint endpoints e_id e_user_id ENDPOINT_NOT_FOUND
  by unfold_locales (simp add: get_owned_endpoint_def handler_simps split: sum.split option.split)

type_synonym endpoint_list_response = "endpoint_response listing"

definition list_endpoints :: "principal \<Rightarrow> int \<Rightarrow> int \<Rightarrow> (db, endpoint_list_response) handler" where
  "list_endpoints p limit offset =
     (if \<not> valid_page limit offset then raiseE (ValidationError ''limit, offset'')
      else getsE (\<lambda>d. listing_of e_created_at to_endpoint_response limit offset
        (filter (\<lambda>e. e_user_id e = u_id (p_user p)) (endpoints d))))"

text \<open>The three remaining statuses are all the ones the 409 branch lets through.\<close>

definition stop_endpoint ::
  "'d serve_ops \<Rightarrow> settings \<Rightarrow> time \<Rightarrow> uuid \<Rightarrow> principal \<Rightarrow> (('r, 's, 'd) site, endpoint_response) handler" where
  "stop_endpoint V cfg now endpoint_id p =
     bindE (on_site_db (get_owned_endpoint endpoint_id p)) (\<lambda>ep.
     if e_status ep = EP_STOPPED then returnE (to_endpoint_response ep)
     else if e_status ep \<notin> {EP_LIVE, EP_STARTING, EP_FAILED}
     then raiseE (HTTPException 409 (''endpoint cannot be stopped from status '' @ endpoint_status_value (e_status ep)))
     else bindE (stop_endpoint_runtime V cfg now ep) (\<lambda>ep'. returnE (to_endpoint_response ep')))"

text \<open>The foreign key to the endpoint rejects a log of an endpoint that is gone.\<close>

definition add_usage_log :: "usage_log \<Rightarrow> (db, unit) handler" where
  "add_usage_log l = (\<lambda>d.
     if row_get e_id (ul_endpoint_id l) (endpoints d) = None then (Inl (OtherException ''IntegrityError''), d)
     else (Inr (), usage_logs_update (\<lambda>t. t @ [l]) d))"

fun contains :: "string \<Rightarrow> string \<Rightarrow> bool" where
  "contains sub [] \<longleftrightarrow> sub = []"
| "contains sub (c # cs) \<longleftrightarrow> startswith (c # cs) sub \<or> contains sub cs"

text \<open>The status and the content of the response that repeats the runner's.\<close>

definition forwarded :: "upstream \<Rightarrow> int \<times> json" where
  "forwarded u = (up_status u,
     (case up_content_type u of
        Some ct \<Rightarrow> if contains ''application/json'' ct
          then (case json_loads (up_text u) of
             Some payload \<Rightarrow> payload
           | None \<Rightarrow> JObj [(''detail'', JStr ''upstream returned invalid JSON'')])
          else JObj [(''detail'', JStr (up_text u))]
      | None \<Rightarrow> (case json_loads (up_text u) of
             Some payload \<Rightarrow> payload
           | None \<Rightarrow> JObj [(''detail'', JStr ''upstream returned invalid JSON'')])))"

text \<open>The \<open>except\<close> clauses around the call of the runner.\<close>

definition predict_error :: "exn \<Rightarrow> exn" where
  "predict_error e = (case e of
     TimeoutException _ \<Rightarrow> HTTPException 504 ''prediction timed out''
   | HTTPError _ \<Rightarrow> HTTPException 502 (''prediction upstream error: '' @ exn_str e)
   | _ \<Rightarrow> e)"

definition predict ::
  "'d serve_ops \<Rightarrow> settings \<Rightarrow> string \<Rightarrow> (string \<times> json) list \<Rightarrow> principal \<Rightarrow> (('r, 's, 'd) site, int \<times> json) handler" where
  "predict V cfg route body p =
     bindE (on_site_db (liftE (\<lambda>d. scalar_one_or_none (filter (\<lambda>e. e_route e = route) (endpoints d))))) (\<lambda>found.
     case found of
       None \<Rightarrow> raiseE ENDPOINT_NOT_FOUND
     | Some ep \<Rightarrow>
         (if e_status ep \<noteq> EP_LIVE then raiseE ENDPOINT_NOT_FOUND
          else (case e_container_id ep of
            None \<Rightarrow> raiseE ENDPOINT_NOT_FOUND
          | Some cid \<Rightarrow>
              if cid = [] then raiseE ENDPOINT_NOT_FOUND
              else bindE (on_host (catchE is_serving_error (runner_base_url V cfg cid)
                  (\<lambda>e. raiseE (HTTPException 502 (exn_str e))))) (\<lambda>base_url.
                bindE (on_host (catchE is_http_error
                  (sv_post V (rstrip_by (\<lambda>c. c = CHR ''/'') base_url @ ''/predict'') (JObj body))
                  (\<lambda>e. raiseE (predict_error e)))) (\<lambda>reply.
                bindE (on_site_db (add_usage_log \<lparr>ul_user_id = u_id (p_user p),
                  ul_api_key_id = map_option k_id (p_api_key p), ul_endpoint_id = e_id ep, ul_request_count = 1\<rparr>)) (\<lambda>_.
                returnE (forwarded reply)))))))"

section \<open>Deployment\<close>

definition validate_deploy :: "string option \<Rightarrow> bool" where
  "validate_deploy name = (case name of None \<Rightarrow> True | Some n \<Rightarrow> 1 \<le> length n \<and> length n \<le> 128)"

text \<open>The insert: routes are unique, texts fit their columns.\<close>

definition add_endpoint :: "endpoint \<Rightarrow> (db, unit) handler" where
  "add_endpoint e = (\<lambda>d.
     if \<not> endpoint_columns_fit e then (Inl DataError, d)
     else if \<exists>r \<in> set (endpoints d). e_route r = e_route e \<or> e_id r = e_id e then (Inl (OtherException ''IntegrityError''), d)
     else (Inr (), endpoints_update (\<lambda>t. t @ [e]) d))"

definition new_endpoint :: "time \<Rightarrow> uuid \<Rightarrow> model \<Rightarrow> uuid \<Rightarrow> string \<Rightarrow> endpoint" where
  "new_endpoint now endpoint_id m user_id display_name = \<lparr>e_id = endpoint_id, e_model_id = m_id m, e_user_id = user_id,
     e_name = display_name, e_status = EP_STARTING, e_container_id = None,
     e_route = make_route display_name endpoint_id, e_error_message = None, e_created_at = now, e_stopped_at = None\<rparr>"

definition deploy_model ::
  "'r redis_ops \<Rightarrow> 'd serve_ops \<Rightarrow> 's s3_ops \<Rightarrow> settings \<Rightarrow> nat \<Rightarrow> time \<Rightarrow> uuid \<Rightarrow> uuid \<Rightarrow> string option \<Rightarrow> principal \<Rightarrow>
   (('r, 's, 'd) site, endpoint_response) handler" where
  "deploy_model R V S cfg fuel now model_id endpoint_id name p =
     bindE (on_site_db (get_owned_model model_id p)) (\<lambda>m.
     bindE (on_site_world (enforce R cfg now now (p_user p) LIVE_ENDPOINTS 1)) (\<lambda>_.
     let display_name = (case name of Some n \<Rightarrow> if n = [] then m_name m else n | None \<Rightarrow> m_name m);
         ep = new_endpoint now endpoint_id m (u_id (p_user p)) display_name in
     bindE (on_site_db (add_endpoint ep)) (\<lambda>_.
     bindE (activate_endpoint V S cfg fuel ep m) (\<lambda>activated.
     returnE (to_endpoint_response activated)))))"

section \<open>Routes are well formed\<close>

lemma set_sub_runs: "set (sub_runs b s) \<subseteq> {c. route_char c} \<union> {CHR ''-''}"
  by (induction b s rule: sub_runs.induct) auto

lemma set_strip_by: "set (strip_by p s) \<subseteq> set s"
  by (auto simp: strip_by_def rstrip_by_def dest!: set_dropWhileD)

lemma route_char_hex: "c \<in> digit_chars \<Longrightarrow> route_char c"
  using digit_chars_bounds [of c] by (auto simp: route_char_def Let_def)

text \<open>A route is 10 to 57 lower-case letters, digits and hyphens, so it is one path segment and fits its
  column; and two endpoints get the same route only if their identifiers agree in the first eight
  hexadecimal digits.\<close>

theorem make_route_ok:
  "10 \<le> length (make_route name i) \<and> length (make_route name i) \<le> 57 \<and>
   (\<forall>c \<in> set (make_route name i). route_char c \<or> c = CHR ''-'') \<and>
   (make_route name i = make_route name' i' \<longrightarrow> take 8 (uuid_hex i) = take 8 (uuid_hex i'))"
proof -
  define base where "base n = (let slug = take 48 (strip_by (\<lambda>c. c = CHR ''-'') (sub_runs False (py_lower n)))
    in if slug = [] then ''model'' else slug)" for n
  have r: "make_route n j = base n @ ''-'' @ take 8 (uuid_hex j)" for n j
    by (simp add: make_route_def base_def Let_def)
  have len: "length (take 8 (uuid_hex j)) = 8" for j by (simp add: uuid_hex_def)
  have "length (base n) \<le> 48" "base n \<noteq> []" for n by (simp_all add: base_def Let_def)
  then have b: "1 \<le> length (base n) \<and> length (base n) \<le> 48" for n
    by (metis One_nat_def Suc_leI length_greater_0_conv)
  have "\<forall>c \<in> set (base n). route_char c \<or> c = CHR ''-''" for n
    using set_sub_runs [of False "py_lower n"] set_strip_by [of "\<lambda>c. c = CHR ''-''" "sub_runs False (py_lower n)"]
    by (auto simp: base_def Let_def route_char_def dest!: in_set_takeD)
  moreover have "\<forall>c \<in> set (take 8 (uuid_hex i)). route_char c"
    using set_uuid_hex [of i] route_char_hex by (auto dest!: in_set_takeD)
  ultimately have "\<forall>c \<in> set (make_route name i). route_char c \<or> c = CHR ''-''" by (auto simp: r)
  moreover have "take 8 (uuid_hex i) = take 8 (uuid_hex i')" if "make_route name i = make_route name' i'"
  proof -
    have "(base name @ ''-'') @ take 8 (uuid_hex i) = (base name' @ ''-'') @ take 8 (uuid_hex i')"
      using that by (simp add: r)
    moreover have "length (take 8 (uuid_hex i)) = length (take 8 (uuid_hex i'))" by (simp only: len)
    ultimately show ?thesis by (blast dest: append_eq_append_conv [THEN iffD1, OF disjI2, rotated])
  qed
  moreover have "length (make_route name i) = length (base name) + 9" by (simp add: r len del: length_take)
  ultimately show ?thesis using b [of name] by simp
qed

section \<open>The wait for health ends\<close>

text \<open>A clock that never goes back, sleeps that last, and calls that do not report the fuel.\<close>

locale runner_clock =
  fixes V :: "'d serve_ops"
  assumes sleep_law: "0 \<le> t \<Longrightarrow> fst (sv_sleep V t d) = Inr () \<and> sv_monotonic V d + t \<le> sv_monotonic V (snd (sv_sleep V t d))"
    and health_clock: "sv_monotonic V d \<le> sv_monotonic V (snd (sv_health V url d))"
    and health_fuel: "fst (sv_health V url d) \<noteq> Inl StillWaiting"
begin

lemma poll_health_returns:
  "0 < fuel \<Longrightarrow> deadline - sv_monotonic V d \<le> (int fuel - 1) * 500000 \<Longrightarrow>
   fst (poll_health V fuel url deadline e d) \<noteq> Inl StillWaiting"
proof (induction fuel arbitrary: d e)
  case 0
  then show ?case by simp
next
  case (Suc fuel)
  have again: "fst (bindE (sv_sleep V 500000) (\<lambda>_. poll_health V fuel url deadline e') d') \<noteq> Inl StillWaiting"
    if "sv_monotonic V d \<le> sv_monotonic V d'" "sv_monotonic V d < deadline" for e' d'
  proof -
    obtain d2 where d2: "sv_sleep V 500000 d' = (Inr (), d2)" "sv_monotonic V d' + 500000 \<le> sv_monotonic V d2"
      using sleep_law [of 500000 d'] by (cases "sv_sleep V 500000 d'") auto
    have "0 < fuel" using that(2) Suc.prems(2) by (cases fuel) auto
    moreover have "deadline - sv_monotonic V d2 \<le> (int fuel - 1) * 500000"
      using that(1) Suc.prems(2) d2(2) by (simp add: algebra_simps)
    ultimately have "fst (poll_health V fuel url deadline e' d2) \<noteq> Inl StillWaiting" by (rule Suc.IH)
    with d2(1) show ?thesis by (simp add: bindE_run)
  qed
  obtain r d' where h: "sv_health V url d = (r, d')" by fastforce
  with health_clock [of d url] health_fuel [of url d] have "sv_monotonic V d \<le> sv_monotonic V d'" "r \<noteq> Inl StillWaiting"
    by auto
  with again h show ?case
    by (cases r) (auto simp: poll_health.simps StillWaiting_def)
qed

end

text \<open>The health wait ends: with two polls for every second of the timeout, and one more, it has
  returned or raised something of its own.\<close>

theorem wait_for_health_returns:
  assumes "runner_clock V" and "0 \<le> timeout" and "2 * nat timeout < fuel"
    and "timeout = (case t of Some t \<Rightarrow> if t = 0 then serving_health_timeout_seconds cfg else t
        | None \<Rightarrow> serving_health_timeout_seconds cfg)"
  shows "fst (wait_for_health V cfg fuel base_url t d) \<noteq> Inl StillWaiting"
  unfolding wait_for_health_def assms(4) [symmetric]
  by (rule runner_clock.poll_health_returns [OF assms(1)]) (use assms(2,3) in \<open>simp_all add: algebra_simps\<close>)

section \<open>Activation\<close>

lemma keeps_host [keeps_intros]: "keeps (\<lambda>x. f (si_world x)) (on_host m)"
  by (simp add: keeps_def on_host_run)

lemma keeps_disk [keeps_intros]: "keeps (\<lambda>x. f (si_world x)) (on_disk m)"
  by (simp add: keeps_def on_disk_run Let_def)

lemma keeps_cleanup [keeps_intros]: "keeps (\<lambda>x. f (si_world x)) (cleanup_artifact_dir cfg i)"
  by (simp add: keeps_def cleanup_artifact_dir_def modifyE_run)

abbreviation si_db :: "('r, 's, 'd) site \<Rightarrow> db" where
  "si_db x \<equiv> w_db (si_world x)"

definition ep_row :: "db \<Rightarrow> uuid \<Rightarrow> endpoint option" where
  "ep_row d i = row_get e_id i (endpoints d)"

lemma on_site_db_at: "on_site_db m x = (out, x') \<Longrightarrow> m (si_db x) = (out, si_db x') \<and> si_host x' = si_host x \<and> si_files x' = si_files x"
  by (auto simp: on_site_db_def handler_simps prod_eq_iff)

lemma write_changed_id [simp]: "e_id (write_changed old new r) = e_id r"
  by (simp add: write_changed_def)

lemma write_changed_refl [simp]: "write_changed e e r = r"
  by (simp add: write_changed_def)

text \<open>From \<open>d\<close> to \<open>d'\<close> the row of endpoint \<open>i\<close>, and no other, has become \<open>r\<close>.\<close>

definition row_becomes :: "uuid \<Rightarrow> endpoint \<Rightarrow> db \<Rightarrow> db \<Rightarrow> bool" where
  "row_becomes i r d d' \<longleftrightarrow> (\<forall>k. ep_row d' k = (if k = i then Some r else ep_row d k))"

lemma row_becomes_refl: "ep_row d i = Some r \<Longrightarrow> row_becomes i r d d"
  by (simp add: row_becomes_def)

lemma row_becomes_trans: "row_becomes i r d d' \<Longrightarrow> row_becomes i r' d' d'' \<Longrightarrow> row_becomes i r' d d''"
  by (simp add: row_becomes_def)

lemma row_becomes_row: "row_becomes i r d d' \<Longrightarrow> ep_row d' i = Some r"
  by (simp add: row_becomes_def)

lemma commit_endpoint_cases:
  assumes "commit_endpoint old new d = (out, d')" and row: "ep_row d (e_id old) = Some r"
  obtains "out = Inl DataError" "d' = d" | "out = Inr new" "row_becomes (e_id old) (write_changed old new r) d d'"
proof (cases "new = old")
  case True
  with assms that(2) show thesis by (simp add: commit_endpoint_def row_becomes_refl)
next
  case False
  have upd: "row_get e_id k (rows_update (\<lambda>r. e_id r = e_id old) (write_changed old new) (endpoints d)) =
      (if k = e_id old then Some (write_changed old new r) else ep_row d k)" for k
    using row_get_rows_update [where key = e_id and f = "write_changed old new" and P = "\<lambda>r. e_id r = e_id old"
        and k = k and t = "endpoints d"] row
    by (cases "row_get e_id k (endpoints d)") (auto simp: ep_row_def dest: row_get_Some)
  have "out = Inl DataError \<and> d' = d \<or>
      out = Inr new \<and> d' = endpoints_update (rows_update (\<lambda>r. e_id r = e_id old) (write_changed old new)) d"
    using assms False by (auto simp: commit_endpoint_def ep_row_def split: if_splits)
  then show thesis
  proof
    assume "out = Inl DataError \<and> d' = d"
    with that(1) show thesis by simp
  next
    assume "out = Inr new \<and> d' = endpoints_update (rows_update (\<lambda>r. e_id r = e_id old) (write_changed old new)) d"
    with upd show thesis by (intro that(2)) (simp_all add: row_becomes_def ep_row_def)
  qed
qed

definition failed_as :: "string \<Rightarrow> endpoint \<Rightarrow> endpoint" where
  "failed_as msg ep = ep\<lparr>e_status := EP_FAILED, e_container_id := None, e_error_message := Some (take 1024 msg)\<rparr>"

lemma failed_as_id [simp]: "e_id (failed_as msg ep) = e_id ep"
  by (simp add: failed_as_def)

text \<open>What \<open>mark_failed\<close> and \<open>stop_endpoint_runtime\<close> share: the container is stopped, the artifacts are
  removed, and the row is written last.\<close>

lemma teardown_cases:
  assumes run: "bindE (on_host (stop_container_of V ep)) (\<lambda>_. bindE (cleanup_artifact_dir cfg (e_id ep)) (\<lambda>_.
      on_site_db (commit_endpoint ep new))) x = (out, x')" and row: "ep_row (si_db x) (e_id ep) = Some r"
  obtains e where "out = Inl e" "row_becomes (e_id ep) r (si_db x) (si_db x')"
    | "out = Inr new" "row_becomes (e_id ep) (write_changed ep new r) (si_db x) (si_db x')"
      "\<exists>fs. si_files x' = rmtree (artifact_dir_for cfg (e_id ep)) fs"
proof -
  obtain o1 x1 where h: "on_host (stop_container_of V ep) x = (o1, x1)" by fastforce
  then have x1: "si_db x1 = si_db x" by (auto simp: on_host_run)
  show thesis
  proof (cases o1)
    case (Inl e)
    with run h have "out = Inl e" "x' = x1" by (simp_all add: bindE_run)
    with x1 row show thesis by (intro that(1)) (simp_all add: row_becomes_refl)
  next
    case (Inr u)
    let ?x2 = "si_files_update (rmtree (artifact_dir_for cfg (e_id ep))) x1"
    have "on_site_db (commit_endpoint ep new) ?x2 = (out, x')"
      using run h Inr by (simp add: bindE_run cleanup_artifact_dir_def modifyE_run)
    from on_site_db_at [OF this] have c: "commit_endpoint ep new (si_db x) = (out, si_db x')"
      "si_files x' = rmtree (artifact_dir_for cfg (e_id ep)) (si_files x1)" by (simp_all add: x1)
    from c(1) row show thesis
    proof (rule commit_endpoint_cases)
      assume "out = Inl DataError" "si_db x' = si_db x"
      with row show thesis by (intro that(1)) (simp_all add: row_becomes_refl)
    next
      assume "out = Inr new" "row_becomes (e_id ep) (write_changed ep new r) (si_db x) (si_db x')"
      with c(2) show thesis by (intro that(2)) auto
    qed
  qed
qed

lemma activation_failed_cases:
  assumes "activation_failed V cfg ep e x = (out, x')" and row: "ep_row (si_db x) (e_id ep) = Some r"
  obtains e' where "out = Inl e'" "row_becomes (e_id ep) r (si_db x) (si_db x')"
    | msg where "out = Inr (failed_as msg ep)" "row_becomes (e_id ep) (write_changed ep (failed_as msg ep) r) (si_db x) (si_db x')"
      "\<exists>fs. si_files x' = rmtree (artifact_dir_for cfg (e_id ep)) fs"
proof -
  have "(\<exists>e'. activation_failed V cfg ep e x = raiseE e' x) \<or>
      (\<exists>msg. activation_failed V cfg ep e x = mark_failed V cfg ep msg x)"
    by (auto simp: activation_failed_def)
  then show thesis
  proof (elim disjE exE)
    fix e' assume "activation_failed V cfg ep e x = raiseE e' x"
    with assms(1) have "out = Inl e'" "x' = x" by (simp_all add: raiseE_run)
    with row show thesis by (intro that(1)) (simp_all add: row_becomes_refl)
  next
    fix msg assume "activation_failed V cfg ep e x = mark_failed V cfg ep msg x"
    with assms(1) have "mark_failed V cfg ep msg x = (out, x')" by simp
    from this [unfolded mark_failed_def, folded failed_as_def] row show thesis
      by (rule teardown_cases) (use that in blast)+
  qed
qed

lemma fetch_and_start_keeps: "keeps (\<lambda>x. f (si_world x)) (fetch_and_start V S cfg ep m)"
  unfolding fetch_and_start_def by (intro keeps_intros)

lemma gate_cases:
  assumes run: "bindE (on_site_db (commit_endpoint ep ep1)) (\<lambda>_. health_gate V cfg fuel ep1 cid) x = (out, x')"
    and ep1: "ep1 = ep\<lparr>e_container_id := Some cid\<rparr>" and row: "ep_row (si_db x) (e_id ep) = Some r"
    and new: "e_status ep = EP_STARTING" "e_container_id ep = None" "e_error_message ep = None"
  obtains (raised) e c where "out = Inl e" "row_becomes (e_id ep) (r\<lparr>e_container_id := c\<rparr>) (si_db x) (si_db x')"
    | (live) "out = Inr (ep1\<lparr>e_status := EP_LIVE\<rparr>)"
      "row_becomes (e_id ep) (r\<lparr>e_status := EP_LIVE, e_container_id := Some cid\<rparr>) (si_db x) (si_db x')"
proof -
  let ?r = "r\<lparr>e_container_id := Some cid\<rparr>" and ?live = "ep1\<lparr>e_status := EP_LIVE, e_error_message := None\<rparr>"
  obtain o1 x1 where c: "on_site_db (commit_endpoint ep ep1) x = (o1, x1)" by fastforce
  from on_site_db_at [OF c] row have "commit_endpoint ep ep1 (si_db x) = (o1, si_db x1)" "ep_row (si_db x) (e_id ep) = Some r"
    by simp_all
  then show thesis
  proof (rule commit_endpoint_cases)
    assume "o1 = Inl DataError" "si_db x1 = si_db x"
    with run c row show thesis
      by (intro raised [where c = "e_container_id r"]) (auto simp: bindE_run row_becomes_refl)
  next
    assume o1: "o1 = Inr ep1" and "row_becomes (e_id ep) (write_changed ep ep1 r) (si_db x) (si_db x1)"
    with new have r1: "row_becomes (e_id ep) ?r (si_db x) (si_db x1)" by (simp add: write_changed_def ep1)
    obtain o2 x2 where h: "on_host (bindE (runner_base_url V cfg cid) (\<lambda>base_url. wait_for_health V cfg fuel base_url None)) x1
        = (o2, x2)" by fastforce
    then have w: "si_db x2 = si_db x1" by (auto simp: on_host_run)
    show thesis
    proof (cases o2)
      case (Inl e)
      with run c o1 h r1 w show thesis
        by (intro raised [where c = "Some cid"]) (auto simp: bindE_run health_gate_def)
    next
      case (Inr u)
      with run c o1 h have l: "on_site_db (commit_endpoint ep1 ?live) x2 = (out, x')"
        by (simp add: bindE_run health_gate_def)
      have "ep_row (si_db x2) (e_id ep1) = Some ?r" using row_becomes_row [OF r1] by (simp add: w ep1)
      with conjunct1 [OF on_site_db_at [OF l]] show thesis
      proof (rule commit_endpoint_cases)
        assume "out = Inl DataError" "si_db x' = si_db x2"
        with r1 w show thesis by (intro raised [where c = "Some cid"]) simp_all
      next
        assume "out = Inr ?live" "row_becomes (e_id ep1) (write_changed ep1 ?live ?r) (si_db x2) (si_db x')"
        with row_becomes_trans [OF r1] new w show thesis
          by (intro live) (simp_all add: ep1 write_changed_def)
      qed
    qed
  qed
qed

text \<open>
  What activation writes to the row \<open>r\<close> of the endpoint object \<open>ep\<close>, whatever has become of that row
  since the request created it: it goes LIVE with its container, or FAILED, or keeps its status when
  an exception escapes.
\<close>

lemma failed_activation_cases:
  assumes run: "activation_failed V cfg ep1 e x1 = (out, x')" and ep1: "ep1 = ep\<lparr>e_container_id := k\<rparr>"
    and r1: "row_becomes (e_id ep) (r\<lparr>e_container_id := c\<rparr>) d (si_db x1)"
    and new: "e_status ep = EP_STARTING" "e_container_id ep = None" "e_error_message ep = None"
  obtains e' where "out = Inl e'" "row_becomes (e_id ep) (r\<lparr>e_container_id := c\<rparr>) d (si_db x')"
    | msg c' where "out = Inr (failed_as msg ep)" "c' = (if k = None then c else None)"
      "row_becomes (e_id ep)
        (r\<lparr>e_status := EP_FAILED, e_container_id := c', e_error_message := Some (take 1024 msg)\<rparr>) d (si_db x')"
      "\<exists>fs. si_files x' = rmtree (artifact_dir_for cfg (e_id ep)) fs"
proof -
  have "ep_row (si_db x1) (e_id ep1) = Some (r\<lparr>e_container_id := c\<rparr>)" using row_becomes_row [OF r1] by (simp add: ep1)
  with run show thesis
  proof (rule activation_failed_cases)
    fix e' assume "out = Inl e'" "row_becomes (e_id ep1) (r\<lparr>e_container_id := c\<rparr>) (si_db x1) (si_db x')"
    with row_becomes_trans [OF r1] show thesis by (intro that(1)) (simp_all add: ep1)
  next
    fix msg
    assume "out = Inr (failed_as msg ep1)"
      "row_becomes (e_id ep1) (write_changed ep1 (failed_as msg ep1) (r\<lparr>e_container_id := c\<rparr>)) (si_db x1) (si_db x')"
      "\<exists>fs. si_files x' = rmtree (artifact_dir_for cfg (e_id ep1)) fs"
    with row_becomes_trans [OF r1] new show thesis
      by (intro that(2) [of msg "if k = None then c else None"]) (cases k; simp add: ep1 failed_as_def write_changed_def)+
  qed
qed

lemma activate_cases:
  assumes run: "activate_endpoint V S cfg fuel ep m x = (out, x')" and row: "ep_row (si_db x) (e_id ep) = Some r"
    and new: "e_status ep = EP_STARTING" "e_container_id ep = None" "e_error_message ep = None"
  obtains (live) cid where "out = Inr (ep\<lparr>e_container_id := Some cid, e_status := EP_LIVE\<rparr>)"
      "row_becomes (e_id ep) (r\<lparr>e_status := EP_LIVE, e_container_id := Some cid\<rparr>) (si_db x) (si_db x')"
    | (failed) msg c where "out = Inr (failed_as msg ep)" "c = e_container_id r \<or> c = None"
      "row_becomes (e_id ep)
        (r\<lparr>e_status := EP_FAILED, e_container_id := c, e_error_message := Some (take 1024 msg)\<rparr>) (si_db x) (si_db x')"
      "\<exists>fs. si_files x' = rmtree (artifact_dir_for cfg (e_id ep)) fs"
    | (raised) e c where "out = Inl e" "row_becomes (e_id ep) (r\<lparr>e_container_id := c\<rparr>) (si_db x) (si_db x')"
proof -
  obtain o1 x1 where f: "fetch_and_start V S cfg ep m x = (o1, x1)" by fastforce
  then have w1: "si_db x1 = si_db x" using keeps_run [OF fetch_and_start_keeps [where f = w_db]] by blast
  have "r\<lparr>e_container_id := e_container_id r\<rparr> = r" by simp
  with row have keep: "row_becomes (e_id ep) (r\<lparr>e_container_id := e_container_id r\<rparr>) (si_db x) (si_db x1)"
    by (simp add: w1 row_becomes_refl)
  have same: "ep = ep\<lparr>e_container_id := None\<rparr>" using new(2) by simp
  show thesis
  proof (cases o1)
    case (Inl e)
    with run f have "activation_failed V cfg ep e x1 = (out, x')" by (simp add: activate_endpoint_def)
    from this same keep new show thesis
      by (rule failed_activation_cases) (erule (1) raised, rule failed [rotated 2], assumption+, simp)
  next
    case (Inr cid)
    let ?ep = "ep\<lparr>e_container_id := Some cid\<rparr>"
    let ?rest = "bindE (on_site_db (commit_endpoint ep ?ep)) (\<lambda>_. health_gate V cfg fuel ?ep cid) :: (_, endpoint) handler"
    obtain o2 x2 where g: "?rest x1 = (o2, x2)" by fastforce
    from row have row1: "ep_row (si_db x1) (e_id ep) = Some r" by (simp add: w1)
    from g refl row1 new show thesis
    proof (rule gate_cases)
      assume "o2 = Inr (?ep\<lparr>e_status := EP_LIVE\<rparr>)"
        "row_becomes (e_id ep) (r\<lparr>e_status := EP_LIVE, e_container_id := Some cid\<rparr>) (si_db x1) (si_db x2)"
      with run f g Inr w1 show thesis
        by (intro live [where cid = cid]) (auto simp: activate_endpoint_def Let_def catchE_run)
    next
      fix e c
      assume o2: "o2 = Inl e" and "row_becomes (e_id ep) (r\<lparr>e_container_id := c\<rparr>) (si_db x1) (si_db x2)"
      then have c: "row_becomes (e_id ep) (r\<lparr>e_container_id := c\<rparr>) (si_db x) (si_db x2)" by (simp add: w1)
      have "activation_failed V cfg ?ep e x2 = (out, x')"
        using run f g Inr o2 by (simp add: activate_endpoint_def Let_def catchE_run)
      from this refl c new show thesis
        by (rule failed_activation_cases) (erule (1) raised, rule failed [rotated 2], assumption+, simp)
    qed
  qed
qed

lemma rmtree_empty: "rmtree dir fs (path_str dir @ CHR ''/'' # f) = None"
  using startswith_append [of "path_str dir @ ''/''" f] by (simp add: rmtree_def)

text \<open>C21: What activation ends in.  When it returns, the row is what it returns: LIVE with a container and
  no error, or FAILED with an error that fits its column, no container, and nothing left in the
  artifact directory.  When an exception escapes it, although the code means never to leave an
  endpoint STARTING, the row still is STARTING.  No other endpoint is touched.\<close>

theorem activate_endpoint_outcome:
  assumes "activate_endpoint V S cfg fuel ep m x = (out, x')" and "ep_row (si_db x) (e_id ep) = Some ep"
    and "e_status ep = EP_STARTING" and "e_container_id ep = None" and "e_error_message ep = None"
  shows "\<exists>r. row_becomes (e_id ep) r (si_db x) (si_db x') \<and>
    (case out of
       Inr ep' \<Rightarrow> ep' = r \<and>
         (e_status r = EP_LIVE \<and> e_container_id r \<noteq> None \<and> e_error_message r = None \<or>
          e_status r = EP_FAILED \<and> e_container_id r = None \<and>
          (\<exists>msg. e_error_message r = Some msg \<and> length msg \<le> 1024) \<and>
          (\<forall>f. si_files x' (path_str (artifact_dir_for cfg (e_id ep)) @ ''/'' @ f) = None))
     | Inl _ \<Rightarrow> e_status r = EP_STARTING)"
  using assms(1-5)
proof (rule activate_cases)
  fix cid
  assume "out = Inr (ep\<lparr>e_container_id := Some cid, e_status := EP_LIVE\<rparr>)"
    "row_becomes (e_id ep) (ep\<lparr>e_status := EP_LIVE, e_container_id := Some cid\<rparr>) (si_db x) (si_db x')"
  with assms(5) show ?thesis by (intro exI conjI) auto
next
  fix msg c
  assume "out = Inr (failed_as msg ep)" "c = e_container_id ep \<or> c = None"
    "row_becomes (e_id ep) (ep\<lparr>e_status := EP_FAILED, e_container_id := c, e_error_message := Some (take 1024 msg)\<rparr>)
      (si_db x) (si_db x')" "\<exists>fs. si_files x' = rmtree (artifact_dir_for cfg (e_id ep)) fs"
  with assms(4) rmtree_empty show ?thesis by (intro exI conjI) (auto simp: failed_as_def)
next
  fix e c
  assume "out = Inl e" "row_becomes (e_id ep) (ep\<lparr>e_container_id := c\<rparr>) (si_db x) (si_db x')"
  with assms(3) show ?thesis by (intro exI [of _ "ep\<lparr>e_container_id := c\<rparr>"]) simp
qed

text \<open>An endpoint stopped while it is being activated: the activation works on the object it loaded
  and writes only the columns it changes, so when it succeeds it sets the stopped row LIVE, which
  keeps the time of the stop it has undone.\<close>

theorem stop_during_activation_undone:
  assumes "activate_endpoint V S cfg fuel ep m x = (Inr ep', x')" and "ep_row (si_db x) (e_id ep) = Some r"
    and "e_status ep = EP_STARTING" and "e_container_id ep = None" and "e_error_message ep = None"
    and "e_status r = EP_STOPPED" and "e_stopped_at r = Some t" and "e_status ep' = EP_LIVE"
  shows "\<exists>r'. ep_row (si_db x') (e_id ep) = Some r' \<and> e_status r' = EP_LIVE \<and> e_container_id r' = e_container_id ep' \<and>
    e_stopped_at r' = Some t"
  using assms(1-5)
proof (rule activate_cases)
  fix cid
  assume "Inr ep' = (Inr (ep\<lparr>e_container_id := Some cid, e_status := EP_LIVE\<rparr>) :: exn + endpoint)"
    and b: "row_becomes (e_id ep) (r\<lparr>e_status := EP_LIVE, e_container_id := Some cid\<rparr>) (si_db x) (si_db x')"
  with row_becomes_row [OF b] assms(7) show ?thesis by simp
qed (use assms(8) in \<open>simp_all add: failed_as_def\<close>)

section \<open>Stopping\<close>

lemma write_changed_own:
  "write_changed ep new ep = ep\<lparr>e_status := e_status new, e_container_id := e_container_id new,
     e_error_message := e_error_message new, e_stopped_at := e_stopped_at new\<rparr>"
  by (simp add: write_changed_def)

text \<open>Stopping an endpoint the caller may see: a stopped one is reported as it is; any other becomes
  STOPPED, without container and error, with its stop time and an empty artifact directory, or, when
  the daemon cannot be reached, stays as it was.  To a stranger the endpoint does not exist.\<close>

theorem stop_endpoint_outcome:
  assumes "stop_endpoint V cfg now i p x = (out, x')" and "distinct (map e_id (endpoints (si_db x)))"
  shows "case ep_row (si_db x) i of
      None \<Rightarrow> out = Inl ENDPOINT_NOT_FOUND \<and> x' = x
    | Some r \<Rightarrow>
        if \<not> visible_to p (e_user_id r) then out = Inl ENDPOINT_NOT_FOUND \<and> x' = x
        else if e_status r = EP_STOPPED then out = Inr (to_endpoint_response r) \<and> x' = x
        else (let r' = r\<lparr>e_status := EP_STOPPED, e_container_id := None, e_error_message := None, e_stopped_at := Some now\<rparr> in
          out = Inr (to_endpoint_response r') \<and> row_becomes i r' (si_db x) (si_db x') \<and>
          (\<forall>f. si_files x' (path_str (artifact_dir_for cfg i) @ ''/'' @ f) = None) \<or>
          isl out \<and> row_becomes i r (si_db x) (si_db x'))"
proof (cases "ep_row (si_db x) i")
  case None
  with assms show ?thesis
    by (simp add: stop_endpoint_def bindE_run on_site_db_def handler_simps own_endpoint.get_owned_decides ep_row_def)
next
  case (Some r)
  then have id: "e_id r = i" by (auto simp: ep_row_def dest: row_get_Some)
  have own: "get_owned_endpoint i p (si_db x) =
      (if visible_to p (e_user_id r) then (Inr r, si_db x) else (Inl ENDPOINT_NOT_FOUND, si_db x))"
    using own_endpoint.get_owned_decides [OF assms(2)] Some by (simp add: ep_row_def)
  let ?r' = "r\<lparr>e_status := EP_STOPPED, e_container_id := None, e_error_message := None, e_stopped_at := Some now\<rparr>"
  show ?thesis
  proof (cases "visible_to p (e_user_id r) \<and> e_status r \<noteq> EP_STOPPED")
    case False
    with assms(1) own Some show ?thesis
      by (auto simp: stop_endpoint_def bindE_run on_site_db_def handler_simps split: if_splits)
  next
    case True
    have st: "e_status r \<in> {EP_LIVE, EP_STARTING, EP_FAILED}" using True by (cases "e_status r") auto
    with assms(1) own True have run: "bindE (stop_endpoint_runtime V cfg now r) (\<lambda>ep'. returnE (to_endpoint_response ep')) x = (out, x')"
      by (auto simp: stop_endpoint_def bindE_run on_site_db_def on_site_world_run on_db_run)
    let ?new = "r\<lparr>e_status := EP_STOPPED, e_container_id := None, e_stopped_at := Some now, e_error_message := None\<rparr>"
    obtain o1 x1 where t: "stop_endpoint_runtime V cfg now r x = (o1, x1)" by fastforce
    from run t have o: "out = (case o1 of Inl e \<Rightarrow> Inl e | Inr ep' \<Rightarrow> Inr (to_endpoint_response ep'))" "x' = x1"
      by (auto simp: bindE_run returnE_run split: sum.splits)
    have row: "ep_row (si_db x) (e_id r) = Some r" using Some id by simp
    from t [unfolded stop_endpoint_runtime_def] row show ?thesis
    proof (rule teardown_cases)
      fix e assume "o1 = Inl e" "row_becomes (e_id r) r (si_db x) (si_db x1)"
      with True Some o id show ?thesis by simp
    next
      assume "o1 = Inr ?new" "row_becomes (e_id r) (write_changed r ?new r) (si_db x) (si_db x1)"
        "\<exists>fs. si_files x1 = rmtree (artifact_dir_for cfg (e_id r)) fs"
      with True Some o id show ?thesis
        by (auto simp: write_changed_own Let_def rmtree_empty to_endpoint_response_def)
    qed
  qed
qed

section \<open>Reconciliation\<close>

text \<open>
  A daemon that answers: it finds exactly the containers that exist, and removing one succeeds.
\<close>

locale runner_host =
  fixes V :: "'d serve_ops"
    and existing :: "'d \<Rightarrow> string set"
  assumes env_law: "sv_from_env V d = (Inr (), d)"
    and lookup_law: "sv_container V c d = (if c \<in> existing d then Inr c else Inl (NotFound c), d)"
    and remove_law: "c \<in> existing d \<Longrightarrow> fst (sv_remove V c d) = Inr () \<and> existing (snd (sv_remove V c d)) = existing d - {c}"
begin

lemma exists_run: "c \<noteq> [] \<Longrightarrow> container_exists V c d = (Inr (c \<in> existing d), d)"
  by (simp add: container_exists_def bindE_run env_law catchE_run lookup_law returnE_run)

lemma stop_missing_run: "c \<notin> existing d \<Longrightarrow> stop_runner_container V c d = (Inr (), d)"
  by (simp add: stop_runner_container_def bindE_run env_law catchE_run lookup_law returnE_run)

end

definition missing :: "('d \<Rightarrow> string set) \<Rightarrow> 'd \<Rightarrow> endpoint \<Rightarrow> bool" where
  "missing existing d e \<longleftrightarrow> (case e_container_id e of Some c \<Rightarrow> c = [] \<or> c \<notin> existing d | None \<Rightarrow> True)"

lemma reconcile_each_run:
  assumes "runner_host V existing"
  shows "\<exists>fs. reconcile_each V cfg eps x = (Inr (filter (missing existing (si_host x)) eps), x\<lparr>si_files := fs\<rparr>)"
proof (induction eps arbitrary: x)
  case Nil
  then show ?case by (auto simp: returnE_run intro: exI [of _ "si_files x"])
next
  case (Cons ep eps)
  let ?cid = "case e_container_id ep of Some c \<Rightarrow> c | None \<Rightarrow> []"
  let ?x = "si_files_update (rmtree (artifact_dir_for cfg (e_id ep))) x"
  show ?case
  proof (cases "missing existing (si_host x) ep")
    case True
    from Cons [of ?x] obtain fs where
      "reconcile_each V cfg eps ?x = (Inr (filter (missing existing (si_host x)) eps), ?x\<lparr>si_files := fs\<rparr>)" by auto
    moreover have "?cid = [] \<or> ?cid \<notin> existing (si_host x)" using True by (auto simp: missing_def split: option.splits)
    ultimately show ?thesis
      using True runner_host.exists_run [OF assms] runner_host.stop_missing_run [OF assms]
      by (auto simp: Let_def bindE_run returnE_run on_host_run cleanup_artifact_dir_def modifyE_run intro!: exI [of _ fs])
  next
    case False
    then have "?cid \<noteq> []" "?cid \<in> existing (si_host x)" by (auto simp: missing_def split: option.splits)
    with False Cons [of x] runner_host.exists_run [OF assms] show ?thesis
      by (simp add: Let_def bindE_run on_host_run)
  qed
qed

lemma vanished_simps [simp]: "e_id (vanished e) = e_id e" "e_status (vanished e) = EP_FAILED"
  "e_route (vanished e) = e_route e" "e_name (vanished e) = e_name e"
  by (simp_all add: vanished_def)

lemma vanished_fits: "endpoint_columns_fit e \<Longrightarrow> endpoint_columns_fit (vanished e)"
  by (simp add: endpoint_columns_fit_def vanished_def VANISHED_def)

lemma commit_vanished_one:
  assumes "ep \<in> set (endpoints d)" and "distinct (map e_id (endpoints d))" and "endpoint_columns_fit ep"
  shows "commit_endpoint ep (vanished ep) d =
    (Inr (vanished ep), endpoints_update (map (\<lambda>e. if e = ep then vanished e else e)) d)"
proof -
  have own: "write_changed ep (vanished ep) ep = vanished ep" by (simp add: write_changed_own vanished_def)
  have same: "e = ep" if "e \<in> set (endpoints d)" "e_id e = e_id ep" for e
    using assms(1,2) that by (auto simp: distinct_map dest: inj_onD)
  have upd: "rows_update (\<lambda>r. e_id r = e_id ep) (write_changed ep (vanished ep)) (endpoints d) =
      map (\<lambda>e. if e = ep then vanished e else e) (endpoints d)"
    using same own by (auto simp: rows_update_def)
  have nop: "map (\<lambda>e. if e = ep then vanished e else e) t = t" if "vanished ep = ep" for t
    using that by (intro map_idI) simp
  have "row_get e_id (e_id ep) (endpoints d) \<noteq> None" using assms(1) by (auto simp: row_get_None)
  with upd nop vanished_fits [OF assms(3)] show ?thesis
    by (cases d) (auto simp: commit_endpoint_def)
qed

lemma commit_vanished_run:
  assumes "set eps \<subseteq> set (endpoints d)" and "distinct (map e_id eps)" and "distinct (map e_id (endpoints d))"
    and "\<forall>e \<in> set eps. endpoint_columns_fit e"
  shows "commit_vanished eps d = (Inr (), endpoints_update (map (\<lambda>e. if e \<in> set eps then vanished e else e)) d)"
  using assms
proof (induction eps arbitrary: d)
  case Nil
  then show ?case by (cases d) (simp add: returnE_run)
next
  case (Cons ep eps)
  let ?f = "\<lambda>e. if e = ep then vanished e else e"
  let ?d = "endpoints_update (map ?f) d"
  have one: "commit_endpoint ep (vanished ep) d = (Inr (vanished ep), ?d)"
    using Cons.prems by (intro commit_vanished_one) auto
  have ids: "map e_id (map ?f t) = map e_id t" for t by (induction t) auto
  have ne: "vanished ep \<notin> set eps" "ep \<notin> set eps" using Cons.prems(2) by (auto simp: image_iff)
  have "set eps \<subseteq> set (endpoints ?d)" using Cons.prems(1) ne(2) by (auto simp: image_iff)
  with Cons.IH [of ?d] Cons.prems(2-4) have
    "commit_vanished eps ?d = (Inr (), endpoints_update (map (\<lambda>e. if e \<in> set eps then vanished e else e)) ?d)"
    by (simp add: ids del: map_map)
  moreover have "(\<lambda>e. if e \<in> set eps then vanished e else e) \<circ> ?f = (\<lambda>e. if e \<in> set (ep # eps) then vanished e else e)"
    using ne by (auto simp: fun_eq_iff)
  ultimately show ?case by (simp add: bindE_run one)
qed

text \<open>C24: Reconciliation against a daemon that answers: exactly the STARTING and LIVE endpoints whose
  container does not exist become FAILED, without container, and are counted; every other row, and
  every container, stays as it is.\<close>

theorem reconcile_outcome:
  assumes "runner_host V existing" and "distinct (map e_id (endpoints (si_db x)))"
    and "\<forall>e \<in> set (endpoints (si_db x)). endpoint_columns_fit e"
    and "reconcile_vanished_containers V cfg x = (out, x')"
  shows "let gone = (\<lambda>e. e_status e \<in> {EP_STARTING, EP_LIVE} \<and> missing existing (si_host x) e) in
    out = Inr (int (length (filter gone (endpoints (si_db x))))) \<and> si_host x' = si_host x \<and>
    si_db x' = endpoints_update (map (\<lambda>e. if gone e then vanished e else e)) (si_db x)"
proof -
  let ?gone = "\<lambda>e. e_status e \<in> {EP_STARTING, EP_LIVE} \<and> missing existing (si_host x) e"
  let ?t = "endpoints (si_db x)"
  have act: "set ACTIVE_ENDPOINT_STATUSES = {EP_STARTING, EP_LIVE}" by (auto simp: ACTIVE_ENDPOINT_STATUSES_def)
  obtain fs where each: "reconcile_each V cfg (filter (\<lambda>e. e_status e \<in> {EP_STARTING, EP_LIVE}) ?t) x =
      (Inr (filter ?gone ?t), x\<lparr>si_files := fs\<rparr>)"
    using reconcile_each_run [OF assms(1), of cfg "filter (\<lambda>e. e_status e \<in> {EP_STARTING, EP_LIVE}) ?t" x]
    by (auto simp: filter_filter conj_commute)
  have commit: "commit_vanished (filter ?gone ?t) (si_db x) =
      (Inr (), endpoints_update (map (\<lambda>e. if e \<in> set (filter ?gone ?t) then vanished e else e)) (si_db x))"
    using assms(2,3) by (intro commit_vanished_run) (auto simp: distinct_map inj_on_def)
  have rows: "map (\<lambda>e. if e \<in> set (filter ?gone ?t) then vanished e else e) ?t = map (\<lambda>e. if ?gone e then vanished e else e) ?t"
    by (rule map_cong) auto
  have upd: "endpoints_update (map (\<lambda>e. if e \<in> set (filter ?gone ?t) then vanished e else e)) (si_db x) =
      endpoints_update (map (\<lambda>e. if ?gone e then vanished e else e)) (si_db x)"
    using rows by (cases "si_db x") simp
  show ?thesis
  proof (cases "filter ?gone ?t = []")
    case True
    then have "map (\<lambda>e. if ?gone e then vanished e else e) ?t = ?t" by (intro map_idI) (auto simp: filter_empty_conv)
    then have "endpoints_update (map (\<lambda>e. if ?gone e then vanished e else e)) (si_db x) = si_db x"
      by (cases "si_db x") simp
    with True assms(4) each show ?thesis
      by (auto simp: reconcile_vanished_containers_def bindE_run on_site_db_def handler_simps act Let_def)
  next
    case False
    with assms(4) each commit upd show ?thesis
      by (auto simp: reconcile_vanished_containers_def bindE_run on_site_db_def handler_simps act Let_def)
  qed
qed

text \<open>But \<open>container_exists\<close> answers False to any error of the daemon: when its look-up fails once, a LIVE
  endpoint whose container runs is taken for vanished, and the container is then found and removed.\<close>

theorem reconcile_kills_on_api_error:
  assumes "endpoints (si_db x) = [ep]" and "e_status ep = EP_LIVE" and "e_container_id ep = Some c" and "c \<noteq> []"
    and "endpoint_columns_fit ep" and "\<And>d. sv_from_env V d = (Inr (), d)"
    and "sv_container V c (si_host x) = (Inl (APIError msg), d1)" and "sv_container V c d1 = (Inr c, d2)"
    and "sv_remove V c d2 = (Inr (), d3)"
  shows "\<exists>x'. reconcile_vanished_containers V cfg x = (Inr 1, x') \<and> si_host x' = d3 \<and>
    endpoints (si_db x') = [vanished ep]"
proof -
  have "filter (\<lambda>e. e_status e \<in> set ACTIVE_ENDPOINT_STATUSES) (endpoints (si_db x)) = [ep]"
    using assms(1,2) by (simp add: ACTIVE_ENDPOINT_STATUSES_def)
  moreover have "container_exists V c (si_host x) = (Inr False, d1)" "stop_runner_container V c d1 = (Inr (), d3)"
    using assms(4,6-9) by (simp_all add: container_exists_def stop_runner_container_def bindE_run catchE_run returnE_run)
  ultimately have each: "reconcile_each V cfg [ep] x =
      (Inr [ep], x\<lparr>si_host := d3, si_files := rmtree (artifact_dir_for cfg (e_id ep)) (si_files x)\<rparr>)"
    using assms(3,4) by (cases x) (simp add: bindE_run on_host_run cleanup_artifact_dir_def modifyE_run returnE_run)
  have "commit_vanished [ep] (si_db x) = (Inr (), endpoints_update (map (\<lambda>e. if e \<in> set [ep] then vanished e else e)) (si_db x))"
    using assms(1,5) by (intro commit_vanished_run) simp_all
  with each assms(1,2) show ?thesis
    by (simp add: reconcile_vanished_containers_def bindE_run on_site_db_def handler_simps ACTIVE_ENDPOINT_STATUSES_def)
qed

section \<open>Prediction\<close>


section \<open>Deployment\<close>

text \<open>Deploying a model: at the limit of live endpoints the request is refused and creates nothing;
  below it a STARTING endpoint of the caller, with a fresh route, is committed and then activated.\<close>

theorem deploy_model_outcome:
  assumes "redis_strings R up entry" and "up (w_redis (si_world x))" and "distinct (map q_user_id (quotas (si_db x)))"
    and "get_owned_model mid p (si_db x) = (Inr m, si_db x)"
    and "deploy_model R V S cfg fuel now mid i None p x = (out, x')"
  shows "let uid = u_id (p_user p); n = count_live_endpoints (si_db x) uid;
      d = with_quota cfg uid (si_db x); ep = new_endpoint now i m uid (m_name m)
    in if user_limit cfg uid LIVE_ENDPOINTS (si_db x) < n + 1
       then out = Inl (quota_exceeded LIVE_ENDPOINTS (user_limit cfg uid LIVE_ENDPOINTS (si_db x)) n) \<and> si_db x' = d
       else if \<not> endpoint_columns_fit ep \<or> (\<exists>r \<in> set (endpoints d). e_route r = e_route ep \<or> e_id r = i)
       then isl out \<and> si_db x' = d
       else (let x1 = x\<lparr>si_world := (si_world x)\<lparr>w_db := endpoints_update (\<lambda>t. t @ [ep]) d\<rparr>\<rparr> in
         case activate_endpoint V S cfg fuel ep m x1 of
           (Inl e, x2) \<Rightarrow> out = Inl e \<and> x' = x2
         | (Inr ep', x2) \<Rightarrow> out = Inr (to_endpoint_response ep') \<and> x' = x2)"
proof -
  let ?uid = "u_id (p_user p)"
  let ?n = "count_live_endpoints (si_db x) ?uid" and ?d = "with_quota cfg ?uid (si_db x)"
  let ?l = "user_limit cfg ?uid LIVE_ENDPOINTS (si_db x)"
  have n: "usage entry now ?uid LIVE_ENDPOINTS (si_world x) = Some ?n" by (simp add: usage_def)
  have nr: "\<not> redis_backed LIVE_ENDPOINTS" by (simp add: redis_resource_defs)
  have e: "enforce R cfg now now (p_user p) LIVE_ENDPOINTS 1 (si_world x) =
      (if ?n + 1 \<le> ?l then Inr () else Inl (quota_exceeded LIVE_ENDPOINTS ?l ?n), (si_world x)\<lparr>w_db := ?d\<rparr>)"
    using redis_strings.enforce_refused [OF assms(1,2) n assms(3), of 1 cfg now] nr by simp
  define ep where "ep = new_endpoint now i m ?uid (m_name m)"
  have id: "e_id ep = i" by (simp add: ep_def new_endpoint_def)
  let ?x = "x\<lparr>si_world := (si_world x)\<lparr>w_db := ?d\<rparr>\<rparr>"
  let ?activate = "bindE (activate_endpoint V S cfg fuel ep m) (\<lambda>activated. returnE (to_endpoint_response activated))"
  show ?thesis
  proof (cases "?l < ?n + 1")
    case True
    with assms(4,5) e show ?thesis
      by (auto simp: deploy_model_def bindE_run on_site_db_def handler_simps Let_def)
  next
    case False
    with assms(4,5) e have rest: "bindE (on_site_db (add_endpoint ep)) (\<lambda>_. ?activate) ?x = (out, x')"
      by (simp add: deploy_model_def bindE_run on_site_db_def on_site_world_run on_db_run Let_def ep_def)
    have add: "on_site_db (add_endpoint ep) ?x =
        (if \<not> endpoint_columns_fit ep then (Inl DataError, ?x)
         else if \<exists>r \<in> set (endpoints ?d). e_route r = e_route ep \<or> e_id r = i then (Inl (OtherException ''IntegrityError''), ?x)
         else (Inr (), x\<lparr>si_world := (si_world x)\<lparr>w_db := endpoints_update (\<lambda>t. t @ [ep]) ?d\<rparr>\<rparr>))"
      by (simp add: on_site_db_def on_site_world_run on_db_run add_endpoint_def id)
    have "\<not> endpoint_columns_fit ep \<or> (\<exists>r \<in> set (endpoints ?d). e_route r = e_route ep \<or> e_id r = i) \<Longrightarrow>
        isl out \<and> si_db x' = ?d"
      using rest by (auto simp: bindE_run add split: if_splits)
    moreover have "\<not> (\<not> endpoint_columns_fit ep \<or> (\<exists>r \<in> set (endpoints ?d). e_route r = e_route ep \<or> e_id r = i)) \<Longrightarrow>
        ?activate (x\<lparr>si_world := (si_world x)\<lparr>w_db := endpoints_update (\<lambda>t. t @ [ep]) ?d\<rparr>\<rparr>) = (out, x')"
      using rest by (simp add: bindE_run add)
    ultimately show ?thesis
      unfolding Let_def ep_def [symmetric]
      using False by (auto simp: bindE_run returnE_run split: prod.splits sum.splits)
  qed
qed

section \<open>A host for the runners\<close>

text \<open>For the witnesses: a clock, the existing containers, and the status every health check gets.\<close>

record ref_runners =
  rs_now :: time
  rs_existing :: "string list"
  rs_health :: int
  rs_reply :: upstream

definition ref_serve :: "ref_runners serve_ops" where
  "ref_serve = \<lparr>sv_from_env = returnE (), sv_network_get = (\<lambda>_. returnE ()), sv_network_create = (\<lambda>_. returnE ()),
     sv_container = (\<lambda>c h. (if c \<in> set (rs_existing h) then Inr c else Inl (NotFound c), h)),
     sv_remove = (\<lambda>c. modifyE (rs_existing_update (filter (\<lambda>x. x \<noteq> c)))),
     sv_image_get = (\<lambda>_. returnE ()), sv_image_pull = (\<lambda>_. returnE ()),
     sv_run = (\<lambda>args h. (Inr (ref_id (rs_existing h)), h\<lparr>rs_existing := ref_id (rs_existing h) # rs_existing h\<rparr>)),
     sv_host_ports = (\<lambda>_ _. returnE [Some ''49153'']),
     sv_health = (\<lambda>_ h. (Inr (rs_health h), h)), sv_post = (\<lambda>_ _ h. (Inr (rs_reply h), h)),
     sv_monotonic = rs_now, sv_sleep = (\<lambda>t. modifyE (rs_now_update (\<lambda>n. n + t)))\<rparr>"

interpretation ref_clock: runner_clock ref_serve
  by unfold_locales (auto simp: ref_serve_def handler_simps)

interpretation ref_runners: runner_host ref_serve "\<lambda>h. set (rs_existing h)"
  by unfold_locales (auto simp: ref_serve_def handler_simps)

definition ep0 :: endpoint where
  "ep0 = new_endpoint 5 99 model0 1 ''net''"

definition site0 :: "endpoint list \<Rightarrow> int \<Rightarrow> (ref_state, (string \<times> string) list, ref_runners) site" where
  "site0 eps health = \<lparr>si_world = world0\<lparr>w_db := db0\<lparr>models := [model0], endpoints := eps\<rparr>\<rparr>,
     si_store = [(model_prefix 1 ''net'' 1 @ SERVE_PY, ''w'')], si_files = (\<lambda>_. None),
     si_host = \<lparr>rs_now = 0, rs_existing = [''c''], rs_health = health,
       rs_reply = \<lparr>up_status = 200, up_content_type = None, up_text = ''{}''\<rparr>\<rparr>\<rparr>"

lemma site0_simps [simp]: "endpoints (si_db (site0 eps h)) = eps" "si_host (site0 eps h) =
    \<lparr>rs_now = 0, rs_existing = [''c''], rs_health = h, rs_reply = \<lparr>up_status = 200, up_content_type = None, up_text = ''{}''\<rparr>\<rparr>"
  "models (si_db (site0 eps h)) = [model0]" "w_redis (si_world (site0 eps h)) = ref_redis0" "quotas (si_db (site0 eps h)) = []"
  by (simp_all add: site0_def)

lemma ep0_simps [simp]: "e_id ep0 = 99" "e_status ep0 = EP_STARTING" "e_container_id ep0 = None"
  "e_error_message ep0 = None" "e_user_id ep0 = 1" "e_name ep0 = ''net''"
  by (simp_all add: ep0_def new_endpoint_def)

lemma ep0_fits: "endpoint_columns_fit ep0"
  by code_simp

theorem wait_for_health_returns_witness:
  "fst (wait_for_health ref_serve cfg0 5 ''http://127.0.0.1:49153'' (Some 2) (si_host (site0 [] 503))) \<noteq> Inl StillWaiting"
  by (rule wait_for_health_returns [OF ref_clock.runner_clock_axioms, where timeout = 2]) simp_all

theorem make_route_ok_witness:
  "make_route ''Net (v2)!'' 1 = ''net-v2-00000000'' \<and> take 8 (uuid_hex 1) = take 8 (uuid_hex 2)"
proof -
  have "make_route ''Net (v2)!'' 1 = ''net-v2-00000000''" "make_route ''Net (v2)!'' 1 = make_route ''net-V2'' 2"
    by code_simp+
  with make_route_ok [of "''Net (v2)!''" 1 "''net-V2''" 2] show ?thesis by blast
qed

theorem activate_endpoint_outcome_witness:
  "\<exists>r. row_becomes 99 r (si_db (site0 [ep0] 503)) (si_db (snd (activate_endpoint ref_serve ref_s3 cfg0 200 ep0 model0 (site0 [ep0] 503))))"
  using activate_endpoint_outcome [OF prod.collapse [symmetric], where ep = ep0 and x = "site0 [ep0] 503"]
  by (fastforce simp: ep_row_def row_get_Cons)

lemma path_str_below: "startswith (path_str (dest @ [f])) (path_str dest) \<or> dest = []"
  by (simp add: path_str_def startswith_iff)

lemma download_serve:
  assumes "dest \<noteq> []"
  shows "download_model_artifacts ref_s3 p dest \<lparr>dk_store = [(p @ SERVE_PY, ''w'')], dk_files = fs\<rparr> =
    (Inr (), \<lparr>dk_store = [(p @ SERVE_PY, ''w'')], dk_files = (rmtree dest fs)(path_str (dest @ [SERVE_PY]) \<mapsto> ''w'')\<rparr>)"
proof -
  have s: "SERVE_PY \<noteq> []" "\<not> endswith SERVE_PY ''/''" "\<not> startswith SERVE_PY ''/''" "py_split (CHR ''/'') SERVE_PY = [SERVE_PY]"
    "SERVE_PY \<noteq> ''.''" "SERVE_PY \<noteq> ''..''"
    by code_simp+
  have r: "resolve_from dest SERVE_PY = dest @ [SERVE_PY]"
    unfolding resolve_from_def s(4) using s by (simp only: walk.simps) simp
  have l: "list_files ref_s3 p [(p @ SERVE_PY, ''w'')] =
      (Inr [\<lparr>f_key = SERVE_PY, f_size = 1, f_full_key = p @ SERVE_PY\<rparr>], [(p @ SERVE_PY, ''w'')])"
    using s by (simp add: list_files_def ref_s3_def file_entries_def handler_simps Let_def)
  have w: "write_files ref_s3 dest [\<lparr>f_key = SERVE_PY, f_size = 1, f_full_key = p @ SERVE_PY\<rparr>]
      \<lparr>dk_store = [(p @ SERVE_PY, ''w'')], dk_files = fs'\<rparr> =
      (Inr (), \<lparr>dk_store = [(p @ SERVE_PY, ''w'')], dk_files = fs'(path_str (dest @ [SERVE_PY]) \<mapsto> ''w'')\<rparr>)" for fs'
    using path_str_below [of dest SERVE_PY] assms r
    by (simp add: Let_def handler_simps get_bytes_def ref_s3_def)
  show ?thesis
    by (simp add: download_model_artifacts_def download_prefix_def l w handler_simps del: write_files.simps)
qed

lemma start_ref:
  "start_runner_container ref_serve cfg i dir \<lparr>rs_now = 0, rs_existing = [''c''], rs_health = s, rs_reply = u\<rparr> =
    (Inr ''cc'', \<lparr>rs_now = 0, rs_existing = [''cc'', ''c''], rs_health = s, rs_reply = u\<rparr>)"
proof -
  have "runner_name i \<noteq> ''c''" by (simp add: runner_name_def)
  moreover have "ref_id [''c''] = ''cc''" by (simp add: ref_id_def)
  ultimately show ?thesis
    by (simp add: start_runner_container_def ensure_serving_network_def ref_serve_def handler_simps)
qed

lemma healthy_ref:
  "bindE (runner_base_url ref_serve cfg ''cc'') (\<lambda>u. wait_for_health ref_serve cfg0 (Suc n) u None)
      \<lparr>rs_now = 0, rs_existing = [''cc'', ''c''], rs_health = 200, rs_reply = u\<rparr> =
    (Inr (), \<lparr>rs_now = 0, rs_existing = [''cc'', ''c''], rs_health = 200, rs_reply = u\<rparr>)"
  by (simp add: runner_base_url_def wait_for_health_def ref_serve_def handler_simps poll_health.simps)
    (simp add: cfg0_def default_settings_def)

lemma activate_live:
  assumes "e_id r = 99"
  shows "fst (activate_endpoint ref_serve ref_s3 cfg0 9 ep0 model0 (site0 [r] 200)) =
     Inr (ep0\<lparr>e_status := EP_LIVE, e_container_id := Some ''cc''\<rparr>)"
proof -
  have dir: "artifact_dir_for cfg0 99 \<noteq> []" by (simp add: artifact_dir_for_def)
  have pre: "m_minio_prefix model0 = model_prefix 1 ''net'' 1" by (simp add: model0_def)
  have "endswith (model_prefix 1 ''net'' 1) ''/''" by (simp add: model_prefix_def endswith_def startswith_def)
  then have has: "prefix_has_file ref_s3 (model_prefix 1 ''net'' 1) SERVE_PY [(model_prefix 1 ''net'' 1 @ SERVE_PY, ''w'')]"
    by (simp add: prefix_has_file_def object_exists_def ref_s3_def)
  have fits: "endpoint_columns_fit (ep0\<lparr>e_container_id := Some ''cc''\<rparr>)"
    "endpoint_columns_fit (ep0\<lparr>e_status := EP_LIVE, e_container_id := Some ''cc''\<rparr>)"
    using ep0_fits by (simp_all add: endpoint_columns_fit_def)
  obtain x where f: "fetch_and_start ref_serve ref_s3 cfg0 ep0 model0 (site0 [r] 200) = (Inr ''cc'', x)"
    and x: "endpoints (si_db x) = [r]"
      "si_host x = \<lparr>rs_now = 0, rs_existing = [''cc'', ''c''], rs_health = 200,
        rs_reply = \<lparr>up_status = 200, up_content_type = None, up_text = ''{}''\<rparr>\<rparr>"
    using dir has by (simp add: fetch_and_start_def pre site0_def handler_simps download_serve start_ref)
  let ?ep = "ep0\<lparr>e_container_id := Some ''cc''\<rparr>"
  let ?d = "endpoints_update (rows_update (\<lambda>q. e_id q = 99) (write_changed ep0 ?ep)) (si_db x)"
  have "?ep \<noteq> ep0" by (metis ep0_simps(3) endpoint.select_convs(6) endpoint.surjective endpoint.update_convs(6) option.distinct(1))
  then have c1: "commit_endpoint ep0 ?ep (si_db x) = (Inr ?ep, ?d)"
    using fits x(1) assms by (simp add: commit_endpoint_def row_get_Cons)
  let ?live = "ep0\<lparr>e_status := EP_LIVE, e_container_id := Some ''cc''\<rparr>"
  have "e_status ?live \<noteq> e_status ?ep" by simp
  then have "?live \<noteq> ?ep" by metis
  then have c2: "fst (commit_endpoint ?ep ?live ?d) = Inr ?live"
    using fits x(1) assms by (simp add: commit_endpoint_def row_get_Cons rows_update_def)
  have g: "bindE (runner_base_url ref_serve cfg0 ''cc'') (\<lambda>u. wait_for_health ref_serve cfg0 9 u None) (si_host x) = (Inr (), si_host x)"
    unfolding x(2) using healthy_ref [of cfg0 8] by simp
  have live: "?ep\<lparr>e_status := EP_LIVE, e_error_message := None\<rparr> = ?live" by (simp add: ep0_def new_endpoint_def)
  let ?x = "x\<lparr>si_world := (si_world x)\<lparr>w_db := ?d\<rparr>\<rparr>"
  have h1: "on_site_db (commit_endpoint ep0 ?ep) x = (Inr ?ep, ?x)"
    using c1 by (simp add: on_site_db_def on_site_world_run on_db_run)
  have h2: "on_host (bindE (runner_base_url ref_serve cfg0 ''cc'') (\<lambda>u. wait_for_health ref_serve cfg0 9 u None)) ?x = (Inr (), ?x)"
    using g by (simp add: on_host_run)
  have h3: "fst (on_site_db (commit_endpoint ?ep ?live) ?x) = Inr ?live"
    using c2 by (simp add: on_site_db_def on_site_world_run on_db_run)
  obtain y where "on_site_db (commit_endpoint ?ep ?live) ?x = (Inr ?live, y)" using h3 by (metis prod.collapse)
  then have "bindE (on_site_db (commit_endpoint ep0 ?ep)) (\<lambda>_. health_gate ref_serve cfg0 9 ?ep ''cc'') x = (Inr ?live, y)"
    by (simp only: bindE_at [where m = "on_site_db (commit_endpoint ep0 ?ep)", OF h1] health_gate_def
        bindE_at [where m = "on_host (bindE (runner_base_url ref_serve cfg0 ''cc'') (\<lambda>u. wait_for_health ref_serve cfg0 9 u None))", OF h2] live)
  with f show ?thesis by (simp add: activate_endpoint_def Let_def catchE_run)
qed

theorem stop_during_activation_undone_witness:
  "\<exists>r'. ep_row (si_db (snd (activate_endpoint ref_serve ref_s3 cfg0 9 ep0 model0
       (site0 [ep0\<lparr>e_status := EP_STOPPED, e_stopped_at := Some 6\<rparr>] 200)))) 99 = Some r' \<and>
     e_status r' = EP_LIVE \<and> e_stopped_at r' = Some 6"
proof -
  let ?x = "site0 [ep0\<lparr>e_status := EP_STOPPED, e_stopped_at := Some 6\<rparr>] 200"
  have "fst (activate_endpoint ref_serve ref_s3 cfg0 9 ep0 model0 ?x) =
      Inr (ep0\<lparr>e_status := EP_LIVE, e_container_id := Some ''cc''\<rparr>)" by (rule activate_live) simp
  then obtain x' where r: "activate_endpoint ref_serve ref_s3 cfg0 9 ep0 model0 ?x =
      (Inr (ep0\<lparr>e_status := EP_LIVE, e_container_id := Some ''cc''\<rparr>), x')" by (metis prod.collapse)
  have "ep_row (si_db ?x) (e_id ep0) = Some (ep0\<lparr>e_status := EP_STOPPED, e_stopped_at := Some 6\<rparr>)"
    by (simp add: ep_row_def row_get_Cons)
  from stop_during_activation_undone [OF r this] r show ?thesis by auto
qed

theorem stop_endpoint_outcome_witness:
  "let run = stop_endpoint ref_serve cfg0 6 99 \<lparr>p_user = alice, p_api_key = None\<rparr> (site0 [ep0] 200) in
   isl (fst run) \<or> (\<exists>r'. row_becomes 99 r' (si_db (site0 [ep0] 200)) (si_db (snd run)) \<and> e_status r' = EP_STOPPED)"
  using stop_endpoint_outcome [OF prod.collapse [symmetric], where x = "site0 [ep0] 200" and i = 99
      and p = "\<lparr>p_user = alice, p_api_key = None\<rparr>" and V = ref_serve and cfg = cfg0 and now = 6]
  by (auto simp: ep_row_def row_get_Cons visible_to_def Let_def) 

theorem reconcile_outcome_witness:
  "si_db (snd (reconcile_vanished_containers ref_serve cfg0 (site0 [ep0] 200))) =
     endpoints_update (map vanished) (si_db (site0 [ep0] 200))"
  using reconcile_outcome [OF ref_runners.runner_host_axioms _ _ prod.collapse [symmetric], where x = "site0 [ep0] 200" and cfg = cfg0]
  by (simp add: ep0_fits missing_def Let_def site0_def)

theorem reconcile_kills_on_api_error_witness:
  "\<exists>x'. reconcile_vanished_containers (ref_serve\<lparr>sv_container := (\<lambda>c h.
        if rs_now h = 0 then (Inl (APIError ''503''), h\<lparr>rs_now := 1\<rparr>) else (Inr c, h))\<rparr>) cfg0
      (site0 [ep0\<lparr>e_status := EP_LIVE, e_container_id := Some ''c''\<rparr>] 200) = (Inr 1, x') \<and> rs_existing (si_host x') = []"
proof -
  let ?V = "ref_serve\<lparr>sv_container := (\<lambda>c h. if rs_now h = 0 then (Inl (APIError ''503''), h\<lparr>rs_now := 1\<rparr>) else (Inr c, h))\<rparr>"
  let ?ep = "ep0\<lparr>e_status := EP_LIVE, e_container_id := Some ''c''\<rparr>"
  have fits: "endpoint_columns_fit ?ep" using ep0_fits by (simp add: endpoint_columns_fit_def)
  have env: "sv_from_env ?V d = (Inr (), d)" for d by (simp add: ref_serve_def returnE_run)
  let ?u = "\<lparr>up_status = 200, up_content_type = None, up_text = ''{}''\<rparr>"
  have 1: "sv_container ?V ''c'' (si_host (site0 [?ep] 200)) =
      (Inl (APIError ''503''), \<lparr>rs_now = 1, rs_existing = [''c''], rs_health = 200, rs_reply = ?u\<rparr>)" by simp
  have 2: "sv_container ?V ''c'' \<lparr>rs_now = 1, rs_existing = [''c''], rs_health = 200, rs_reply = ?u\<rparr> =
      (Inr ''c'', \<lparr>rs_now = 1, rs_existing = [''c''], rs_health = 200, rs_reply = ?u\<rparr>)" by simp
  have 3: "sv_remove ?V ''c'' \<lparr>rs_now = 1, rs_existing = [''c''], rs_health = 200, rs_reply = ?u\<rparr> =
      (Inr (), \<lparr>rs_now = 1, rs_existing = [], rs_health = 200, rs_reply = ?u\<rparr>)" by (simp add: ref_serve_def modifyE_run)
  from reconcile_kills_on_api_error [OF _ _ _ _ fits env 1 2 3, of cfg0] show ?thesis by auto
qed


end
