(* ===== verification/App.thy ===== *)
theory App
  imports Rate_Limit Endpoints
begin

text \<open>
  The application (\<open>api/main.py\<close>): what its lifespan acquires at startup and releases at shutdown, the
  handler of quota errors, the liveness probe, and the scope probes (\<open>api/routers/scope_probe.py\<close>).
  A Redis client is known by its URL; opening one does not connect.
\<close>

record ('r, 's, 'd, 'h) app =
  ap_redis :: "string option"
  ap_script_sha :: "string option"
  ap_queue_redis :: "string option"
  ap_closed :: "string list"
  ap_server :: 'h
  ap_site :: "('r, 's, 'd) site"

definition on_server :: "('h, 'a) handler \<Rightarrow> (('r, 's, 'd, 'h) app, 'a) handler" where
  "on_server m = (\<lambda>a. case m (ap_server a) of (out, h) \<Rightarrow> (out, a\<lparr>ap_server := h\<rparr>))"

definition on_site :: "(('r, 's, 'd) site, 'a) handler \<Rightarrow> (('r, 's, 'd, 'h) app, 'a) handler" where
  "on_site m = (\<lambda>a. case m (ap_site a) of (out, x) \<Rightarrow> (out, a\<lparr>ap_site := x\<rparr>))"

text \<open>\<open>try: m finally: f\<close>.\<close>

definition finallyE :: "('s, 'a) handler \<Rightarrow> ('s, unit) handler \<Rightarrow> ('s, 'a) handler" where
  "finallyE m f = (\<lambda>s. case m s of (out, s') \<Rightarrow> (case f s' of (Inl e, s'') \<Rightarrow> (Inl e, s'') | (Inr _, s'') \<Rightarrow> (out, s'')))"

definition set_redis_client :: "string option \<Rightarrow> (('r, 's, 'd, 'h) app, unit) handler" where
  "set_redis_client client = modifyE (ap_queue_redis_update (\<lambda>_. client))"

text \<open>The client of the queue's dependency is opened on first use.\<close>

definition get_redis :: "settings \<Rightarrow> (('r, 's, 'd, 'h) app, string) handler" where
  "get_redis cfg = (\<lambda>a. case ap_queue_redis a of
     Some client \<Rightarrow> (Inr client, a) | None \<Rightarrow> (Inr (redis_url cfg), a\<lparr>ap_queue_redis := Some (redis_url cfg)\<rparr>))"

definition acquire_redis :: "settings \<Rightarrow> (('r, 's, 'd, 'h) app, bool) handler" where
  "acquire_redis cfg = (\<lambda>a. case ap_redis a of
     Some _ \<Rightarrow> (Inr False, a)
   | None \<Rightarrow> bindE (modifyE (ap_redis_update (\<lambda>_. Some (redis_url cfg)))) (\<lambda>_.
       bindE (set_redis_client (Some (redis_url cfg))) (\<lambda>_. returnE True)) a)"

definition acquire_script :: "'h script_server \<Rightarrow> (('r, 's, 'd, 'h) app, unit) handler" where
  "acquire_script S = (\<lambda>a.
     if ap_script_sha a = None \<or> ap_script_sha a = Some []
     then bindE (on_server (register_script S)) (\<lambda>sha. modifyE (ap_script_sha_update (\<lambda>_. Some sha))) a
     else (Inr (), a))"

definition reconcile_on_startup :: "'d serve_ops \<Rightarrow> settings \<Rightarrow> (('r, 's, 'd, 'h) app, unit) handler" where
  "reconcile_on_startup V cfg = whenE (serving_reconcile_on_startup cfg)
     (catchE (\<lambda>e. e \<noteq> CancelledError) (bindE (on_site (reconcile_vanished_containers V cfg)) (\<lambda>_. returnE ())) (\<lambda>_. returnE ()))"

definition release_redis :: "bool \<Rightarrow> (('r, 's, 'd, 'h) app, unit) handler" where
  "release_redis owned = whenE owned (modifyE (\<lambda>a. a\<lparr>ap_redis := None, ap_script_sha := None, ap_queue_redis := None,
     ap_closed := (case ap_redis a of Some client \<Rightarrow> ap_closed a @ [client] | None \<Rightarrow> ap_closed a)\<rparr>))"

text \<open>\<open>session\<close> is what the application does between startup and shutdown.\<close>

definition lifespan ::
  "'h script_server \<Rightarrow> 'd serve_ops \<Rightarrow> settings \<Rightarrow> (('r, 's, 'd, 'h) app, 'a) handler \<Rightarrow> (('r, 's, 'd, 'h) app, 'a) handler" where
  "lifespan S V cfg session =
     bindE (acquire_redis cfg) (\<lambda>owned.
     bindE (acquire_script S) (\<lambda>_.
     bindE (reconcile_on_startup V cfg) (\<lambda>_.
     finallyE session (release_redis owned))))"

definition quota_exceeded_handler :: "exn \<Rightarrow> (int \<times> json) option" where
  "quota_exceeded_handler e = (case e of
     QuotaExceededError detail quota limit current \<Rightarrow> Some (429, JObj [(''detail'', JStr detail),
       (''quota'', JStr quota), (''limit'', JInt limit), (''current'', JInt current)])
   | _ \<Rightarrow> None)"

definition healthz :: json where
  "healthz = JObj [(''status'', JStr ''ok''), (''service'', JStr ''perzforge'')]"

definition probe_reply :: "principal \<Rightarrow> json" where
  "probe_reply p = JObj [(''status'', JStr ''ok''), (''user_id'', JStr (str_uuid (u_id (p_user p))))]"

definition probe_jobs_read :: "crypto \<Rightarrow> settings \<Rightarrow> bool \<Rightarrow> time \<Rightarrow> credentials \<Rightarrow> (db, json) handler" where
  "probe_jobs_read C cfg touch_ok now creds =
     bindE (require_scopes [''jobs:read''] C cfg touch_ok now creds) (\<lambda>p. returnE (probe_reply p))"

definition probe_jobs_write :: "crypto \<Rightarrow> settings \<Rightarrow> bool \<Rightarrow> time \<Rightarrow> credentials \<Rightarrow> (db, json) handler" where
  "probe_jobs_write C cfg touch_ok now creds =
     bindE (require_scopes [''jobs:write''] C cfg touch_ok now creds) (\<lambda>p. returnE (probe_reply p))"

section \<open>Startup and shutdown\<close>

lemma reconcile_on_startup_run:
  assumes "fst (reconcile_vanished_containers V cfg (ap_site a)) \<noteq> Inl CancelledError"
  obtains x where "reconcile_on_startup V cfg a = (Inr (), a\<lparr>ap_site := x\<rparr>)"
proof (cases "serving_reconcile_on_startup cfg")
  case False
  then show thesis by (intro that [of "ap_site a"]) (simp add: reconcile_on_startup_def whenE_run)
next
  case True
  obtain out x where r: "reconcile_vanished_containers V cfg (ap_site a) = (out, x)" by fastforce
  with assms True show thesis
    by (intro that [of x], cases out) (auto simp: reconcile_on_startup_def on_site_def handler_simps)
qed

text \<open>An application that starts without a client opens one and registers the script; a failing
  reconciliation does not stop it; whatever then happens, its outcome is the lifespan's, and
  the client is closed and forgotten.  Only a script that cannot be registered ends the startup, and
  then the client stays open.\<close>

theorem lifespan_outcome:
  assumes "ap_redis a = None" and "ap_script_sha a = None"
    and "fst (reconcile_vanished_containers V cfg (ap_site a)) \<noteq> Inl CancelledError"
    and session: "keeps ap_redis session" "keeps ap_closed session"
    and run: "lifespan S V cfg session a = (out, a')"
  shows "case so_load S (ap_server a) of
      (Inl e, h) \<Rightarrow> out = Inl e \<and> ap_redis a' = Some (redis_url cfg) \<and> ap_queue_redis a' = Some (redis_url cfg) \<and>
        ap_closed a' = ap_closed a
    | (Inr sha, h) \<Rightarrow> \<exists>x. out = fst (session (a\<lparr>ap_redis := Some (redis_url cfg), ap_script_sha := Some sha,
          ap_queue_redis := Some (redis_url cfg), ap_server := h, ap_site := x\<rparr>)) \<and>
        ap_redis a' = None \<and> ap_script_sha a' = None \<and> ap_queue_redis a' = None \<and>
        ap_closed a' = ap_closed a @ [redis_url cfg]"
proof -
  let ?a1 = "a\<lparr>ap_redis := Some (redis_url cfg), ap_queue_redis := Some (redis_url cfg)\<rparr>"
  have a1: "acquire_redis cfg a = (Inr True, ?a1)"
    using assms(1) by (simp add: acquire_redis_def set_redis_client_def handler_simps)
  obtain o1 h where load: "so_load S (ap_server a) = (o1, h)" by fastforce
  show ?thesis
  proof (cases o1)
    case (Inl e)
    with run a1 load assms(2) show ?thesis
      by (auto simp: lifespan_def bindE_run acquire_script_def on_server_def register_script_def)
  next
    case (Inr sha)
    let ?a2 = "a\<lparr>ap_redis := Some (redis_url cfg), ap_script_sha := Some sha, ap_queue_redis := Some (redis_url cfg),
      ap_server := h\<rparr>"
    have a2: "acquire_script S ?a1 = (Inr (), ?a2)"
      using load Inr assms(2) by (cases a) (simp add: acquire_script_def on_server_def register_script_def handler_simps)
    have "fst (reconcile_vanished_containers V cfg (ap_site ?a2)) \<noteq> Inl CancelledError" using assms(3) by simp
    then obtain x where a3: "reconcile_on_startup V cfg ?a2 = (Inr (), ?a2\<lparr>ap_site := x\<rparr>)"
      by (rule reconcile_on_startup_run)
    obtain o2 a4 where s: "session (?a2\<lparr>ap_site := x\<rparr>) = (o2, a4)" by fastforce
    with keeps_run [OF session(1) s] keeps_run [OF session(2) s] have
      "ap_redis a4 = Some (redis_url cfg)" "ap_closed a4 = ap_closed a" by simp_all
    with run a1 a2 a3 s have "out = o2" "ap_redis a' = None" "ap_script_sha a' = None" "ap_queue_redis a' = None"
      "ap_closed a' = ap_closed a @ [redis_url cfg]"
      by (auto simp: lifespan_def bindE_run finallyE_def release_redis_def handler_simps)
    with s load Inr show ?thesis by (auto intro!: exI [of _ x])
  qed
qed

definition app0 :: "(ref_state, (string \<times> string) list, ref_runners, string \<Rightarrow> bucket) app" where
  "app0 = \<lparr>ap_redis = None, ap_script_sha = None, ap_queue_redis = None, ap_closed = [],
     ap_server = (\<lambda>_. None), ap_site = site0 [] 200\<rparr>"

theorem lifespan_outcome_witness:
  "case lifespan ref_script ref_serve cfg0 (raiseE (OtherException ''boom'') :: (_, unit) handler) app0 of
     (out, a') \<Rightarrow> out = Inl (OtherException ''boom'') \<and> ap_redis a' = None \<and> ap_closed a' = [redis_url cfg0]"
proof -
  let ?session = "raiseE (OtherException ''boom'') :: ((ref_state, (string \<times> string) list, ref_runners, string \<Rightarrow> bucket) app, unit) handler"
  have q: "fst (reconcile_vanished_containers ref_serve cfg0 (ap_site app0)) \<noteq> Inl CancelledError"
    by (simp add: app0_def reconcile_vanished_containers_def on_site_db_def on_db_def handler_simps)
  obtain out a' where run: "lifespan ref_script ref_serve cfg0 ?session app0 = (out, a')" by fastforce
  have "so_load ref_script (ap_server app0) = (Inr ''cafe'', ap_server app0)" by (simp add: ref_script_def returnE_run)
  moreover have "ap_redis app0 = None" "ap_script_sha app0 = None" "ap_closed app0 = []" by (simp_all add: app0_def)
  ultimately show ?thesis
    using lifespan_outcome [OF _ _ q keeps_basic(2) keeps_basic(2) run] by (simp add: run raiseE_run)
qed

end
