(* ===== verification/Api.thy ===== *)
theory Api
  imports Admin Jobs App
begin

text \<open>
  The HTTP interface as a whole: every call the routers of \<open>api/main.py\<close> accept, with its method and
  path, the dependency that guards it, the validation of its parameters, and its handler, over the
  one state all handlers share.  The log stream, a WebSocket, is in \<open>Log_Relay\<close>.
\<close>

section \<open>Calls\<close>

record create_user_request =
  cu_email :: string
  cu_role :: user_role

text \<open>The cookie is an argument of the calls that read it; \<open>predict\<close> takes any JSON object.\<close>

datatype api_call =
    Healthz
  | Login string string
  | Refresh "string option"
  | Logout "string option"
  | Me
  | ChangePassword string string
  | CreateKey create_api_key_request
  | ListKeys
  | RevokeKey uuid
  | CreateUser create_user_request
  | ListUsers int int
  | DisableUser uuid
  | PatchQuota uuid patch_quota_request
  | MyQuota
  | SubmitJob submit_job_request
  | ListJobs "job_status option" int int
  | GetJob uuid
  | CancelJob uuid
  | ListModels int int
  | GetModel uuid
  | DownloadModel uuid
  | DeployModel uuid "string option"
  | DeleteModel uuid
  | ListEndpoints int int
  | StopEndpoint uuid
  | Predict string "(string \<times> json) list"
  | ProbeJobsRead
  | ProbeJobsWrite

definition API :: string where
  "API = ''/api/v1''"

text \<open>The method and the path, with the prefixes of the routers.\<close>

fun request_line :: "api_call \<Rightarrow> string \<times> string" where
  "request_line Healthz = (''GET'', API @ ''/healthz'')"
| "request_line (Login _ _) = (''POST'', API @ ''/auth/login'')"
| "request_line (Refresh _) = (''POST'', API @ ''/auth/refresh'')"
| "request_line (Logout _) = (''POST'', API @ ''/auth/logout'')"
| "request_line Me = (''GET'', API @ ''/auth/me'')"
| "request_line (ChangePassword _ _) = (''POST'', API @ ''/auth/change-password'')"
| "request_line (CreateKey _) = (''POST'', API @ ''/keys'')"
| "request_line ListKeys = (''GET'', API @ ''/keys'')"
| "request_line (RevokeKey i) = (''DELETE'', API @ ''/keys/'' @ str_uuid i)"
| "request_line (CreateUser _) = (''POST'', API @ ''/admin/users'')"
| "request_line (ListUsers _ _) = (''GET'', API @ ''/admin/users'')"
| "request_line (DisableUser i) = (''DELETE'', API @ ''/admin/users/'' @ str_uuid i)"
| "request_line (PatchQuota i _) = (''PATCH'', API @ ''/admin/users/'' @ str_uuid i @ ''/quota'')"
| "request_line MyQuota = (''GET'', API @ ''/me/quota'')"
| "request_line (SubmitJob _) = (''POST'', API @ ''/jobs'')"
| "request_line (ListJobs _ _ _) = (''GET'', API @ ''/jobs'')"
| "request_line (GetJob i) = (''GET'', API @ ''/jobs/'' @ str_uuid i)"
| "request_line (CancelJob i) = (''POST'', API @ ''/jobs/'' @ str_uuid i @ ''/cancel'')"
| "request_line (ListModels _ _) = (''GET'', API @ ''/models'')"
| "request_line (GetModel i) = (''GET'', API @ ''/models/'' @ str_uuid i)"
| "request_line (DownloadModel i) = (''GET'', API @ ''/models/'' @ str_uuid i @ ''/download'')"
| "request_line (DeployModel i _) = (''POST'', API @ ''/models/'' @ str_uuid i @ ''/deploy'')"
| "request_line (DeleteModel i) = (''DELETE'', API @ ''/models/'' @ str_uuid i)"
| "request_line (ListEndpoints _ _) = (''GET'', API @ ''/endpoints'')"
| "request_line (StopEndpoint i) = (''POST'', API @ ''/endpoints/'' @ str_uuid i @ ''/stop'')"
| "request_line (Predict route _) = (''POST'', API @ ''/endpoints/'' @ route @ ''/predict'')"
| "request_line ProbeJobsRead = (''GET'', API @ ''/test/scope-probe/jobs-read'')"
| "request_line ProbeJobsWrite = (''POST'', API @ ''/test/scope-probe/jobs-write'')"

section \<open>Dispatch\<close>

text \<open>
  What a request brings along and draws: its bearer credentials, the clock, whether the touch of an
  API key succeeds, the verdict of the address validator, and the random values and identifiers.
\<close>

record ('r, 's, 'd) api_env =
  en_crypto :: crypto
  en_settings :: settings
  en_redis :: "'r redis_ops"
  en_s3 :: "'s s3_ops"
  en_serve :: "'d serve_ops"
  en_fuel :: nat
  en_now :: time
  en_credentials :: credentials
  en_touch_ok :: bool
  en_email :: "string \<Rightarrow> string option"
  en_draw :: draw
  en_uuid :: uuid
  en_random :: string
  en_salt :: string
  en_dummy_hash :: string

record user_response =
  ur_id :: uuid
  ur_email :: string
  ur_role :: string
  ur_must_change_password :: bool

definition me :: "user \<Rightarrow> user_response" where
  "me u = \<lparr>ur_id = u_id u, ur_email = u_email u, ur_role = user_role_value (u_role u),
     ur_must_change_password = u_must_change_password u\<rparr>"

datatype reply =
    NoContent
  | Document json
  | TokenReply string
  | UserReply user_response
  | KeyCreated api_key_response string
  | KeysReply "api_key_response list"
  | UserCreated admin_user_response string
  | UsersReply admin_user_list_response
  | LimitsReply quota_limits_response
  | QuotaReply quota_limits_response "(string \<times> int \<times> int) list"
  | JobReply job_response
  | JobsReply job_list_response
  | ModelReply model_response
  | ModelsReply "model_response listing"
  | DownloadReply "presigned_file list" int
  | EndpointReply endpoint_response
  | EndpointsReply endpoint_list_response
  | Forwarded int json

definition on_auth :: "(auth_state, 'a) handler \<Rightarrow> (('r, 's, 'd) site, 'a \<times> cookie_action) handler" where
  "on_auth m = (\<lambda>x. case m \<lparr>a_db = si_db x, a_cookie = NoCookie\<rparr> of
     (Inl e, s) \<Rightarrow> (Inl e, x\<lparr>si_world := si_world x\<lparr>w_db := a_db s\<rparr>\<rparr>)
   | (Inr r, s) \<Rightarrow> (Inr (r, a_cookie s), x\<lparr>si_world := si_world x\<lparr>w_db := a_db s\<rparr>\<rparr>))"

definition on_registry :: "(('r, 's) platform, 'a) handler \<Rightarrow> (('r, 's, 'd) site, 'a) handler" where
  "on_registry m = (\<lambda>x. case m \<lparr>pl_world = si_world x, pl_store = si_store x\<rparr> of
     (out, p) \<Rightarrow> (out, x\<lparr>si_world := pl_world p, si_store := pl_store p\<rparr>))"

text \<open>The framework validates the parameters once the dependencies have been resolved.\<close>

definition validated :: "bool \<Rightarrow> ('x, 'a) handler \<Rightarrow> ('x, 'a) handler" where
  "validated ok m = (if ok then m else raiseE (HTTPException 422 ''RequestValidationError''))"

definition plain :: "('x, reply) handler \<Rightarrow> ('x, reply \<times> cookie_action) handler" where
  "plain m = bindE m (\<lambda>r. returnE (r, NoCookie))"

type_synonym ('r, 's, 'd) action = "(('r, 's, 'd) site, reply \<times> cookie_action) handler"

definition as_user :: "('r, 's, 'd) api_env \<Rightarrow> (user \<Rightarrow> (('r, 's, 'd) site, reply) handler) \<Rightarrow> ('r, 's, 'd) action" where
  "as_user E k = bindE (on_site_db (get_current_user (en_crypto E) (en_settings E) (en_now E) (en_credentials E)))
     (\<lambda>u. plain (k u))"

definition as_account :: "('r, 's, 'd) api_env \<Rightarrow> (user \<Rightarrow> (('r, 's, 'd) site, reply) handler) \<Rightarrow> ('r, 's, 'd) action" where
  "as_account E k = bindE (on_site_db (get_authenticated_user (en_crypto E) (en_settings E) (en_now E) (en_credentials E)))
     (\<lambda>u. plain (k u))"

definition as_admin :: "('r, 's, 'd) api_env \<Rightarrow> (user \<Rightarrow> (('r, 's, 'd) site, reply) handler) \<Rightarrow> ('r, 's, 'd) action" where
  "as_admin E k = bindE (on_site_db (get_current_admin (en_crypto E) (en_settings E) (en_now E) (en_credentials E)))
     (\<lambda>a. plain (k a))"

definition with_scope :: "string \<Rightarrow> ('r, 's, 'd) api_env \<Rightarrow> (principal \<Rightarrow> (('r, 's, 'd) site, reply) handler) \<Rightarrow> ('r, 's, 'd) action" where
  "with_scope scope E k = bindE (on_site_db (require_scopes [scope] (en_crypto E) (en_settings E) (en_touch_ok E)
     (en_now E) (en_credentials E))) (\<lambda>p. plain (k p))"

text \<open>Each route: its dependency, the validation of its parameters, its handler, its response.\<close>

fun dispatch :: "('r, 's, 'd) api_env \<Rightarrow> api_call \<Rightarrow> ('r, 's, 'd) action" where
  "dispatch E Healthz = plain (returnE (Document healthz))"
| "dispatch E (Login email password) = (case en_email E email of
     None \<Rightarrow> validated False (plain (returnE NoContent))
   | Some address \<Rightarrow> bindE (on_auth (login (en_crypto E) (en_settings E) (en_dummy_hash E) (en_now E) (en_draw E) address password))
       (\<lambda>(token, cookie). returnE (TokenReply token, cookie)))"
| "dispatch E (Refresh cookie) =
     bindE (on_auth (refresh_session (en_crypto E) (en_settings E) (en_now E) (en_draw E) cookie))
       (\<lambda>(token, cookie'). returnE (TokenReply token, cookie'))"
| "dispatch E (Logout cookie) =
     bindE (on_auth (logout (en_crypto E) (en_settings E) cookie)) (\<lambda>(_, cookie'). returnE (NoContent, cookie'))"
| "dispatch E Me = as_user E (\<lambda>u. returnE (UserReply (me u)))"
| "dispatch E (ChangePassword old_password new_password) = as_account E (\<lambda>u. validated (12 \<le> length new_password)
     (bindE (on_auth (change_password (en_crypto E) (en_salt E) u old_password new_password)) (\<lambda>_. returnE NoContent)))"
| "dispatch E (CreateKey body) = as_user E (\<lambda>u. validated (\<not> isl (validate_create_api_key body))
     (bindE (on_site_db (create_api_key (en_crypto E) (en_random E) (en_uuid E) (en_now E) u body))
       (\<lambda>(k, plaintext). returnE (KeyCreated k plaintext))))"
| "dispatch E ListKeys = as_user E (\<lambda>u. bindE (on_site_db (list_api_keys u)) (\<lambda>ks. returnE (KeysReply ks)))"
| "dispatch E (RevokeKey key_id) = as_user E (\<lambda>u. bindE (on_site_db (revoke_api_key u key_id)) (\<lambda>_. returnE NoContent))"
| "dispatch E (CreateUser body) = as_admin E (\<lambda>a. case en_email E (cu_email body) of
     None \<Rightarrow> validated False (returnE NoContent)
   | Some address \<Rightarrow>
       bindE (on_site_db (create_user (en_crypto E) (en_salt E) (en_random E) (en_uuid E) (en_now E) address (cu_role body)))
         (\<lambda>(u, temporary). returnE (UserCreated u temporary)))"
| "dispatch E (ListUsers limit offset) = as_admin E (\<lambda>a. validated (valid_page limit offset)
     (bindE (on_site_db (list_users limit offset)) (\<lambda>us. returnE (UsersReply us))))"
| "dispatch E (DisableUser user_id) = as_admin E (\<lambda>a.
     bindE (on_site_db (disable_user a user_id)) (\<lambda>_. returnE NoContent))"
| "dispatch E (PatchQuota user_id body) = as_admin E (\<lambda>a. validated (\<not> isl (validate_patch_quota body))
     (bindE (on_site_db (patch_user_quota (en_settings E) user_id body)) (\<lambda>l. returnE (LimitsReply l))))"
| "dispatch E MyQuota = as_user E (\<lambda>u.
     bindE (on_site_world (get_my_quota (en_redis E) (en_settings E) (en_now E) u)) (\<lambda>(l, usage). returnE (QuotaReply l usage)))"
| "dispatch E (SubmitJob body) = with_scope ''jobs:write'' E (\<lambda>p. validated (\<not> isl (validate_submit_job (en_settings E) body))
     (bindE (on_site_world (submit_job (en_redis E) (en_settings E) (en_now E) (en_uuid E) body p)) (\<lambda>j. returnE (JobReply j))))"
| "dispatch E (ListJobs st limit offset) = with_scope ''jobs:read'' E (\<lambda>p. validated (valid_page limit offset)
     (bindE (on_site_db (list_jobs (en_settings E) st limit offset p)) (\<lambda>js. returnE (JobsReply js))))"
| "dispatch E (GetJob i) = with_scope ''jobs:read'' E (\<lambda>p.
     bindE (on_site_db (get_job (en_settings E) i p)) (\<lambda>j. returnE (JobReply j)))"
| "dispatch E (CancelJob i) = with_scope ''jobs:write'' E (\<lambda>p.
     bindE (on_site_world (cancel_job (en_redis E) (en_settings E) (en_now E) i p)) (\<lambda>j. returnE (JobReply j)))"
| "dispatch E (ListModels limit offset) = with_scope ''models:read'' E (\<lambda>p. validated (valid_page limit offset)
     (bindE (on_site_db (list_models p limit offset)) (\<lambda>ms. returnE (ModelsReply ms))))"
| "dispatch E (GetModel i) = with_scope ''models:read'' E (\<lambda>p.
     bindE (on_site_db (get_model i p)) (\<lambda>m. returnE (ModelReply m)))"
| "dispatch E (DownloadModel i) = with_scope ''models:read'' E (\<lambda>p.
     bindE (on_registry (download_model (en_s3 E) i p)) (\<lambda>(files, expires_in). returnE (DownloadReply files expires_in)))"
| "dispatch E (DeployModel i name) = with_scope ''models:read'' E (\<lambda>p. validated (validate_deploy name)
     (bindE (deploy_model (en_redis E) (en_serve E) (en_s3 E) (en_settings E) (en_fuel E) (en_now E) i (en_uuid E) name p)
       (\<lambda>e. returnE (EndpointReply e))))"
| "dispatch E (DeleteModel i) = with_scope ''models:read'' E (\<lambda>p.
     bindE (on_registry (delete_model (en_redis E) (en_s3 E) (en_now E) i p)) (\<lambda>_. returnE NoContent))"
| "dispatch E (ListEndpoints limit offset) = with_scope ''models:read'' E (\<lambda>p. validated (valid_page limit offset)
     (bindE (on_site_db (list_endpoints p limit offset)) (\<lambda>es. returnE (EndpointsReply es))))"
| "dispatch E (StopEndpoint i) = with_scope ''models:read'' E (\<lambda>p.
     bindE (stop_endpoint (en_serve E) (en_settings E) (en_now E) i p) (\<lambda>e. returnE (EndpointReply e)))"
| "dispatch E (Predict route body) = with_scope ''llm:invoke'' E (\<lambda>p.
     bindE (predict (en_serve E) (en_settings E) route body p) (\<lambda>(code, content). returnE (Forwarded code content)))"
| "dispatch E ProbeJobsRead = with_scope ''jobs:read'' E (\<lambda>p. returnE (Document (probe_reply p)))"
| "dispatch E ProbeJobsWrite = with_scope ''jobs:write'' E (\<lambda>p. returnE (Document (probe_reply p)))"

section \<open>Responses\<close>

fun success_status :: "api_call \<Rightarrow> int" where
  "success_status (CreateKey _) = 201"
| "success_status (CreateUser _) = 201"
| "success_status (SubmitJob _) = 201"
| "success_status (DeployModel _ _) = 201"
| "success_status (Logout _) = 204"
| "success_status (ChangePassword _ _) = 204"
| "success_status (RevokeKey _) = 204"
| "success_status (DisableUser _) = 204"
| "success_status (DeleteModel _) = 204"
| "success_status _ = 200"

text \<open>
  The exception handlers answer an HTTPException and an exceeded quota; any other exception leaves
  the application and becomes a 500 outside of the middleware.
\<close>

definition answer :: "int \<Rightarrow> string \<Rightarrow> response" where
  "answer code detail = \<lparr>rp_status = code, rp_detail = detail, rp_headers = (\<lambda>_. None)\<rparr>"

definition handle_exception :: "exn \<Rightarrow> exn + response" where
  "handle_exception e = (case e of
     HTTPException code detail \<Rightarrow> Inr (answer code detail)
   | QuotaExceededError detail _ _ _ \<Rightarrow> Inr (answer 429 detail)
   | _ \<Rightarrow> Inl e)"

definition render :: "api_call \<Rightarrow> reply \<Rightarrow> response" where
  "render call r = (case r of Forwarded code _ \<Rightarrow> answer code [] | _ \<Rightarrow> answer (success_status call) [])"

definition call_route :: "('r, 's, 'd) api_env \<Rightarrow> api_call \<Rightarrow> ('h \<times> ('r, 's, 'd) site, response) handler" where
  "call_route E call = (\<lambda>(h, x). case dispatch E call x of
     (Inl e, x') \<Rightarrow> (handle_exception e, (h, x')) | (Inr (r, _), x') \<Rightarrow> (Inr (render call r), (h, x')))"

text \<open>A request from the socket to the response.  The state of the rate limiter's script is a part of
  Redis that nothing else reads.\<close>

definition serve_call ::
  "'h script_server option \<Rightarrow> string option \<Rightarrow> (string \<Rightarrow> string option) \<Rightarrow> string option \<Rightarrow> ('r, 's, 'd) api_env \<Rightarrow> api_call \<Rightarrow>
   'h \<times> ('r, 's, 'd) site \<Rightarrow> response \<times> 'h \<times> ('r, 's, 'd) site" where
  "serve_call redis sha headers client E call y =
     (case rate_limit_middleware redis sha (en_crypto E) (en_settings E) (en_now E)
       \<lparr>rq_method = fst (request_line call), rq_path = snd (request_line call), rq_headers = headers, rq_client = client\<rparr>
       (call_route E call) y of
        (Inl _, y') \<Rightarrow> (answer 500 ''Internal Server Error'', y') | (Inr resp, y') \<Rightarrow> (resp, y'))"

section \<open>Guards\<close>

text \<open>The dependency in the signature of each route.\<close>

datatype guard = Public | CurrentUser | AuthenticatedUser | CurrentAdmin | Scopes "string list"

fun guard_of :: "api_call \<Rightarrow> guard" where
  "guard_of Healthz = Public"
| "guard_of (Login _ _) = Public"
| "guard_of (Refresh _) = Public"
| "guard_of (Logout _) = Public"
| "guard_of Me = CurrentUser"
| "guard_of (ChangePassword _ _) = AuthenticatedUser"
| "guard_of (CreateKey _) = CurrentUser"
| "guard_of ListKeys = CurrentUser"
| "guard_of (RevokeKey _) = CurrentUser"
| "guard_of (CreateUser _) = CurrentAdmin"
| "guard_of (ListUsers _ _) = CurrentAdmin"
| "guard_of (DisableUser _) = CurrentAdmin"
| "guard_of (PatchQuota _ _) = CurrentAdmin"
| "guard_of MyQuota = CurrentUser"
| "guard_of (SubmitJob _) = Scopes [''jobs:write'']"
| "guard_of (ListJobs _ _ _) = Scopes [''jobs:read'']"
| "guard_of (GetJob _) = Scopes [''jobs:read'']"
| "guard_of (CancelJob _) = Scopes [''jobs:write'']"
| "guard_of (ListModels _ _) = Scopes [''models:read'']"
| "guard_of (GetModel _) = Scopes [''models:read'']"
| "guard_of (DownloadModel _) = Scopes [''models:read'']"
| "guard_of (DeployModel _ _) = Scopes [''models:read'']"
| "guard_of (DeleteModel _) = Scopes [''models:read'']"
| "guard_of (ListEndpoints _ _) = Scopes [''models:read'']"
| "guard_of (StopEndpoint _) = Scopes [''models:read'']"
| "guard_of (Predict _ _) = Scopes [''llm:invoke'']"
| "guard_of ProbeJobsRead = Scopes [''jobs:read'']"
| "guard_of ProbeJobsWrite = Scopes [''jobs:write'']"


text \<open>The principal a guard resolves; a session user is a principal without a key.\<close>

definition session_principal :: "user \<Rightarrow> principal" where
  "session_principal u = \<lparr>p_user = u, p_api_key = None\<rparr>"

fun authorise :: "('r, 's, 'd) api_env \<Rightarrow> guard \<Rightarrow> (db, principal) handler" where
  "authorise E Public = raiseE NOT_AUTHENTICATED"
| "authorise E CurrentUser = bindE (get_current_user (en_crypto E) (en_settings E) (en_now E) (en_credentials E))
     (\<lambda>u. returnE (session_principal u))"
| "authorise E AuthenticatedUser = bindE (get_authenticated_user (en_crypto E) (en_settings E) (en_now E) (en_credentials E))
     (\<lambda>u. returnE (session_principal u))"
| "authorise E CurrentAdmin = bindE (get_current_admin (en_crypto E) (en_settings E) (en_now E) (en_credentials E))
     (\<lambda>u. returnE (session_principal u))"
| "authorise E (Scopes ss) = require_scopes ss (en_crypto E) (en_settings E) (en_touch_ok E) (en_now E) (en_credentials E)"

lemma on_site_db_run [handler_simps]:
  "on_site_db m x = (fst (m (si_db x)), x\<lparr>si_world := si_world x\<lparr>w_db := snd (m (si_db x))\<rparr>\<rparr>)"
  by (simp add: on_site_db_def on_site_world_run Redis_Client.on_db_def split: prod.split)

lemma session_guard:
  "bindE (on_site_db m) k = bindE (on_site_db (bindE m (\<lambda>u. returnE (session_principal u)))) (\<lambda>p. k (p_user p))"
  by (rule ext) (simp add: handler_simps session_principal_def split: prod.split sum.split)

text \<open>Every route that is not public does nothing before its guard has resolved a principal.\<close>

lemma dispatch_guarded:
  assumes "guard_of call \<noteq> Public"
  obtains k where "dispatch E call = bindE (on_site_db (authorise E (guard_of call))) (\<lambda>p. plain (k p))"
  using assms
  by (cases call) (auto simp: as_user_def as_account_def as_admin_def with_scope_def session_guard)

text \<open>What the credentials of a request prove, and what a guard asks of the principal.\<close>

definition credentials_of :: "('r, 's, 'd) api_env \<Rightarrow> db \<Rightarrow> principal \<Rightarrow> bool" where
  "credentials_of E d p \<longleftrightarrow> (\<exists>scheme token. en_credentials E = Some (scheme, token) \<and> py_lower scheme = ''bearer'' \<and>
     p_user p \<in> set (users d) \<and> \<not> u_disabled (p_user p) \<and>
     (case p_api_key p of
        Some k \<Rightarrow> is_api_key_token token \<and> live_key (en_crypto E) d (en_now E) token k \<and> k_user_id k = u_id (p_user p)
      | None \<Rightarrow> \<not> is_api_key_token token \<and> (\<exists>payload sub.
          decode_access_token (en_crypto E) (en_settings E) (en_now E) token = Some payload \<and>
          jwt_sub payload = Some sub \<and> parse_uuid sub = Inr (u_id (p_user p)))))"

fun meets :: "guard \<Rightarrow> principal \<Rightarrow> bool" where
  "meets Public p \<longleftrightarrow> True"
| "meets AuthenticatedUser p \<longleftrightarrow> p_api_key p = None"
| "meets CurrentUser p \<longleftrightarrow> p_api_key p = None \<and> \<not> u_must_change_password (p_user p)"
| "meets CurrentAdmin p \<longleftrightarrow> p_api_key p = None \<and> \<not> u_must_change_password (p_user p) \<and> u_role (p_user p) = RoleAdmin"
| "meets (Scopes ss) p \<longleftrightarrow> \<not> u_must_change_password (p_user p) \<and> set ss \<subseteq> set (principal_scopes p)"

lemma session_credentials:
  assumes "get_authenticated_user (en_crypto E) (en_settings E) (en_now E) (en_credentials E) d = (Inr u, d')"
  shows "credentials_of E d (session_principal u)"
  using assms authenticate_jwt_Inr
  by (fastforce simp: get_authenticated_user_def handler_simps credentials_of_def session_principal_def
      split: prod.splits sum.splits if_splits option.splits)

lemma current_user_credentials:
  assumes "get_current_user (en_crypto E) (en_settings E) (en_now E) (en_credentials E) d = (Inr u, d')"
  shows "credentials_of E d (session_principal u) \<and> \<not> u_must_change_password u"
proof -
  from assms obtain d1 where "get_authenticated_user (en_crypto E) (en_settings E) (en_now E) (en_credentials E) d = (Inr u, d1)"
    and "\<not> u_must_change_password u"
    by (auto simp: get_current_user_def handler_simps deps_defs split: prod.splits sum.splits if_splits)
  with session_credentials show ?thesis by blast
qed

lemma resolved_credentials:
  assumes "resolve_principal_from_token (en_crypto E) (en_settings E) t (en_now E) token d = (Inr p, d')"
    and "en_credentials E = Some (scheme, token)" and "py_lower scheme = ''bearer''"
  shows "credentials_of E d p \<and> \<not> u_must_change_password (p_user p)"
proof -
  from assms(1) obtain d1 where "\<not> u_must_change_password (p_user p)" and
    "(if is_api_key_token token then authenticate_api_key (en_crypto E) t (en_now E) token
      else authenticate_jwt (en_crypto E) (en_settings E) (en_now E) token) d = (Inr p, d1)"
    by (auto simp: resolve_principal_from_token_def handler_simps deps_defs split: prod.splits sum.splits if_splits)
  with assms(2,3) show ?thesis
    using authenticate_api_key_Inr [of "en_crypto E" t "en_now E" token d p d1]
      authenticate_jwt_Inr [of "en_crypto E" "en_settings E" "en_now E" token d p d1]
    by (auto simp: credentials_of_def dest!: row_get_Some split: if_splits)
qed

lemma authorise_sound:
  assumes "authorise E g d = (Inr p, d')"
  shows "credentials_of E d p \<and> meets g p"
  using assms
proof (cases g)
  case CurrentAdmin
  with assms obtain u d1 where "get_current_user (en_crypto E) (en_settings E) (en_now E) (en_credentials E) d = (Inr u, d1)"
    "p = session_principal u" "u_role u = RoleAdmin"
    by (auto simp: get_current_admin_def handler_simps split: prod.splits sum.splits if_splits)
  with current_user_credentials CurrentAdmin show ?thesis by (auto simp: session_principal_def)
next
  case (Scopes ss)
  with assms obtain scheme token d1 where "en_credentials E = Some (scheme, token)" "py_lower scheme = ''bearer''"
    "resolve_principal_from_token (en_crypto E) (en_settings E) (en_touch_ok E) (en_now E) token d = (Inr p, d1)"
    "filter (\<lambda>s. s \<notin> set (principal_scopes p)) ss = []"
    by (auto simp: require_scopes_def get_current_principal_def handler_simps split: prod.splits sum.splits if_splits option.splits)
  with resolved_credentials Scopes show ?thesis by (fastforce simp: filter_empty_conv)
qed (use current_user_credentials session_credentials in
  \<open>fastforce simp: handler_simps session_principal_def split: prod.splits sum.splits\<close>)+

text \<open>All a guard writes is the time an API key was last used; it refuses with 401 or 403.\<close>

definition forget_touches :: "db \<Rightarrow> db" where
  "forget_touches = api_keys_update (map (\<lambda>k. k\<lparr>k_last_used_at := None\<rparr>))"

lemma touch_forgotten: "keeps forget_touches (touch_api_key_last_used ok now i)"
  by (simp add: keeps_def touch_api_key_last_used_def forget_touches_def handler_simps rows_update_def comp_def if_distrib cong: if_cong)

lemma jwt_keeps: "keeps f (authenticate_jwt C cfg now token)"
  by (simp add: keeps_def authenticate_jwt_frame)

lemma authorise_forgotten: "keeps forget_touches (authorise E g)"
proof -
  have key: "keeps forget_touches (authenticate_api_key C ok now token)" for C ok now token
    unfolding authenticate_api_key_def reject_disabled_user_def by (intro keeps_intros touch_forgotten)
  have "keeps forget_touches (require_scopes ss C cfg ok now creds)" for ss C cfg ok now creds
    unfolding require_scopes_def get_current_principal_def resolve_principal_from_token_def reject_password_change_required_def
    by (intro keeps_intros jwt_keeps key)
  moreover have u: "keeps forget_touches (get_authenticated_user C cfg now creds)" for C cfg now creds
    unfolding get_authenticated_user_def by (intro keeps_intros jwt_keeps)
  ultimately show ?thesis
    by (cases g) (auto simp: get_current_admin_def get_current_user_def reject_password_change_required_def intro!: keeps_intros u)
qed

definition refusal :: "exn \<Rightarrow> bool" where
  "refusal e \<longleftrightarrow> (\<exists>code detail. e = HTTPException code detail \<and> code \<in> {401, 403})"

lemma refusals [simp]:
  "refusal INVALID_API_KEY" "refusal INVALID_TOKEN" "refusal NOT_AUTHENTICATED" "refusal ACCOUNT_DISABLED"
  "refusal PASSWORD_CHANGE_REQUIRED" "refusal (HTTPException 403 m)"
  by (simp_all add: refusal_def INVALID_API_KEY_def INVALID_TOKEN_def NOT_AUTHENTICATED_def ACCOUNT_DISABLED_def
      PASSWORD_CHANGE_REQUIRED_def)

lemma reject_refuses: "reject_disabled_user u d = (Inl e, d') \<Longrightarrow> refusal e"
    "reject_password_change_required u d = (Inl e, d') \<Longrightarrow> refusal e"
  by (auto simp: reject_disabled_user_def reject_password_change_required_def handler_simps split: if_splits)

lemma jwt_refuses:
  assumes "authenticate_jwt C cfg now token d = (Inl e, d')" and "distinct (map u_id (users d))"
  shows "refusal e"
  using assms by (auto simp: authenticate_jwt_def handler_simps dest: reject_refuses split: option.splits sum.splits if_splits prod.splits)

lemma key_refuses:
  assumes "authenticate_api_key C ok now token d = (Inl e, d')" and "distinct (map k_key_hash (api_keys d))"
  shows "refusal e"
  using assms by (auto simp: authenticate_api_key_run split: option.splits if_splits)

lemma account_refuses:
  assumes "get_authenticated_user C cfg now creds d = (Inl e, d')" and "distinct (map u_id (users d))"
  shows "refusal e"
  using assms by (auto simp: get_authenticated_user_def handler_simps dest: jwt_refuses split: option.splits if_splits prod.splits sum.splits)

lemma user_refuses:
  assumes "get_current_user C cfg now creds d = (Inl e, d')" and "distinct (map u_id (users d))"
  shows "refusal e"
  using assms by (auto simp: get_current_user_def handler_simps dest: account_refuses reject_refuses split: prod.splits sum.splits)

lemma token_refuses:
  assumes "resolve_principal_from_token C cfg ok now token d = (Inl e, d')"
    and "distinct (map u_id (users d))" and "distinct (map k_key_hash (api_keys d))"
  shows "refusal e"
  using assms
  by (auto simp: resolve_principal_from_token_def handler_simps dest: jwt_refuses key_refuses reject_refuses
      split: prod.splits sum.splits if_splits)

lemma authorise_refuses:
  assumes "authorise E g d = (Inl e, d')" and "distinct (map u_id (users d))" and "distinct (map k_key_hash (api_keys d))"
  shows "refusal e"
  using assms
  by (cases g) (auto simp: get_current_admin_def require_scopes_def get_current_principal_def handler_simps
      dest: account_refuses user_refuses token_refuses split: prod.splits sum.splits if_splits option.splits)

section \<open>No effect without a grant\<close>

text \<open>C2: A call of a route that is not public reaches its handler only when its credentials prove a
  principal that meets the guard of the route: a live API key or a signed, unexpired token of an
  existing, enabled user, with the scope or the role the route asks for.  Otherwise it is answered
  with 401 or 403 and nothing has changed anywhere, but for the time an API key was last used.\<close>

theorem calls_are_guarded:
  assumes "guard_of call \<noteq> Public" and run: "dispatch E call x = (out, x')"
    and "distinct (map u_id (users (si_db x)))" and "distinct (map k_key_hash (api_keys (si_db x)))"
  shows "(\<exists>p. credentials_of E (si_db x) p \<and> meets (guard_of call) p) \<or>
    (\<exists>e. out = Inl e \<and> refusal e) \<and> forget_touches (si_db x') = forget_touches (si_db x) \<and>
      x' = x\<lparr>si_world := si_world x\<lparr>w_db := si_db x'\<rparr>\<rparr>"
proof -
  obtain k where k: "dispatch E call = bindE (on_site_db (authorise E (guard_of call))) (\<lambda>p. plain (k p))"
    using dispatch_guarded [OF assms(1)] .
  obtain r d where g: "authorise E (guard_of call) (si_db x) = (r, d)" by fastforce
  show ?thesis
  proof (cases r)
    case (Inl e)
    with run k g have "out = Inl e" "x' = x\<lparr>si_world := si_world x\<lparr>w_db := d\<rparr>\<rparr>" by (simp_all add: bindE_run on_site_db_run)
    moreover have "refusal e" using authorise_refuses g Inl assms(3,4) by blast
    moreover have "forget_touches d = forget_touches (si_db x)" using keeps_run [OF authorise_forgotten g] .
    ultimately show ?thesis by simp
  next
    case (Inr p)
    with g authorise_sound show ?thesis by blast
  qed
qed

definition request0 :: "credentials \<Rightarrow> (ref_state, (string \<times> string) list, ref_runners) api_env" where
  "request0 creds = \<lparr>en_crypto = ref_crypto, en_settings = cfg0, en_redis = ref_redis, en_s3 = ref_s3, en_serve = ref_serve,
     en_fuel = 9, en_now = 5, en_credentials = creds, en_touch_ok = True, en_email = Some,
     en_draw = \<lparr>d_token = ''t'', d_row_id = 80, d_family = 81\<rparr>, en_uuid = 77, en_random = ''r'',
     en_salt = ''n'', en_dummy_hash = []\<rparr>"

lemma request0_simps [simp]: "en_crypto (request0 c) = ref_crypto" "en_settings (request0 c) = cfg0" "en_credentials (request0 c) = c"
  "en_now (request0 c) = 5" "en_touch_ok (request0 c) = True" "en_uuid (request0 c) = 77"
  by (simp_all add: request0_def)

text \<open>Without credentials a job is not shown; the site stays as it is.\<close>

theorem calls_are_guarded_witness:
  "isl (fst (dispatch (request0 None) (GetJob 77) (site0 [ep0] 200))) \<and>
   forget_touches (si_db (snd (dispatch (request0 None) (GetJob 77) (site0 [ep0] 200)))) = forget_touches (si_db (site0 [ep0] 200))"
proof -
  have k: "users (si_db (site0 [ep0] 200)) = [alice, root]" "api_keys (si_db (site0 [ep0] 200)) = [alice_key]"
    by (simp_all add: site0_def)
  have "\<not> credentials_of (request0 None) d p" for d p by (simp add: credentials_of_def)
  then show ?thesis
    using calls_are_guarded [OF _ prod.collapse [symmetric], of "GetJob 77" "site0 [ep0] 200" "request0 None"]
    by (auto simp: k)
qed

section \<open>Rate limits of the calls\<close>

lemma rstrip_by_last: "s \<noteq> [] \<Longrightarrow> \<not> p (last s) \<Longrightarrow> rstrip_by p s = s"
  by (cases s rule: rev_cases) (simp_all add: rstrip_by_def)

lemma normalize_path_id: "s \<noteq> [] \<Longrightarrow> last s \<noteq> CHR ''/'' \<Longrightarrow> normalize_path s = s"
  by (simp add: normalize_path_def rstrip_by_last Let_def)

lemma str_uuid_last [simp]: "last (str_uuid i) \<noteq> CHR ''/''" "str_uuid i \<noteq> []"
proof -
  show ne: "str_uuid i \<noteq> []" by (simp add: str_uuid_def Let_def)
  show "last (str_uuid i) \<noteq> CHR ''/''" using set_str_uuid [of i] last_in_set [OF ne] by auto
qed

lemma request_path_normal: "normalize_path (snd (request_line call)) = snd (request_line call)"
  by (rule normalize_path_id; cases call) (simp_all add: API_def)

lemma py_upper_method: "py_upper (fst (request_line call)) = fst (request_line call)"
  by (cases call) (simp_all add: py_upper_def upper_char_def Let_def)

text \<open>Login and refresh have the policy of authentication, which counts by address; submitting a job has
  its own; every other call, predictions included, has the default one; only the liveness probe is
  exempt.\<close>

theorem policies_of_calls:
  "resolve_policy cfg (fst (request_line call)) (snd (request_line call)) =
     (case call of Login _ _ \<Rightarrow> auth_policy cfg | Refresh _ \<Rightarrow> auth_policy cfg
      | SubmitJob _ \<Rightarrow> jobs_write_policy cfg | _ \<Rightarrow> default_policy cfg) \<and>
   (is_exempt_path (snd (request_line call)) \<longleftrightarrow> call = Healthz)"
proof
  show "is_exempt_path (snd (request_line call)) \<longleftrightarrow> call = Healthz"
    unfolding is_exempt_path_def request_path_normal by (cases call) (simp_all add: API_def)
  show "resolve_policy cfg (fst (request_line call)) (snd (request_line call)) =
     (case call of Login _ _ \<Rightarrow> auth_policy cfg | Refresh _ \<Rightarrow> auth_policy cfg
      | SubmitJob _ \<Rightarrow> jobs_write_policy cfg | _ \<Rightarrow> default_policy cfg)"
    unfolding resolve_policy_def request_path_normal py_upper_method
    by (cases call) (simp_all add: API_def ROUTE_RULES_def startswith_def Let_def)
qed

end
