(* ===== verification/Isolation.thy ===== *)
theory Isolation
  imports Api
begin

text \<open>
  Tenants do not reach each other's rows: what any guarded call may change in the database, by the
  user its credentials prove.  A handler is followed under a condition on the rows it holds.
\<close>

named_theorems guards_intros \<open>what a handler leaves unchanged under a condition it keeps\<close>

section \<open>Frames under a condition\<close>

definition guards :: "('s \<Rightarrow> bool) \<Rightarrow> ('s \<Rightarrow> 'v) \<Rightarrow> ('s, 'a) handler \<Rightarrow> bool" where
  "guards I f m \<longleftrightarrow> (\<forall>s. I s \<longrightarrow> I (snd (m s)) \<and> f (snd (m s)) = f s)"

lemma guards_run: "guards I f m \<Longrightarrow> I s \<Longrightarrow> m s = (out, s') \<Longrightarrow> I s' \<and> f s' = f s"
  by (metis guards_def snd_conv)

lemma guards_basic [guards_intros]:
  "guards I f (returnE a)" "guards I f (Pair r)" "guards I f (raiseE e)" "guards I f (liftE g)" "guards I f (getsE h)"
  by (simp_all add: guards_def handler_simps)

lemma guards_bindE_result:
  assumes "guards I f m" and "\<And>a s s'. m s = (Inr a, s') \<Longrightarrow> I s \<Longrightarrow> guards I f (k a)"
  shows "guards I f (bindE m k)"
  unfolding guards_def
proof (intro allI impI)
  fix s assume s: "I s"
  obtain out s' where r: "m s = (out, s')" by fastforce
  with assms(1) s have s': "I s' \<and> f s' = f s" by (intro guards_run)
  show "I (snd (bindE m k s)) \<and> f (snd (bindE m k s)) = f s"
  proof (cases out)
    case (Inl e)
    with r s' show ?thesis by (simp add: bindE_run)
  next
    case (Inr a)
    with r s s' assms(2) [of s a s'] show ?thesis by (simp add: bindE_run guards_def)
  qed
qed

lemma guards_bindE [guards_intros]: "guards I f m \<Longrightarrow> (\<And>a. guards I f (k a)) \<Longrightarrow> guards I f (bindE m k)"
  by (rule guards_bindE_result)

lemma guards_try [guards_intros]:
  assumes "guards I f m" and "\<And>e. guards I f (h e)" and "\<And>a. guards I f (k a)"
  shows "guards I f (\<lambda>s. case m s of (Inl e, s') \<Rightarrow> h e s' | (Inr a, s') \<Rightarrow> k a s')"
  unfolding guards_def
proof (intro allI impI)
  fix s assume "I s"
  obtain out s' where r: "m s = (out, s')" by fastforce
  with assms(1) \<open>I s\<close> have "I s' \<and> f s' = f s" by (intro guards_run)
  with r assms(2,3) show "I (snd (case m s of (Inl e, s') \<Rightarrow> h e s' | (Inr a, s') \<Rightarrow> k a s')) \<and>
      f (snd (case m s of (Inl e, s') \<Rightarrow> h e s' | (Inr a, s') \<Rightarrow> k a s')) = f s"
    by (cases out) (simp_all add: guards_def)
qed

lemma guards_catchE [guards_intros]:
  assumes "guards I f m" and "\<And>e. guards I f (h e)"
  shows "guards I f (catchE p m h)"
proof -
  have "catchE p m h = (\<lambda>s. case m s of (Inl e, s') \<Rightarrow> (if p e then h e else raiseE e) s' | (Inr a, s') \<Rightarrow> returnE a s')"
    by (rule ext) (simp add: catchE_run handler_simps split: prod.split sum.split)
  moreover have "guards I f (if p e then h e else raiseE e)" for e using assms(2) guards_basic(3) by auto
  ultimately show ?thesis by (simp only:) (rule guards_try [OF assms(1) _ guards_basic(1)])
qed

lemma guards_if [guards_intros]: "guards I f m \<Longrightarrow> guards I f m' \<Longrightarrow> guards I f (if b then m else m')"
  by simp

lemma guards_whenE [guards_intros]: "guards I f m \<Longrightarrow> guards I f (whenE b m)"
  by (simp add: guards_def whenE_run)

lemma guards_option [guards_intros]:
  "guards I f m \<Longrightarrow> (\<And>a. guards I f (k a)) \<Longrightarrow> guards I f (case x of None \<Rightarrow> m | Some a \<Rightarrow> k a)"
  by (simp split: option.split)

lemma guards_prod [guards_intros]: "(\<And>a b. guards I f (k a b)) \<Longrightarrow> guards I f (case x of (a, b) \<Rightarrow> k a b)"
  by (simp split: prod.split)

lemma guards_modifyE: "(\<And>s. I s \<Longrightarrow> I (g s) \<and> f (g s) = f s) \<Longrightarrow> guards I f (modifyE g)"
  by (simp add: guards_def modifyE_run)

lemma guards_keeps: "keeps (\<lambda>s. (I s, f s)) m \<Longrightarrow> guards I f m"
  by (simp add: guards_def keeps_def)

text \<open>The layers of the state.\<close>

lemma guards_on_db: "guards I f m \<Longrightarrow> guards (\<lambda>w. I (w_db w)) (\<lambda>w. f (w_db w)) (Redis_Client.on_db m)"
  by (simp add: guards_def Redis_Client.on_db_def split: prod.split) (metis snd_conv)

lemma guards_on_redis [guards_intros]: "guards (\<lambda>w. I (w_db w)) (\<lambda>w. f (w_db w)) (on_redis m)"
  by (simp add: guards_def on_redis_def split: prod.split)

lemma guards_on_site_world:
  "guards (\<lambda>w. I (w_db w)) (\<lambda>w. f (w_db w)) m \<Longrightarrow> guards (\<lambda>x. I (si_db x)) (\<lambda>x. f (si_db x)) (on_site_world m)"
  by (simp add: guards_def on_site_world_run)

lemma guards_on_site_db: "guards I f m \<Longrightarrow> guards (\<lambda>x. I (si_db x)) (\<lambda>x. f (si_db x)) (on_site_db m)"
  by (simp add: guards_def on_site_db_run)

lemma guards_on_host [guards_intros]: "guards (\<lambda>x. I (si_db x)) (\<lambda>x. f (si_db x)) (on_host m)"
  by (simp add: guards_def on_host_run)

lemma guards_on_disk [guards_intros]: "guards (\<lambda>x. I (si_db x)) (\<lambda>x. f (si_db x)) (on_disk m)"
  by (simp add: guards_def on_disk_run Let_def)

lemma guards_cleanup [guards_intros]: "guards (\<lambda>x. I (si_db x)) (\<lambda>x. f (si_db x)) (cleanup_artifact_dir cfg i)"
  by (simp add: guards_def cleanup_artifact_dir_def modifyE_run)

section \<open>The rows of other users\<close>

text \<open>
  What user \<open>i\<close> must not change: the rows of the others.  Deleting a model takes its endpoints and their
  usage logs along, whoever deployed them, so the endpoints on a set \<open>M\<close> of models and the logs of a
  set \<open>N\<close> of endpoints are left out.
\<close>

definition foreign :: "uuid \<Rightarrow> uuid set \<Rightarrow> uuid set \<Rightarrow> db \<Rightarrow> db" where
  "foreign i M N d = \<lparr>users = filter (\<lambda>u. u_id u \<noteq> i) (users d),
     refresh_tokens = filter (\<lambda>r. rt_user_id r \<noteq> i) (refresh_tokens d),
     api_keys = filter (\<lambda>k. k_user_id k \<noteq> i) (api_keys d), jobs = filter (\<lambda>j. j_user_id j \<noteq> i) (jobs d),
     job_logs = job_logs d, quotas = filter (\<lambda>q. q_user_id q \<noteq> i) (quotas d),
     models = filter (\<lambda>m. m_user_id m \<noteq> i) (models d),
     endpoints = filter (\<lambda>e. e_user_id e \<noteq> i \<and> e_model_id e \<notin> M) (endpoints d),
     usage_logs = filter (\<lambda>l. ul_user_id l \<noteq> i \<and> ul_endpoint_id l \<notin> N) (usage_logs d)\<rparr>"

text \<open>The jobs with identifiers in \<open>J\<close> and the endpoints with identifiers in \<open>K\<close> belong to \<open>i\<close>.\<close>

definition holds :: "uuid \<Rightarrow> uuid set \<Rightarrow> uuid set \<Rightarrow> db \<Rightarrow> bool" where
  "holds i J K d \<longleftrightarrow> (\<forall>j \<in> set (jobs d). j_id j \<in> J \<longrightarrow> j_user_id j = i) \<and>
     (\<forall>e \<in> set (endpoints d). e_id e \<in> K \<longrightarrow> e_user_id e = i)"

lemma filter_rows_update:
  assumes "\<And>r. r \<in> set t \<Longrightarrow> P r \<Longrightarrow> \<not> Q r \<and> \<not> Q (f r)"
  shows "filter Q (rows_update P f t) = filter Q t"
  using assms by (induction t) (auto simp: rows_update_def)

lemma rows_update_set: "r \<in> set (rows_update P f t) \<longleftrightarrow> (\<exists>s \<in> set t. r = (if P s then f s else s))"
  by (auto simp: rows_update_def)

lemma same_row: "distinct (map key t) \<Longrightarrow> r \<in> set t \<Longrightarrow> s \<in> set t \<Longrightarrow> key r = key s \<Longrightarrow> r = s"
  by (simp add: distinct_map inj_on_def)

lemma row_put_update: "row_put key r t = rows_update (\<lambda>x. key x = key r) (\<lambda>_. r) t"
  by (simp add: row_put_def rows_update_def)

abbreviation tenant :: "uuid \<Rightarrow> uuid set \<Rightarrow> uuid set \<Rightarrow> uuid set \<Rightarrow> uuid set \<Rightarrow> (db, 'a) handler \<Rightarrow> bool" where
  "tenant i J K M N \<equiv> guards (holds i J K) (foreign i M N)"

abbreviation world_tenant :: "uuid \<Rightarrow> uuid set \<Rightarrow> uuid set \<Rightarrow> uuid set \<Rightarrow> uuid set \<Rightarrow> ('r world, 'a) handler \<Rightarrow> bool" where
  "world_tenant i J K M N \<equiv> guards (\<lambda>w. holds i J K (w_db w)) (\<lambda>w. foreign i M N (w_db w))"

abbreviation site_tenant :: "uuid \<Rightarrow> uuid set \<Rightarrow> uuid set \<Rightarrow> uuid set \<Rightarrow> uuid set \<Rightarrow> (('r, 's, 'd) site, 'a) handler \<Rightarrow> bool" where
  "site_tenant i J K M N \<equiv> guards (\<lambda>x. holds i J K (si_db x)) (\<lambda>x. foreign i M N (si_db x))"

section \<open>Quotas\<close>

lemma quota_tenant: "u_id u = i \<Longrightarrow> tenant i J K M N (get_or_create_quota cfg u)"
  unfolding get_or_create_quota_def
  by (intro guards_intros guards_modifyE) (auto simp: foreign_def holds_def default_quota_def)

lemma usage_tenant: "world_tenant i J K M N (current_usage R now u res)"
  unfolding current_usage_def by (intro guards_intros guards_on_db)

lemma enforce_tenant: "u_id u = i \<Longrightarrow> world_tenant i J K M N (enforce R cfg now now' u res amount)"
  unfolding enforce_def enforce_check_def enforce_consume_def
  by (intro guards_intros guards_on_db quota_tenant usage_tenant)

section \<open>Jobs\<close>

lemma commit_job_tenant:
  assumes "j_id j \<in> J" and "\<And>r. j_id (g r) = j_id r \<and> j_user_id (g r) = j_user_id r"
  shows "tenant i J K M N (commit_job j g)"
  unfolding commit_job_def update_job_def
  by (intro guards_intros guards_modifyE)
    (use assms in \<open>auto simp: holds_def foreign_def rows_update_set intro!: filter_rows_update\<close>)

lemma submit_job_tenant:
  assumes "u_id (p_user p) = i" and "k \<in> J"
  shows "world_tenant i J K M N (submit_job R cfg now k body p)"
proof -
  have new: "j_id (new_job now k i body) = k" "j_user_id (new_job now k i body) = i" by (simp_all add: new_job_def)
  have "tenant i J K M N (modifyE (jobs_update (\<lambda>t. t @ [new_job now k i body])))"
    by (rule guards_modifyE) (auto simp: holds_def foreign_def new)
  moreover have "tenant i J K M N (commit_job (new_job now k i body) (enqueue_failed now e))" for e
    by (rule commit_job_tenant) (simp_all add: new assms(2) enqueue_failed_def)
  ultimately show ?thesis
    unfolding submit_job_def Let_def assms(1)
    by (intro guards_intros guards_on_db enforce_tenant assms(1))
qed

lemma cancel_loaded_tenant: "j_id j \<in> J \<Longrightarrow> world_tenant i J K M N (cancel_loaded R cfg now j)"
  unfolding cancel_loaded_def
  by (intro guards_intros guards_on_db commit_job_tenant) simp_all

section \<open>Endpoints\<close>

lemma commit_endpoint_tenant:
  assumes "e_id old \<in> K"
  shows "tenant i J K M N (commit_endpoint old new)"
  unfolding guards_def commit_endpoint_def
  using assms by (auto simp: holds_def foreign_def rows_update_set write_changed_def intro!: filter_rows_update)

lemma mark_failed_tenant: "e_id ep \<in> K \<Longrightarrow> site_tenant i J K M N (mark_failed V cfg ep msg)"
  unfolding mark_failed_def by (intro guards_intros guards_on_site_db commit_endpoint_tenant)

lemma activation_failed_tenant: "e_id ep \<in> K \<Longrightarrow> site_tenant i J K M N (activation_failed V cfg ep e)"
  unfolding activation_failed_def by (intro guards_intros mark_failed_tenant)

lemma activate_tenant:
  assumes "e_id ep \<in> K"
  shows "site_tenant i J K M N (activate_endpoint V S cfg fuel ep m)"
  unfolding activate_endpoint_def Let_def fetch_and_start_def health_gate_def
  by (intro guards_intros guards_on_site_db commit_endpoint_tenant activation_failed_tenant) (simp_all add: assms)

lemma stop_runtime_tenant: "e_id ep \<in> K \<Longrightarrow> site_tenant i J K M N (stop_endpoint_runtime V cfg now ep)"
  unfolding stop_endpoint_runtime_def by (intro guards_intros guards_on_site_db commit_endpoint_tenant)

lemma get_owned_tenant:
  "tenant i J K M N (get_owned_job n p)" "tenant i J K M N (get_owned_model n p)" "tenant i J K M N (get_owned_endpoint n p)"
  by (simp_all add: guards_def own_job.get_owned_frame own_model.get_owned_frame own_endpoint.get_owned_frame)

lemma deploy_tenant:
  assumes "u_id (p_user p) = i" and "k \<in> K"
  shows "site_tenant i J K M N (deploy_model R V S cfg fuel now model_id k name p)"
proof -
  have "tenant i J K M N (add_endpoint (new_endpoint now k m i n))" for m n
    by (auto simp: guards_def add_endpoint_def holds_def foreign_def new_endpoint_def)
  moreover have "e_id (new_endpoint now k m i n) \<in> K" for m n using assms(2) by (simp add: new_endpoint_def)
  ultimately show ?thesis
    unfolding deploy_model_def Let_def assms(1)
    by (intro guards_intros guards_on_site_db guards_on_site_world get_owned_tenant enforce_tenant activate_tenant assms(1))
qed

lemma usage_log_tenant: "ul_user_id l = i \<Longrightarrow> tenant i J K M N (add_usage_log l)"
  by (auto simp: guards_def add_usage_log_def foreign_def holds_def)

lemma predict_tenant: "u_id (p_user p) = i \<Longrightarrow> site_tenant i J K M N (predict V cfg route body p)"
  unfolding predict_def by (intro guards_intros guards_on_site_db usage_log_tenant) simp_all

section \<open>Single writes\<close>

text \<open>Deleting an owned model: the models \<open>M\<close> are \<open>i\<close>'s, and \<open>N\<close> are the endpoints on them.\<close>

definition holds_model :: "uuid \<Rightarrow> uuid \<Rightarrow> uuid set \<Rightarrow> uuid set \<Rightarrow> db \<Rightarrow> bool" where
  "holds_model i k M N d \<longleftrightarrow> k \<in> M \<and> (\<forall>m \<in> set (models d). m_id m = k \<longrightarrow> m_user_id m = i) \<and>
     (\<forall>e \<in> set (endpoints d). e_model_id e \<in> M \<longrightarrow> e_id e \<in> N)"

lemma delete_rows_tenant: "guards (holds_model i k M N) (foreign i M N) (modifyE (delete_model_rows k))"
proof (rule guards_modifyE)
  fix d assume "holds_model i k M N d"
  then have M: "k \<in> M" "\<And>m. m \<in> set (models d) \<Longrightarrow> m_id m = k \<Longrightarrow> m_user_id m = i"
    and N: "\<And>e. e \<in> set (endpoints d) \<Longrightarrow> e_model_id e = k \<Longrightarrow> e_id e \<in> N" "holds_model i k M N d"
    by (auto simp: holds_model_def)
  have "foreign i M N (delete_model_rows k d) = foreign i M N d"
    unfolding foreign_def delete_model_rows_def Let_def using M N(1)
    by simp (intro conjI filter_cong refl; fastforce)
  with N(2) show "holds_model i k M N (delete_model_rows k d) \<and> foreign i M N (delete_model_rows k d) = foreign i M N d"
    by (auto simp: holds_model_def delete_model_rows_def Let_def)
qed

lemma guards_on_world: "guards (\<lambda>w. I (w_db w)) (\<lambda>w. f (w_db w)) m \<Longrightarrow>
    guards (\<lambda>p. I (w_db (pl_world p))) (\<lambda>p. f (w_db (pl_world p))) (on_world m)"
  by (simp add: guards_def on_world_def split: prod.split) (metis snd_conv)

lemma guards_on_store [guards_intros]: "guards (\<lambda>p. I (w_db (pl_world p))) (\<lambda>p. f (w_db (pl_world p))) (on_store m)"
  by (simp add: guards_def on_store_def split: prod.split)

lemma guards_on_registry:
  "guards (\<lambda>p. I (w_db (pl_world p))) (\<lambda>p. f (w_db (pl_world p))) m \<Longrightarrow>
   guards (\<lambda>x. I (si_db x)) (\<lambda>x. f (si_db x)) (on_registry m)"
  by (simp add: guards_def on_registry_def split: prod.split) (metis platform.select_convs(1) snd_conv)

lemma delete_model_tenant:
  "guards (\<lambda>p. holds_model i k M N (w_db (pl_world p))) (\<lambda>p. foreign i M N (w_db (pl_world p))) (delete_model R S now k p)"
  unfolding delete_model_def
proof (rule guards_bindE_result)
  let ?I = "\<lambda>p. holds_model i k M N (w_db (pl_world p))" and ?f = "\<lambda>p. foreign i M N (w_db (pl_world p))"
  have "guards (holds_model i k M N) (foreign i M N) (get_owned_model k p)"
    by (simp add: guards_def own_model.get_owned_frame)
  then show "guards ?I ?f (on_world (Redis_Client.on_db (get_owned_model k p)))" by (intro guards_on_world guards_on_db)
  fix m s s'
  assume "on_world (Redis_Client.on_db (get_owned_model k p)) s = (Inr m, s')"
  then have "m_id m = k"
    using own_model.get_owned_Inr by (fastforce simp: on_world_def Redis_Client.on_db_def split: prod.splits)
  then show "guards ?I ?f (bindE (on_store (delete_prefix S (m_minio_prefix m))) (\<lambda>_.
      bindE (whenE (0 < size_to_storage_mb (m_size_bytes m)) (on_world (release R now (p_user p) STORAGE_MB
        (size_to_storage_mb (m_size_bytes m))))) (\<lambda>_. on_world (Redis_Client.on_db (modifyE (delete_model_rows (m_id m)))))))"
    unfolding release_def by (intro guards_intros guards_on_world guards_on_db) (simp_all add: delete_rows_tenant)
qed

section \<open>Accounts and keys\<close>

lemma guards_on_auth:
  "guards (\<lambda>s. I (a_db s)) (\<lambda>s. f (a_db s)) m \<Longrightarrow> guards (\<lambda>x. I (si_db x)) (\<lambda>x. f (si_db x)) (on_auth m)"
  by (simp add: guards_def on_auth_def split: prod.split sum.split) (metis auth_state.select_convs(1) snd_conv)

lemma password_tenant:
  assumes "u_id u = i"
  shows "guards (\<lambda>s. holds i J K (a_db s)) (\<lambda>s. foreign i M N (a_db s)) (change_password C salt u old_password new_password)"
  unfolding change_password_def revoke_all_refresh_families_def
  by (intro guards_intros guards_modifyE)
    (auto simp: holds_def foreign_def row_put_update assms intro!: filter_rows_update)

lemma create_key_tenant:
  assumes "u_id u = i"
  shows "tenant i J K M N (create_api_key C random k now u body)"
  unfolding create_api_key_def Let_def
  by (intro guards_intros guards_modifyE) (auto simp: holds_def foreign_def assms)

lemma revoke_key_tenant:
  assumes "u_id u = i" and "distinct (map k_id (api_keys d))"
  shows "foreign i M N (snd (revoke_api_key u k d)) = foreign i M N d"
proof -
  note same_row [OF assms(2)]
  then show ?thesis
    using assms(1)
    by (auto simp: revoke_api_key_def handler_simps foreign_def row_put_update dest!: scalar_one_filterD
        intro!: filter_rows_update split: sum.split option.split)
qed

lemma my_quota_tenant: "u_id u = i \<Longrightarrow> world_tenant i J K M N (get_my_quota R cfg now u)"
proof -
  assume u: "u_id u = i"
  have "world_tenant i J K M N (snapshot_of R now u q rs)" for q rs
    by (induction rs) (simp_all, (intro guards_intros usage_tenant)+)
  with u show ?thesis
    unfolding get_my_quota_def usage_snapshot_def by (intro guards_intros guards_on_db quota_tenant)
qed

section \<open>Every call\<close>

text \<open>All a guard that grants writes is the time the caller's own key was last used.\<close>

definition touched :: "uuid \<Rightarrow> db \<Rightarrow> db \<Rightarrow> bool" where
  "touched i d d1 \<longleftrightarrow> d1 = d \<or> (\<exists>k now. k \<in> set (api_keys d) \<and> k_user_id k = i \<and>
     d1 = api_keys_update (rows_update (\<lambda>r. k_id r = k_id k) (\<lambda>r. r\<lparr>k_last_used_at := Some now\<rparr>)) d)"

lemma touched_refl [simp]: "touched i d d"
  by (simp add: touched_def)

lemma key_touched: "authenticate_api_key C ok now token d = (Inr p, d1) \<Longrightarrow> touched (u_id (p_user p)) d d1"
  by (auto simp: authenticate_api_key_run touched_def touch_api_key_last_used_def handler_simps
      dest!: scalar_one_filterD row_get_Some split: sum.splits option.splits if_splits)

lemma session_keeps:
  "keeps f (get_authenticated_user C cfg now creds)" "keeps f (get_current_user C cfg now creds)"
  "keeps f (get_current_admin C cfg now creds)"
  unfolding get_current_admin_def get_current_user_def get_authenticated_user_def reject_password_change_required_def
  by (intro keeps_intros jwt_keeps)+

lemma authorise_touched:
  assumes "authorise E g d = (Inr p, d1)"
  shows "touched (u_id (p_user p)) d d1"
proof (cases g)
  case (Scopes ss)
  with assms obtain token where
    "resolve_principal_from_token (en_crypto E) (en_settings E) (en_touch_ok E) (en_now E) token d = (Inr p, d1)"
    by (auto simp: require_scopes_def get_current_principal_def handler_simps split: prod.splits sum.splits if_splits option.splits)
  then show ?thesis
    by (auto simp: resolve_principal_from_token_def reject_password_change_required_def handler_simps
        dest: key_touched jwt_keeps [THEN keeps_run, where f = id] split: prod.splits sum.splits if_splits)
qed (use assms session_keeps [THEN keeps_run, of _ _ _ _ d _ d1 id] in
  \<open>auto simp: handler_simps touched_def split: prod.splits sum.splits\<close>)

lemma touched_foreign:
  assumes "touched i d d1" and "distinct (map k_id (api_keys d))"
  shows "foreign i M N d1 = foreign i M N d"
proof -
  note same_row [OF assms(2)]
  with assms(1) show ?thesis by (fastforce simp: touched_def foreign_def intro!: filter_rows_update)
qed

lemma touched_simps:
  assumes "touched i d d1"
  shows "users d1 = users d" "jobs d1 = jobs d" "models d1 = models d" "endpoints d1 = endpoints d"
    "map k_id (api_keys d1) = map k_id (api_keys d)" "quotas d1 = quotas d"
  using assms by (auto simp: touched_def rows_update_def)

text \<open>Rows are told apart by their identifiers, and the identifier drawn is not in use.\<close>

definition told_apart :: "uuid \<Rightarrow> db \<Rightarrow> bool" where
  "told_apart fresh d \<longleftrightarrow> distinct (map k_id (api_keys d)) \<and> distinct (map j_id (jobs d)) \<and>
     distinct (map m_id (models d)) \<and> distinct (map e_id (endpoints d)) \<and>
     fresh \<notin> j_id ` set (jobs d) \<and> fresh \<notin> e_id ` set (endpoints d)"

lemma touched_apart: "touched i d d1 \<Longrightarrow> told_apart k d1 = told_apart k d"
  by (simp add: told_apart_def touched_simps)

text \<open>The models of \<open>i\<close>, and the endpoints that serve them.\<close>

definition own_models :: "uuid \<Rightarrow> db \<Rightarrow> uuid set" where
  "own_models i d = m_id ` {m \<in> set (models d). m_user_id m = i}"

definition hosted :: "uuid \<Rightarrow> db \<Rightarrow> uuid set" where
  "hosted i d = e_id ` {e \<in> set (endpoints d). e_model_id e \<in> own_models i d}"

lemma touched_hosted: "touched i' d d1 \<Longrightarrow> own_models i d1 = own_models i d \<and> hosted i d1 = hosted i d"
  by (simp add: own_models_def hosted_def touched_simps)

text \<open>From \<open>d\<close> to \<open>d'\<close> nothing has changed that is not \<open>i\<close>'s, but for what hangs on its models.\<close>

definition unharmed :: "uuid \<Rightarrow> db \<Rightarrow> db \<Rightarrow> bool" where
  "unharmed i d d' \<longleftrightarrow> foreign i (own_models i d) (hosted i d) d' = foreign i (own_models i d) (hosted i d) d"

lemma unharmed_refl [simp]: "unharmed i d d"
  by (simp add: unharmed_def)

lemma unharmedI:
  "site_tenant i J K (own_models i (si_db x)) (hosted i (si_db x)) m \<Longrightarrow> holds i J K (si_db x) \<Longrightarrow>
   unharmed i (si_db x) (si_db (snd (m x)))"
  by (simp add: guards_def unharmed_def)

lemma holds_none [simp]: "holds i {} {} d"
  by (simp add: holds_def)

lemma cancel_unharmed:
  assumes "u_id (p_user p) = i" and "u_role (p_user p) \<noteq> RoleAdmin" and "told_apart k (si_db x)"
  shows "unharmed i (si_db x) (si_db (snd (on_site_world (cancel_job R cfg now n p) x)))"
proof (cases rule: own_job.get_owned_cases [of n p "si_db x"])
  case (1 e)
  then show ?thesis
    by (simp add: cancel_job_def on_site_world_run handler_simps Redis_Client.on_db_def Let_def split: prod.split)
next
  case (2 j)
  note run = this(1)
  from 2 assms have j: "j \<in> set (jobs (si_db x))" "j_user_id j = i" and d: "distinct (map j_id (jobs (si_db x)))"
    by (auto simp: visible_to_def told_apart_def)
  have "on_site_world (cancel_job R cfg now n p) x = on_site_world (cancel_loaded R cfg now j) x"
    using run by (simp add: cancel_job_def on_site_world_run handler_simps Redis_Client.on_db_def)
  moreover have "unharmed i (si_db x) (si_db (snd (on_site_world (cancel_loaded R cfg now j) x)))"
    by (rule unharmedI [OF guards_on_site_world [OF cancel_loaded_tenant [where J = "{j_id j}" and K = "{}"]]])
      (use j same_row [OF d] in \<open>auto simp: holds_def\<close>)
  ultimately show ?thesis by simp
qed

lemma stop_unharmed:
  assumes "u_id (p_user p) = i" and "u_role (p_user p) \<noteq> RoleAdmin" and "told_apart k (si_db x)"
  shows "unharmed i (si_db x) (si_db (snd (stop_endpoint V cfg now n p x)))"
proof (cases rule: own_endpoint.get_owned_cases [of n p "si_db x"])
  case (1 e)
  then show ?thesis
    by (simp add: stop_endpoint_def on_site_db_run handler_simps Let_def)
next
  case (2 ep)
  note run = this(1)
  from 2 assms have ep: "ep \<in> set (endpoints (si_db x))" "e_user_id ep = i"
    and d: "distinct (map e_id (endpoints (si_db x)))"
    by (auto simp: visible_to_def told_apart_def)
  let ?m = "if e_status ep = EP_STOPPED then returnE (to_endpoint_response ep)
     else if e_status ep \<notin> {EP_LIVE, EP_STARTING, EP_FAILED}
     then raiseE (HTTPException 409 (''endpoint cannot be stopped from status '' @ endpoint_status_value (e_status ep)))
     else bindE (stop_endpoint_runtime V cfg now ep) (\<lambda>ep'. returnE (to_endpoint_response ep'))"
  have "stop_endpoint V cfg now n p x = ?m x"
    using run by (simp add: stop_endpoint_def on_site_db_run bindE_run)
  moreover have "unharmed i (si_db x) (si_db (snd (?m x)))"
    by (rule unharmedI [where J = "{}" and K = "{e_id ep}"], intro guards_intros stop_runtime_tenant)
      (use ep same_row [OF d] in \<open>auto simp: holds_def\<close>)
  ultimately show ?thesis by simp
qed

lemma delete_unharmed:
  assumes "u_id (p_user p) = i" and "u_role (p_user p) \<noteq> RoleAdmin" and "told_apart k (si_db x)"
  shows "unharmed i (si_db x) (si_db (snd (on_registry (delete_model R S now n p) x)))"
proof (cases rule: own_model.get_owned_cases [of n p "si_db x"])
  case (1 e)
  then show ?thesis
    by (simp add: delete_model_def on_registry_def on_world_def handler_simps Redis_Client.on_db_def Let_def split: prod.split)
next
  case (2 m)
  note run = this(1)
  from 2 assms have m: "m \<in> set (models (si_db x))" "m_user_id m = i" "m_id m = n"
    and d: "distinct (map m_id (models (si_db x)))"
    by (auto simp: visible_to_def told_apart_def)
  have "holds_model i n (own_models i (si_db x)) (hosted i (si_db x)) (si_db x)"
    using m same_row [OF d] by (auto simp: holds_model_def own_models_def hosted_def)
  then show ?thesis
    using guards_on_registry [OF delete_model_tenant [of i n "own_models i (si_db x)" "hosted i (si_db x)" R S now p]]
    unfolding guards_def unharmed_def by blast
qed

lemma revoke_unharmed:
  assumes "u_id u = i" and "told_apart k (si_db x)"
  shows "unharmed i (si_db x) (si_db (snd (on_site_db (revoke_api_key u n) x)))"
  using assms revoke_key_tenant [of u i "si_db x"] by (simp add: on_site_db_run told_apart_def unharmed_def)

lemma write_unharmed:
  assumes "u_id u = i"
  shows "unharmed i (si_db x) (si_db (snd (on_auth (change_password C salt u old_password new_password) x)))"
    "unharmed i (si_db x) (si_db (snd (on_site_db (create_api_key C random k now u body) x)))"
    "unharmed i (si_db x) (si_db (snd (on_site_world (get_my_quota R cfg now u) x)))"
  using assms
  by (auto intro!: unharmedI [where J = "{}" and K = "{}"] guards_on_auth guards_on_site_db guards_on_site_world
      password_tenant create_key_tenant my_quota_tenant)

lemma fresh_unharmed:
  assumes "u_id (p_user p) = i" and "told_apart k (si_db x)"
  shows "unharmed i (si_db x) (si_db (snd (on_site_world (submit_job R cfg now k body p) x)))"
    "unharmed i (si_db x) (si_db (snd (deploy_model R V S cfg fuel now n k name p x)))"
  using assms
  by (auto intro!: unharmedI [where J = "{k}" and K = "{k}"] guards_on_site_world submit_job_tenant deploy_tenant
      simp: holds_def told_apart_def)

lemma predict_unharmed: "u_id (p_user p) = i \<Longrightarrow> unharmed i (si_db x) (si_db (snd (predict V cfg route body p x)))"
  by (intro unharmedI [where J = "{}" and K = "{}"] predict_tenant) simp_all

lemma read_unharmed:
  "unharmed i (si_db x) (si_db (snd (on_site_db (list_api_keys u) x)))"
  "unharmed i (si_db x) (si_db (snd (on_site_db (list_jobs cfg st limit offset p) x)))"
  "unharmed i (si_db x) (si_db (snd (on_site_db (get_job cfg n p) x)))"
  "unharmed i (si_db x) (si_db (snd (on_site_db (list_models p limit offset) x)))"
  "unharmed i (si_db x) (si_db (snd (on_site_db (get_model n p) x)))"
  "unharmed i (si_db x) (si_db (snd (on_registry (download_model S n p) x)))"
  "unharmed i (si_db x) (si_db (snd (on_site_db (list_endpoints p limit offset) x)))"
  unfolding list_api_keys_def list_jobs_def get_job_def list_models_def get_model_def download_model_def list_endpoints_def
  by (intro unharmedI [where J = "{}" and K = "{}"] guards_on_site_db guards_on_registry guards_on_world guards_on_db
      get_owned_tenant guards_intros holds_none)+

lemma snd_simps:
  "snd (plain w x) = snd (w x)" "snd (bindE m (\<lambda>a. returnE (g a)) x) = snd (m x)"
  "snd (bindE m' (\<lambda>(a, b). returnE (h a b)) x) = snd (m' x)" "snd (validated ok v x) = (if ok then snd (v x) else x)"
  by (simp_all add: plain_def validated_def handler_simps split: prod.split sum.split)

text \<open>Past its guard, a route runs its handler for the principal from the state the guard left.\<close>

lemma granted:
  assumes "x1 = x\<lparr>si_world := si_world x\<lparr>w_db := d\<rparr>\<rparr>"
  shows "authorise E CurrentUser (si_db x) = (Inr p, d) \<Longrightarrow> as_user E k x = plain (k (p_user p)) x1"
    "authorise E AuthenticatedUser (si_db x) = (Inr p, d) \<Longrightarrow> as_account E k x = plain (k (p_user p)) x1"
    "authorise E CurrentAdmin (si_db x) = (Inr p, d) \<Longrightarrow> as_admin E k x = plain (k (p_user p)) x1"
    "authorise E (Scopes [sc]) (si_db x) = (Inr p, d) \<Longrightarrow> with_scope sc E k' x = plain (k' p) x1"
  using assms
  by (auto simp: as_user_def as_account_def as_admin_def with_scope_def bindE_run on_site_db_run session_principal_def returnE_run
      split: prod.splits sum.splits)

lemma call_unharmed:
  assumes "guard_of call \<noteq> Public" and run: "authorise E (guard_of call) (si_db x) = (Inr p, d)"
    and "u_role (p_user p) \<noteq> RoleAdmin" and u: "u_id (p_user p) = i"
    and x1: "x1 = x\<lparr>si_world := si_world x\<lparr>w_db := d\<rparr>\<rparr>" and apart: "told_apart (en_uuid E) (si_db x1)"
  shows "unharmed i (si_db x1) (si_db (snd (dispatch E call x)))"
proof -
  note g = granted [OF x1] and m = authorise_sound [OF run]
  show ?thesis
    using run m assms(1,3)
    by (cases call) (simp_all add: g snd_simps returnE_run read_unharmed predict_unharmed [OF u] write_unharmed [OF u]
      fresh_unharmed [OF u apart] revoke_unharmed [OF u apart] cancel_unharmed [OF u _ apart] stop_unharmed [OF u _ apart]
      delete_unharmed [OF u _ apart])
qed

section \<open>Tenants\<close>

text \<open>C3: A call of an account that is not an admin changes no row of anyone else, whichever route it takes:
  users, tokens, keys, jobs, quotas, models, endpoints and usage logs of the others are as before.
  The one exception is what the foreign keys delete: the endpoints on a model of the caller, and
  their usage logs, go with it, whoever deployed or used them.\<close>

theorem tenant_isolation:
  assumes "guard_of call \<noteq> Public" and g: "authorise E (guard_of call) (si_db x) = (Inr p, d)"
    and "u_role (p_user p) \<noteq> RoleAdmin" and "told_apart (en_uuid E) (si_db x)"
    and run: "dispatch E call x = (out, x')"
  shows "unharmed (u_id (p_user p)) (si_db x) (si_db x')"
proof -
  let ?i = "u_id (p_user p)" and ?x = "x\<lparr>si_world := si_world x\<lparr>w_db := d\<rparr>\<rparr>"
  have t: "touched ?i (si_db x) d" by (rule authorise_touched [OF g])
  have "unharmed ?i (si_db ?x) (si_db (snd (dispatch E call x)))"
    using assms(4) touched_apart [OF t] by (intro call_unharmed [OF assms(1) g assms(3) refl refl]) simp
  moreover have "unharmed ?i (si_db x) d"
    using touched_foreign [OF t] assms(4) by (simp add: unharmed_def told_apart_def)
  ultimately show ?thesis using touched_hosted [OF t] run by (simp add: unharmed_def)
qed

section \<open>Examples\<close>

definition root_key :: api_key where
  "root_key = alice_key\<lparr>k_id := 11, k_user_id := 2, k_key_hash := ''#pzf_ROOT''\<rparr>"

definition two_keys :: "(ref_state, (string \<times> string) list, ref_runners) site" where
  "two_keys = (site0 [ep0] 200)\<lparr>si_world := world0\<lparr>w_db := db0\<lparr>api_keys := [alice_key, root_key]\<rparr>\<rparr>\<rparr>"

text \<open>Alice asks for the key of another user to be revoked: it stays as it is.\<close>

theorem tenant_isolation_witness:
  "let E = request0 (Some (''bearer'', create_access_token ref_crypto cfg0 0 1 ''user'')) in
   filter (\<lambda>k. k_user_id k \<noteq> 1) (api_keys (si_db (snd (dispatch E (RevokeKey 11) two_keys)))) = [root_key]"
proof -
  let ?tok = "create_access_token ref_crypto cfg0 0 1 ''user''" and ?d = "si_db two_keys"
  let ?E = "request0 (Some (''bearer'', ?tok)) :: (ref_state, (string \<times> string) list, ref_runners) api_env"
  have d: "users ?d = [alice, root]" "api_keys ?d = [alice_key, root_key]" "jobs ?d = []" "models ?d = []" "endpoints ?d = []"
    by (simp_all add: two_keys_def)
  have dec: "decode_access_token ref_crypto cfg0 5 ?tok =
      Some \<lparr>jwt_sub = Some (str_uuid 1), jwt_role = ''user'', jwt_iat = 0, jwt_exp = seconds 900\<rparr>"
    by (simp add: ref.decode_created_token fixture_defs)
  have ne: "str_uuid 1 \<noteq> []" by (simp add: str_uuid_def Let_def)
  have "authorise ?E (guard_of (RevokeKey 11)) ?d = (Inr (session_principal alice), ?d)"
    using dec ne ref.access_token_not_api_key d(1)
    by (simp add: get_current_user_def get_authenticated_user_def authenticate_jwt_def handler_simps deps_defs py_lower_def
        lower_char_def scalar_one_or_none_def)
  moreover have "told_apart (en_uuid ?E) ?d" by (simp add: told_apart_def d root_key_def alice_key_def)
  ultimately have "unharmed 1 ?d (si_db (snd (dispatch ?E (RevokeKey 11) two_keys)))"
    using tenant_isolation [OF _ _ _ _ prod.collapse [symmetric], of "RevokeKey 11" ?E two_keys "session_principal alice" ?d]
    by (simp add: session_principal_def)
  then have "filter (\<lambda>k. k_user_id k \<noteq> 1) (api_keys (si_db (snd (dispatch ?E (RevokeKey 11) two_keys)))) =
      filter (\<lambda>k. k_user_id k \<noteq> 1) (api_keys ?d)"
    by (simp add: unharmed_def foreign_def)
  then show ?thesis by (simp add: d root_key_def)
qed

end
