(* ===== verification/Worker_Repository.thy ===== *)
theory Worker_Repository
  imports Jobs
begin

text \<open>
  The worker's transactions on jobs (\<open>worker/repository.py\<close>), and the life of a job row under every
  transaction of the program: the routes' submit and cancel and the worker's mark, finalize and
  reap.
\<close>

section \<open>Transactions\<close>

definition load_job :: "uuid \<Rightarrow> (db, job option) handler" where
  "load_job job_id = getsE (\<lambda>d. row_get j_id job_id (jobs d))"

text \<open>Both updates run in one transaction; the count is that of the rows they return.\<close>

definition reap_zombie_jobs :: "time \<Rightarrow> string \<Rightarrow> (db, int) handler" where
  "reap_zombie_jobs now worker_hostname = (\<lambda>d.
     let cancelling = (\<lambda>j. j_worker_id j = Some worker_hostname \<and> j_status j = CANCELLING);
         running = (\<lambda>j. j_worker_id j = Some worker_hostname \<and> j_status j = RUNNING);
         d1 = jobs_update (rows_update cancelling (\<lambda>j. j\<lparr>j_status := CANCELLED, j_finished_at := Some now,
                j_error_message := None\<rparr>)) d;
         d2 = jobs_update (rows_update running (\<lambda>j. j\<lparr>j_status := FAILED,
                j_error_message := Some ''worker restarted'', j_finished_at := Some now\<rparr>)) d1
     in (Inr (int (length (filter cancelling (jobs d))) + int (length (filter running (jobs d1)))), d2))"

definition mark_job_running :: "time \<Rightarrow> uuid \<Rightarrow> string \<Rightarrow> (db, job option) handler" where
  "mark_job_running now job_id worker_hostname =
     bindE (load_job job_id) (\<lambda>found.
     case found of
       None \<Rightarrow> returnE None
     | Some j \<Rightarrow>
         if j_status j \<noteq> QUEUED then returnE None
         else bindE (commit_job j (\<lambda>r. r\<lparr>j_status := RUNNING, j_worker_id := Some worker_hostname,
                j_started_at := Some now\<rparr>)) (\<lambda>j'. returnE (Some j')))"

text \<open>What \<open>finalize_job\<close> writes to the row.\<close>

definition finalized ::
  "time \<Rightarrow> job_status \<Rightarrow> int option \<Rightarrow> string option \<Rightarrow> string option \<Rightarrow> string option \<Rightarrow> job \<Rightarrow> job" where
  "finalized now st exit_code error_message mlflow_run_id artifact_error j = j\<lparr>j_status := st,
     j_exit_code := exit_code, j_error_message := error_message, j_finished_at := Some now,
     j_mlflow_run_id := (if mlflow_run_id = None then j_mlflow_run_id j else mlflow_run_id),
     j_artifact_error := (if artifact_error = None then j_artifact_error j else artifact_error)\<rparr>"

text \<open>The log row is added in the same transaction as the job's columns.\<close>

definition finalize_job ::
  "time \<Rightarrow> uuid \<Rightarrow> job_status \<Rightarrow> int option \<Rightarrow> string option \<Rightarrow> string \<Rightarrow> string option \<Rightarrow> string option \<Rightarrow>
   (db, unit) handler" where
  "finalize_job now job_id st exit_code error_message log_tail mlflow_run_id artifact_error =
     bindE (load_job job_id) (\<lambda>found.
     case found of
       None \<Rightarrow> returnE ()
     | Some j \<Rightarrow> atomicE
         (bindE (commit_job j (finalized now st exit_code error_message mlflow_run_id artifact_error)) (\<lambda>_.
          whenE (log_tail \<noteq> [])
            (modifyE (job_logs_update (\<lambda>t. t @ [\<lparr>jl_job_id = j_id j, jl_content = log_tail\<rparr>]))))))"

definition get_job_status :: "uuid \<Rightarrow> (db, job_status option) handler" where
  "get_job_status job_id = liftE (\<lambda>d. case scalar_one_or_none (filter (\<lambda>j. j_id j = job_id) (jobs d)) of
     Inl e \<Rightarrow> Inl e | Inr found \<Rightarrow> Inr (map_option j_status found))"

section \<open>What they do\<close>

lemmas transaction_defs = load_job_def mark_job_running_def finalize_job_def commit_job_def
  update_job_def handler_simps

lemma load_job_run: "load_job i d = (Inr (row_get j_id i (jobs d)), d)"
  by (simp add: load_job_def getsE_run)

lemma mark_job_running_run:
  "mark_job_running now i host d = (case row_get j_id i (jobs d) of
      None \<Rightarrow> (Inr None, d)
    | Some j \<Rightarrow> if j_status j \<noteq> QUEUED then (Inr None, d)
        else let f = (\<lambda>r. r\<lparr>j_status := RUNNING, j_worker_id := Some host, j_started_at := Some now\<rparr>) in
          if job_columns_fit (f j) then (Inr (Some (f j)), update_job i f d)
          else (Inl (OtherException ''StringDataRightTruncation''), d))"
  by (auto simp: transaction_defs Let_def dest: row_get_Some split: option.split)

lemma finalize_job_run:
  "finalize_job now i st ec em tail mid ae d = (case row_get j_id i (jobs d) of
      None \<Rightarrow> (Inr (), d)
    | Some j \<Rightarrow> let f = finalized now st ec em mid ae in
        if job_columns_fit (f j)
        then (Inr (), let d' = update_job i f d in
          if tail \<noteq> [] then job_logs_update (\<lambda>t. t @ [\<lparr>jl_job_id = i, jl_content = tail\<rparr>]) d' else d')
        else (Inl (OtherException ''StringDataRightTruncation''), d))"
  by (auto simp: transaction_defs Let_def dest: row_get_Some split: option.split)

lemma finalized_simps [simp]: "j_status (finalized now st ec em mid ae j) = st"
  "j_id (finalized now st ec em mid ae j) = j_id j" "j_user_id (finalized now st ec em mid ae j) = j_user_id j"
  "j_finished_at (finalized now st ec em mid ae j) = Some now"
  "j_started_at (finalized now st ec em mid ae j) = j_started_at j"
  "j_worker_id (finalized now st ec em mid ae j) = j_worker_id j"
  "j_spec (finalized now st ec em mid ae j) = j_spec j"
  by (simp_all add: finalized_def)

lemma update_job_get:
  assumes "\<And>j. j_id (f j) = j_id j"
  shows "row_get j_id k (jobs (update_job i f d)) =
    map_option (\<lambda>j. if k = i then f j else j) (row_get j_id k (jobs d))"
proof -
  have "row_get j_id k (jobs (update_job i f d)) =
      map_option (\<lambda>j. if j_id j = i then f j else j) (row_get j_id k (jobs d))"
    using row_get_rows_update [where key = j_id and f = f and P = "\<lambda>j. j_id j = i" and k = k and t = "jobs d", OF assms]
    by (simp add: update_job_def)
  then show ?thesis by (cases "row_get j_id k (jobs d)") (auto dest: row_get_Some)
qed

text \<open>The row of a job, and what a transaction does to it.\<close>

definition job_row :: "db \<Rightarrow> uuid \<Rightarrow> job option" where
  "job_row d i = row_get j_id i (jobs d)"

lemma job_row_update:
  "(\<And>j. j_id (f j) = j_id j) \<Longrightarrow>
   job_row (update_job i f d) k = map_option (\<lambda>j. if k = i then f j else j) (job_row d k)"
  by (simp add: job_row_def update_job_get)

lemma job_row_logs [simp]: "job_row (job_logs_update g d) k = job_row d k"
  by (simp add: job_row_def)

text \<open>Both updates in one pass.\<close>

definition reaped :: "time \<Rightarrow> string \<Rightarrow> job \<Rightarrow> job" where
  "reaped now host j =
     (if j_worker_id j = Some host \<and> j_status j = CANCELLING
      then j\<lparr>j_status := CANCELLED, j_finished_at := Some now, j_error_message := None\<rparr>
      else if j_worker_id j = Some host \<and> j_status j = RUNNING
      then j\<lparr>j_status := FAILED, j_error_message := Some ''worker restarted'', j_finished_at := Some now\<rparr>
      else j)"

lemma reap_jobs: "jobs (snd (reap_zombie_jobs now host d)) = map (reaped now host) (jobs d)"
  by (simp add: reap_zombie_jobs_def Let_def rows_update_def reaped_def)

lemma reaped_simps [simp]: "j_id (reaped now host j) = j_id j" "j_user_id (reaped now host j) = j_user_id j"
  "j_spec (reaped now host j) = j_spec j" "j_worker_id (reaped now host j) = j_worker_id j"
  by (simp_all add: reaped_def)

lemma reaped_status: "j_worker_id j = Some host \<Longrightarrow>
   j_status (reaped now host j) \<noteq> RUNNING \<and> j_status (reaped now host j) \<noteq> CANCELLING"
  by (simp add: reaped_def)

lemma reap_row: "job_row (snd (reap_zombie_jobs now host d)) k = map_option (reaped now host) (job_row d k)"
  using row_get_rows_update [where key = j_id and P = "\<lambda>_. True" and f = "reaped now host" and t = "jobs d" and k = k]
  by (simp add: job_row_def reap_jobs rows_update_def)

text \<open>After a restart, reaping leaves no job of this worker RUNNING or CANCELLING, finishes each of
  those as FAILED or CANCELLED with an end time, counts exactly them, and touches no other job.\<close>

theorem reap_clears_worker:
  assumes "reap_zombie_jobs now host d = (out, d')"
  shows "out = Inr (int (length (filter (\<lambda>j. j_worker_id j = Some host \<and>
      (j_status j = RUNNING \<or> j_status j = CANCELLING)) (jobs d)))) \<and>
    (\<forall>j \<in> set (jobs d'). j_worker_id j = Some host \<longrightarrow> j_status j \<noteq> RUNNING \<and> j_status j \<noteq> CANCELLING) \<and>
    map (\<lambda>j. (j_id j, j_user_id j, j_spec j)) (jobs d') = map (\<lambda>j. (j_id j, j_user_id j, j_spec j)) (jobs d) \<and>
    (\<forall>k. case job_row d k of None \<Rightarrow> job_row d' k = None | Some j \<Rightarrow>
      if j_worker_id j = Some host \<and> (j_status j = RUNNING \<or> j_status j = CANCELLING)
      then \<exists>j'. job_row d' k = Some j' \<and> j_finished_at j' = Some now \<and>
        j_status j' = (if j_status j = RUNNING then FAILED else CANCELLED)
      else job_row d' k = Some j)"
proof -
  let ?m = "\<lambda>j. j_worker_id j = Some host"
  have count: "length (filter (\<lambda>j. ?m j \<and> j_status j = CANCELLING) t) +
      length (filter (\<lambda>j. ?m j \<and> j_status j = RUNNING) (rows_update (\<lambda>j. ?m j \<and> j_status j = CANCELLING)
        (\<lambda>j. j\<lparr>j_status := CANCELLED, j_finished_at := Some now, j_error_message := None\<rparr>) t)) =
      length (filter (\<lambda>j. ?m j \<and> (j_status j = RUNNING \<or> j_status j = CANCELLING)) t)" for t
    by (induction t) (auto simp: rows_update_def)
  have out: "out = Inr (int (length (filter (\<lambda>j. ?m j \<and> (j_status j = RUNNING \<or> j_status j = CANCELLING)) (jobs d))))"
    using assms count [of "jobs d"] by (auto simp: reap_zombie_jobs_def Let_def)
  have d': "d' = snd (reap_zombie_jobs now host d)" using assms by simp
  have rows: "jobs d' = map (reaped now host) (jobs d)" by (simp only: d' reap_jobs)
  have gone: "\<forall>j \<in> set (jobs d'). ?m j \<longrightarrow> j_status j \<noteq> RUNNING \<and> j_status j \<noteq> CANCELLING"
    by (simp add: rows reaped_status)
  have keep: "map (\<lambda>j. (j_id j, j_user_id j, j_spec j)) (jobs d') = map (\<lambda>j. (j_id j, j_user_id j, j_spec j)) (jobs d)"
    by (simp add: rows)
  have "case job_row d k of None \<Rightarrow> job_row d' k = None | Some j \<Rightarrow>
      if ?m j \<and> (j_status j = RUNNING \<or> j_status j = CANCELLING)
      then \<exists>j'. job_row d' k = Some j' \<and> j_finished_at j' = Some now \<and>
        j_status j' = (if j_status j = RUNNING then FAILED else CANCELLED)
      else job_row d' k = Some j" for k
    by (cases "job_row d k") (auto simp: d' reap_row reaped_def)
  then show ?thesis by (intro conjI allI out gone keep)
qed

theorem reap_clears_worker_witness:
  "\<exists>d'. reap_zombie_jobs 9 ''w1'' (db0\<lparr>jobs := [job0\<lparr>j_status := RUNNING, j_worker_id := Some ''w1''\<rparr>]\<rparr>) = (Inr 1, d') \<and>
     (\<exists>j'. job_row d' 77 = Some j' \<and> j_status j' = FAILED)"
proof -
  let ?d = "db0\<lparr>jobs := [job0\<lparr>j_status := RUNNING, j_worker_id := Some ''w1''\<rparr>]\<rparr>"
  obtain out d' where r: "reap_zombie_jobs 9 ''w1'' ?d = (out, d')" by fastforce
  have row: "job_row ?d 77 = Some (job0\<lparr>j_status := RUNNING, j_worker_id := Some ''w1''\<rparr>)"
    by (simp add: job_row_def row_get_Cons)
  note all = reap_clears_worker [OF r]
  from all have "out = Inr 1" by simp
  moreover from all have "case job_row ?d 77 of None \<Rightarrow> job_row d' 77 = None | Some j \<Rightarrow>
      if j_worker_id j = Some ''w1'' \<and> (j_status j = RUNNING \<or> j_status j = CANCELLING)
      then \<exists>j'. job_row d' 77 = Some j' \<and> j_finished_at j' = Some 9 \<and>
        j_status j' = (if j_status j = RUNNING then FAILED else CANCELLED)
      else job_row d' 77 = Some j" by blast
  ultimately show ?thesis using r by (auto simp: row)
qed

end
