(* ===== verification/Integrity.thy ===== *)
theory Integrity
  imports Isolation Worker_Repository
begin

text \<open>
  The integrity of the database under every call: rows are told apart by their keys, and every foreign
  key names a row that exists.  Most writes leave the keys of all rows as they are, and the others
  append or delete rows; each kind is treated once, and the handlers are followed as in \<open>Isolation\<close>.
\<close>

section \<open>Keys and foreign keys\<close>

definition keyed :: "db \<Rightarrow> bool" where
  "keyed d \<longleftrightarrow> distinct (map u_id (users d)) \<and> distinct (map u_email (users d)) \<and>
     distinct (map rt_id (refresh_tokens d)) \<and> distinct (map rt_token_hash (refresh_tokens d)) \<and>
     distinct (map k_id (api_keys d)) \<and> distinct (map k_key_hash (api_keys d)) \<and> distinct (map j_id (jobs d)) \<and>
     distinct (map q_user_id (quotas d)) \<and> distinct (map m_id (models d)) \<and> distinct (map version_key (models d)) \<and>
     distinct (map e_id (endpoints d)) \<and> distinct (map e_route (endpoints d))"

definition user_ids :: "db \<Rightarrow> uuid set" where
  "user_ids d = u_id ` set (users d)"

definition linked :: "db \<Rightarrow> bool" where
  "linked d \<longleftrightarrow> rt_user_id ` set (refresh_tokens d) \<subseteq> user_ids d \<and> k_user_id ` set (api_keys d) \<subseteq> user_ids d \<and>
     j_user_id ` set (jobs d) \<subseteq> user_ids d \<and> q_user_id ` set (quotas d) \<subseteq> user_ids d \<and>
     m_user_id ` set (models d) \<subseteq> user_ids d \<and> e_user_id ` set (endpoints d) \<subseteq> user_ids d \<and>
     e_model_id ` set (endpoints d) \<subseteq> m_id ` set (models d) \<and> ul_user_id ` set (usage_logs d) \<subseteq> user_ids d \<and>
     ul_endpoint_id ` set (usage_logs d) \<subseteq> e_id ` set (endpoints d) \<and> jl_job_id ` set (job_logs d) \<subseteq> j_id ` set (jobs d)"

definition db_ok :: "db \<Rightarrow> bool" where
  "db_ok d \<longleftrightarrow> keyed d \<and> linked d"

text \<open>All that \<open>db_ok\<close> reads: the columns that are keys or foreign keys.\<close>

definition shape where
  "shape d = (map u_id (users d), map u_email (users d), map rt_id (refresh_tokens d), map rt_token_hash (refresh_tokens d),
     map rt_user_id (refresh_tokens d), map k_id (api_keys d), map k_key_hash (api_keys d), map k_user_id (api_keys d),
     map j_id (jobs d), map j_user_id (jobs d), map q_user_id (quotas d), map m_id (models d), map version_key (models d),
     map m_user_id (models d), map e_id (endpoints d), map e_route (endpoints d), map e_user_id (endpoints d),
     map e_model_id (endpoints d), map ul_user_id (usage_logs d), map ul_endpoint_id (usage_logs d),
     map jl_job_id (job_logs d))"

lemma shape_reads:
  assumes "shape d' = shape d"
  shows "db_ok d' = db_ok d" "user_ids d' = user_ids d" "m_id ` set (models d') = m_id ` set (models d)"
proof -
  note eqs = assms [unfolded shape_def prod.inject]
  show "db_ok d' = db_ok d" by (simp only: db_ok_def keyed_def linked_def user_ids_def image_set eqs)
  show "user_ids d' = user_ids d" "m_id ` set (models d') = m_id ` set (models d)"
    by (simp_all only: user_ids_def image_set eqs)
qed

lemma map_rows_update: "(\<And>r. r \<in> set t \<Longrightarrow> P r \<Longrightarrow> f (g r) = f r) \<Longrightarrow> map f (rows_update P g t) = map f t"
  by (simp add: rows_update_def)

text \<open>A row written back as it was read, but for other columns.\<close>

lemma map_row_put:
  assumes "distinct (map key t)" and "r \<in> set t" and "key r' = key r" and "f r' = f r"
  shows "map f (row_put key r' t) = map f t"
  using assms by (auto simp: row_put_def dest: same_row)

text \<open>The database is whole, the users \<open>I\<close> and the models \<open>K\<close> exist.\<close>

definition standing :: "uuid set \<Rightarrow> uuid set \<Rightarrow> db \<Rightarrow> bool" where
  "standing I K d \<longleftrightarrow> db_ok d \<and> I \<subseteq> user_ids d \<and> K \<subseteq> m_id ` set (models d)"

abbreviation upholds :: "uuid set \<Rightarrow> uuid set \<Rightarrow> (db, 'a) handler \<Rightarrow> bool" where
  "upholds I K \<equiv> guards (standing I K) (\<lambda>_. ())"

abbreviation world_upholds :: "uuid set \<Rightarrow> uuid set \<Rightarrow> ('r world, 'a) handler \<Rightarrow> bool" where
  "world_upholds I K \<equiv> guards (\<lambda>w. standing I K (w_db w)) (\<lambda>_. ())"

abbreviation site_upholds :: "uuid set \<Rightarrow> uuid set \<Rightarrow> (('r, 's, 'd) site, 'a) handler \<Rightarrow> bool" where
  "site_upholds I K \<equiv> guards (\<lambda>x. standing I K (si_db x)) (\<lambda>_. ())"

lemma standing_shape: "shape d' = shape d \<Longrightarrow> standing I K d' = standing I K d"
  using shape_reads [of d' d] by (simp add: standing_def)

lemma upholds_modify: "(\<And>d. standing I K d \<Longrightarrow> shape (g d) = shape d) \<Longrightarrow> upholds I K (modifyE g)"
  using standing_shape by (intro guards_modifyE conjI refl) blast

text \<open>What was read from the database still holds when the next step runs.\<close>

lemma guards_read:
  "(\<And>s a. I s \<Longrightarrow> g s = Inr a \<Longrightarrow> I (snd (k a s)) \<and> f (snd (k a s)) = f s) \<Longrightarrow> guards I f (bindE (liftE g) k)"
  by (simp add: guards_def handler_simps split: sum.split)

lemma guards_reads:
  "(\<And>s. I s \<Longrightarrow> I (snd (k (h s) s)) \<and> f (snd (k (h s) s)) = f s) \<Longrightarrow> guards I f (bindE (getsE h) k)"
  by (simp add: guards_def handler_simps)

lemma guards_atomicE [guards_intros]: "guards I f m \<Longrightarrow> guards I f (atomicE m)"
  by (auto simp: guards_def atomicE_run split: prod.split sum.split)

lemma guards_at: "guards I f m \<Longrightarrow> I s \<Longrightarrow> I (snd (m s)) \<and> f (snd (m s)) = f s"
  by (simp add: guards_def)

section \<open>Appended rows\<close>

lemma append_ok:
  "db_ok d \<Longrightarrow> u_id u \<notin> user_ids d \<Longrightarrow> u_email u \<notin> u_email ` set (users d) \<Longrightarrow> db_ok (users_update (\<lambda>t. t @ [u]) d)"
  "db_ok d \<Longrightarrow> rt_id r \<notin> rt_id ` set (refresh_tokens d) \<Longrightarrow> rt_token_hash r \<notin> rt_token_hash ` set (refresh_tokens d) \<Longrightarrow>
     rt_user_id r \<in> user_ids d \<Longrightarrow> db_ok (refresh_tokens_update (\<lambda>t. t @ [r]) d)"
  "db_ok d \<Longrightarrow> k_id k \<notin> k_id ` set (api_keys d) \<Longrightarrow> k_key_hash k \<notin> k_key_hash ` set (api_keys d) \<Longrightarrow>
     k_user_id k \<in> user_ids d \<Longrightarrow> db_ok (api_keys_update (\<lambda>t. t @ [k]) d)"
  "db_ok d \<Longrightarrow> j_id j \<notin> j_id ` set (jobs d) \<Longrightarrow> j_user_id j \<in> user_ids d \<Longrightarrow> db_ok (jobs_update (\<lambda>t. t @ [j]) d)"
  "db_ok d \<Longrightarrow> q_user_id q \<notin> q_user_id ` set (quotas d) \<Longrightarrow> q_user_id q \<in> user_ids d \<Longrightarrow>
     db_ok (quotas_update (\<lambda>t. t @ [q]) d)"
  "db_ok d \<Longrightarrow> e_id e \<notin> e_id ` set (endpoints d) \<Longrightarrow> e_route e \<notin> e_route ` set (endpoints d) \<Longrightarrow>
     e_user_id e \<in> user_ids d \<Longrightarrow> e_model_id e \<in> m_id ` set (models d) \<Longrightarrow> db_ok (endpoints_update (\<lambda>t. t @ [e]) d)"
  "db_ok d \<Longrightarrow> m_id m \<notin> m_id ` set (models d) \<Longrightarrow> version_key m \<notin> version_key ` set (models d) \<Longrightarrow>
     m_user_id m \<in> user_ids d \<Longrightarrow> db_ok (models_update (\<lambda>t. t @ [m]) d)"
  "db_ok d \<Longrightarrow> jl_job_id g \<in> j_id ` set (jobs d) \<Longrightarrow> db_ok (job_logs_update (\<lambda>t. t @ [g]) d)"
  "db_ok d \<Longrightarrow> ul_user_id l \<in> user_ids d \<Longrightarrow> ul_endpoint_id l \<in> e_id ` set (endpoints d) \<Longrightarrow>
     db_ok (usage_logs_update (\<lambda>t. t @ [l]) d)"
  by (simp_all add: db_ok_def keyed_def linked_def user_ids_def subset_insertI2)

section \<open>The handlers\<close>

lemma standing_found: "standing I K d \<Longrightarrow> u \<in> set (users d) \<Longrightarrow> standing (insert (u_id u) I) K d"
  by (simp add: standing_def user_ids_def)

lemma standing_less: "standing I K d \<Longrightarrow> I' \<subseteq> I \<Longrightarrow> K' \<subseteq> K \<Longrightarrow> standing I' K' d"
  by (auto simp: standing_def)

lemma guards_unit: "guards I f m \<Longrightarrow> guards I (\<lambda>_. ()) m"
  by (simp add: guards_def)

text \<open>The checks of a quota may append the row of the quota; the jobs and the models stay as they are.\<close>

abbreviation work :: "db \<Rightarrow> job list \<times> model list" where
  "work d \<equiv> (jobs d, models d)"

lemma quota_upholds: "u_id u \<in> I \<Longrightarrow> guards (standing I K) work (get_or_create_quota cfg u)"
  unfolding get_or_create_quota_def
proof (rule guards_read)
  fix d found
  assume "u_id u \<in> I" "standing I K d" "scalar_one_or_none (filter (\<lambda>q. q_user_id q = u_id u) (quotas d)) = Inr found"
  then show "standing I K (snd ((case found of Some q \<Rightarrow> returnE q
      | None \<Rightarrow> bindE (modifyE (quotas_update (\<lambda>t. t @ [default_quota cfg (u_id u)]))) (\<lambda>_. returnE (default_quota cfg (u_id u)))) d)) \<and>
      work (snd ((case found of Some q \<Rightarrow> returnE q
      | None \<Rightarrow> bindE (modifyE (quotas_update (\<lambda>t. t @ [default_quota cfg (u_id u)]))) (\<lambda>_. returnE (default_quota cfg (u_id u)))) d)) = work d"
    by (auto simp: handler_simps standing_def user_ids_def default_quota_def scalar_one_or_none_def filter_empty_conv
        intro!: append_ok(5) split: option.split list.splits)
qed

lemma usage_upholds: "guards (\<lambda>w. standing I K (w_db w)) (\<lambda>w. work (w_db w)) (current_usage R now u res)"
  unfolding current_usage_def by (intro guards_intros guards_on_db)

lemma enforce_upholds:
  "u_id u \<in> I \<Longrightarrow> guards (\<lambda>w. standing I K (w_db w)) (\<lambda>w. work (w_db w)) (enforce R cfg now now' u res amount)"
  unfolding enforce_def enforce_check_def enforce_consume_def
  by (intro guards_intros guards_on_db quota_upholds usage_upholds)

lemma my_quota_upholds:
  assumes "u_id u \<in> I"
  shows "world_upholds I K (get_my_quota R cfg now u)"
proof -
  have "guards (\<lambda>w. standing I K (w_db w)) (\<lambda>w. work (w_db w)) (snapshot_of R now u q rs)" for q rs
    by (induction rs) (simp_all, (intro guards_intros usage_upholds)+)
  moreover have "guards (\<lambda>w. standing I K (w_db w)) (\<lambda>w. work (w_db w)) (Redis_Client.on_db (get_or_create_quota cfg u))"
    by (rule guards_on_db [OF quota_upholds [OF assms]])
  ultimately show ?thesis
    unfolding get_my_quota_def usage_snapshot_def by (intro guards_unit [where f = "\<lambda>w. work (w_db w)"] guards_intros)
qed

text \<open>Jobs.\<close>

lemma commit_job_upholds:
  assumes "\<And>r. j_id (g r) = j_id r \<and> j_user_id (g r) = j_user_id r"
  shows "upholds I K (commit_job j g)"
  unfolding commit_job_def update_job_def
  by (intro guards_intros upholds_modify) (simp_all add: shape_def map_rows_update assms)

lemma submit_upholds:
  assumes w: "standing I K (w_db w)" and u: "u_id (p_user p) \<in> I" and fresh: "k \<notin> j_id ` set (jobs (w_db w))"
  shows "standing I K (w_db (snd (submit_job R cfg now k body p w)))"
proof -
  let ?j = "new_job now k (u_id (p_user p)) body"
  obtain r1 w1 where e1: "enforce R cfg now now (p_user p) CONCURRENT_JOBS 1 w = (r1, w1)" by fastforce
  obtain r2 w2 where e2: "enforce R cfg now now (p_user p) JOBS_PER_DAY 1 w1 = (r2, w2)" by fastforce
  note w1 = guards_run [OF enforce_upholds [OF u] w e1] and w2 = guards_run [OF enforce_upholds [OF u] _ e2]
  have s2: "standing I K (w_db w2)" "jobs (w_db w2) = jobs (w_db w)" using w1 w2 by auto
  let ?w3 = "w2\<lparr>w_db := jobs_update (\<lambda>t. t @ [?j]) (w_db w2)\<rparr>"
  have s3: "standing I K (w_db ?w3)"
    using s2 u fresh by (auto simp: standing_def user_ids_def intro!: append_ok(4))
  let ?rest = "bindE (\<lambda>w. case on_redis (enqueue_job R cfg (str_uuid k)) w of
       (Inr _, w') \<Rightarrow> (Inr ?j, w') | (Inl exc, w') \<Rightarrow> Redis_Client.on_db (commit_job ?j (enqueue_failed now exc)) w')
     (\<lambda>job'. liftE (\<lambda>_. to_job_response cfg job'))"
  have "world_upholds I K ?rest"
    by (intro guards_intros guards_on_db commit_job_upholds) (simp add: enqueue_failed_def)
  from guards_at [OF this s3] have s4: "standing I K (w_db (snd (?rest ?w3)))" ..
  show ?thesis
    using e1 e2 w1 s2(1) s4 by (cases r1; cases r2) (simp_all add: submit_job_def bindE_run Let_def Redis_Client.on_db_def modifyE_run)
qed

lemma cancel_upholds: "world_upholds I K (cancel_job R cfg now n p)"
  unfolding cancel_job_def cancel_loaded_def
  by (intro guards_intros guards_on_db commit_job_upholds) (simp_all add: guards_def own_job.get_owned_frame)

text \<open>Endpoints.\<close>

lemma commit_endpoint_upholds: "upholds I K (commit_endpoint old new)"
proof -
  have "standing I K (endpoints_update (rows_update P (write_changed old new)) d) = standing I K d" for P d
    by (rule standing_shape) (simp add: shape_def map_rows_update write_changed_def)
  then show ?thesis by (simp add: guards_def commit_endpoint_def)
qed

lemma mark_failed_upholds: "site_upholds I K (mark_failed V cfg ep msg)"
  unfolding mark_failed_def by (intro guards_intros guards_on_site_db commit_endpoint_upholds)

lemma activate_upholds: "site_upholds I K (activate_endpoint V S cfg fuel ep m)"
proof -
  have "site_upholds I K (activation_failed V cfg ep e)" for ep e
    unfolding activation_failed_def by (intro guards_intros mark_failed_upholds)
  note this [guards_intros]
  show ?thesis
    unfolding activate_endpoint_def Let_def fetch_and_start_def health_gate_def
    by (intro guards_intros guards_on_site_db commit_endpoint_upholds)
qed

lemma stop_upholds: "site_upholds I K (stop_endpoint V cfg now n p)"
  unfolding stop_endpoint_def stop_endpoint_runtime_def
  by (intro guards_intros guards_on_site_db commit_endpoint_upholds) (simp add: guards_def own_endpoint.get_owned_frame)

lemma add_endpoint_upholds: "e_user_id e \<in> I \<Longrightarrow> e_model_id e \<in> K \<Longrightarrow> upholds I K (add_endpoint e)"
  by (auto simp: guards_def add_endpoint_def standing_def user_ids_def intro!: append_ok(6))

lemma deploy_upholds:
  assumes u: "u_id (p_user p) \<in> I" and x: "standing I K (si_db x)"
  shows "standing I K (si_db (snd (deploy_model R V S cfg fuel now n k name p x)))"
proof (cases rule: own_model.get_owned_cases [of n p "si_db x"])
  case (1 e)
  with x show ?thesis by (simp add: deploy_model_def handler_simps on_site_db_run)
next
  case (2 m)
  let ?rest = "bindE (on_site_world (enforce R cfg now now (p_user p) LIVE_ENDPOINTS 1)) (\<lambda>_.
     let display_name = (case name of Some n \<Rightarrow> if n = [] then m_name m else n | None \<Rightarrow> m_name m);
         ep = new_endpoint now k m (u_id (p_user p)) display_name in
     bindE (on_site_db (add_endpoint ep)) (\<lambda>_.
     bindE (activate_endpoint V S cfg fuel ep m) (\<lambda>activated. returnE (to_endpoint_response activated))))"
  have "site_upholds I (insert (m_id m) K) ?rest"
    unfolding Let_def
    by (intro guards_intros guards_on_site_world guards_on_site_db guards_unit [OF enforce_upholds] add_endpoint_upholds activate_upholds u)
      (simp_all add: new_endpoint_def u)
  moreover have "standing I (insert (m_id m) K) (si_db x)" using x 2(2) by (simp add: standing_def)
  ultimately have "standing I (insert (m_id m) K) (si_db (snd (?rest x)))" by (simp add: guards_def)
  moreover have "deploy_model R V S cfg fuel now n k name p x = ?rest x"
    using 2(1) by (simp add: deploy_model_def bindE_run on_site_db_run)
  ultimately show ?thesis by (auto elim: standing_less)
qed

lemma predict_upholds:
  assumes "u_id (p_user p) \<in> I"
  shows "site_upholds I K (predict V cfg route body p)"
proof -
  have "upholds I K (add_usage_log l)" if "ul_user_id l \<in> I" for l
    using that by (auto simp: guards_def add_usage_log_def standing_def user_ids_def row_get_None intro!: append_ok(9))
  with assms show ?thesis
    unfolding predict_def by (intro guards_intros guards_on_site_db) simp_all
qed

text \<open>Models: the endpoints on a deleted model go with it, and so do their usage logs.\<close>

lemma delete_rows_ok: "db_ok d \<Longrightarrow> db_ok (delete_model_rows k d)"
  by (fastforce simp: db_ok_def keyed_def linked_def delete_model_rows_def Let_def distinct_map_filter user_ids_def image_subset_iff)

lemma delete_upholds: "guards (\<lambda>q. standing I {} (w_db (pl_world q))) (\<lambda>_. ()) (delete_model R S now n p)"
proof -
  have "upholds I {} (modifyE (delete_model_rows k))" for k
  proof (rule guards_modifyE)
    have "user_ids (delete_model_rows k d) = user_ids d" for d by (simp add: delete_model_rows_def Let_def user_ids_def)
    then show "standing I {} (delete_model_rows k d) \<and> () = ()" if "standing I {} d" for d
      using that by (simp add: standing_def delete_rows_ok)
  qed
  then show ?thesis
    unfolding delete_model_def release_def
    by (intro guards_intros guards_on_world guards_on_db) (simp add: guards_def own_model.get_owned_frame)
qed

text \<open>Sessions.\<close>

lemma put_token_shape:
  assumes "db_ok d" and "row \<in> set (refresh_tokens d)"
  shows "shape (refresh_tokens_update (row_put rt_id (row\<lparr>rt_revoked := True\<rparr>)) d) = shape d"
  using assms by (simp add: shape_def db_ok_def keyed_def map_row_put)

lemma revoke_shape:
  "shape (revoke_token_family fam d) = shape d" "shape (revoke_all_refresh_families i d) = shape d"
  by (simp_all add: shape_def revoke_token_family_def revoke_all_refresh_families_def map_rows_update)

lemma issue_upholds:
  assumes "standing I K (a_db s)" and "u_id u \<in> user_ids (a_db s)" and "d_row_id rnd \<notin> rt_id ` set (refresh_tokens (a_db s))"
    and "issue_refresh_token C cfg now rnd u fam s = (out, s')"
  shows "standing I K (a_db s')"
  using assms
  by (auto simp: issue_refresh_token_def handler_simps standing_def user_ids_def intro!: append_ok(2) split: if_splits)

lemma login_upholds:
  assumes "standing I K (a_db s)" and "d_row_id rnd \<notin> rt_id ` set (refresh_tokens (a_db s))"
  shows "standing I K (a_db (snd (login C cfg dummy now rnd email password s)))"
proof (cases "get_user_by_email (py_lower email) (a_db s)")
  case (Inl e)
  with assms(1) show ?thesis by (simp add: login_def handler_simps)
next
  case (Inr found)
  show ?thesis
  proof (cases found)
    case None
    with Inr assms(1) show ?thesis by (simp add: login_def handler_simps split: sum.split)
  next
    case (Some u)
    with Inr have "u_id u \<in> user_ids (a_db s)"
      by (auto simp: get_user_by_email_def user_ids_def dest: scalar_one_filterD)
    from issue_upholds [OF assms(1) this assms(2)] Inr Some assms(1) show ?thesis
      by (auto simp: login_def set_refresh_cookie_def handler_simps Let_def split: sum.split prod.split)
  qed
qed

lemma refresh_row_upholds:
  assumes s: "standing I K (a_db s)" and "d_row_id rnd \<notin> rt_id ` set (refresh_tokens (a_db s))"
    and row: "row \<in> set (refresh_tokens (a_db s))"
  shows "standing I K (a_db (snd (refresh_with_row C cfg now rnd row s)))"
proof -
  let ?s = "a_db_update (refresh_tokens_update (row_put rt_id (row\<lparr>rt_revoked := True\<rparr>))) s"
  have put: "shape (a_db ?s) = shape (a_db s)" using put_token_shape [OF _ row] s by (simp add: standing_def)
  have sput: "standing I K (a_db ?s)" using s standing_shape [OF put] by simp
  have ids: "d_row_id rnd \<notin> rt_id ` set (refresh_tokens (a_db ?s))"
    using put assms(2) by (simp add: shape_def image_set del: set_map)
  have owner: "u_id u \<in> user_ids (a_db ?s)" if "row_get u_id i (users (a_db s)) = Some u" for u i
    using row_get_Some [OF that] by (auto simp: user_ids_def)
  have "standing I K (revoke_token_family fam (a_db s))" for fam
    using s standing_shape [OF revoke_shape(1)] by simp
  with s sput issue_upholds [OF sput owner ids] show ?thesis
    by (auto simp: refresh_with_row_def clear_refresh_cookie_def set_refresh_cookie_def handler_simps Let_def
        split: sum.split prod.split option.split)
qed

lemma refresh_upholds:
  assumes "standing I K (a_db s)" and "d_row_id rnd \<notin> rt_id ` set (refresh_tokens (a_db s))"
  shows "standing I K (a_db (snd (refresh_session C cfg now rnd cookie s)))"
  using assms refresh_row_upholds [OF assms]
  by (auto simp: refresh_session_def get_refresh_token_row_def handler_simps dest: scalar_one_filterD
      split: sum.split option.split)

lemma logout_upholds: "standing I K (a_db s) \<Longrightarrow> standing I K (a_db (snd (logout C cfg cookie s)))"
  using standing_shape [OF revoke_shape(1)]
  by (auto simp: logout_def clear_refresh_cookie_def handler_simps split: sum.split option.split)

lemma password_upholds:
  assumes "standing I K (a_db s)" and "u \<in> set (users (a_db s))"
  shows "standing I K (a_db (snd (change_password C salt u old_password new_password s)))"
proof -
  have "shape (revoke_all_refresh_families i (users_update (row_put u_id (u\<lparr>u_password_hash := h, u_must_change_password := b\<rparr>)) (a_db s))) =
      shape (a_db s)" for i h b
    unfolding revoke_shape using assms by (simp add: shape_def standing_def db_ok_def keyed_def map_row_put)
  from standing_shape [OF this] have "standing I K (revoke_all_refresh_families i
      (users_update (row_put u_id (u\<lparr>u_password_hash := h, u_must_change_password := b\<rparr>)) (a_db s)))" for i h b
    using assms(1) by simp
  with assms(1) show ?thesis by (simp add: change_password_def handler_simps split: sum.split)
qed

text \<open>Keys and accounts.\<close>

lemma create_key_upholds:
  assumes "standing I K d" and "u_id u \<in> user_ids d" and "k \<notin> k_id ` set (api_keys d)"
  shows "standing I K (snd (create_api_key C random k now u body d))"
  using assms
  by (auto simp: create_api_key_def handler_simps Let_def standing_def user_ids_def intro!: append_ok(3)
      split: sum.split prod.split)

lemma revoke_key_upholds:
  assumes "standing I K d"
  shows "standing I K (snd (revoke_api_key u k d))"
proof -
  have "standing I K (api_keys_update (row_put k_id (r\<lparr>k_revoked := True\<rparr>)) d)" if "r \<in> set (api_keys d)" for r
    using assms that by (subst standing_shape [of _ d]) (simp_all add: shape_def standing_def db_ok_def keyed_def map_row_put)
  with assms show ?thesis
    by (auto simp: revoke_api_key_def handler_simps dest: scalar_one_filterD split: sum.split option.split)
qed

lemma create_user_upholds:
  assumes "standing I K d" and "i \<notin> user_ids d"
  shows "standing I K (snd (create_user C salt temporary i now email role d))"
  using assms
  by (auto simp: create_user_def handler_simps Let_def standing_def user_ids_def scalar_one_or_none_def filter_empty_conv
      intro!: append_ok(1) split: sum.split list.splits)

lemma disable_upholds:
  assumes "standing I K d"
  shows "standing I K (snd (disable_user admin i d))"
proof -
  have "standing I K (users_update (row_put u_id (r\<lparr>u_disabled := True\<rparr>)) d)" if "r \<in> set (users d)" for r
    using assms that by (subst standing_shape [of _ d]) (simp_all add: shape_def standing_def db_ok_def keyed_def map_row_put)
  with assms show ?thesis
    by (auto simp: disable_user_def handler_simps dest: scalar_one_filterD split: sum.split option.split)
qed

lemma apply_updates_user: "apply_updates us q = Inr q' \<Longrightarrow> q_user_id q' = q_user_id q"
proof (induction us q rule: apply_updates.induct)
  case (3 res v rest q)
  then show ?case by (cases res) auto
qed auto

lemma patch_upholds:
  assumes "standing I K d"
  shows "standing I K (snd (patch_user_quota cfg i body d))"
proof (cases "scalar_one_or_none (filter (\<lambda>u. u_id u = i) (users d))")
  case (Inl e)
  with assms show ?thesis by (simp add: patch_user_quota_def handler_simps)
next
  case (Inr found)
  show ?thesis
  proof (cases found)
    case None
    with Inr assms show ?thesis by (simp add: patch_user_quota_def handler_simps)
  next
    case (Some target)
    with Inr have t: "target \<in> set (users d)" by (auto dest: scalar_one_filterD)
    have "upholds (insert (u_id target) I) K (modifyE (quotas_update (row_put q_user_id q')))" for q'
      by (rule upholds_modify) (auto simp: shape_def row_put_def)
    then have "upholds (insert (u_id target) I) K (bindE (get_or_create_quota cfg target) (\<lambda>q.
        bindE (liftE (\<lambda>_. apply_updates (patch_updates body) q)) (\<lambda>q'.
        bindE (modifyE (quotas_update (row_put q_user_id q'))) (\<lambda>_. returnE (limits_response q')))))"
      by (intro guards_intros guards_unit [OF quota_upholds]) simp_all
    from guards_at [OF this standing_found [OF assms t]] Inr Some assms show ?thesis
      by (auto simp: patch_user_quota_def bindE_run liftE_run raiseE_run elim: standing_less)
  qed
qed

section \<open>Every call\<close>

text \<open>The identifiers a call draws are not in use.\<close>

definition fresh_draws :: "('r, 's, 'd) api_env \<Rightarrow> db \<Rightarrow> bool" where
  "fresh_draws E d \<longleftrightarrow> en_uuid E \<notin> user_ids d \<union> k_id ` set (api_keys d) \<union> j_id ` set (jobs d) \<and>
     d_row_id (en_draw E) \<notin> rt_id ` set (refresh_tokens d)"

text \<open>A guard, granting or refusing, leaves the keys as they are.\<close>

lemma forget_shape [simp]: "shape (forget_touches d) = shape d"
  by (simp add: shape_def forget_touches_def comp_def)

lemma authorise_shape: "authorise E g d = (out, d') \<Longrightarrow> shape d' = shape d"
  using keeps_run [OF authorise_forgotten, of E g d out d'] forget_shape by metis

lemma on_auth_db: "si_db (snd (on_auth m x)) = a_db (snd (m \<lparr>a_db = si_db x, a_cookie = NoCookie\<rparr>))"
  by (simp add: on_auth_def split: prod.split sum.split)

lemma on_site_dbs:
  "si_db (snd (on_site_db m x)) = snd (m (si_db x))" "si_db (snd (on_site_world m' x)) = w_db (snd (m' (si_world x)))"
  by (simp_all add: on_site_db_run on_site_world_run split: prod.split)

lemma public_upholds:
  assumes "guard_of call = Public" and "standing I K (si_db x)" and "fresh_draws E (si_db x)"
  shows "standing I K (si_db (snd (dispatch E call x)))"
proof -
  let ?s = "\<lparr>a_db = si_db x, a_cookie = NoCookie\<rparr>"
  have s: "standing I K (a_db ?s)" "d_row_id (en_draw E) \<notin> rt_id ` set (refresh_tokens (a_db ?s))"
    using assms(2,3) by (simp_all add: fresh_draws_def)
  show ?thesis
    using assms(1,2) login_upholds [OF s] refresh_upholds [OF s] logout_upholds [OF s(1)]
    by (cases call) (simp_all add: snd_simps returnE_run on_auth_db raiseE_run split: option.split)
qed

lemma read_frames:
  "snd (list_api_keys u d) = d" "snd (list_jobs cfg st limit offset p d) = d" "snd (get_job cfg n p d) = d"
  "snd (list_models p limit offset d) = d" "snd (get_model n p d) = d" "snd (list_endpoints p limit offset d) = d"
  "snd (list_users limit offset d) = d"
  using own_job.get_owned_frame [of n p d] own_model.get_owned_frame [of n p d]
  by (auto simp: list_api_keys_def list_jobs_def get_job_def list_models_def get_model_def list_endpoints_def list_users_def
      handler_simps split: prod.split sum.split)

lemma download_upholds: "site_upholds I K (on_registry (download_model S n p))"
  unfolding download_model_def
  by (intro guards_on_registry guards_intros guards_on_world guards_on_db) (simp add: guards_def own_model.get_owned_frame)

lemma guarded_upholds:
  assumes "guard_of call \<noteq> Public" and run: "authorise E (guard_of call) (si_db x) = (Inr p, d)"
    and x1: "x1 = x\<lparr>si_world := si_world x\<lparr>w_db := d\<rparr>\<rparr>" and ok: "db_ok (si_db x1)" and fresh: "fresh_draws E (si_db x1)"
    and user: "p_user p \<in> set (users (si_db x1))"
  shows "db_ok (si_db (snd (dispatch E call x)))"
proof -
  let ?i = "u_id (p_user p)"
  have s: "standing {?i} {} (si_db x1)" "standing {} {} (si_db x1)" "?i \<in> user_ids (si_db x1)"
    using ok user by (simp_all add: standing_def user_ids_def)
  have w: "standing {?i} {} (w_db (si_world x1))" using s(1) by simp
  have f: "en_uuid E \<notin> user_ids (si_db x1)" "en_uuid E \<notin> k_id ` set (api_keys (si_db x1))" "en_uuid E \<notin> j_id ` set (jobs (si_db x1))"
    using fresh by (simp_all add: fresh_draws_def)
  have db_okI: "db_ok e" if "standing I K e" for I K e using that by (simp add: standing_def)
  note g = granted [OF x1]
  note db = create_key_upholds [OF s(1,3) f(2), THEN db_okI] revoke_key_upholds [OF s(1), THEN db_okI]
    create_user_upholds [OF s(1) f(1), THEN db_okI] disable_upholds [OF s(1), THEN db_okI] patch_upholds [OF s(1), THEN db_okI]
  have pw: "standing {?i} {} (a_db \<lparr>a_db = si_db x1, a_cookie = NoCookie\<rparr>)"
    "p_user p \<in> set (users (a_db \<lparr>a_db = si_db x1, a_cookie = NoCookie\<rparr>))"
    using s(1) user by simp_all
  have p: "?i \<in> {?i}" by simp
  have jobs: "en_uuid E \<notin> j_id ` set (jobs (w_db (si_world x1)))" using f(3) by simp
  have pl: "standing {} {} (w_db (pl_world \<lparr>pl_world = si_world x1, pl_store = si_store x1\<rparr>))" using s(2) by simp
  note wd = guards_at [OF my_quota_upholds [OF p] w, THEN conjunct1, THEN db_okI]
    guards_at [OF cancel_upholds w, THEN conjunct1, THEN db_okI] submit_upholds [OF w p jobs, THEN db_okI]
  note site = guards_at [OF predict_upholds [OF p] s(1), THEN conjunct1, THEN db_okI]
    guards_at [OF stop_upholds s(1), THEN conjunct1, THEN db_okI] deploy_upholds [OF p s(1), THEN db_okI]
    guards_at [OF download_upholds s(1), THEN conjunct1, THEN db_okI]
    guards_at [OF guards_on_registry [OF delete_upholds] s(2), THEN conjunct1, THEN db_okI]
  show ?thesis
    using run assms(1)
    by (cases call) (simp_all add: g snd_simps returnE_run on_auth_db on_site_dbs read_frames db wd site ok
      password_upholds [OF pw, THEN db_okI] split: option.split)
qed

text \<open>Every call, whoever makes it and however it ends, keeps the database whole.\<close>

lemma dispatch_upholds:
  assumes ok: "db_ok (si_db x)" and fresh: "fresh_draws E (si_db x)" and run: "dispatch E call x = (out, x')"
  shows "db_ok (si_db x')"
proof (cases "guard_of call = Public")
  case True
  from public_upholds [OF True _ fresh, of "{}" "{}"] ok run show ?thesis by (simp add: standing_def)
next
  case False
  obtain k where k: "dispatch E call = bindE (on_site_db (authorise E (guard_of call))) (\<lambda>p. plain (k p))"
    using dispatch_guarded [OF False] .
  obtain r d where g: "authorise E (guard_of call) (si_db x) = (r, d)" by fastforce
  note same = authorise_shape [OF g]
  have d: "db_ok d" using ok shape_reads(1) [OF same] by simp
  show ?thesis
  proof (cases r)
    case (Inl e)
    with run k g d show ?thesis by (auto simp: bindE_run on_site_db_run)
  next
    case (Inr p)
    from same have cols: "map u_id (users d) = map u_id (users (si_db x))" "map k_id (api_keys d) = map k_id (api_keys (si_db x))"
      "map j_id (jobs d) = map j_id (jobs (si_db x))" "map rt_id (refresh_tokens d) = map rt_id (refresh_tokens (si_db x))"
      by (simp_all add: shape_def)
    have "fresh_draws E d"
      using fresh unfolding fresh_draws_def user_ids_def image_set cols .
    moreover have "users d = users (si_db x)"
      using g Inr touched_simps(1) [OF authorise_touched] by simp
    moreover have "p_user p \<in> set (users (si_db x))"
      using authorise_sound [of E _ "si_db x" p d] g Inr by (auto simp: credentials_of_def)
    ultimately show ?thesis
      using guarded_upholds [OF False _ refl, of E x p d] g Inr d run by simp
  qed
qed

section \<open>The worker and the script\<close>

lemma guards_frame: "guards I f m \<Longrightarrow> guards (\<lambda>s. I s \<and> P (f s)) (\<lambda>_. ()) m"
  by (simp add: guards_def)

text \<open>From a state where \<open>I\<close> holds, \<open>m\<close> ends in one where \<open>J\<close> does.\<close>

definition ends :: "('s \<Rightarrow> bool) \<Rightarrow> ('s \<Rightarrow> bool) \<Rightarrow> ('s, 'a) handler \<Rightarrow> bool" where
  "ends I J m \<longleftrightarrow> (\<forall>s. I s \<longrightarrow> J (snd (m s)))"

lemma ends_bindE:
  assumes "guards I f m" and "\<And>a. ends I J (k a)" and "\<And>s. I s \<Longrightarrow> J s"
  shows "ends I J (bindE m k)"
  unfolding ends_def
proof (intro allI impI)
  fix s assume s: "I s"
  obtain out s' where r: "m s = (out, s')" by fastforce
  with guards_run [OF assms(1) s] assms(2,3) show "J (snd (bindE m k s))"
    by (cases out) (simp_all add: bindE_run ends_def)
qed

lemma update_job_standing:
  assumes "\<And>r. j_id (g r) = j_id r \<and> j_user_id (g r) = j_user_id r"
  shows "standing I K (update_job i g d) = standing I K d" "j_id ` set (jobs (update_job i g d)) = j_id ` set (jobs d)"
proof -
  show "standing I K (update_job i g d) = standing I K d"
    by (rule standing_shape) (simp add: shape_def update_job_def map_rows_update assms)
  have "map j_id (jobs (update_job i g d)) = map j_id (jobs d)" by (simp add: update_job_def map_rows_update assms)
  then show "j_id ` set (jobs (update_job i g d)) = j_id ` set (jobs d)" by (simp only: image_set)
qed

lemma log_standing:
  "standing I K d \<Longrightarrow> jl_job_id g \<in> j_id ` set (jobs d) \<Longrightarrow> standing I K (job_logs_update (\<lambda>t. t @ [g]) d)"
  by (auto simp: standing_def user_ids_def intro!: append_ok(8))

lemma finalize_upholds: "upholds I K (finalize_job now i st code msg log_tail run artifact)"
  unfolding finalize_job_def load_job_def
proof (rule guards_reads)
  fix d assume d: "standing I K d"
  let ?g = "finalized now st code msg run artifact"
  have g: "j_id (?g r) = j_id r \<and> j_user_id (?g r) = j_user_id r" for r by (simp add: finalized_def)
  have log: "standing I K (job_logs_update (\<lambda>t. t @ [\<lparr>jl_job_id = j_id j, jl_content = log_tail\<rparr>]) (update_job (j_id j) ?g d))"
    if "row_get j_id i (jobs d) = Some j" for j
  proof -
    have "j_id j \<in> j_id ` set (jobs (update_job (j_id j) ?g d))"
      using row_get_Some [OF that] update_job_standing(2) [OF g] by auto
    with d update_job_standing(1) [OF g] show ?thesis by (intro log_standing) simp_all
  qed
  show "standing I K (snd ((case row_get j_id i (jobs d) of None \<Rightarrow> returnE () | Some j \<Rightarrow> atomicE
      (bindE (commit_job j ?g) (\<lambda>_. whenE (log_tail \<noteq> []) (modifyE (job_logs_update (\<lambda>t. t @ [\<lparr>jl_job_id = j_id j, jl_content = log_tail\<rparr>])))))) d)) \<and> () = ()"
    using d log update_job_standing(1) [OF g]
    by (simp add: commit_job_def handler_simps split: option.split)
qed

lemma mark_running_upholds: "upholds I K (mark_job_running now i host)"
  unfolding mark_job_running_def load_job_def by (intro guards_intros commit_job_upholds) simp_all

lemma reap_upholds: "upholds I K (reap_zombie_jobs now host)"
proof -
  have "standing I K (jobs_update g d) = standing I K d"
    if "\<And>t. map j_id (g t) = map j_id t \<and> map j_user_id (g t) = map j_user_id t" for g d
    by (rule standing_shape) (simp add: shape_def that)
  then show ?thesis by (simp add: guards_def reap_zombie_jobs_def Let_def map_rows_update)
qed

lemma admin_script_upholds:
  assumes "standing I K d" and "i \<notin> user_ids d"
  shows "standing I K (snd (create_admin_main C salt i now email password d))"
  using assms
  by (auto simp: create_admin_main_def handler_simps Let_def standing_def user_ids_def scalar_one_or_none_def filter_empty_conv
      intro!: append_ok(1) split: sum.split list.splits)

text \<open>Storing outputs inserts a model row, whose version is new to its user and name.\<close>

lemma guards_refused:
  assumes "guards I f m"
  shows "guards I f (\<lambda>p. case m p of
       (Inl (QuotaExceededError detail quota limit current), p') \<Rightarrow> (Inr (Some detail), p')
     | (Inl e, p') \<Rightarrow> (Inl e, p') | (Inr _, p') \<Rightarrow> (Inr None, p'))"
  unfolding guards_def
proof (intro allI impI)
  fix s assume s: "I s"
  obtain out s' where r: "m s = (out, s')" by fastforce
  from guards_run [OF assms s r] show "I (snd (case m s of
       (Inl (QuotaExceededError detail quota limit current), p') \<Rightarrow> (Inr (Some detail), p')
     | (Inl e, p') \<Rightarrow> (Inl e, p') | (Inr _, p') \<Rightarrow> (Inr None, p'))) \<and> f (snd (case m s of
       (Inl (QuotaExceededError detail quota limit current), p') \<Rightarrow> (Inr (Some detail), p')
     | (Inl e, p') \<Rightarrow> (Inl e, p') | (Inr _, p') \<Rightarrow> (Inr None, p'))) = f s"
    unfolding r by (cases out; cases "projl out") simp_all
qed

lemma add_model_upholds:
  "standing I K d \<Longrightarrow> m_id m \<notin> m_id ` set (models d) \<Longrightarrow> m_user_id m \<in> I \<Longrightarrow> standing I K (snd (add_model m d))"
  by (auto simp: add_model_def standing_def user_ids_def version_key_def intro!: append_ok(7))

lemma ends_at: "ends I J m \<Longrightarrow> I s \<Longrightarrow> J (snd (m s))"
  by (simp add: ends_def)

lemma ends_option: "ends I J m \<Longrightarrow> (\<And>a. ends I J (k a)) \<Longrightarrow> ends I J (case x of None \<Rightarrow> m | Some a \<Rightarrow> k a)"
  by (simp split: option.split)

lemma ends_return: "(\<And>s. I s \<Longrightarrow> J s) \<Longrightarrow> ends I J (returnE a)"
  by (simp add: ends_def returnE_run)

lemma read_run: "bindE (on_world (Redis_Client.on_db (getsE h))) k q = k (h (pl_db q)) q"
  by (simp add: handler_simps Redis_Client.on_db_def)

lemma promote_upholds:
  fixes q :: "('r, 's) platform"
  assumes s: "standing {} {} (pl_db q)" and fresh: "model_id \<notin> m_id ` set (models (pl_db q))"
  shows "standing {} {} (pl_db (snd (promote_outputs R S cfg now model_id job_id i name out fw q)))"
proof (cases "out = None \<or> out = Some [] \<or> row_get u_id i (users (pl_db q)) = None")
  case True
  with s show ?thesis by (auto simp: promote_outputs_def handler_simps Let_def Redis_Client.on_db_def split: option.split)
next
  case False
  then obtain files u where out: "out = Some files" "files \<noteq> []" and u: "row_get u_id i (users (pl_db q)) = Some u" by auto
  let ?P = "\<lambda>q. standing {i} {} (pl_db q) \<and> model_id \<notin> m_id ` set (snd (work (pl_db q)))"
  let ?I = "\<lambda>q. standing {i} {} (pl_db q)"
  have i: "u_id u = i" "?P q" using row_get_Some [OF u] s fresh by (auto simp: standing_def user_ids_def)
  note frame = guards_frame [where P = "\<lambda>w. model_id \<notin> m_id ` set (snd w)"]
  have quota: "guards ?I (\<lambda>q. work (pl_db q)) (on_world (enforce R cfg now now u STORAGE_MB n))" for n
    by (rule guards_on_world [OF enforce_upholds]) (simp add: i)
  have add: "ends ?P ?I (bindE (on_world (Redis_Client.on_db (add_model m))) (\<lambda>m. returnE (Some m, None)))"
    if "m_id m = model_id" "m_user_id m = i" for m
    using that add_model_upholds [of "{i}" "{}" _ m]
    by (simp add: ends_def snd_simps on_world_run Redis_Client.on_db_def split: prod.split) (metis snd_conv)
  have reads: "guards ?P (\<lambda>_. ()) (on_world (Redis_Client.on_db (getsE h)))" for h :: "db \<Rightarrow> int"
    by (simp add: guards_def handler_simps Redis_Client.on_db_def)
  have writes: "guards ?P (\<lambda>_. ()) (on_store m)" for m :: "('s, unit) handler"
    by (simp add: guards_def on_store_run)
  have "?I (snd (promote_outputs R S cfg now model_id job_id i name out fw q))"
    unfolding promote_outputs_def out(1) option.case Let_def if_not_P [OF out(2)] read_run [of _ _ q] u
    by (rule ends_at [OF ends_bindE [OF frame [OF guards_refused [OF quota]]] i(2)])
      (rule ends_option ends_return ends_bindE [OF reads] ends_bindE [OF writes] add | simp)+
  then show ?thesis by (auto elim: standing_less)
qed

lemma reconcile_upholds: "site_upholds I K (reconcile_vanished_containers V cfg)"
proof -
  have each: "site_upholds I K (reconcile_each V cfg eps)" for eps
    by (induction eps) (simp_all only: reconcile_each.simps Let_def, (intro guards_intros | assumption)+)
  have all: "upholds I K (commit_vanished eps)" for eps
    by (induction eps) (simp_all, (intro guards_intros commit_endpoint_upholds | simp)+)
  show ?thesis
    unfolding reconcile_vanished_containers_def by (intro guards_intros guards_on_site_db each all)
qed

section \<open>Runs of the platform\<close>

text \<open>
  Calls of any client, the transactions of the worker, the start of the API and the script that creates
  the first admin, in any order; what else happens, to Redis, the bucket, the disk or the containers,
  leaves the database alone.
\<close>

inductive platform_run :: "('r, 's, 'd) site \<Rightarrow> ('r, 's, 'd) site \<Rightarrow> bool" where
  run_refl: "platform_run x x"
| run_call: "platform_run x y \<Longrightarrow> fresh_draws E (si_db y) \<Longrightarrow> dispatch E call y = (out, z) \<Longrightarrow> platform_run x z"
| run_start: "platform_run x y \<Longrightarrow> on_site_db (mark_job_running now i host) y = (out, z) \<Longrightarrow> platform_run x z"
| run_finish: "platform_run x y \<Longrightarrow>
    on_site_db (finalize_job now i st code msg log_tail run artifact) y = (out, z) \<Longrightarrow> platform_run x z"
| run_reap: "platform_run x y \<Longrightarrow> on_site_db (reap_zombie_jobs now host) y = (out, z) \<Longrightarrow> platform_run x z"
| run_promote: "platform_run x y \<Longrightarrow> k \<notin> m_id ` set (models (si_db y)) \<Longrightarrow>
    on_registry (promote_outputs R S cfg now k i u name files fw) y = (out, z) \<Longrightarrow> platform_run x z"
| run_reconcile: "platform_run x y \<Longrightarrow> reconcile_vanished_containers V cfg y = (out, z) \<Longrightarrow> platform_run x z"
| run_script: "platform_run x y \<Longrightarrow> k \<notin> user_ids (si_db y) \<Longrightarrow>
    on_site_db (create_admin_main C salt k now email password) y = (out, z) \<Longrightarrow> platform_run x z"
| run_other: "platform_run x y \<Longrightarrow> si_db z = si_db y \<Longrightarrow> platform_run x z"

lemma db_ok_standing: "db_ok d \<longleftrightarrow> standing {} {} d"
  by (simp add: standing_def)

lemma upholds_run: "upholds {} {} m \<Longrightarrow> on_site_db m y = (out, z) \<Longrightarrow> db_ok (si_db y) \<Longrightarrow> db_ok (si_db z)"
  by (auto simp: db_ok_standing on_site_db_run guards_def)


text \<open>So what the theorems on single calls ask of the database holds wherever a run leads.\<close>

lemma db_ok_apart:
  assumes "db_ok d"
  shows "distinct (map u_id (users d))" "distinct (map u_email (users d))" "distinct (map k_key_hash (api_keys d))"
    "distinct (map q_user_id (quotas d))" "distinct (map e_route (endpoints d))"
    "k \<notin> j_id ` set (jobs d) \<Longrightarrow> k \<notin> e_id ` set (endpoints d) \<Longrightarrow> told_apart k d"
  using assms by (simp_all add: db_ok_def keyed_def told_apart_def)

lemma empty_db_ok: "db_ok empty_db"
  by (simp add: db_ok_def keyed_def linked_def empty_db_def)


end
