(* ===== verification/Privacy.thy ===== *)
theory Privacy
  imports Isolation
begin

text \<open>
  What a caller can learn: the routes that read jobs, models, endpoints, keys and the own account answer
  a caller who is not an admin from the caller's own rows alone.
\<close>

section \<open>The own rows\<close>

definition own :: "uuid \<Rightarrow> db \<Rightarrow> db" where
  "own i d = \<lparr>users = filter (\<lambda>u. u_id u = i) (users d), refresh_tokens = filter (\<lambda>r. rt_user_id r = i) (refresh_tokens d),
     api_keys = filter (\<lambda>k. k_user_id k = i) (api_keys d), jobs = filter (\<lambda>j. j_user_id j = i) (jobs d), job_logs = [],
     quotas = filter (\<lambda>q. q_user_id q = i) (quotas d), models = filter (\<lambda>m. m_user_id m = i) (models d),
     endpoints = filter (\<lambda>e. e_user_id e = i) (endpoints d), usage_logs = filter (\<lambda>l. ul_user_id l = i) (usage_logs d)\<rparr>"

fun reads_own :: "api_call \<Rightarrow> bool" where
  "reads_own Me \<longleftrightarrow> True"
| "reads_own ListKeys \<longleftrightarrow> True"
| "reads_own (ListJobs _ _ _) \<longleftrightarrow> True"
| "reads_own (GetJob _) \<longleftrightarrow> True"
| "reads_own (ListModels _ _) \<longleftrightarrow> True"
| "reads_own (GetModel _) \<longleftrightarrow> True"
| "reads_own (DownloadModel _) \<longleftrightarrow> True"
| "reads_own (ListEndpoints _ _) \<longleftrightarrow> True"
| "reads_own MyQuota \<longleftrightarrow> True"
| "reads_own _ \<longleftrightarrow> False"

lemma row_get_own:
  assumes "distinct (map key t)"
  shows "row_get key k (filter P t) = (case row_get key k t of Some r \<Rightarrow> if P r then Some r else None | None \<Rightarrow> None)"
  using assms
proof (induction t)
  case (Cons a t)
  then have "row_get key k t = None" if "key a = k" using that by (simp add: row_get_None)
  with Cons show ?case by (auto simp: row_get_Cons split: option.split)
qed simp

context owned_resource
begin

text \<open>The check finds a row exactly when it is among the caller's own.\<close>

lemma get_owned_own:
  assumes "distinct (map rid (rows d))" and "u_role (p_user p) \<noteq> RoleAdmin"
  shows "fst (get_owned i p d) =
    (case row_get rid i (filter (\<lambda>r. owner r = u_id (p_user p)) (rows d)) of Some r \<Rightarrow> Inr r | None \<Rightarrow> Inl missing)"
  using assms
  by (auto simp: get_owned_decides row_get_own visible_to_def split: option.split)

end

lemma fst_bind_return: "fst (bindE m (\<lambda>a. returnE (g a)) s) = (case fst (m s) of Inl e \<Rightarrow> Inl e | Inr a \<Rightarrow> Inr (g a))"
  by (simp add: bindE_run returnE_run split: prod.split sum.split)

lemma fst_bind_lift: "fst (bindE m (\<lambda>a. liftE (\<lambda>_. g a)) s) = (case fst (m s) of Inl e \<Rightarrow> Inl e | Inr a \<Rightarrow> g a)"
  by (simp add: bindE_run liftE_run split: prod.split sum.split)

lemma filter_more:
  assumes "filter P xs = filter P ys"
  shows "filter (\<lambda>x. P x \<and> Q x) xs = filter (\<lambda>x. P x \<and> Q x) ys"
proof -
  have each: "filter (\<lambda>x. P x \<and> Q x) zs = filter Q (filter P zs)" for zs by (induction zs) auto
  show ?thesis unfolding each assms ..
qed

lemma fst_plain: "fst (plain m x) = (case fst (m x) of Inl e \<Rightarrow> Inl e | Inr r \<Rightarrow> Inr (r, NoCookie))"
  unfolding plain_def by (rule fst_bind_return)

text \<open>The handlers' answers, from the own rows.\<close>

lemma get_job_own:
  assumes "distinct (map j_id (jobs d))" and "distinct (map j_id (jobs e))" and "u_role (p_user p) \<noteq> RoleAdmin"
    and "jobs (own (u_id (p_user p)) d) = jobs (own (u_id (p_user p)) e)"
  shows "fst (get_job cfg n p d) = fst (get_job cfg n p e)"
proof -
  have "fst (get_owned_job n p d) = fst (get_owned_job n p e)"
    using assms by (simp add: own_job.get_owned_own own_def)
  then show ?thesis by (simp add: get_job_def fst_bind_lift)
qed

lemma get_model_own:
  assumes "distinct (map m_id (models d))" and "distinct (map m_id (models e))" and "u_role (p_user p) \<noteq> RoleAdmin"
    and "models (own (u_id (p_user p)) d) = models (own (u_id (p_user p)) e)"
  shows "fst (get_model n p d) = fst (get_model n p e)"
proof -
  have "fst (get_owned_model n p d) = fst (get_owned_model n p e)"
    using assms by (simp add: own_model.get_owned_own own_def)
  then show ?thesis by (simp add: get_model_def fst_bind_return)
qed

lemma list_own:
  "jobs (own (u_id (p_user p)) d) = jobs (own (u_id (p_user p)) e) \<Longrightarrow>
     fst (list_jobs cfg st limit offset p d) = fst (list_jobs cfg st limit offset p e)"
  "models (own (u_id (p_user p)) d) = models (own (u_id (p_user p)) e) \<Longrightarrow>
     fst (list_models p limit offset d) = fst (list_models p limit offset e)"
  "endpoints (own (u_id (p_user p)) d) = endpoints (own (u_id (p_user p)) e) \<Longrightarrow>
     fst (list_endpoints p limit offset d) = fst (list_endpoints p limit offset e)"
  "api_keys (own (u_id u) d) = api_keys (own (u_id u) e) \<Longrightarrow> fst (list_api_keys u d) = fst (list_api_keys u e)"
proof -
  assume "jobs (own (u_id (p_user p)) d) = jobs (own (u_id (p_user p)) e)"
  then have j: "filter (\<lambda>j. j_user_id j = u_id (p_user p) \<and> Q j) (jobs d) = filter (\<lambda>j. j_user_id j = u_id (p_user p) \<and> Q j) (jobs e)"
    for Q by (intro filter_more) (simp add: own_def)
  show "fst (list_jobs cfg st limit offset p d) = fst (list_jobs cfg st limit offset p e)"
    unfolding list_jobs_def by (simp only: handler_simps fst_conv Let_def j split: if_split) simp
qed (simp_all add: list_models_def list_endpoints_def list_api_keys_def own_def handler_simps)

lemma download_own:
  assumes "distinct (map m_id (models (si_db x)))" and "distinct (map m_id (models (si_db y)))" and "u_role (p_user p) \<noteq> RoleAdmin"
    and "models (own (u_id (p_user p)) (si_db x)) = models (own (u_id (p_user p)) (si_db y))" and store: "si_store x = si_store y"
  shows "fst (on_registry (download_model S n p) x) = fst (on_registry (download_model S n p) y)"
proof -
  have "fst (get_owned_model n p (si_db x)) = fst (get_owned_model n p (si_db y))"
    using assms(1-4) by (simp add: own_model.get_owned_own own_def)
  then obtain r where "get_owned_model n p (si_db x) = (r, si_db x)" "get_owned_model n p (si_db y) = (r, si_db y)"
    using own_model.get_owned_frame [of n p] by (metis prod.collapse)
  with store show ?thesis
    by (cases r) (simp_all add: on_registry_def download_model_def handler_simps Redis_Client.on_db_def split: prod.split sum.split)
qed

lemma fst_bind_pair: "fst (bindE m (\<lambda>(a, b). returnE (h a b)) s) = (case fst (m s) of Inl e \<Rightarrow> Inl e | Inr (a, b) \<Rightarrow> Inr (h a b))"
  by (simp add: bindE_run returnE_run split: prod.split sum.split)

section \<open>The quota page\<close>

text \<open>Two worlds that a user cannot tell apart by quota: the same own rows, the same answers for the own counters.\<close>

definition same_quota :: "'r redis_ops \<Rightarrow> time \<Rightarrow> uuid \<Rightarrow> 'r world \<Rightarrow> 'r world \<Rightarrow> bool" where
  "same_quota R now i w v \<longleftrightarrow> quotas (own i (w_db w)) = quotas (own i (w_db v)) \<and> jobs (own i (w_db w)) = jobs (own i (w_db v)) \<and>
     endpoints (own i (w_db w)) = endpoints (own i (w_db v)) \<and>
     (\<forall>res. \<exists>a. rd_get R (usage_key now i res) (w_redis w) = (a, w_redis w) \<and> rd_get R (usage_key now i res) (w_redis v) = (a, w_redis v))"

lemma counts_own:
  "count_concurrent_jobs d i = count_concurrent_jobs (own i d) i" "count_live_endpoints d i = count_live_endpoints (own i d) i"
  by (simp_all add: count_concurrent_jobs_def count_live_endpoints_def own_def conj_commute)

lemma same_quota_create:
  assumes "same_quota R now (u_id u) w v"
  shows "fst (Redis_Client.on_db (get_or_create_quota cfg u) w) = fst (Redis_Client.on_db (get_or_create_quota cfg u) v) \<and>
    same_quota R now (u_id u) (snd (Redis_Client.on_db (get_or_create_quota cfg u) w)) (snd (Redis_Client.on_db (get_or_create_quota cfg u) v))"
  using assms by (auto simp: same_quota_def own_def get_or_create_quota_def handler_simps default_quota_def
      split: sum.split option.split)

lemma same_quota_usage:
  assumes "same_quota R now (u_id u) w v"
  shows "\<exists>a. current_usage R now u res w = (a, w) \<and> current_usage R now u res v = (a, v)"
proof -
  have "count_concurrent_jobs (w_db w) (u_id u) = count_concurrent_jobs (w_db v) (u_id u)"
    "count_live_endpoints (w_db w) (u_id u) = count_live_endpoints (w_db v) (u_id u)"
    using assms unfolding same_quota_def
    by (simp_all add: counts_own [of "w_db w"] counts_own [of "w_db v"]) (simp_all add: count_concurrent_jobs_def count_live_endpoints_def)
  moreover from assms obtain a where "rd_get R (usage_key now (u_id u) res) (w_redis w) = (a, w_redis w)"
    "rd_get R (usage_key now (u_id u) res) (w_redis v) = (a, w_redis v)" unfolding same_quota_def by blast
  ultimately show ?thesis
    by (auto simp: current_usage_def read_redis_counter_def handler_simps split: sum.split option.split)
qed

lemma same_quota_snapshot:
  assumes "same_quota R now (u_id u) w v"
  shows "\<exists>a. snapshot_of R now u q rs w = (a, w) \<and> snapshot_of R now u q rs v = (a, v)"
proof (induction rs)
  case (Cons res rs)
  from same_quota_usage [OF assms, of res] obtain a where
    "current_usage R now u res w = (a, w)" "current_usage R now u res v = (a, v)" by blast
  with Cons show ?case by (cases a) (auto simp: bindE_run returnE_run split: sum.split)
qed (simp add: returnE_run)

lemma quota_page_own:
  assumes "same_quota R now (u_id u) w v"
  shows "fst (get_my_quota R cfg now u w) = fst (get_my_quota R cfg now u v)"
proof -
  let ?goc = "Redis_Client.on_db (get_or_create_quota cfg u)"
  obtain a w1 v1 where 1: "?goc w = (a, w1)" "?goc v = (a, v1)" and s1: "same_quota R now (u_id u) w1 v1"
    using same_quota_create [OF assms, of cfg] by (metis prod.collapse)
  show ?thesis
  proof (cases a)
    case (Inr q)
    from same_quota_snapshot [OF s1, of q] obtain b where
      2: "snapshot_of R now u q enum_class.enum w1 = (b, w1)" "snapshot_of R now u q enum_class.enum v1 = (b, v1)" by blast
    from same_quota_create [OF s1, of cfg] have "fst (?goc w1) = fst (?goc v1)" ..
    with 1 2 Inr show ?thesis
      by (cases b) (auto simp: get_my_quota_def usage_snapshot_def bindE_run returnE_run split: prod.split sum.split)
  qed (use 1 in \<open>simp add: get_my_quota_def usage_snapshot_def bindE_run\<close>)
qed

section \<open>Answers\<close>

text \<open>C4: Two databases that agree on the rows of a caller who is not an admin, however they differ in the rows
  of others, give the same answers to the routes that read, the download links of models and, if the own
  counters read the same, the quota page included: whether a job or a model of someone else exists, what it
  is, and how many there are, makes no difference.\<close>

theorem reads_own_rows:
  assumes "reads_own call" and gx: "authorise E (guard_of call) (si_db x) = (Inr p, d)"
    and gy: "authorise E (guard_of call) (si_db y) = (Inr p, e)" and "u_role (p_user p) \<noteq> RoleAdmin"
    and same: "own (u_id (p_user p)) (si_db x) = own (u_id (p_user p)) (si_db y)"
    and "told_apart k (si_db x)" and "told_apart k (si_db y)" and store: "si_store x = si_store y"
    and redis: "\<And>res. call = MyQuota \<Longrightarrow> \<exists>a. rd_get (en_redis E) (usage_key (en_now E) (u_id (p_user p)) res) (w_redis (si_world x)) =
        (a, w_redis (si_world x)) \<and>
      rd_get (en_redis E) (usage_key (en_now E) (u_id (p_user p)) res) (w_redis (si_world y)) = (a, w_redis (si_world y))"
  shows "fst (dispatch E call x) = fst (dispatch E call y)"
proof -
  let ?i = "u_id (p_user p)"
  note tx = touched_simps [OF authorise_touched [OF gx]] and ty = touched_simps [OF authorise_touched [OF gy]]
  have cols: "jobs (own ?i d) = jobs (own ?i e)" "models (own ?i d) = models (own ?i e)"
    "endpoints (own ?i d) = endpoints (own ?i e)" "quotas (own ?i d) = quotas (own ?i e)"
    using same unfolding own_def db.ext_inject by (simp_all add: tx ty)
  have ids: "distinct (map j_id (jobs d))" "distinct (map j_id (jobs e))" "distinct (map m_id (models d))" "distinct (map m_id (models e))"
    using assms(6,7) by (simp_all add: told_apart_def tx ty)
  have keys: "api_keys (own ?i d) = api_keys (own ?i e)" if "call = ListKeys"
  proof -
    have "d = si_db x" "e = si_db y"
      using that gx gy session_keeps(2) [THEN keeps_run, where f = id]
      by (fastforce simp: handler_simps split: prod.splits sum.splits)+
    with same show ?thesis by simp
  qed
  have dl: "fst (on_registry (download_model S n p) (x\<lparr>si_world := si_world x\<lparr>w_db := d\<rparr>\<rparr>)) =
      fst (on_registry (download_model S n p) (y\<lparr>si_world := si_world y\<lparr>w_db := e\<rparr>\<rparr>))" for S n
    by (rule download_own) (use ids cols assms(4) store in simp_all)
  have page: "fst (on_site_world (get_my_quota (en_redis E) (en_settings E) (en_now E) (p_user p)) (x\<lparr>si_world := si_world x\<lparr>w_db := d\<rparr>\<rparr>)) =
      fst (on_site_world (get_my_quota (en_redis E) (en_settings E) (en_now E) (p_user p)) (y\<lparr>si_world := si_world y\<lparr>w_db := e\<rparr>\<rparr>))"
    if "call = MyQuota"
  proof -
    have "same_quota (en_redis E) (en_now E) ?i (si_world x\<lparr>w_db := d\<rparr>) (si_world y\<lparr>w_db := e\<rparr>)"
      using redis [OF that] cols by (simp add: same_quota_def)
    then show ?thesis by (simp add: on_site_world_run quota_page_own)
  qed
  note g = granted [where x = x and d = d, OF refl] granted [where x = y and d = e, OF refl]
  show ?thesis
    using assms(1) gx gy cols ids keys assms(4)
    by (cases call) (simp_all add: g dl page fst_plain fst_bind_return fst_bind_pair validated_def on_site_db_run raiseE_run returnE_run
        list_own(1-3) [of p d e] list_own(4) [of "p_user p" d e] get_job_own [of d e p] get_model_own [of d e p])
qed

section \<open>Example\<close>

definition alice_jwt :: string where
  "alice_jwt = create_access_token ref_crypto cfg0 0 1 ''user''"

definition site_with :: "job list \<Rightarrow> (ref_state, (string \<times> string) list, ref_runners) site" where
  "site_with js = (site0 [] 200)\<lparr>si_world := world0\<lparr>w_db := db0\<lparr>jobs := js\<rparr>\<rparr>\<rparr>"

lemma alice_authorised:
  assumes "users d = [alice, root]"
  shows "authorise (request0 (Some (''bearer'', alice_jwt)) :: (ref_state, (string \<times> string) list, ref_runners) api_env)
    (Scopes [''jobs:read'']) d = (Inr (session_principal alice), d)"
proof -
  have dec: "decode_access_token ref_crypto cfg0 5 alice_jwt =
      Some \<lparr>jwt_sub = Some (str_uuid 1), jwt_role = ''user'', jwt_iat = 0, jwt_exp = seconds 900\<rparr>"
    by (simp add: alice_jwt_def ref.decode_created_token fixture_defs)
  have ne: "str_uuid 1 \<noteq> []" by (simp add: str_uuid_def Let_def)
  have "\<not> is_api_key_token alice_jwt" unfolding alice_jwt_def by (rule ref.access_token_not_api_key)
  with dec ne assms show ?thesis
    by (simp add: require_scopes_def get_current_principal_def resolve_principal_from_token_def authenticate_jwt_def handler_simps
        deps_defs py_lower_def lower_char_def scalar_one_or_none_def session_principal_def principal_scopes_def VALID_SCOPES_def)
qed

text \<open>Whether another user has a job 77 or nobody has makes no difference to Alice.\<close>

theorem reads_own_rows_witness:
  "let E = request0 (Some (''bearer'', alice_jwt)) in
   fst (dispatch E (GetJob 77) (site_with [job0\<lparr>j_user_id := 2\<rparr>])) = fst (dispatch E (GetJob 77) (site_with []))"
proof -
  let ?E = "request0 (Some (''bearer'', alice_jwt)) :: (ref_state, (string \<times> string) list, ref_runners) api_env"
  have d: "users (si_db (site_with js)) = [alice, root]" "jobs (si_db (site_with js)) = js" "models (si_db (site_with js)) = []"
    "endpoints (si_db (site_with js)) = []" "api_keys (si_db (site_with js)) = [alice_key]" "si_store (site_with js) = si_store (site_with [])" for js
    by (simp_all add: site_with_def)
  have own: "own 1 (si_db (site_with [job0\<lparr>j_user_id := 2\<rparr>])) = own 1 (si_db (site_with []))"
    by (simp add: own_def site_with_def)
  have apart: "told_apart 0 (si_db (site_with js))" if "length js \<le> 1" "0 \<notin> j_id ` set js" for js
    using that by (cases js) (simp_all add: told_apart_def d)
  have "j_id job0 \<noteq> 0" by (simp add: job0_def)
  then have "told_apart 0 (si_db (site_with [job0\<lparr>j_user_id := 2\<rparr>]))" "told_apart 0 (si_db (site_with []))"
    by (simp_all add: apart)
  then show ?thesis
    using reads_own_rows [of "GetJob 77" ?E "site_with [job0\<lparr>j_user_id := 2\<rparr>]" "session_principal alice" _ "site_with []"] own
      alice_authorised [OF d(1)] d(6)
    by (simp add: session_principal_def)
qed

end
