(* ===== verification/Runner.thy ===== *)
theory Runner
  imports Endpoints
begin

text \<open>
  The image an endpoint runs, \<open>docker/serve-runner/loader.py\<close>: it imports the \<open>serve.py\<close> of the model at
  start-up, and answers a prediction with what the function \<open>predict\<close> of that module returns.  The
  module is the user's, so executing it and calling its function are arguments, as is the web
  framework's check and rendering of what the function returned; \<open>'d\<close> is the state of the host.
\<close>

section \<open>The contract of serve.py\<close>

text \<open>What \<open>getattr(module, name, None)\<close> finds; the function returns some value of Python, of type \<open>'v\<close>.\<close>

datatype ('d, 'v) attribute = Callable "(string \<times> json) list \<Rightarrow> ('d, 'v) handler" | NotCallable

record ('d, 'v) serve_file =
  sf_is_file :: bool
  sf_has_loader :: bool
  sf_exec :: "('d, string \<Rightarrow> ('d, 'v) attribute option) handler"

definition SERVE_PATH :: string where
  "SERVE_PATH = ''/model/serve.py''"

definition load_predict :: "('d, 'v) serve_file \<Rightarrow> ('d, (string \<times> json) list \<Rightarrow> ('d, 'v) handler) handler" where
  "load_predict F =
     (if \<not> sf_is_file F then raiseE (OtherException (''serving contract violation: '' @ SERVE_PATH @ '' not found''))
      else if \<not> sf_has_loader F then raiseE (OtherException ''failed to load serve.py'')
      else bindE (sf_exec F) (\<lambda>module.
        case module ''predict'' of
          Some (Callable predict_fn) \<Rightarrow> returnE predict_fn
        | _ \<Rightarrow> raiseE (OtherException
            ''serving contract violation: serve.py must define predict(payload: dict) -> dict'')))"

section \<open>Routes\<close>

text \<open>
  \<open>isinstance(result, dict)\<close>, the framework's validation and encoding of the result as JSON content,
  and the text of a JSON response.
\<close>

record 'v web =
  wb_is_dict :: "'v \<Rightarrow> bool"
  wb_encode :: "'v \<Rightarrow> exn + json"
  wb_render :: "json \<Rightarrow> string"

definition json_response :: "'v web \<Rightarrow> int \<Rightarrow> json \<Rightarrow> upstream" where
  "json_response W code content =
     \<lparr>up_status = code, up_content_type = Some ''application/json'', up_text = wb_render W content\<rparr>"

text \<open>What the framework answers when an exception leaves a route.\<close>

definition server_error :: upstream where
  "server_error = \<lparr>up_status = 500, up_content_type = Some ''text/plain; charset=utf-8'', up_text = ''Internal Server Error''\<rparr>"

definition exception_response :: "'v web \<Rightarrow> exn \<Rightarrow> upstream" where
  "exception_response W e = (case e of
     HTTPException code detail \<Rightarrow> json_response W code (JObj [(''detail'', JStr detail)])
   | _ \<Rightarrow> server_error)"

definition runner_healthz :: "'v web \<Rightarrow> upstream" where
  "runner_healthz W = json_response W 200 (JObj [(''status'', JStr ''ok'')])"

text \<open>\<open>except Exception\<close> does not catch a cancellation.\<close>

definition runner_predict ::
  "'v web \<Rightarrow> ((string \<times> json) list \<Rightarrow> ('d, 'v) handler) \<Rightarrow> (string \<times> json) list \<Rightarrow> ('d, 'v) handler" where
  "runner_predict W predict_fn body =
     bindE (catchE (\<lambda>e. e \<noteq> CancelledError) (predict_fn body)
       (\<lambda>exc. raiseE (HTTPException 500 (''predict failed: '' @ exn_str exc)))) (\<lambda>result.
     if \<not> wb_is_dict W result then raiseE (HTTPException 500 ''predict must return a dict'') else returnE result)"

text \<open>A POST to \<open>/predict\<close>: the body has to be a JSON object.\<close>

definition post_predict ::
  "'v web \<Rightarrow> ((string \<times> json) list \<Rightarrow> ('d, 'v) handler) \<Rightarrow> json \<Rightarrow> ('d, upstream) handler" where
  "post_predict W predict_fn payload = (case payload of
     JObj body \<Rightarrow> (\<lambda>s. case runner_predict W predict_fn body s of
       (Inl e, s') \<Rightarrow> (Inr (exception_response W e), s')
     | (Inr result, s') \<Rightarrow> (Inr (case wb_encode W result of
           Inr content \<Rightarrow> json_response W 200 content | Inl e \<Rightarrow> server_error), s'))
   | _ \<Rightarrow> returnE (json_response W 422 (JObj [(''detail'', JStr ''RequestValidationError'')])))"

section \<open>Start-up\<close>

text \<open>The container serves exactly when the mounted \<open>serve.py\<close> can be executed and defines a callable \<open>predict\<close>.\<close>

lemma load_predict_Inr:
  "load_predict F s = (Inr f, s') \<longleftrightarrow> sf_is_file F \<and> sf_has_loader F \<and>
     (\<exists>module. sf_exec F s = (Inr module, s') \<and> module ''predict'' = Some (Callable f))"
  by (auto simp: load_predict_def handler_simps split: prod.splits sum.splits option.splits attribute.splits)

text \<open>A container that has been started finds the file: the directory that is mounted on \<open>/model\<close> holds it.\<close>

lemma started_finds_serve:
  assumes "fetch_and_start V S cfg ep m x = (Inr cid, x')"
  shows "si_files x' (path_str (artifact_dir_for cfg (e_id ep) @ [SERVE_PY])) \<noteq> None"
  using assms
  by (auto simp: fetch_and_start_def download_model_artifacts_def handler_simps on_disk_run on_host_run Let_def
      split: prod.splits sum.splits if_splits)

section \<open>A prediction from end to end\<close>

text \<open>What the caller is to get for what the model's function did.\<close>

definition model_answer :: "'v web \<Rightarrow> exn + 'v \<Rightarrow> int \<times> json" where
  "model_answer W r = (case r of
     Inl e \<Rightarrow> (500, JObj [(''detail'', JStr (''predict failed: '' @ exn_str e))])
   | Inr v \<Rightarrow> if \<not> wb_is_dict W v then (500, JObj [(''detail'', JStr ''predict must return a dict'')])
       else (case wb_encode W v of
         Inl _ \<Rightarrow> (500, JObj [(''detail'', JStr ''Internal Server Error'')]) | Inr content \<Rightarrow> (200, content)))"

lemma forwarded_json:
  "json_loads (wb_render W content) = Some content \<Longrightarrow> forwarded (json_response W code content) = (code, content)"
  by (simp add: forwarded_def json_response_def startswith_def)

lemma forwarded_error: "forwarded server_error = (500, JObj [(''detail'', JStr ''Internal Server Error'')])"
  by (simp add: forwarded_def server_error_def startswith_def)

text \<open>The API repeats the runner's answer without a change.\<close>

lemma post_predict_forwarded:
  assumes "\<forall>d. json_loads (wb_render W (JObj [(''detail'', JStr d)])) = Some (JObj [(''detail'', JStr d)])"
    and "\<forall>v c. r = Inr v \<longrightarrow> wb_encode W v = Inr c \<longrightarrow> json_loads (wb_render W c) = Some c"
    and "f body h = (r, h')" and "r \<noteq> Inl CancelledError"
  shows "\<exists>reply. post_predict W f (JObj body) h = (Inr reply, h') \<and> forwarded reply = model_answer W r"
  using assms
  by (cases r) (auto simp: post_predict_def runner_predict_def model_answer_def handler_simps catchE_run
      exception_response_def forwarded_json forwarded_error split: sum.split)

text \<open>C26: A prediction with a LIVE endpoint whose container runs this image: the caller gets the object the
  model's function returned, with 200, or the reason why there is none, with 500, when the function
  raised, returned something else, or something that is not JSON.  Either way the request is logged
  once, to the caller.\<close>

theorem prediction_reports_model:
  assumes "distinct (map e_route (endpoints (si_db x)))" and "row_get e_route route (endpoints (si_db x)) = Some ep"
    and "distinct (map e_id (endpoints (si_db x)))"
    and "e_status ep = EP_LIVE" and "e_container_id ep = Some cid" and "cid \<noteq> []"
    and url: "runner_base_url V cfg cid (si_host x) = (Inr url, h)"
    and post: "sv_post V (rstrip_by (\<lambda>c. c = CHR ''/'') url @ ''/predict'') (JObj body) h = post_predict W f (JObj body) h"
    and detail: "\<forall>d. json_loads (wb_render W (JObj [(''detail'', JStr d)])) = Some (JObj [(''detail'', JStr d)])"
    and content: "\<forall>v c. r = Inr v \<longrightarrow> wb_encode W v = Inr c \<longrightarrow> json_loads (wb_render W c) = Some c"
    and f: "f body h = (r, h')" and "r \<noteq> Inl CancelledError"
  shows "\<exists>x'. predict V cfg route body p x = (Inr (model_answer W r), x') \<and> si_host x' = h' \<and>
    si_db x' = usage_logs_update (\<lambda>t. t @ [\<lparr>ul_user_id = u_id (p_user p),
      ul_api_key_id = map_option k_id (p_api_key p), ul_endpoint_id = e_id ep, ul_request_count = 1\<rparr>]) (si_db x)"
proof -
  obtain reply where reply: "post_predict W f (JObj body) h = (Inr reply, h')" "forwarded reply = model_answer W r"
    using post_predict_forwarded [of W r f body h h', OF detail content f assms(12)] by blast
  have look: "scalar_one_or_none (filter (\<lambda>e. e_route e = route) (endpoints (si_db x))) = Inr (Some ep)"
    using assms(1,2) by simp
  have "row_get e_id (e_id ep) (endpoints (si_db x)) = Some ep"
    using row_get_distinct [OF assms(3)] row_get_Some [OF assms(2)] by simp
  then show ?thesis
    using look assms(4,5,6) url post reply
    by (simp add: predict_def bindE_run on_site_db_def handler_simps on_host_run catchE_run add_usage_log_def)
qed

section \<open>Example\<close>

text \<open>A module whose \<open>predict\<close> echoes its payload unless it is empty.\<close>

definition echo :: "(string \<times> json) list \<Rightarrow> (ref_runners, json) handler" where
  "echo body = (if body = [] then raiseE (ValueError ''empty'') else returnE (JObj body))"

definition web0 :: "json web" where
  "web0 = \<lparr>wb_is_dict = (\<lambda>v. case v of JObj _ \<Rightarrow> True | _ \<Rightarrow> False), wb_encode = Inr, wb_render = json_dumps\<rparr>"

theorem prediction_reports_model_witness:
  "let V = ref_serve\<lparr>sv_post := \<lambda>_ v. post_predict web0 echo v\<rparr>; x = site0 [ep0\<lparr>e_status := EP_LIVE, e_container_id := Some ''c''\<rparr>] 200;
       p = \<lparr>p_user = alice, p_api_key = None\<rparr> in
   fst (predict V cfg0 (e_route ep0) [(''a'', JInt 1)] p x) = Inr (200, JObj [(''a'', JInt 1)]) \<and>
   fst (predict V cfg0 (e_route ep0) [] p x) = Inr (500, JObj [(''detail'', JStr ''predict failed: empty'')])"
proof -
  let ?V = "ref_serve\<lparr>sv_post := \<lambda>_ v. post_predict web0 echo v\<rparr>"
  let ?x = "site0 [ep0\<lparr>e_status := EP_LIVE, e_container_id := Some ''c''\<rparr>] 200" and ?p = "\<lparr>p_user = alice, p_api_key = None\<rparr>"
  let ?ep = "ep0\<lparr>e_status := EP_LIVE, e_container_id := Some ''c''\<rparr>" and ?h = "si_host ?x"
  have url: "runner_base_url ?V cfg0 ''c'' ?h = (Inr ''http://127.0.0.1:49153'', ?h)"
    by (simp add: runner_base_url_def ref_serve_def handler_simps catchE_run)
  have run: "fst (predict ?V cfg0 (e_route ep0) body ?p ?x) = Inr (model_answer web0 r)"
    if "plain_json (JObj body)" "echo body ?h = (r, h')" for body r h'
  proof -
    have r: "r = Inr v \<Longrightarrow> v = JObj body" "r \<noteq> Inl CancelledError" for v
      using that(2) by (auto simp: echo_def handler_simps split: if_splits)
    have "\<exists>x'. predict ?V cfg0 (e_route ep0) body ?p ?x = (Inr (model_answer web0 r), x') \<and> si_host x' = h' \<and>
      si_db x' = usage_logs_update (\<lambda>t. t @ [\<lparr>ul_user_id = u_id (p_user ?p),
        ul_api_key_id = map_option k_id (p_api_key ?p), ul_endpoint_id = e_id ?ep, ul_request_count = 1\<rparr>]) (si_db ?x)"
    proof (rule prediction_reports_model [where h = ?h and f = echo and W = web0 and body = body, OF _ _ _ _ _ _ url _ _ _ that(2) r(2)])
      show "\<forall>d. json_loads (wb_render web0 (JObj [(''detail'', JStr d)])) = Some (JObj [(''detail'', JStr d)])"
        by (simp add: web0_def loads_dumps del: json_dumps.simps)
      show "\<forall>v c. r = Inr v \<longrightarrow> wb_encode web0 v = Inr c \<longrightarrow> json_loads (wb_render web0 c) = Some c"
        using r(1) that(1) by (auto simp: web0_def loads_dumps simp del: json_dumps.simps plain_json.simps)
    qed (simp_all add: row_get_Cons)
    then show ?thesis by fastforce
  qed
  show ?thesis
    using run [of "[(''a'', JInt 1)]"] run [of "[]"] by (simp add: model_answer_def echo_def web0_def handler_simps)
qed

end
