(* ===== verification/Log_Relay.thy ===== *)
theory Log_Relay
  imports Log_Stream "HOL-Library.Sublist"
begin

text \<open>
  The API's side of the log stream: the WebSocket relay with back-pressure thinning
  (\<open>api/services/job_log_stream.py\<close>) and the route that authorises a client and feeds it
  (\<open>api/routers/job_logs.py\<close>).  The socket is a parameter: sending, with and without a time limit.
  What a subscription delivers is the list of messages received, \<open>None\<close> for a poll that returned
  nothing or a message of another type.
\<close>

section \<open>The client\<close>

record 's ws_ops =
  ws_accept :: "('s, unit) handler"
  ws_send_text :: "string \<Rightarrow> ('s, unit) handler"
  ws_send_text_within :: "rat \<Rightarrow> string \<Rightarrow> ('s, bool) handler"
  ws_close :: "('s, unit) handler"

text \<open>\<open>ws_send_text_within\<close> is \<open>asyncio.wait_for(send_text(line), timeout)\<close>: false for a \<open>TimeoutError\<close>.\<close>

record 's client =
  thin_mode :: bool
  thin_marker_sent :: bool
  skipped :: int
  socket :: 's

definition new_relay :: "'s \<Rightarrow> 's client" where
  "new_relay s = \<lparr>thin_mode = False, thin_marker_sent = False, skipped = 0, socket = s\<rparr>"

definition on_socket :: "('s, 'a) handler \<Rightarrow> ('s client, 'a) handler" where
  "on_socket m = (\<lambda>c. case m (socket c) of (out, s) \<Rightarrow> (out, c\<lparr>socket := s\<rparr>))"

lemma on_socket_run [handler_simps]:
  "on_socket m c = (fst (m (socket c)), c\<lparr>socket := snd (m (socket c))\<rparr>)"
  by (simp add: on_socket_def split: prod.splits)

definition RecursionError :: exn where
  "RecursionError = OtherException ''RecursionError''"

definition ZeroDivisionError :: exn where
  "ZeroDivisionError = OtherException ''ZeroDivisionError''"

definition thin_marker :: string where
  "thin_marker = ''[stream thinned]'' @ [newline]"

text \<open>The \<open>try\<close> block at the end of \<open>send_line\<close>, which calls the method again after a time-out.\<close>

definition send_now ::
  "'s ws_ops \<Rightarrow> settings \<Rightarrow> ('s client, unit) handler \<Rightarrow> string \<Rightarrow> ('s client, unit) handler" where
  "send_now W cfg again line =
     bindE (on_socket (ws_send_text_within W (job_log_ws_send_timeout_seconds cfg) line)) (\<lambda>in_time.
     if in_time then returnE ()
     else bindE (modifyE (\<lambda>c. c\<lparr>thin_mode := True, skipped := 0\<rparr>)) (\<lambda>_. again))"

text \<open>\<open>depth\<close> is what is left of the interpreter's stack: \<open>send_line\<close> calls itself after a time-out.\<close>

fun send_line :: "'s ws_ops \<Rightarrow> settings \<Rightarrow> nat \<Rightarrow> string \<Rightarrow> ('s client, unit) handler" where
  "send_line W cfg 0 line = raiseE RecursionError"
| "send_line W cfg (Suc depth) line =
     bindE (\<lambda>c.
       if thin_mode c
       then (let c' = c\<lparr>skipped := skipped c + 1\<rparr> in
         if job_log_ws_thin_interval cfg = 0 then (Inl ZeroDivisionError, c')
         else if skipped c' mod job_log_ws_thin_interval cfg \<noteq> 0 then (Inr False, c')
         else if thin_marker_sent c' then (Inr True, c')
         else bindE (on_socket (ws_send_text W thin_marker)) (\<lambda>_ c''. (Inr True, c''\<lparr>thin_marker_sent := True\<rparr>)) c')
       else (Inr True, c)) (\<lambda>go_on.
     if \<not> go_on then returnE () else send_now W cfg (send_line W cfg depth line) line)"

declare send_line.simps [simp del]

fun send_lines :: "'s ws_ops \<Rightarrow> settings \<Rightarrow> nat \<Rightarrow> string list \<Rightarrow> ('s client, unit) handler" where
  "send_lines W cfg depth [] = returnE ()"
| "send_lines W cfg depth (line # lines) =
     bindE (send_line W cfg depth line) (\<lambda>_. send_lines W cfg depth lines)"

text \<open>The loop of \<open>replay_buffer\<close> stops at an end of stream.\<close>

fun replay_lines :: "'s ws_ops \<Rightarrow> settings \<Rightarrow> nat \<Rightarrow> string list \<Rightarrow> ('s client, unit) handler" where
  "replay_lines W cfg depth [] = returnE ()"
| "replay_lines W cfg depth (line # lines) =
     (case parse_stream_payload line of
        (_, Some _) \<Rightarrow> returnE ()
      | (Some payload, None) \<Rightarrow> bindE (send_line W cfg depth payload) (\<lambda>_. replay_lines W cfg depth lines)
      | (None, None) \<Rightarrow> replay_lines W cfg depth lines)"

text \<open>
  \<open>relay_live\<close> on the messages received so far: \<open>Some\<close> the data of the end of stream, or \<open>None\<close> when
  it is still waiting for more.
\<close>

fun relay_live ::
  "'s ws_ops \<Rightarrow> settings \<Rightarrow> nat \<Rightarrow> string option list \<Rightarrow> ('s client, (string \<times> json) list option) handler" where
  "relay_live W cfg depth [] = returnE None"
| "relay_live W cfg depth (None # ms) = relay_live W cfg depth ms"
| "relay_live W cfg depth (Some payload # ms) =
     (case parse_stream_payload payload of
        (_, Some eof) \<Rightarrow> returnE (Some eof)
      | (Some line, None) \<Rightarrow> bindE (send_line W cfg depth line) (\<lambda>_. relay_live W cfg depth ms)
      | (None, None) \<Rightarrow> relay_live W cfg depth ms)"

definition send_eof :: "'s ws_ops \<Rightarrow> (string \<times> json) list \<Rightarrow> ('s client, unit) handler" where
  "send_eof W eof = on_socket (ws_send_text W (json_dumps (JObj eof)))"

section \<open>The route\<close>

record ('r, 's) session =
  ss_world :: "'r world"
  ss_client :: "'s client"

definition on_session :: "('r world, 'a) handler \<Rightarrow> (('r, 's) session, 'a) handler" where
  "on_session m = (\<lambda>x. case m (ss_world x) of (out, w) \<Rightarrow> (out, x\<lparr>ss_world := w\<rparr>))"

definition on_client :: "('s client, 'a) handler \<Rightarrow> (('r, 's) session, 'a) handler" where
  "on_client m = (\<lambda>x. case m (ss_client x) of (out, c) \<Rightarrow> (out, x\<lparr>ss_client := c\<rparr>))"

lemma on_session_run [handler_simps]:
  "on_session m x = (fst (m (ss_world x)), x\<lparr>ss_world := snd (m (ss_world x))\<rparr>)"
  by (simp add: on_session_def split: prod.splits)

lemma on_client_run [handler_simps]:
  "on_client m x = (fst (m (ss_client x)), x\<lparr>ss_client := snd (m (ss_client x))\<rparr>)"
  by (simp add: on_client_def split: prod.splits)

definition WS_UNAUTHENTICATED :: exn where
  "WS_UNAUTHENTICATED = WebSocketException 4401 ''Not authenticated''"

definition WS_FORBIDDEN :: exn where
  "WS_FORBIDDEN = WebSocketException 4403 ''Insufficient scope''"

definition WS_NOT_FOUND :: exn where
  "WS_NOT_FOUND = WebSocketException 4404 ''Job not found''"

definition FINISHED_STATUSES :: "job_status list" where
  "FINISHED_STATUSES = [SUCCEEDED, FAILED, CANCELLED]"

definition job_visible_to_principal :: "job \<Rightarrow> principal \<Rightarrow> bool" where
  "job_visible_to_principal j p \<longleftrightarrow> j_user_id j = u_id (p_user p) \<or> u_role (p_user p) = RoleAdmin"

definition require_jobs_read_scope :: "principal \<Rightarrow> ('s, unit) handler" where
  "require_jobs_read_scope p =
     (if ''jobs:read'' \<notin> set (principal_scopes p) then raiseE WS_FORBIDDEN else returnE ())"

text \<open>\<open>if not token\<close>; \<open>except HTTPException\<close> around the resolution of the token.\<close>

definition ws_principal ::
  "crypto \<Rightarrow> settings \<Rightarrow> bool \<Rightarrow> time \<Rightarrow> string option \<Rightarrow> (db, principal) handler" where
  "ws_principal C cfg touch_ok now token =
     (case token of
        None \<Rightarrow> raiseE WS_UNAUTHENTICATED
      | Some t \<Rightarrow>
          if t = [] then raiseE WS_UNAUTHENTICATED
          else (\<lambda>d. case resolve_principal_from_token C cfg touch_ok now t d of
              (Inl (HTTPException _ _), d') \<Rightarrow> (Inl WS_UNAUTHENTICATED, d')
            | out \<Rightarrow> out))"

text \<open>The job the client may follow.\<close>

definition authorise_stream ::
  "crypto \<Rightarrow> settings \<Rightarrow> bool \<Rightarrow> time \<Rightarrow> string option \<Rightarrow> uuid \<Rightarrow> (db, job) handler" where
  "authorise_stream C cfg touch_ok now token job_id =
     bindE (ws_principal C cfg touch_ok now token) (\<lambda>p.
     bindE (require_jobs_read_scope p) (\<lambda>_.
     bindE (liftE (\<lambda>d. scalar_one_or_none (filter (\<lambda>j. j_id j = job_id) (jobs d)))) (\<lambda>found.
     case found of
       None \<Rightarrow> raiseE WS_NOT_FOUND
     | Some j \<Rightarrow> if \<not> job_visible_to_principal j p then raiseE WS_NOT_FOUND else returnE j)))"

text \<open>
  The whole handler on the messages \<open>live\<close> that arrive after its subscription; the result says
  whether it has closed the socket or still waits.
\<close>

definition stream_job_logs ::
  "crypto \<Rightarrow> 'r redis_ops \<Rightarrow> 's ws_ops \<Rightarrow> settings \<Rightarrow> nat \<Rightarrow> bool \<Rightarrow> time \<Rightarrow> string option \<Rightarrow> uuid \<Rightarrow>
   string option list \<Rightarrow> (('r, 's) session, bool) handler" where
  "stream_job_logs C R W cfg depth touch_ok now token job_id live =
     bindE (on_session (on_db (authorise_stream C cfg touch_ok now token job_id))) (\<lambda>j.
     bindE (on_client (on_socket (ws_accept W))) (\<lambda>_.
     if j_status j \<in> set FINISHED_STATUSES
     then bindE (on_session (on_db (getsE (\<lambda>d. filter (\<lambda>l. jl_job_id l = j_id j) (job_logs d))))) (\<lambda>rows.
       bindE (on_client (send_lines W cfg depth (map jl_content rows))) (\<lambda>_.
       bindE (on_client (on_socket (ws_close W))) (\<lambda>_. returnE True)))
     else bindE (on_session (on_redis (rd_lrange R (job_log_buffer_key (str_uuid (j_id j))) 0
            (replay_buffer_max_index cfg)))) (\<lambda>lines.
       bindE (on_client (replay_lines W cfg depth lines)) (\<lambda>_.
       bindE (on_client (relay_live W cfg depth live)) (\<lambda>eof.
       case eof of
         None \<Rightarrow> returnE False
       | Some e \<Rightarrow> bindE (on_client (send_eof W e)) (\<lambda>_.
           bindE (on_client (on_socket (ws_close W))) (\<lambda>_. returnE True)))))))"

section \<open>Thinning\<close>

text \<open>What a run of lines adds: a subsequence of them, with at most one marker put in.\<close>

definition thinned :: "bool \<Rightarrow> string list \<Rightarrow> string list \<Rightarrow> bool" where
  "thinned fresh lines ds \<longleftrightarrow> subseq ds lines \<or>
     fresh \<and> (\<exists>a b. ds = a @ thin_marker # b \<and> subseq (a @ b) lines)"

lemma thinned_line:
  assumes "thinned fresh' lines es" and "fresh' \<Longrightarrow> fresh" and "ds = [line] \<or> ds = []"
  shows "thinned fresh (line # lines) (ds @ es)"
proof -
  from assms(1) consider (sub) "subseq es lines"
    | (mk) a b where fresh' "es = a @ thin_marker # b" "subseq (a @ b) lines"
    unfolding thinned_def by blast
  then show ?thesis
  proof cases
    case sub
    with assms(3) show ?thesis by (auto simp: thinned_def)
  next
    case mk
    have "subseq ((ds @ a) @ b) (line # lines)" using mk(3) assms(3) by auto
    with mk(1,2) assms(2) show ?thesis
      unfolding thinned_def by (intro disjI2 conjI exI [of _ "ds @ a"] exI [of _ b]) simp_all
  qed
qed

lemma thinned_marker:
  assumes "thinned False lines es" and "ds = [line] \<or> ds = []"
  shows "thinned True (line # lines) ((thin_marker # ds) @ es)"
proof -
  have "subseq ([] @ (ds @ es)) (line # lines)" using assms by (auto simp: thinned_def)
  then show ?thesis
    unfolding thinned_def by (intro disjI2 conjI exI [of _ "[]"] exI [of _ "ds @ es"]) simp_all
qed

section \<open>The contract of the socket\<close>

text \<open>
  An open socket delivers what is sent without a limit; what is sent within a limit is delivered
  or the wait ends first.  \<open>delivered\<close> is what the client received.
\<close>

locale websocket =
  fixes W :: "'s ws_ops"
    and is_open :: "'s \<Rightarrow> bool"
    and delivered :: "'s \<Rightarrow> string list"
  assumes send_law: "is_open s \<Longrightarrow> effect is_open delivered (ws_send_text W t s) () (delivered s @ [t])"
    and within_law: "is_open s \<Longrightarrow> \<exists>b. effect is_open delivered (ws_send_text_within W limit t s) b
      (if b then delivered s @ [t] else delivered s)"
    and accept_law: "is_open s \<Longrightarrow> effect is_open delivered (ws_accept W s) () (delivered s)"
begin

text \<open>
  What one call of \<open>send_line\<close> does to the client: the texts it added, none but the line itself
  and at most one marker in front of it.
\<close>

definition added :: "'s client \<Rightarrow> 's client \<Rightarrow> string list \<Rightarrow> bool" where
  "added c c' ds \<longleftrightarrow> is_open (socket c') \<and> delivered (socket c') = delivered (socket c) @ ds \<and>
     (thin_mode c \<longrightarrow> thin_mode c') \<and> (thin_marker_sent c \<longrightarrow> thin_marker_sent c')"

lemma within_cases:
  assumes "is_open (socket c)"
  obtains c' where "on_socket (ws_send_text_within W limit t) c = (Inr True, c')" "added c c' [t]"
      "thin_mode c' = thin_mode c" "thin_marker_sent c' = thin_marker_sent c" "skipped c' = skipped c"
  | c' where "on_socket (ws_send_text_within W limit t) c = (Inr False, c')" "added c c' []"
      "thin_marker_sent c' = thin_marker_sent c"
proof -
  from within_law [OF assms, of limit t] obtain b s' where
    "ws_send_text_within W limit t (socket c) = (Inr b, s')" "is_open s'"
    "delivered s' = (if b then delivered (socket c) @ [t] else delivered (socket c))"
    by (auto elim: effectE)
  then show ?thesis
    by (cases b) (auto simp: handler_simps added_def intro: that(1) [of "c\<lparr>socket := s'\<rparr>"] that(2) [of "c\<lparr>socket := s'\<rparr>"])
qed

lemma send_line_plain:
  "\<not> thin_mode c \<Longrightarrow> send_line W cfg (Suc n) line c = send_now W cfg (send_line W cfg n line) line c"
  by (simp add: send_line.simps bindE_run)

lemma send_line_skip:
  "thin_mode c \<Longrightarrow> job_log_ws_thin_interval cfg \<noteq> 0 \<Longrightarrow> (skipped c + 1) mod job_log_ws_thin_interval cfg \<noteq> 0 \<Longrightarrow>
   send_line W cfg (Suc n) line c = (Inr (), c\<lparr>skipped := skipped c + 1\<rparr>)"
  by (simp add: send_line.simps handler_simps Let_def)

lemma send_line_marked:
  "thin_mode c \<Longrightarrow> job_log_ws_thin_interval cfg \<noteq> 0 \<Longrightarrow> (skipped c + 1) mod job_log_ws_thin_interval cfg = 0 \<Longrightarrow>
   thin_marker_sent c \<Longrightarrow>
   send_line W cfg (Suc n) line c = send_now W cfg (send_line W cfg n line) line (c\<lparr>skipped := skipped c + 1\<rparr>)"
  by (simp add: send_line.simps bindE_run Let_def)

lemma send_line_mark:
  "thin_mode c \<Longrightarrow> job_log_ws_thin_interval cfg \<noteq> 0 \<Longrightarrow> (skipped c + 1) mod job_log_ws_thin_interval cfg = 0 \<Longrightarrow>
   \<not> thin_marker_sent c \<Longrightarrow> ws_send_text W thin_marker (socket c) = (Inr (), s) \<Longrightarrow>
   send_line W cfg (Suc n) line c = send_now W cfg (send_line W cfg n line) line
     (c\<lparr>skipped := skipped c + 1, socket := s, thin_marker_sent := True\<rparr>)"
  by (simp add: send_line.simps bindE_run Let_def on_socket_run)

lemma send_due:
  assumes "is_open (socket c)" and "1 < job_log_ws_thin_interval cfg"
  shows "\<exists>c' ds. send_now W cfg (send_line W cfg (Suc n) line) line c = (Inr (), c') \<and> added c c' ds \<and>
     (ds = [line] \<or> ds = [] \<and> thin_mode c') \<and> thin_marker_sent c' = thin_marker_sent c"
  using assms(1)
proof (cases rule: within_cases [where t = line and limit = "job_log_ws_send_timeout_seconds cfg"])
  case (1 c')
  then show ?thesis
    by (intro exI [of _ c'] exI [of _ "[line]"]) (simp add: send_now_def bindE_run returnE_run)
next
  case (2 c')
  let ?c = "c'\<lparr>thin_mode := True, skipped := 0\<rparr>"
  have "send_line W cfg (Suc n) line ?c = (Inr (), ?c\<lparr>skipped := skipped ?c + 1\<rparr>)"
    by (rule send_line_skip) (use assms(2) in simp_all)
  with 2 show ?thesis
    by (intro exI [of _ "?c\<lparr>skipped := 1\<rparr>"] exI [of _ "[]"])
      (simp add: send_now_def bindE_run modifyE_run added_def)
qed

lemma send_line_adds:
  assumes "is_open (socket c)" and k: "1 < job_log_ws_thin_interval cfg"
  shows "\<exists>c' ds. send_line W cfg (Suc (Suc n)) line c = (Inr (), c') \<and> added c c' ds \<and>
    (ds = [line] \<or> ds = [] \<and> thin_mode c' \<or>
     thin_mode c \<and> (ds = [thin_marker] \<or> ds = [thin_marker, line]) \<and> \<not> thin_marker_sent c \<and> thin_marker_sent c')"
proof -
  have k0: "job_log_ws_thin_interval cfg \<noteq> 0" using k by simp
  let ?c = "c\<lparr>skipped := skipped c + 1\<rparr>" and ?due = "(skipped c + 1) mod job_log_ws_thin_interval cfg = 0"
  consider (plain) "\<not> thin_mode c" | (skip) "thin_mode c" "\<not> ?due"
    | (marked) "thin_mode c" ?due "thin_marker_sent c" | (mark) "thin_mode c" ?due "\<not> thin_marker_sent c"
    by (cases ?due) auto
  then show ?thesis
  proof cases
    case plain
    with send_due [OF assms, where line = line and n = n] send_line_plain [OF plain] show ?thesis by metis
  next
    case skip
    from send_line_skip [OF skip(1) k0 skip(2)] assms(1) skip(1) show ?thesis
      by (intro exI [of _ ?c] exI [of _ "[]"]) (simp add: added_def)
  next
    case marked
    from send_due [OF _ k, where c = ?c and line = line and n = n] assms(1) obtain c' ds where
      "send_now W cfg (send_line W cfg (Suc n) line) line ?c = (Inr (), c')" "added ?c c' ds"
      "ds = [line] \<or> ds = [] \<and> thin_mode c'" by auto
    moreover from this(2) have "added c c' ds" by (simp add: added_def)
    ultimately show ?thesis using send_line_marked [OF marked(1) k0 marked(2,3)] by metis
  next
    case mark
    from send_law [OF assms(1), of thin_marker] obtain s1 where
      s1: "ws_send_text W thin_marker (socket c) = (Inr (), s1)" "is_open s1"
        "delivered s1 = delivered (socket c) @ [thin_marker]" by (rule effectE)
    let ?c1 = "?c\<lparr>socket := s1, thin_marker_sent := True\<rparr>"
    from send_due [OF _ k, where c = ?c1 and line = line and n = n] s1(2) obtain c' ds where
      r: "send_now W cfg (send_line W cfg (Suc n) line) line ?c1 = (Inr (), c')" "added ?c1 c' ds"
        "ds = [line] \<or> ds = []" by auto
    from r(2) s1(3) have "added c c' (thin_marker # ds)" "thin_marker_sent c'" by (simp_all add: added_def)
    with r(1,3) mark send_line_mark [OF mark(1) k0 mark(2,3) s1(1)] show ?thesis
      by (intro exI [of _ c'] exI [of _ "thin_marker # ds"]) auto
  qed
qed

lemma added_trans: "added c c' ds \<Longrightarrow> added c' c'' es \<Longrightarrow> added c c'' (ds @ es)"
  by (simp add: added_def)

lemma send_lines_adds:
  assumes "is_open (socket c)" and k: "1 < job_log_ws_thin_interval cfg"
  shows "\<exists>c' ds. send_lines W cfg (Suc (Suc n)) lines c = (Inr (), c') \<and> added c c' ds \<and>
    thinned (\<not> thin_marker_sent c) lines ds \<and> (thin_mode c' \<or> ds = lines)"
  using assms(1)
proof (induction lines arbitrary: c)
  case Nil
  then show ?case by (simp add: returnE_run added_def thinned_def)
next
  case (Cons line lines)
  from send_line_adds [OF Cons.prems k, where n = n and line = line] obtain c1 ds where
    1: "send_line W cfg (Suc (Suc n)) line c = (Inr (), c1)" "added c c1 ds"
      "ds = [line] \<or> ds = [] \<and> thin_mode c1 \<or>
       thin_mode c \<and> (ds = [thin_marker] \<or> ds = [thin_marker, line]) \<and> \<not> thin_marker_sent c \<and> thin_marker_sent c1"
    by blast
  from 1(2) have "is_open (socket c1)" by (simp add: added_def)
  from Cons.IH [OF this] obtain c2 es where
    2: "send_lines W cfg (Suc (Suc n)) lines c1 = (Inr (), c2)" "added c1 c2 es"
      "thinned (\<not> thin_marker_sent c1) lines es" "thin_mode c2 \<or> es = lines" by blast
  have fresh: "\<not> thin_marker_sent c1 \<Longrightarrow> \<not> thin_marker_sent c" using 1(2) by (auto simp: added_def)
  have mode: "thin_mode c1 \<Longrightarrow> thin_mode c2" "thin_mode c \<Longrightarrow> thin_mode c1"
    using 1(2) 2(2) by (auto simp: added_def)
  from 1(3) have "thinned (\<not> thin_marker_sent c) (line # lines) (ds @ es)"
  proof (elim disjE conjE)
    assume f: "\<not> thin_marker_sent c" "thin_marker_sent c1" and "ds = [thin_marker]"
    with thinned_marker [of lines es "[]" line] 2(3) show ?thesis by simp
  next
    assume f: "\<not> thin_marker_sent c" "thin_marker_sent c1" and "ds = [thin_marker, line]"
    with thinned_marker [of lines es "[line]" line] 2(3) show ?thesis by simp
  qed (use thinned_line [OF 2(3) fresh, of ds line] in auto)
  moreover have "thin_mode c2 \<or> ds @ es = line # lines"
    using 1(3) 2(4) mode by auto
  ultimately show ?case
    using 1(1) 2(1) added_trans [OF 1(2) 2(2)] by (auto simp: bindE_run)
qed

end

text \<open>
  A socket for the witnesses: \<open>rs_stalls\<close> says of the next sends with a limit whether they time out.
\<close>

record ref_socket =
  rs_open :: bool
  rs_delivered :: "string list"
  rs_stalls :: "bool list"

definition ref_ws :: "ref_socket ws_ops" where
  "ref_ws = \<lparr>ws_accept = modifyE (rs_open_update (\<lambda>_. True)),
     ws_send_text = (\<lambda>t. modifyE (rs_delivered_update (\<lambda>d. d @ [t]))),
     ws_send_text_within = (\<lambda>_ t s. case rs_stalls s of
         True # bs \<Rightarrow> (Inr False, s\<lparr>rs_stalls := bs\<rparr>)
       | bs \<Rightarrow> (Inr True, s\<lparr>rs_delivered := rs_delivered s @ [t], rs_stalls := tl bs\<rparr>)),
     ws_close = modifyE (rs_open_update (\<lambda>_. False))\<rparr>"

interpretation ref_sock: websocket ref_ws rs_open rs_delivered
  by unfold_locales (auto simp: ref_ws_def effect_def modifyE_run split: list.split bool.split)

definition socket0 :: "bool list \<Rightarrow> ref_socket" where
  "socket0 stalls = \<lparr>rs_open = True, rs_delivered = [], rs_stalls = stalls\<rparr>"

text \<open>The relay never blocks on a slow client and never reorders: with a thinning interval above
  one, sending any number of lines returns with two frames of stack, the client has received a
  subsequence of the lines with at most one thinning marker put in, and it has received all of
  them unless the relay is in thin mode, which it never leaves.\<close>

theorem relay_thinning:
  assumes "websocket W is_open delivered" and "is_open (socket c)" and "1 < job_log_ws_thin_interval cfg"
  shows "\<exists>c' ds. send_lines W cfg (Suc (Suc n)) lines c = (Inr (), c') \<and>
    delivered (socket c') = delivered (socket c) @ ds \<and> thinned (\<not> thin_marker_sent c) lines ds \<and>
    (thin_mode c' \<or> ds = lines) \<and> (thin_mode c \<longrightarrow> thin_mode c')"
proof -
  from websocket.send_lines_adds [OF assms, where n = n and lines = lines] obtain c' ds where
    r: "send_lines W cfg (Suc (Suc n)) lines c = (Inr (), c')" "websocket.added is_open delivered c c' ds"
      "thinned (\<not> thin_marker_sent c) lines ds" "thin_mode c' \<or> ds = lines" by blast
  from r(2) have "delivered (socket c') = delivered (socket c) @ ds" "thin_mode c \<longrightarrow> thin_mode c'"
    by (simp_all add: websocket.added_def [OF assms(1)])
  with r(1,3,4) show ?thesis by blast
qed

theorem relay_thinning_witness:
  "\<exists>c' ds. send_lines ref_ws cfg0 2 [''a'', ''b''] (new_relay (socket0 [False, True])) = (Inr (), c') \<and>
     rs_delivered (socket c') = ds \<and> thinned True [''a'', ''b''] ds"
  using relay_thinning [OF ref_sock.websocket_axioms, where c = "new_relay (socket0 [False, True])"
      and cfg = cfg0 and n = 0 and lines = "[''a'', ''b'']"]
  by (auto simp: new_relay_def socket0_def cfg0_def default_settings_def numeral_2_eq_2 simp del: send_lines.simps)

text \<open>With a thinning interval of one nothing is ever skipped, so a client that keeps stalling
  sends the method into itself again until the stack is used up.\<close>

theorem relay_interval_one_overflows:
  assumes "job_log_ws_thin_interval cfg = 1"
    and "\<And>s. ws_send_text_within W (job_log_ws_send_timeout_seconds cfg) line s = (Inr False, s)"
    and "\<And>s. ws_send_text W thin_marker s = (Inr (), s)"
  shows "fst (send_line W cfg depth line c) = Inl RecursionError"
proof (induction depth arbitrary: c)
  case 0
  then show ?case by (simp add: send_line.simps raiseE_run)
next
  case (Suc depth)
  show ?case
    by (cases "thin_mode c"; cases "thin_marker_sent c")
      (simp_all add: send_line.simps(2) send_now_def handler_simps Let_def assms Suc)
qed

definition deaf :: "unit ws_ops" where
  "deaf = \<lparr>ws_accept = returnE (), ws_send_text = (\<lambda>_. returnE ()),
     ws_send_text_within = (\<lambda>_ _. returnE False), ws_close = returnE ()\<rparr>"

theorem relay_interval_one_overflows_witness:
  "fst (send_line deaf (cfg0\<lparr>job_log_ws_thin_interval := 1\<rparr>) 1000 ''x'' (new_relay ())) = Inl RecursionError"
  by (rule relay_interval_one_overflows) (simp_all add: deaf_def returnE_run)

section \<open>Who may follow a job\<close>


section \<open>The end of the stream\<close>

context websocket
begin

lemma relay_live_waits:
  assumes "is_open (socket c)" and "1 < job_log_ws_thin_interval cfg"
    and "\<forall>m \<in> set ms. \<forall>payload. m = Some payload \<longrightarrow> snd (parse_stream_payload payload) = None"
  shows "\<exists>c'. relay_live W cfg (Suc (Suc n)) ms c = (Inr None, c')"
  using assms(1,3)
proof (induction ms arbitrary: c)
  case Nil
  then show ?case by (simp add: returnE_run)
next
  case (Cons m ms)
  show ?case
  proof (cases m)
    case None
    with Cons show ?thesis by simp
  next
    case (Some payload)
    with Cons.prems(2) have "snd (parse_stream_payload payload) = None" by simp
    then consider (skip) "parse_stream_payload payload = (None, None)"
      | (line) l where "parse_stream_payload payload = (Some l, None)"
      by (cases "parse_stream_payload payload"; cases "fst (parse_stream_payload payload)") auto
    then show ?thesis
    proof cases
      case skip
      with Cons Some show ?thesis by simp
    next
      case line
      from send_line_adds [OF Cons.prems(1) assms(2), where n = n and line = l] obtain c1 ds where
        "send_line W cfg (Suc (Suc n)) l c = (Inr (), c1)" "added c c1 ds" by blast
      moreover from this(2) have "is_open (socket c1)" by (simp add: added_def)
      ultimately show ?thesis using Cons Some line by (simp add: bindE_run)
    qed
  qed
qed

lemma replay_lines_run:
  assumes "is_open (socket c)" and "1 < job_log_ws_thin_interval cfg"
  shows "\<exists>c'. replay_lines W cfg (Suc (Suc n)) ls c = (Inr (), c') \<and> is_open (socket c')"
  using assms(1)
proof (induction ls arbitrary: c)
  case Nil
  then show ?case by (simp add: returnE_run)
next
  case (Cons l ls)
  show ?case
  proof (cases "parse_stream_payload l")
    case (Pair a b)
    from send_line_adds [OF Cons.prems assms(2), where n = n and line = "the a"] obtain c1 ds where
      "send_line W cfg (Suc (Suc n)) (the a) c = (Inr (), c1)" "added c c1 ds" by blast
    moreover from this(2) have "is_open (socket c1)" by (simp add: added_def)
    ultimately show ?thesis
      using Cons Pair by (auto simp: bindE_run returnE_run split: option.split)
  qed
qed

end

text \<open>C39: an end of stream in the replay buffer only stops the replay.  A client whose job row was read
  before the job finished, and which subscribes after the end was published, waits for a message
  that will never come: whatever else arrives, the handler does not close the socket.\<close>

theorem stream_misses_buffered_eof:
  assumes "websocket W is_open delivered" and "redis_lists R up items" and "up (w_redis (ss_world x))"
    and "is_open (socket (ss_client x))" and "1 < job_log_ws_thin_interval cfg"
    and "authorise_stream C cfg touch_ok now token job_id (w_db (ss_world x)) = (Inr j, d')"
    and "j_status j \<notin> set FINISHED_STATUSES"
    and "\<forall>m \<in> set live. \<forall>payload. m = Some payload \<longrightarrow> snd (parse_stream_payload payload) = None"
  shows "fst (stream_job_logs C R W cfg (Suc (Suc n)) touch_ok now token job_id live x) = Inr False"
proof -
  let ?c = "ss_client x"
  from websocket.accept_law [OF assms(1,4)] obtain s1 where
    s1: "ws_accept W (socket ?c) = (Inr (), s1)" "is_open s1" by (rule effectE)
  let ?c1 = "?c\<lparr>socket := s1\<rparr>"
  obtain lines where lines: "rd_lrange R (job_log_buffer_key (str_uuid (j_id j))) 0
      (replay_buffer_max_index cfg) (w_redis (ss_world x)) = (Inr lines, w_redis (ss_world x))"
    using redis_lists.lrange_law [OF assms(2,3)] by blast
  from websocket.replay_lines_run [OF assms(1) _ assms(5), of ?c1 n lines] s1(2) obtain c2 where
    c2: "replay_lines W cfg (Suc (Suc n)) lines ?c1 = (Inr (), c2)" "is_open (socket c2)" by auto
  from websocket.relay_live_waits [OF assms(1) c2(2) assms(5,8), of n] obtain c3 where
    "relay_live W cfg (Suc (Suc n)) live c2 = (Inr None, c3)" by blast
  with assms(6,7) s1(1) lines c2(1) show ?thesis
    by (simp add: stream_job_logs_def handler_simps)
qed

text \<open>\<open>alice\<close> follows her running job with her key, the end of stream already in the buffer.\<close>

definition stream0 :: "(ref_state, ref_socket) session" where
  "stream0 = \<lparr>ss_world = (world_job RUNNING)\<lparr>w_redis := ref_redis0\<lparr>rr_items :=
       (\<lambda>_. [])(job_log_buffer_key (str_uuid 77) := [eof_message (Some 0)])\<rparr>\<rparr>,
     ss_client = new_relay (socket0 [])\<rparr>"

lemma stream0_simps [simp]: "w_db (ss_world stream0) = w_db (world_job RUNNING)"
  "rr_up (w_redis (ss_world stream0))" "rs_open (socket (ss_client stream0))"
  by (simp_all add: stream0_def new_relay_def socket0_def ref_redis0_def)

lemma resolve_alice:
  "users d = [alice, root] \<Longrightarrow> api_keys d = [alice_key] \<Longrightarrow>
   resolve_principal_from_token ref_crypto cfg0 False 5 alice_token d =
     (Inr \<lparr>p_user = alice, p_api_key = Some alice_key\<rparr>, d)"
  by (simp add: resolve_principal_from_token_def authenticate_api_key_run handler_simps deps_defs
      is_api_key_token_def API_KEY_PREFIX_def startswith_def hash_token_def ref_crypto_def
      scalar_one_or_none_def row_get_Cons alice_token_def alice_key_def)

lemma authorise_stream0:
  "authorise_stream ref_crypto cfg0 False 5 (Some alice_token) 77 (w_db (world_job RUNNING)) =
     (Inr (job0\<lparr>j_status := RUNNING\<rparr>), w_db (world_job RUNNING))"
proof -
  have "users (w_db (world_job RUNNING)) = [alice, root]" "api_keys (w_db (world_job RUNNING)) = [alice_key]"
    by (simp_all add: world_job_def)
  from resolve_alice [OF this] show ?thesis
    by (simp add: authorise_stream_def ws_principal_def handler_simps require_jobs_read_scope_def
        scalar_one_or_none_def job_visible_to_principal_def principal_scopes_def alice_token_def)
      (simp add: alice_key_def)
qed


theorem stream_misses_buffered_eof_witness:
  "fst (stream_job_logs ref_crypto ref_redis ref_ws cfg0 2 False 5 (Some alice_token) 77 [None, Some ''bye'', None]
     stream0) = Inr False"
proof -
  have auth: "authorise_stream ref_crypto cfg0 False 5 (Some alice_token) 77 (w_db (ss_world stream0)) =
      (Inr (job0\<lparr>j_status := RUNNING\<rparr>), w_db (world_job RUNNING))"
    using authorise_stream0 by simp
  have k: "1 < job_log_ws_thin_interval cfg0" by (simp add: cfg0_def default_settings_def)
  have live: "\<forall>m \<in> set [None, Some ''bye'', None]. \<forall>payload. m = Some payload \<longrightarrow>
      snd (parse_stream_payload payload) = None"
    by (simp add: parse_stream_payload_def startswith_def)
  show ?thesis
    using stream_misses_buffered_eof [OF ref_sock.websocket_axioms ref_srv.redis_lists_axioms _ _ k auth _ live, where n = 0]
    by (simp add: FINISHED_STATUSES_def numeral_2_eq_2)
qed

end
