(* ===== verification/Worker_Lock.thy ===== *)
theory Worker_Lock
  imports Redis_Client Fixtures
begin

text \<open>
  The singleton lock of the worker agent (\<open>worker/lock.py\<close>): a Redis key that is set only when
  absent and expires, holding the token of its owner.  Refreshing and releasing read the key
  first and act on it in a second command.
\<close>

section \<open>The lock\<close>

record worker_lock =
  wl_key :: string
  wl_token :: string

text \<open>The constructor, given the process id and the drawn UUID.\<close>

definition new_worker_lock :: "settings \<Rightarrow> string \<Rightarrow> int \<Rightarrow> uuid \<Rightarrow> worker_lock" where
  "new_worker_lock cfg hostname pid u = \<lparr>wl_key = worker_lock_key cfg,
     wl_token = hostname @ '':'' @ str_int pid @ '':'' @ str_uuid u\<rparr>"

definition lock_acquire :: "'r redis_ops \<Rightarrow> settings \<Rightarrow> worker_lock \<Rightarrow> ('r, bool) handler" where
  "lock_acquire R cfg l = rd_set_nx_ex R (wl_key l) (wl_token l) (worker_lock_ttl_seconds cfg)"

text \<open>\<open>refresh\<close> and \<open>release\<close> after their first command has returned \<open>current\<close>.\<close>

definition refresh_if :: "'r redis_ops \<Rightarrow> settings \<Rightarrow> worker_lock \<Rightarrow> string option \<Rightarrow> ('r, bool) handler" where
  "refresh_if R cfg l current =
     (if current \<noteq> Some (wl_token l) then returnE False
      else bindE (rd_expire R (wl_key l) (worker_lock_ttl_seconds cfg)) (\<lambda>_. returnE True))"

definition lock_refresh :: "'r redis_ops \<Rightarrow> settings \<Rightarrow> worker_lock \<Rightarrow> ('r, bool) handler" where
  "lock_refresh R cfg l = bindE (rd_get R (wl_key l)) (refresh_if R cfg l)"

definition release_if :: "'r redis_ops \<Rightarrow> worker_lock \<Rightarrow> string option \<Rightarrow> ('r, unit) handler" where
  "release_if R l current = whenE (current = Some (wl_token l)) (rd_delete R (wl_key l))"

definition lock_release :: "'r redis_ops \<Rightarrow> worker_lock \<Rightarrow> ('r, unit) handler" where
  "lock_release R l = bindE (rd_get R (wl_key l)) (release_if R l)"

section \<open>What the other workers can do\<close>

text \<open>
  \<open>others R cfg l n r r'\<close>: from \<open>r\<close> to \<open>r'\<close> workers with other tokens have used the lock in any order
  while \<open>n\<close> seconds passed on the server.
\<close>

inductive others :: "'r redis_ops \<Rightarrow> settings \<Rightarrow> worker_lock \<Rightarrow> int \<Rightarrow> 'r \<Rightarrow> 'r \<Rightarrow> bool"
  for R cfg l where
  others_none: "others R cfg l 0 r r"
| others_acquire: "others R cfg l n r r' \<Longrightarrow> wl_key l' = wl_key l \<Longrightarrow> wl_token l' \<noteq> wl_token l \<Longrightarrow>
     others R cfg l n r (snd (lock_acquire R cfg l' r'))"
| others_refresh: "others R cfg l n r r' \<Longrightarrow> wl_key l' = wl_key l \<Longrightarrow> wl_token l' \<noteq> wl_token l \<Longrightarrow>
     others R cfg l n r (snd (lock_refresh R cfg l' r'))"
| others_release: "others R cfg l n r r' \<Longrightarrow> wl_key l' = wl_key l \<Longrightarrow> wl_token l' \<noteq> wl_token l \<Longrightarrow>
     others R cfg l n r (snd (lock_release R l' r'))"
| others_wait: "others R cfg l n r r' \<Longrightarrow> 0 \<le> m \<Longrightarrow> others R cfg l (n + m) r (rd_elapse R m r')"

context redis_strings
begin

lemma acquire_run:
  assumes "up r" and "0 < worker_lock_ttl_seconds cfg"
  obtains r' where "lock_acquire R cfg l r = (Inr (entry r (wl_key l) = None), r')" "up r'"
    "entry r' = (if entry r (wl_key l) = None
       then (entry r)(wl_key l := Some (wl_token l, Some (worker_lock_ttl_seconds cfg))) else entry r)"
proof -
  from set_nx_ex_law [OF assms, of "wl_key l" "wl_token l"] obtain r' where
    "rd_set_nx_ex R (wl_key l) (wl_token l) (worker_lock_ttl_seconds cfg) r = (Inr (entry r (wl_key l) = None), r')"
    "up r'" "entry r' = (if entry r (wl_key l) = None
       then (entry r)(wl_key l := Some (wl_token l, Some (worker_lock_ttl_seconds cfg))) else entry r)"
    by (rule effectE)
  then show ?thesis by (intro that) (simp_all add: lock_acquire_def)
qed

lemma refresh_run:
  assumes "up r" and "0 < worker_lock_ttl_seconds cfg"
  shows "if map_option fst (entry r (wl_key l)) = Some (wl_token l)
    then \<exists>r'. lock_refresh R cfg l r = (Inr True, r') \<and> up r' \<and>
      entry r' = (entry r)(wl_key l := Some (wl_token l, Some (worker_lock_ttl_seconds cfg)))
    else lock_refresh R cfg l r = (Inr False, r)"
proof (cases "map_option fst (entry r (wl_key l)) = Some (wl_token l)")
  case True
  then obtain t where e: "entry r (wl_key l) = Some (wl_token l, t)" by auto
  from expire_law [OF assms, of "wl_key l"] obtain r' where
    "rd_expire R (wl_key l) (worker_lock_ttl_seconds cfg) r = (Inr (), r')" "up r'"
    "entry r' = (entry r)(wl_key l := map_option (\<lambda>(v, _). (v, Some (worker_lock_ttl_seconds cfg))) (entry r (wl_key l)))"
    by (rule effectE)
  with True e show ?thesis
    by (simp add: lock_refresh_def refresh_if_def bindE_run returnE_run get_law [OF assms(1)])
next
  case False
  then show ?thesis
    by (simp only: lock_refresh_def refresh_if_def bindE_run get_law [OF assms(1)]) (simp add: returnE_run)
qed

lemma release_other:
  "up r \<Longrightarrow> map_option fst (entry r (wl_key l)) \<noteq> Some (wl_token l) \<Longrightarrow> lock_release R l r = (Inr (), r)"
  by (simp add: lock_release_def release_if_def handler_simps get_law)

lemma others_keep_lock:
  assumes "others R cfg l n r r'" and "up r" and "entry r (wl_key l) = Some (wl_token l, Some t)" and "n < t"
    and ttl: "0 < worker_lock_ttl_seconds cfg"
  shows "up r' \<and> entry r' (wl_key l) = Some (wl_token l, Some (t - n)) \<and> 0 \<le> n"
  using assms(1-4)
proof (induction rule: others.induct)
  case (others_none r)
  then show ?case by simp
next
  case (others_acquire n r r' l')
  then have r': "up r'" "entry r' (wl_key l) = Some (wl_token l, Some (t - n))" "0 \<le> n" by blast+
  obtain r'' where "lock_acquire R cfg l' r' = (Inr (entry r' (wl_key l') = None), r'')" "up r''"
    "entry r'' = (if entry r' (wl_key l') = None
       then (entry r')(wl_key l' := Some (wl_token l', Some (worker_lock_ttl_seconds cfg))) else entry r')"
    by (rule acquire_run [OF r'(1) ttl])
  with r' others_acquire.hyps(2) show ?case by simp
next
  case (others_refresh n r r' l')
  then have r': "up r'" "entry r' (wl_key l) = Some (wl_token l, Some (t - n))" "0 \<le> n" by blast+
  with refresh_run [OF r'(1) ttl, of l'] others_refresh.hyps(2,3) show ?case by simp
next
  case (others_release n r r' l')
  then have r': "up r'" "entry r' (wl_key l) = Some (wl_token l, Some (t - n))" "0 \<le> n" by blast+
  with release_other [OF r'(1), of l'] others_release.hyps(2,3) show ?case by simp
next
  case (others_wait n r r' m)
  then have r': "up r'" "entry r' (wl_key l) = Some (wl_token l, Some (t - n))" "0 \<le> n" by auto
  from elapse_law [OF r'(1) others_wait.hyps(2)] r' others_wait.prems(3) others_wait.hyps(2)
  show ?case by (auto simp: entry_after_def)
qed

end


definition lock1 :: worker_lock where
  "lock1 = new_worker_lock cfg0 ''h'' 1 10"

definition lock2 :: worker_lock where
  "lock2 = new_worker_lock cfg0 ''h'' 2 20"

lemma locks: "wl_key lock1 = wl_key lock2" "wl_token lock1 \<noteq> wl_token lock2" "0 < worker_lock_ttl_seconds cfg0"
  "worker_lock_ttl_seconds cfg0 = 30"
proof -
  have "str_int 1 = ''1''" "str_int 2 = ''2''" by code_simp+
  then show "wl_token lock1 \<noteq> wl_token lock2" by (simp add: lock1_def lock2_def new_worker_lock_def)
qed (simp_all add: lock1_def lock2_def new_worker_lock_def cfg0_def default_settings_def)


text \<open>The lock is lost silently: the agent refreshes it only between jobs, so when a job outlives the
  time to live another worker acquires it while the first is still running its container.  And
  the two commands of \<open>release\<close> can straddle the expiry, in which case the second deletes the
  lock of the new owner.\<close>

theorem lock_lapses:
  assumes "redis_strings R up entry" and "up r0" and "0 < worker_lock_ttl_seconds cfg"
    and "lock_acquire R cfg l r0 = (Inr True, r)" and "wl_key l' = wl_key l" and "wl_token l' \<noteq> wl_token l"
  shows "let r1 = rd_elapse R (worker_lock_ttl_seconds cfg) r; r2 = snd (lock_acquire R cfg l' r1) in
    fst (lock_acquire R cfg l' r1) = Inr True \<and> fst (lock_refresh R cfg l r2) = Inr False \<and>
    rd_get R (wl_key l) r = (Inr (Some (wl_token l)), r) \<and>
    rd_get R (wl_key l') r2 = (Inr (Some (wl_token l')), r2) \<and>
    fst (rd_get R (wl_key l') (snd (release_if R l (Some (wl_token l)) r2))) = Inr None"
proof -
  let ?k = "wl_key l" and ?ttl = "worker_lock_ttl_seconds cfg"
  let ?r1 = "rd_elapse R ?ttl r"
  obtain ra where "lock_acquire R cfg l r0 = (Inr (entry r0 ?k = None), ra)" "up ra"
    "entry ra = (if entry r0 ?k = None then (entry r0)(?k := Some (wl_token l, Some ?ttl)) else entry r0)"
    by (rule redis_strings.acquire_run [OF assms(1-3)])
  with assms(4) have r: "up r" "entry r ?k = Some (wl_token l, Some ?ttl)" by auto
  from redis_strings.elapse_law [OF assms(1) r(1), of ?ttl] assms(3) r(2)
  have r1: "up ?r1" "entry ?r1 ?k = None" by (auto simp: entry_after_def)
  obtain r2 where r2: "lock_acquire R cfg l' ?r1 = (Inr (entry ?r1 (wl_key l') = None), r2)" "up r2"
    "entry r2 = (if entry ?r1 (wl_key l') = None
       then (entry ?r1)(wl_key l' := Some (wl_token l', Some ?ttl)) else entry ?r1)"
    by (rule redis_strings.acquire_run [OF assms(1) r1(1) assms(3)])
  have e2: "entry r2 ?k = Some (wl_token l', Some ?ttl)" using r2(3) r1(2) assms(5) by simp
  have "lock_refresh R cfg l r2 = (Inr False, r2)"
    using redis_strings.refresh_run [OF assms(1) r2(2) assms(3), of l] e2 assms(6) by simp
  moreover from redis_strings.delete_law [OF assms(1) r2(2), of ?k] obtain r3 where
    "rd_delete R ?k r2 = (Inr (), r3)" "up r3" "entry r3 = (entry r2)(?k := None)" by (rule effectE)
  ultimately show ?thesis
    using r r1(2) r2 e2 assms(5) redis_strings.get_law [OF assms(1)]
    by (simp add: Let_def release_if_def whenE_run)
qed

theorem lock_lapses_witness:
  "fst (lock_acquire ref_redis cfg0 lock2 (rd_elapse ref_redis 30 (snd (lock_acquire ref_redis cfg0 lock1 ref_redis0)))) = Inr True"
proof -
  have a: "lock_acquire ref_redis cfg0 lock1 ref_redis0 = (Inr True, snd (lock_acquire ref_redis cfg0 lock1 ref_redis0))"
    by (simp add: lock_acquire_def ref_redis_simps)
  from lock_lapses [OF ref_srv.redis_strings_axioms _ locks(3) a, of lock2] locks show ?thesis
    by (simp add: Let_def)
qed

end
