(* ===== verification/Worker_Agent.thy ===== *)
theory Worker_Agent
  imports Worker_Lock Worker_Repository Container
begin

text \<open>
  The worker agent: the MLflow look-up (\<open>worker/mlflow_lookup.py\<close>), the cancel listener
  (\<open>worker/cancel_listener.py\<close>) and the loop that takes jobs from the queue, runs them and records
  the result (\<open>worker/agent.py\<close>).  Between the agent's transactions the rest of the system may act;
  that is the subject of \<open>Job_Lifecycle\<close>, here the agent runs alone.
\<close>

section \<open>The MLflow look-up\<close>

text \<open>An HTTP client: the status code and the body of a response, or an exception.\<close>

record 'h http_ops =
  hx_get :: "string \<Rightarrow> (string \<times> string) list \<Rightarrow> ('h, int \<times> string) handler"
  hx_post :: "string \<Rightarrow> json \<Rightarrow> ('h, int \<times> string) handler"

text \<open>\<open>value.get(key, default)\<close>: an \<open>AttributeError\<close> on what is not an object.\<close>

definition json_get :: "string \<Rightarrow> json \<Rightarrow> json \<Rightarrow> exn + json" where
  "json_get key dflt v = (case v of
     JObj ps \<Rightarrow> Inr (case jlookup key ps of Some x \<Rightarrow> x | None \<Rightarrow> dflt)
   | _ \<Rightarrow> Inl (OtherException ''AttributeError''))"

text \<open>Python's truth of a decoded value; a \<open>JReal\<close> is taken to be non-zero.\<close>

fun json_true :: "json \<Rightarrow> bool" where
  "json_true JNull = False"
| "json_true (JBool b) = b"
| "json_true (JInt i) = (i \<noteq> 0)"
| "json_true (JReal t) = True"
| "json_true (JStr s) = (s \<noteq> [])"
| "json_true (JList vs) = (vs \<noteq> [])"
| "json_true (JObj ps) = (ps \<noteq> [])"

definition response_json :: "string \<Rightarrow> exn + json" where
  "response_json body = (case json_loads body of
     Some v \<Rightarrow> Inr v | None \<Rightarrow> Inl (ValueError ''Expecting value''))"

text \<open>\<open>value[0]\<close>: the first element of a list; a character of a string, which has no \<open>get\<close>.\<close>

fun json_first :: "json \<Rightarrow> exn + json" where
  "json_first (JList (v # vs)) = Inr v"
| "json_first (JStr (c # cs)) = Inr (JStr [c])"
| "json_first _ = Inl (OtherException ''TypeError'')"

definition JOB_ID_TAG :: string where
  "JOB_ID_TAG = ''job_id''"

text \<open>The identifier in the reply to \<open>get-by-name\<close>, and that of the first run of a search.\<close>

definition experiment_id_of :: "string \<Rightarrow> exn + json" where
  "experiment_id_of body = (case response_json body of Inl e \<Rightarrow> Inl e
     | Inr v \<Rightarrow> (case json_get ''experiment'' (JObj []) v of Inl e \<Rightarrow> Inl e
         | Inr x \<Rightarrow> json_get ''experiment_id'' JNull x))"

definition run_id_of :: "string \<Rightarrow> exn + json" where
  "run_id_of body = (case response_json body of Inl e \<Rightarrow> Inl e
     | Inr v \<Rightarrow> (case json_get ''runs'' JNull v of Inl e \<Rightarrow> Inl e
         | Inr runs \<Rightarrow>
             if \<not> json_true runs then Inr JNull
             else (case json_first runs of Inl e \<Rightarrow> Inl e
               | Inr r \<Rightarrow> (case json_get ''info'' (JObj []) r of Inl e \<Rightarrow> Inl e
                   | Inr info \<Rightarrow> json_get ''run_id'' JNull info))))"

definition search_request :: "string \<Rightarrow> string \<Rightarrow> json" where
  "search_request experiment job_id = JObj [
     (''experiment_ids'', JList [JStr experiment]),
     (''filter'', JStr (''tags.`'' @ JOB_ID_TAG @ ''` = '' @ [CHR 0x22] @ job_id @ [CHR 0x22])),
     (''max_results'', JInt 1),
     (''order_by'', JList [JStr ''start_time DESC''])]"

text \<open>
  \<open>py_str\<close> is Python's \<open>str\<close> of a decoded value.  The look-up in the \<open>try\<close> block, which may raise,
  and the function, whose \<open>except\<close> turns every exception into \<open>None\<close>.
\<close>

definition mlflow_query ::
  "'h http_ops \<Rightarrow> (json \<Rightarrow> string) \<Rightarrow> string \<Rightarrow> string \<Rightarrow> string \<Rightarrow> ('h, json) handler" where
  "mlflow_query H py_str base experiment_name job_id =
     bindE (hx_get H (base @ ''/api/2.0/mlflow/experiments/get-by-name'')
         [(''experiment_name'', experiment_name)]) (\<lambda>(code, body).
     if code \<noteq> 200 then returnE JNull
     else bindE (liftE (\<lambda>_. experiment_id_of body)) (\<lambda>experiment.
       if \<not> json_true experiment then returnE JNull
       else bindE (hx_post H (base @ ''/api/2.0/mlflow/runs/search'')
           (search_request (py_str experiment) job_id)) (\<lambda>(code, body).
         if code \<noteq> 200 then returnE JNull else liftE (\<lambda>_. run_id_of body))))"

definition lookup_mlflow_run_id ::
  "'h http_ops \<Rightarrow> (json \<Rightarrow> string) \<Rightarrow> settings \<Rightarrow> string \<Rightarrow> string \<Rightarrow> ('h, json) handler" where
  "lookup_mlflow_run_id H py_str cfg experiment_name job_id =
     (let base = rstrip_by (\<lambda>c. c = CHR ''/'') (mlflow_tracking_uri cfg) in
      if base = [] then returnE JNull
      else (\<lambda>h. case mlflow_query H py_str base experiment_name job_id h of
          (Inl _, h') \<Rightarrow> (Inr JNull, h') | out \<Rightarrow> out))"

section \<open>Listening for a cancellation\<close>

text \<open>
  The polls of one listener: whether the event was set before the poll, and the payload it
  returned, \<open>None\<close> when it timed out or the message was of another type.  The result says whether
  the listener set the event.
\<close>

fun watch_for_cancel :: "(bool \<times> string option) list \<Rightarrow> bool" where
  "watch_for_cancel [] = False"
| "watch_for_cancel ((is_set, message) # polls) =
     (if is_set then False
      else (case message of
          None \<Rightarrow> watch_for_cancel polls
        | Some payload \<Rightarrow> if parse_cancel_command payload then True else watch_for_cancel polls))"

section \<open>Processing a job\<close>

record ('r, 's, 'd, 'h) machine =
  mc_platform :: "('r, 's) platform"
  mc_docker :: 'd
  mc_http :: 'h

definition on_platform :: "(('r, 's) platform, 'a) handler \<Rightarrow> (('r, 's, 'd, 'h) machine, 'a) handler" where
  "on_platform m = (\<lambda>x. case m (mc_platform x) of (out, p) \<Rightarrow> (out, x\<lparr>mc_platform := p\<rparr>))"

definition on_http :: "('h, 'a) handler \<Rightarrow> (('r, 's, 'd, 'h) machine, 'a) handler" where
  "on_http m = (\<lambda>x. case m (mc_http x) of (out, h) \<Rightarrow> (out, x\<lparr>mc_http := h\<rparr>))"

definition on_node :: "(('d, 'r) node, 'a) handler \<Rightarrow> (('r, 's, 'd, 'h) machine, 'a) handler" where
  "on_node m = (\<lambda>x. case m \<lparr>nd_docker = mc_docker x, nd_redis = w_redis (pl_world (mc_platform x))\<rparr> of
     (out, n) \<Rightarrow> (out, x\<lparr>mc_docker := nd_docker n,
        mc_platform := (mc_platform x)\<lparr>pl_world := (pl_world (mc_platform x))\<lparr>w_redis := nd_redis n\<rparr>\<rparr>\<rparr>))"

lemma on_platform_run [handler_simps]:
  "on_platform m x = (fst (m (mc_platform x)), x\<lparr>mc_platform := snd (m (mc_platform x))\<rparr>)"
  by (simp add: on_platform_def split: prod.splits)

lemma on_http_run [handler_simps]:
  "on_http m x = (fst (m (mc_http x)), x\<lparr>mc_http := snd (m (mc_http x))\<rparr>)"
  by (simp add: on_http_def split: prod.splits)

abbreviation mc_db :: "('r, 's, 'd, 'h) machine \<Rightarrow> db" where
  "mc_db x \<equiv> pl_db (mc_platform x)"

definition on_mdb :: "(db, 'a) handler \<Rightarrow> (('r, 's, 'd, 'h) machine, 'a) handler" where
  "on_mdb m = on_platform (on_world (on_db m))"

definition on_mredis :: "('r, 'a) handler \<Rightarrow> (('r, 's, 'd, 'h) machine, 'a) handler" where
  "on_mredis m = on_platform (on_world (on_redis m))"

text \<open>Everything outside the agent: the clients, the settings, the clock, and what the libraries draw.\<close>

record ('r, 's, 'd, 'h) env =
  ag_redis :: "'r redis_ops"
  ag_store :: "'s s3_ops"
  ag_docker :: "'d docker_ops"
  ag_http :: "'h http_ops"
  ag_settings :: settings
  ag_py_str :: "json \<Rightarrow> string"
  ag_untar :: "string \<Rightarrow> members option"
  ag_validation_msg :: string
  ag_fuel :: nat
  ag_now :: time
  ag_model_id :: uuid
  ag_chunks :: "uuid \<Rightarrow> string list"

text \<open>The status, error message and exit code a result is recorded with.\<close>

definition classify :: "container_result \<Rightarrow> job_status \<times> string option \<times> int option" where
  "classify r =
     (if cr_timed_out r \<or> cr_error_message r = Some ''timeout'' then (FAILED, Some ''timeout'', cr_exit_code r)
      else if cr_error_message r \<noteq> None then (FAILED, cr_error_message r, cr_exit_code r)
      else if cr_exit_code r = Some 0 then (SUCCEEDED, None, Some 0)
      else (FAILED, None, cr_exit_code r))"

text \<open>Promotion: its error, or the text of what it raised; an empty text counts as none.\<close>

definition promote_result ::
  "('r, 's, 'd, 'h) env \<Rightarrow> uuid \<Rightarrow> uuid \<Rightarrow> string \<Rightarrow> outputs option \<Rightarrow> (('r, 's, 'd, 'h) machine, string option) handler" where
  "promote_result E job_id user_id job_name files = (\<lambda>x.
     case on_platform (promote_outputs (ag_redis E) (ag_store E) (ag_settings E) (ag_now E) (ag_model_id E)
         job_id user_id job_name files None) x of
       (Inl e, x') \<Rightarrow> (Inr (Some (''artifact upload failed: '' @ exn_str e)), x')
     | (Inr (_, err), x') \<Rightarrow> (Inr err, x'))"

text \<open>The run identifier as a column value; MLflow documents it to be a string.\<close>

definition run_id_value :: "json \<Rightarrow> string option" where
  "run_id_value v = (case v of JStr s \<Rightarrow> Some s | _ \<Rightarrow> None)"

definition newline_after :: "string option \<Rightarrow> string" where
  "newline_after err = (case err of Some m \<Rightarrow> if m = [] then [] else m @ [newline] | None \<Rightarrow> [])"

definition apply_container_result ::
  "('r, 's, 'd, 'h) env \<Rightarrow> uuid \<Rightarrow> uuid \<Rightarrow> string \<Rightarrow> container_result \<Rightarrow> (('r, 's, 'd, 'h) machine, unit) handler" where
  "apply_container_result E job_id user_id job_name r =
     (if cr_cancelled r
      then bindE (on_mdb (finalize_job (ag_now E) job_id CANCELLED None None (cr_log_tail r) None None)) (\<lambda>_.
        on_mredis (publish_eof_cancelled (ag_redis E) (ag_settings E) (str_uuid job_id)))
      else (let (st, error_message, exit_code) = classify r in
        bindE (if st = SUCCEEDED \<and> cr_outputs_dir r \<noteq> None
            then promote_result E job_id user_id job_name (cr_outputs_dir r) else returnE None) (\<lambda>artifact_error.
        bindE (if st = SUCCEEDED
            then on_http (lookup_mlflow_run_id (ag_http E) (ag_py_str E) (ag_settings E) job_name (str_uuid job_id))
            else returnE JNull) (\<lambda>run_id.
        bindE (on_mdb (finalize_job (ag_now E) job_id st exit_code error_message
            (cr_log_tail r @ newline_after artifact_error) (run_id_value run_id) artifact_error)) (\<lambda>_.
        on_mredis (publish_eof (ag_redis E) (ag_settings E) (str_uuid job_id) exit_code))))))"

definition process_job ::
  "('r, 's, 'd, 'h) env \<Rightarrow> string \<Rightarrow> string \<Rightarrow> (('r, 's, 'd, 'h) machine, unit) handler" where
  "process_job E job_id worker_hostname =
     (case parse_uuid job_id of
        Inl _ \<Rightarrow> returnE ()
      | Inr job_uuid \<Rightarrow>
          bindE (on_mdb (load_job job_uuid)) (\<lambda>found.
          case found of
            None \<Rightarrow> returnE ()
          | Some j \<Rightarrow>
              if j_status j \<noteq> QUEUED then returnE ()
              else (case job_spec_model_validate (ag_settings E) (j_spec j) of
                  Inl e \<Rightarrow> on_mdb (finalize_job (ag_now E) job_uuid FAILED None
                      (Some (''invalid job spec: '' @ ag_validation_msg E)) [] None None)
                | Inr spec \<Rightarrow>
                    bindE (on_mdb (mark_job_running (ag_now E) job_uuid worker_hostname)) (\<lambda>running.
                    case running of
                      None \<Rightarrow> returnE ()
                    | Some rj \<Rightarrow>
                        bindE (on_node (run_container (ag_docker E) (ag_redis E) (ag_settings E) (ag_untar E)
                            (ag_validation_msg E) (ag_fuel E) (ag_chunks E job_uuid) spec job_id
                            (js_timeout_minutes spec * 60) (j_name rj))) (\<lambda>result.
                        apply_container_result E job_uuid (j_user_id rj) (j_name rj) result)))))"

section \<open>The loop\<close>

datatype loop_end = NotStarted | LostLock | ShutDown | StillServing

text \<open>The body of \<open>while True\<close>, for at most \<open>rounds\<close> rounds.\<close>

fun serve_rounds ::
  "('r, 's, 'd, 'h) env \<Rightarrow> worker_lock \<Rightarrow> string \<Rightarrow> nat \<Rightarrow> (('r, 's, 'd, 'h) machine, loop_end) handler" where
  "serve_rounds E l worker_hostname 0 = returnE StillServing"
| "serve_rounds E l worker_hostname (Suc rounds) =
     bindE (on_mredis (lock_refresh (ag_redis E) (ag_settings E) l)) (\<lambda>held.
     if \<not> held then returnE LostLock
     else (\<lambda>x. case on_mredis (rd_brpop (ag_redis E) (job_queue_key (ag_settings E))
             (worker_brpop_timeout_seconds (ag_settings E))) x of
         (Inl RedisTimeoutError, x') \<Rightarrow> serve_rounds E l worker_hostname rounds x'
       | (Inl CancelledError, x') \<Rightarrow> (Inr ShutDown, x')
       | (Inl e, x') \<Rightarrow> (Inl e, x')
       | (Inr None, x') \<Rightarrow> serve_rounds E l worker_hostname rounds x'
       | (Inr (Some queued_job_id), x') \<Rightarrow>
           bindE (process_job E queued_job_id worker_hostname) (\<lambda>_.
             serve_rounds E l worker_hostname rounds) x'))"

text \<open>
  The \<open>finally\<close> clause releases the lock when the loop ends, by a return or by an exception; the
  reaping before it is not covered.
\<close>

definition run_loop ::
  "('r, 's, 'd, 'h) env \<Rightarrow> worker_lock \<Rightarrow> string \<Rightarrow> nat \<Rightarrow> (('r, 's, 'd, 'h) machine, loop_end) handler" where
  "run_loop E l worker_hostname rounds =
     bindE (on_mredis (lock_acquire (ag_redis E) (ag_settings E) l)) (\<lambda>acquired.
     if \<not> acquired then returnE NotStarted
     else bindE (on_mdb (reap_zombie_jobs (ag_now E) worker_hostname)) (\<lambda>_ x.
       case serve_rounds E l worker_hostname rounds x of
         (Inr StillServing, x') \<Rightarrow> (Inr StillServing, x')
       | (out, x') \<Rightarrow> (case on_mredis (lock_release (ag_redis E) l) x' of
             (Inl e, x'') \<Rightarrow> (Inl e, x'') | (Inr _, x'') \<Rightarrow> (out, x''))))"

text \<open>
  The process: its Redis client, whose reads outlive the blocking pop, and the loop under a lock of its
  own; the client is closed however the loop ends.
\<close>

record redis_client =
  rc_url :: string
  rc_socket_timeout :: int

definition worker_redis :: "settings \<Rightarrow> redis_client" where
  "worker_redis cfg = \<lparr>rc_url = redis_url cfg, rc_socket_timeout = worker_brpop_timeout_seconds cfg + 5\<rparr>"

definition async_main ::
  "('r, 's, 'd, 'h) env \<Rightarrow> string \<Rightarrow> int \<Rightarrow> uuid \<Rightarrow> (redis_client \<Rightarrow> (('r, 's, 'd, 'h) machine, unit) handler) \<Rightarrow> nat \<Rightarrow>
   (('r, 's, 'd, 'h) machine, loop_end) handler" where
  "async_main E hostname pid u aclose rounds = (\<lambda>x.
     case run_loop E (new_worker_lock (ag_settings E) hostname pid u) hostname rounds x of
       (Inr StillServing, x') \<Rightarrow> (Inr StillServing, x')
     | (out, x') \<Rightarrow> (case aclose (worker_redis (ag_settings E)) x' of
           (Inl e, x'') \<Rightarrow> (Inl e, x'') | (Inr _, x'') \<Rightarrow> (out, x'')))"

section \<open>Frames\<close>

lemma keeps_on_mdb: "keeps f m \<Longrightarrow> keeps (\<lambda>x. f (mc_db x)) (on_mdb m)"
  by (simp add: keeps_def on_mdb_def handler_simps)

lemma keeps_on_mredis [keeps_intros]: "keeps (\<lambda>x. f (mc_db x)) (on_mredis m)"
  by (simp add: keeps_def on_mredis_def handler_simps)

lemma keeps_on_http [keeps_intros]: "keeps (\<lambda>x. f (mc_db x)) (on_http m)"
  by (simp add: keeps_def on_http_run)

lemma keeps_on_node [keeps_intros]: "keeps (\<lambda>x. f (mc_db x)) (on_node m)"
  by (simp add: keeps_def on_node_def split: prod.split)

lemma keeps_on_world: "keeps (\<lambda>w. f (w_db w)) m \<Longrightarrow> keeps (\<lambda>p. f (pl_db p)) (on_world m)"
  by (simp add: keeps_def on_world_run)

lemma keeps_on_store [keeps_intros]: "keeps (\<lambda>p. f (pl_db p)) (on_store m)"
  by (simp add: keeps_def on_store_run)

text \<open>Quota enforcement and promotion write quotas and models, never jobs.\<close>

lemma enforce_keeps_jobs [keeps_intros]: "keeps (\<lambda>w. jobs (w_db w)) (enforce R cfg now now' u res amount)"
proof -
  have "keeps (\<lambda>w. jobs (w_db w)) (on_db (get_or_create_quota cfg u))"
    unfolding get_or_create_quota_def by (intro keeps_on_db keeps_intros keeps_modifyE) simp
  moreover have "keeps (\<lambda>w. jobs (w_db w)) (current_usage R now u res)"
    unfolding current_usage_def by (intro keeps_intros keeps_on_db)
  ultimately show ?thesis
    unfolding enforce_def enforce_check_def enforce_consume_def by (intro keeps_intros)
qed

lemma caught_enforce_keeps:
  fixes R :: "'r redis_ops"
  shows "keeps (\<lambda>p :: ('r, 's) platform. jobs (pl_db p)) (\<lambda>p. case on_world (enforce R cfg now now u STORAGE_MB n) p of
      (Inl (QuotaExceededError detail quota limit current), p') \<Rightarrow> (Inr (Some detail), p')
    | (Inl e, p') \<Rightarrow> (Inl e, p') | (Inr _, p') \<Rightarrow> (Inr None, p'))" (is "keeps _ ?try")
  unfolding keeps_def
proof
  fix p :: "('r, 's) platform"
  obtain out p' where r: "on_world (enforce R cfg now now u STORAGE_MB n) p = (out, p')" by fastforce
  have "keeps (\<lambda>p :: ('r, 's) platform. jobs (pl_db p)) (on_world (enforce R cfg now now u STORAGE_MB n))"
    by (intro keeps_on_world keeps_intros)
  then have "jobs (pl_db p') = jobs (pl_db p)" using r by (rule keeps_run)
  with r show "jobs (pl_db (snd (?try p))) = jobs (pl_db p)"
    by (cases out) (auto split: exn.split)
qed

lemma promote_keeps_jobs: "keeps (\<lambda>p. jobs (pl_db p)) (promote_outputs R S cfg now mid i uid name files fw)"
proof -
  have add: "keeps (\<lambda>p. jobs (pl_db p)) (on_world (on_db (add_model m)))" for m
    by (intro keeps_on_world keeps_on_db) (simp add: keeps_def add_model_def)
  have read: "keeps (\<lambda>p. jobs (pl_db p)) (on_world (on_db (getsE g)))" for g
    by (intro keeps_on_world keeps_on_db keeps_intros)
  show ?thesis
    unfolding promote_outputs_def Let_def by (intro keeps_intros add read caught_enforce_keeps)
qed

lemma promote_result_keeps: "keeps (\<lambda>x. jobs (mc_db x)) (promote_result E i uid name files)"
proof -
  have "jobs (pl_db (snd (promote_outputs (ag_redis E) (ag_store E) (ag_settings E) (ag_now E) (ag_model_id E)
      i uid name files None p))) = jobs (pl_db p)" for p
    by (rule keepsD [OF promote_keeps_jobs])
  then show ?thesis
    by (auto simp: keeps_def promote_result_def on_platform_run split: prod.splits sum.splits)
qed

section \<open>What the agent records\<close>

lemma classify_terminal: "fst (classify r) \<in> {SUCCEEDED, FAILED}"
  by (simp add: classify_def)

lemma classify_succeeded:
  "fst (classify r) = SUCCEEDED \<longleftrightarrow> \<not> cr_timed_out r \<and> cr_error_message r = None \<and> cr_exit_code r = Some 0"
  by (auto simp: classify_def)

lemma finalize_row:
  assumes "finalize_job now i st ec em tail mid ae d = (out, d')" and "job_row d i = Some j"
  shows "if job_columns_fit (finalized now st ec em mid ae j)
    then out = Inr () \<and> job_row d' i = Some (finalized now st ec em mid ae j) \<and>
      (\<forall>k. k \<noteq> i \<longrightarrow> job_row d' k = job_row d k)
    else out = Inl (OtherException ''StringDataRightTruncation'') \<and> d' = d"
  using assms
  by (auto simp: finalize_job_run job_row_def [symmetric] Let_def job_row_update option.map_ident split: if_splits)

text \<open>The look-up never raises, whatever the tracking server answers, and without a tracking URI it
  makes no request.\<close>

theorem mlflow_lookup_total:
  "(\<exists>v h'. lookup_mlflow_run_id H py_str cfg experiment_name job_id h = (Inr v, h')) \<and>
   (rstrip_by (\<lambda>c. c = CHR ''/'') (mlflow_tracking_uri cfg) = [] \<longrightarrow>
     lookup_mlflow_run_id H py_str cfg experiment_name job_id h = (Inr JNull, h))"
proof -
  obtain out h' where "mlflow_query H py_str (rstrip_by (\<lambda>c. c = CHR ''/'') (mlflow_tracking_uri cfg))
      experiment_name job_id h = (out, h')" by fastforce
  then show ?thesis
    by (cases out) (simp_all add: lookup_mlflow_run_id_def Let_def returnE_run)
qed

lemma on_mdb_at: "on_mdb m x = (out, x') \<Longrightarrow> m (mc_db x) = (out, mc_db x')"
  by (auto simp: on_mdb_def handler_simps prod_eq_iff)

text \<open>A job row finished in a step from \<open>x\<close> to \<open>x'\<close>, every other job row as it was.\<close>

definition finished_as ::
  "time \<Rightarrow> uuid \<Rightarrow> job_status \<Rightarrow> db \<Rightarrow> db \<Rightarrow> bool" where
  "finished_as now i st d d' \<longleftrightarrow> (\<exists>j ec em mid ae. job_row d i = Some j \<and>
     job_row d' i = Some (finalized now st ec em mid ae j) \<and> (\<forall>k. k \<noteq> i \<longrightarrow> job_row d' k = job_row d k))"

lemma finished_as_cong: "jobs d1 = jobs d2 \<Longrightarrow> jobs d1' = jobs d2' \<Longrightarrow> finished_as now i st d1 d1' = finished_as now i st d2 d2'"
  by (simp add: finished_as_def job_row_def)

lemma finalize_then_publish:
  assumes "bindE (on_mdb (finalize_job now i st ec em tail mid ae)) (\<lambda>_. on_mredis m) x = (out, x')"
  obtains (raised) "isl out" "jobs (mc_db x') = jobs (mc_db x)"
    | (recorded) d where "finalize_job now i st ec em tail mid ae (mc_db x) = (Inr (), d)" "jobs (mc_db x') = jobs d"
proof -
  obtain o1 x1 where r: "on_mdb (finalize_job now i st ec em tail mid ae) x = (o1, x1)" by fastforce
  note f = on_mdb_at [OF r]
  show thesis
  proof (cases o1)
    case (Inl e)
    with f have "mc_db x1 = mc_db x" by (auto simp: finalize_job_run Let_def split: option.splits if_splits)
    with assms r Inl show thesis by (intro raised) (auto simp: bindE_run)
  next
    case (Inr u)
    with assms r have "on_mredis m x1 = (out, x')" by (simp add: bindE_run)
    then have "jobs (mc_db x') = jobs (mc_db x1)" by (rule keeps_run [OF keeps_on_mredis [where f = jobs]])
    with f Inr show thesis by (intro recorded) auto
  qed
qed

text \<open>The status a container's result stands for.\<close>

definition verdict :: "container_result \<Rightarrow> job_status" where
  "verdict r = (if cr_cancelled r then CANCELLED
     else if \<not> cr_timed_out r \<and> cr_error_message r = None \<and> cr_exit_code r = Some 0 then SUCCEEDED else FAILED)"

text \<open>The agent's transactions around a result: whatever comes before \<open>finalize_job\<close> leaves the jobs as
  they are, and so does what comes after it.\<close>

lemma apply_runs:
  assumes "apply_container_result E i uid name r x = (out, x')"
  obtains (raised) "isl out" "jobs (mc_db x') = jobs (mc_db x)"
    | (recorded) d1 d2 ec em tail mid ae where "jobs d1 = jobs (mc_db x)"
        "finalize_job (ag_now E) i (verdict r) ec em tail mid ae d1 = (Inr (), d2)" "jobs (mc_db x') = jobs d2"
proof (cases "cr_cancelled r")
  case True
  with assms have "bindE (on_mdb (finalize_job (ag_now E) i CANCELLED None None (cr_log_tail r) None None)) (\<lambda>_.
      on_mredis (publish_eof_cancelled (ag_redis E) (ag_settings E) (str_uuid i))) x = (out, x')"
    by (simp add: apply_container_result_def)
  then show thesis
    by (rule finalize_then_publish) (use True raised recorded in \<open>auto simp: verdict_def\<close>)
next
  case False
  obtain st em ec where c: "classify r = (st, em, ec)" by (metis prod_cases3)
  have st: "st = verdict r"
    using classify_terminal [of r] classify_succeeded [of r] c False by (auto simp: verdict_def)
  let ?jobs = "\<lambda>x. jobs (mc_db x)"
  let ?promote = "if st = SUCCEEDED \<and> cr_outputs_dir r \<noteq> None
      then promote_result E i uid name (cr_outputs_dir r) else returnE None"
  let ?look = "if st = SUCCEEDED
      then on_http (lookup_mlflow_run_id (ag_http E) (ag_py_str E) (ag_settings E) name (str_uuid i)) else returnE JNull"
  let ?rest = "\<lambda>ae rid. bindE (on_mdb (finalize_job (ag_now E) i st ec em (cr_log_tail r @ newline_after ae)
      (run_id_value rid) ae)) (\<lambda>_. on_mredis (publish_eof (ag_redis E) (ag_settings E) (str_uuid i) ec))"
  have run: "bindE ?promote (\<lambda>ae. bindE ?look (\<lambda>rid. ?rest ae rid)) x = (out, x')"
    using assms False c by (simp add: apply_container_result_def)
  have k: "keeps ?jobs ?promote" "keeps ?jobs ?look" by (intro keeps_intros promote_result_keeps)+
  from run k(1) show thesis
  proof (rule prefix_keeps)
    fix ae y
    assume y: "bindE ?look (\<lambda>rid. ?rest ae rid) y = (out, x')" "?jobs y = ?jobs x"
    from y(1) k(2) show thesis
    proof (rule prefix_keeps)
      fix rid z
      assume z: "?rest ae rid z = (out, x')" "?jobs z = ?jobs y"
      from z(1) show thesis
        by (rule finalize_then_publish) (use z(2) y(2) st raised recorded in auto)
    qed (use y(2) raised in simp)
  qed (use raised in simp)
qed

text \<open>Recording a result: when it returns, the job's row, and no other, has been finished with the
  status the result stands for: CANCELLED for a cancelled container, SUCCEEDED exactly for exit
  code 0 with neither time-out nor error, FAILED otherwise.  When it raises before that, no row
  has changed.\<close>

theorem container_result_recorded:
  assumes "apply_container_result E i uid name r x = (out, x')" and "job_row (mc_db x) i = Some j"
  shows "finished_as (ag_now E) i (if cr_cancelled r then CANCELLED
      else if \<not> cr_timed_out r \<and> cr_error_message r = None \<and> cr_exit_code r = Some 0 then SUCCEEDED else FAILED)
      (mc_db x) (mc_db x') \<or> isl out \<and> jobs (mc_db x') = jobs (mc_db x)"
  using assms(1)
proof (cases rule: apply_runs)
  case raised
  then show ?thesis by simp
next
  case (recorded d1 d2 ec em tail mid ae)
  have "job_row d1 i = Some j" using assms(2) recorded(1) by (simp add: job_row_def)
  with finalize_row [OF recorded(2)] have "finished_as (ag_now E) i (verdict r) d1 d2"
    by (auto simp: finished_as_def split: if_splits)
  then have "finished_as (ag_now E) i (verdict r) (mc_db x) (mc_db x')"
    by (rule finished_as_cong [THEN iffD1, rotated -1]) (use recorded in auto)
  then show ?thesis by (simp add: verdict_def)
qed

text \<open>When running the container raises, so does \<open>process_job\<close>, and the job stays RUNNING, claimed by a
  worker that no longer exists; its identifier is no longer in the queue, and processing it again
  would do nothing.  Only the reaping at the next start of a worker on the same host ends it.\<close>

theorem worker_crash_leaves_running:
  assumes "parse_uuid job_id = Inr i" and "job_row (mc_db x) i = Some j" and "j_status j = QUEUED"
    and "valid_spec (ag_settings E) (j_spec j)" and "job_columns_fit j" and "length host \<le> 128"
    and "fst (run_container (ag_docker E) (ag_redis E) (ag_settings E) (ag_untar E) (ag_validation_msg E) (ag_fuel E)
      (ag_chunks E i) (j_spec j) job_id (js_timeout_minutes (j_spec j) * 60) (j_name j)
      \<lparr>nd_docker = mc_docker x, nd_redis = w_redis (pl_world (mc_platform x))\<rparr>) = Inl e"
  shows "\<exists>x' j'. process_job E job_id host x = (Inl e, x') \<and> job_row (mc_db x') i = Some j' \<and>
    j_status j' = RUNNING \<and> j_worker_id j' = Some host \<and> process_job E job_id host x' = (Inr (), x')"
proof -
  let ?f = "\<lambda>r. r\<lparr>j_status := RUNNING, j_worker_id := Some host, j_started_at := Some (ag_now E)\<rparr>"
  let ?run = "run_container (ag_docker E) (ag_redis E) (ag_settings E) (ag_untar E) (ag_validation_msg E) (ag_fuel E)
      (ag_chunks E i) (j_spec j) job_id (js_timeout_minutes (j_spec j) * 60) (j_name j)"
  let ?n = "\<lparr>nd_docker = mc_docker x, nd_redis = w_redis (pl_world (mc_platform x))\<rparr>"
  have fit: "job_columns_fit (?f j)" using assms(5,6) by (simp add: job_columns_fit_def)
  have load: "load_job i (mc_db x) = (Inr (Some j), mc_db x)"
    using assms(2) by (simp add: load_job_run job_row_def)
  have mark: "mark_job_running (ag_now E) i host (mc_db x) = (Inr (Some (?f j)), update_job i ?f (mc_db x))"
    using assms(2,3) fit by (simp add: mark_job_running_run job_row_def Let_def)
  obtain n' where run: "?run ?n = (Inl e, n')" using assms(7) by (cases "?run ?n") auto
  obtain x' where p: "process_job E job_id host x = (Inl e, x')" and db: "mc_db x' = update_job i ?f (mc_db x)"
    using assms(1,3,4) load mark run
    by (simp add: process_job_def on_mdb_def on_node_def handler_simps job_spec_model_validate_def)
  have row: "job_row (mc_db x') i = Some (?f j)"
    using assms(2) by (simp add: db job_row_update)
  then have "load_job i (mc_db x') = (Inr (Some (?f j)), mc_db x')"
    by (simp add: load_job_run job_row_def)
  then have "process_job E job_id host x' = (Inr (), x')"
    using assms(1) by (simp add: process_job_def on_mdb_def handler_simps)
  with p row show ?thesis by auto
qed

text \<open>An agent that does not get the lock touches nothing: no job is reaped, none is taken.\<close>

theorem run_loop_needs_lock:
  assumes "redis_strings (ag_redis E) up entry" and "up (w_redis (pl_world (mc_platform x)))"
    and "0 < worker_lock_ttl_seconds (ag_settings E)"
    and "entry (w_redis (pl_world (mc_platform x))) (wl_key l) \<noteq> None"
  shows "\<exists>x'. run_loop E l host rounds x = (Inr NotStarted, x') \<and> mc_db x' = mc_db x \<and>
    pl_store (mc_platform x') = pl_store (mc_platform x) \<and> mc_docker x' = mc_docker x \<and>
    entry (w_redis (pl_world (mc_platform x'))) = entry (w_redis (pl_world (mc_platform x)))"
proof -
  obtain r' where "lock_acquire (ag_redis E) (ag_settings E) l (w_redis (pl_world (mc_platform x))) =
      (Inr (entry (w_redis (pl_world (mc_platform x))) (wl_key l) = None), r')"
    "entry r' = (if entry (w_redis (pl_world (mc_platform x))) (wl_key l) = None
       then (entry (w_redis (pl_world (mc_platform x))))(wl_key l :=
         Some (wl_token l, Some (worker_lock_ttl_seconds (ag_settings E))))
       else entry (w_redis (pl_world (mc_platform x))))"
    by (rule redis_strings.acquire_run [OF assms(1-3)])
  moreover obtain z where "entry (w_redis (pl_world (mc_platform x))) (wl_key l) = Some z" using assms(4) by auto
  ultimately show ?thesis
    by (simp add: run_loop_def on_mredis_def handler_simps)
qed

section \<open>Examples\<close>

definition no_http :: "unit http_ops" where
  "no_http = \<lparr>hx_get = (\<lambda>_ _. raiseE (HTTPError ''refused'')), hx_post = (\<lambda>_ _. raiseE (HTTPError ''refused''))\<rparr>"

text \<open>An agent whose Docker daemon has gone away: looking for the image fails with a connection error.\<close>

definition env0 :: "(ref_state, (string \<times> string) list, ref_host, unit) env" where
  "env0 = \<lparr>ag_redis = ref_redis, ag_store = ref_s3,
     ag_docker = ref_docker\<lparr>dk_image_get := (\<lambda>_. raiseE (OtherException ''ConnectionError''))\<rparr>, ag_http = no_http,
     ag_settings = cfg0, ag_py_str = (\<lambda>_. []), ag_untar = untar0, ag_validation_msg = [], ag_fuel = 1,
     ag_now = 8, ag_model_id = 5, ag_chunks = (\<lambda>_. [])\<rparr>"

definition machine0 :: "job_status \<Rightarrow> (ref_state, (string \<times> string) list, ref_host, unit) machine" where
  "machine0 st = \<lparr>mc_platform = \<lparr>pl_world = world_job st, pl_store = []\<rparr>, mc_docker = host0, mc_http = ()\<rparr>"

lemma machine0_simps [simp]: "mc_db (machine0 st) = w_db (world_job st)"
  "w_redis (pl_world (mc_platform (machine0 st))) = ref_redis0" "mc_docker (machine0 st) = host0"
  "job_row (w_db (world_job st)) 77 = Some (job0\<lparr>j_status := st\<rparr>)"
  by (simp_all add: machine0_def job_row_def row_get_Cons)

lemma env0_simps [simp]: "ag_redis env0 = ref_redis" "ag_settings env0 = cfg0" "ag_now env0 = 8"
  by (simp_all add: env0_def)

theorem mlflow_lookup_total_witness:
  "lookup_mlflow_run_id no_http (\<lambda>_. []) (cfg0\<lparr>mlflow_tracking_uri := ''/''\<rparr>) ''train'' ''77'' () = (Inr JNull, ())"
proof -
  have "rstrip_by (\<lambda>c. c = CHR ''/'') (mlflow_tracking_uri (cfg0\<lparr>mlflow_tracking_uri := ''/''\<rparr>)) = []"
    by (simp add: rstrip_by_def)
  with mlflow_lookup_total [of no_http "\<lambda>_. []" "cfg0\<lparr>mlflow_tracking_uri := ''/''\<rparr>"] show ?thesis by blast
qed

theorem container_result_recorded_witness:
  "let out = apply_container_result env0 77 1 ''train'' ((failed_result (Some ''timeout'') [])\<lparr>cr_timed_out := True\<rparr>)
       (machine0 RUNNING) in
   finished_as 8 77 FAILED (w_db (world_job RUNNING)) (mc_db (snd out)) \<or>
   isl (fst out) \<and> jobs (mc_db (snd out)) = jobs (w_db (world_job RUNNING))"
  using container_result_recorded [OF prod.collapse [symmetric], where E = env0 and i = 77 and x = "machine0 RUNNING"
      and uid = 1 and name = "''train''" and r = "(failed_result (Some ''timeout'') [])\<lparr>cr_timed_out := True\<rparr>"]
  by (simp add: Let_def failed_result_def)

theorem worker_crash_leaves_running_witness:
  "\<exists>x' j'. process_job env0 (str_uuid 77) ''w1'' (machine0 QUEUED) = (Inl (OtherException ''ConnectionError''), x') \<and>
     job_row (mc_db x') 77 = Some j' \<and> j_status j' = RUNNING"
proof -
  have "\<exists>x' j'. process_job env0 (str_uuid 77) ''w1'' (machine0 QUEUED) = (Inl (OtherException ''ConnectionError''), x') \<and>
      job_row (mc_db x') 77 = Some j' \<and> j_status j' = RUNNING \<and> j_worker_id j' = Some ''w1'' \<and>
      process_job env0 (str_uuid 77) ''w1'' x' = (Inr (), x')"
    by (rule worker_crash_leaves_running [where j = "job0\<lparr>j_status := QUEUED\<rparr>"])
      (simp_all add: valid_spec0 run_container_def job_spec_model_validate_def env0_def
        on_docker_run bindE_run ensure_image_def raiseE_run caught_def)
  then show ?thesis by blast
qed

theorem run_loop_needs_lock_witness:
  "let x = (machine0 QUEUED)\<lparr>mc_platform := (mc_platform (machine0 QUEUED))\<lparr>pl_world :=
       (world_job QUEUED)\<lparr>w_redis := snd (lock_acquire ref_redis cfg0 lock1 ref_redis0)\<rparr>\<rparr>\<rparr> in
   \<exists>x'. run_loop env0 lock2 ''w2'' 9 x = (Inr NotStarted, x') \<and> mc_db x' = w_db (world_job QUEUED)"
proof -
  let ?x = "(machine0 QUEUED)\<lparr>mc_platform := (mc_platform (machine0 QUEUED))\<lparr>pl_world :=
       (world_job QUEUED)\<lparr>w_redis := snd (lock_acquire ref_redis cfg0 lock1 ref_redis0)\<rparr>\<rparr>\<rparr>"
  from run_loop_needs_lock [of env0 rr_up rr_entry ?x lock2 "''w2''" 9] show ?thesis
    using ref_srv.redis_strings_axioms locks by (auto simp: Let_def lock_acquire_def ref_redis_simps)
qed

end
