(* ===== verification/Job_Lifecycle.thy ===== *)
theory Job_Lifecycle
  imports Worker_Agent
begin

text \<open>
  The life of a job across the whole system: requests that submit and cancel, the queue, the
  worker taking jobs and recording their results, crashes and restarts.  Every rule is one
  transaction of the program, run by its definition in \<open>Jobs\<close> or \<open>Worker_Repository\<close>; between two of
  them any other rule may apply.
\<close>

section \<open>The system\<close>

text \<open>Where the worker is in \<open>process_job\<close>, with the job it holds.\<close>

datatype phase = Idle | Popped uuid | Loaded uuid | Rejected uuid | Executing uuid | Dead

text \<open>
  \<open>sy_unpushed\<close> are the committed jobs not pushed to the queue yet, \<open>sy_failing\<close> those whose push
  raised and is to be recorded, \<open>sy_reads\<close> the rows that cancel requests have read.  Two histories
  serve the proofs: \<open>sy_failed\<close>, every job whose push has raised, and \<open>sy_lost\<close>, the jobs a crash took
  out of the queue or kept from entering it.
\<close>

record sys =
  sy_now :: time
  sy_db :: db
  sy_queue :: "uuid list"
  sy_unpushed :: "uuid set"
  sy_failing :: "uuid set"
  sy_failed :: "uuid set"
  sy_lost :: "uuid set"
  sy_reads :: "job set"
  sy_phase :: phase

fun in_hand :: "phase \<Rightarrow> uuid set" where
  "in_hand (Popped i) = {i}"
| "in_hand (Loaded i) = {i}"
| "in_hand (Rejected i) = {i}"
| "in_hand _ = {}"

text \<open>
  A push may raise after the server executed it (\<open>reached\<close>).  A cancel request acts on the row it
  has read: when \<open>racy\<close> is false only if the row is still as read, as it would be in one
  serializable transaction; when \<open>racy\<close> is true at any later time, as in the program.
\<close>

inductive lstep :: "'r redis_ops \<Rightarrow> settings \<Rightarrow> string \<Rightarrow> bool \<Rightarrow> sys \<Rightarrow> sys \<Rightarrow> bool"
  for R cfg host racy where
  submit: "job_row (sy_db s) i = None \<Longrightarrow> lstep R cfg host racy s
     (s\<lparr>sy_db := jobs_update (\<lambda>t. t @ [new_job (sy_now s) i uid body]) (sy_db s),
        sy_unpushed := insert i (sy_unpushed s)\<rparr>)"
| push: "i \<in> sy_unpushed s \<Longrightarrow> lstep R cfg host racy s
     (s\<lparr>sy_queue := i # sy_queue s, sy_unpushed := sy_unpushed s - {i}\<rparr>)"
| push_error: "i \<in> sy_unpushed s \<Longrightarrow> lstep R cfg host racy s
     (s\<lparr>sy_queue := (if reached then i # sy_queue s else sy_queue s), sy_unpushed := sy_unpushed s - {i},
        sy_failing := insert i (sy_failing s), sy_failed := insert i (sy_failed s)\<rparr>)"
| record_failure: "i \<in> sy_failing s \<Longrightarrow>
     commit_job (new_job t i uid body) (enqueue_failed (sy_now s) exc) (sy_db s) = (out, d) \<Longrightarrow>
     lstep R cfg host racy s (s\<lparr>sy_db := d, sy_failing := sy_failing s - {i},
        sy_lost := (if isl out then insert i (sy_lost s) else sy_lost s)\<rparr>)"
| api_crash: "i \<in> sy_unpushed s \<union> sy_failing s \<Longrightarrow> lstep R cfg host racy s
     (s\<lparr>sy_unpushed := sy_unpushed s - {i}, sy_failing := sy_failing s - {i}, sy_lost := insert i (sy_lost s)\<rparr>)"
| read: "job_row (sy_db s) i = Some j \<Longrightarrow> lstep R cfg host racy s (s\<lparr>sy_reads := insert j (sy_reads s)\<rparr>)"
| cancel: "j \<in> sy_reads s \<Longrightarrow> racy \<or> job_row (sy_db s) (j_id j) = Some j \<Longrightarrow>
     cancel_loaded R cfg (sy_now s) j \<lparr>w_db = sy_db s, w_redis = r\<rparr> = (out, w) \<Longrightarrow>
     lstep R cfg host racy s (s\<lparr>sy_db := w_db w\<rparr>)"
| pop: "sy_phase s = Idle \<Longrightarrow> sy_queue s = q @ [i] \<Longrightarrow>
     lstep R cfg host racy s (s\<lparr>sy_queue := q, sy_phase := Popped i\<rparr>)"
| load: "sy_phase s = Popped i \<Longrightarrow> load_job i (sy_db s) = (Inr found, d) \<Longrightarrow>
     lstep R cfg host racy s (s\<lparr>sy_db := d, sy_phase := (case found of
         None \<Rightarrow> Idle
       | Some j \<Rightarrow> if j_status j \<noteq> QUEUED then Idle
           else if isl (job_spec_model_validate cfg (j_spec j)) then Rejected i else Loaded i)\<rparr>)"
| reject: "sy_phase s = Rejected i \<Longrightarrow>
     finalize_job (sy_now s) i FAILED None (Some msg) [] None None (sy_db s) = (out, d) \<Longrightarrow>
     lstep R cfg host racy s (s\<lparr>sy_db := d, sy_phase := (if isl out then Dead else Idle),
        sy_lost := (if isl out then insert i (sy_lost s) else sy_lost s)\<rparr>)"
| mark: "sy_phase s = Loaded i \<Longrightarrow> mark_job_running (sy_now s) i host (sy_db s) = (out, d) \<Longrightarrow>
     lstep R cfg host racy s (s\<lparr>sy_db := d,
        sy_phase := (case out of Inl _ \<Rightarrow> Dead | Inr None \<Rightarrow> Idle | Inr (Some _) \<Rightarrow> Executing i),
        sy_lost := (if isl out then insert i (sy_lost s) else sy_lost s)\<rparr>)"
| finish: "sy_phase s = Executing i \<Longrightarrow> st \<in> {SUCCEEDED, FAILED, CANCELLED} \<Longrightarrow>
     finalize_job (sy_now s) i st ec em tail mid ae (sy_db s) = (out, d) \<Longrightarrow>
     lstep R cfg host racy s (s\<lparr>sy_db := d, sy_phase := (if isl out then Dead else Idle)\<rparr>)"
| crash: "lstep R cfg host racy s (s\<lparr>sy_phase := Dead, sy_lost := sy_lost s \<union> in_hand (sy_phase s)\<rparr>)"
| restart: "sy_phase s = Dead \<Longrightarrow> lstep R cfg host racy s
     (s\<lparr>sy_db := snd (reap_zombie_jobs (sy_now s) host (sy_db s)), sy_phase := Idle\<rparr>)"
| tick: "0 \<le> t \<Longrightarrow> lstep R cfg host racy s (s\<lparr>sy_now := sy_now s + t\<rparr>)"
| elsewhere: "jobs d = jobs (sy_db s) \<Longrightarrow> lstep R cfg host racy s (s\<lparr>sy_db := d\<rparr>)"

text \<open>A system before its first job, its worker not started.\<close>

definition sys_init :: "time \<Rightarrow> db \<Rightarrow> sys" where
  "sys_init now d = \<lparr>sy_now = now, sy_db = d\<lparr>jobs := []\<rparr>, sy_queue = [], sy_unpushed = {}, sy_failing = {},
     sy_failed = {}, sy_lost = {}, sy_reads = {}, sy_phase = Dead\<rparr>"

abbreviation reachable :: "'r redis_ops \<Rightarrow> settings \<Rightarrow> string \<Rightarrow> bool \<Rightarrow> sys \<Rightarrow> bool" where
  "reachable R cfg host racy s \<equiv> (\<exists>now d. (lstep R cfg host racy)\<^sup>*\<^sup>* (sys_init now d) s)"

section \<open>What a transaction does to a row\<close>

lemma job_row_id: "job_row d k = Some j \<Longrightarrow> j_id j = k"
  by (auto simp: job_row_def dest: row_get_Some)

lemma job_row_append: "job_row d i = None \<Longrightarrow>
   job_row (jobs_update (\<lambda>t. t @ [new_job now i uid body]) d) k =
     (if k = i then Some (new_job now i uid body) else job_row d k)"
  by (auto simp: job_row_def row_get_append row_get_Cons split: option.split)

lemma commit_row:
  assumes "commit_job j f d = (out, d')" and "\<And>j. j_id (f j) = j_id j"
  shows "isl out \<and> d' = d \<and> \<not> job_columns_fit (f j) \<or> \<not> isl out \<and> job_columns_fit (f j) \<and>
    (\<forall>k. job_row d' k = map_option (\<lambda>x. if k = j_id j then f x else x) (job_row d k))"
  using assms by (auto simp: commit_job_def handler_simps job_row_update split: if_splits)

text \<open>What an accepted cancellation writes, by the status the request has read.\<close>

definition cancel_write :: "time \<Rightarrow> job_status \<Rightarrow> job \<Rightarrow> job" where
  "cancel_write now seen x = (if seen = QUEUED then x\<lparr>j_status := CANCELLED, j_finished_at := Some now\<rparr>
     else x\<lparr>j_status := CANCELLING\<rparr>)"

lemma cancel_row:
  assumes "cancel_loaded R cfg now j w = (out, w')"
  shows "w_db w' = w_db w \<or> j_status j \<in> {QUEUED, RUNNING} \<and>
    (\<forall>k. job_row (w_db w') k = map_option (\<lambda>x. if k = j_id j then cancel_write now (j_status j) x else x)
       (job_row (w_db w) k))"
proof (cases "j_status j \<in> {QUEUED, RUNNING}")
  case True
  with assms have "w_db w' = w_db w \<or> w_db w' = update_job (j_id j) (cancel_write now (j_status j)) (w_db w)"
    by (auto simp: cancel_loaded_def handler_simps commit_job_def cancel_write_def [abs_def] TERMINAL_JOB_STATUSES_def
        split: if_splits prod.splits sum.splits)
  moreover have "j_id (cancel_write now st x) = j_id x" for st x by (simp add: cancel_write_def)
  ultimately show ?thesis using True job_row_update by metis
next
  case False
  then have "j_status j \<in> set TERMINAL_JOB_STATUSES \<or> j_status j = CANCELLING"
    by (cases "j_status j") (simp_all add: TERMINAL_JOB_STATUSES_def)
  with assms show ?thesis by (simp add: cancel_loaded_def raiseE_run)
qed

lemma finalize_row_cases:
  assumes "finalize_job now i st ec em tail mid ae d = (out, d')"
  shows "isl out \<and> d' = d \<or> \<not> isl out \<and>
    (\<forall>k. job_row d' k = map_option (\<lambda>x. if k = i then finalized now st ec em mid ae x else x) (job_row d k)) \<and>
    (\<forall>j. job_row d i = Some j \<longrightarrow> job_columns_fit (finalized now st ec em mid ae j))"
proof (cases "job_row d i")
  case None
  with assms have "out = Inr () \<and> d' = d" by (simp add: finalize_job_run job_row_def)
  moreover have "map_option (\<lambda>x. if k = i then f x else x) (job_row d k) = job_row d k" for k f
    using None by (cases "k = i") (simp_all add: option.map_ident)
  ultimately show ?thesis using None by simp
next
  case (Some j)
  have "job_row d' k = map_option (\<lambda>x. if k = i then f x else x) (job_row d k)"
    if "job_row d' i = Some (f j)" "\<forall>k. k \<noteq> i \<longrightarrow> job_row d' k = job_row d k" for f k
    using that Some by (cases "k = i") (simp_all add: option.map_ident)
  with finalize_row [OF assms Some] show ?thesis by (auto simp: Some split: if_splits)
qed

lemma mark_row_cases:
  assumes "mark_job_running now i host d = (out, d')"
  shows "(out = Inr None \<and> d' = d \<and> (\<forall>j. job_row d i = Some j \<longrightarrow> j_status j \<noteq> QUEUED)) \<or> isl out \<and> d' = d \<or>
    (\<exists>j r. out = Inr (Some r) \<and> job_row d i = Some j \<and> j_status j = QUEUED \<and>
       r = j\<lparr>j_status := RUNNING, j_worker_id := Some host, j_started_at := Some now\<rparr> \<and> job_columns_fit r \<and>
       (\<forall>k. job_row d' k = (if k = i then Some r else job_row d k)))"
  using assms by (auto simp: mark_job_running_run job_row_def [symmetric] Let_def job_row_update option.map_ident
    split: option.splits if_splits)

section \<open>The writes to a row\<close>

text \<open>All the ways in which a step from \<open>s\<close> to \<open>s'\<close> changes the row \<open>k\<close>.\<close>

inductive row_write :: "string \<Rightarrow> bool \<Rightarrow> sys \<Rightarrow> sys \<Rightarrow> uuid \<Rightarrow> job \<Rightarrow> job \<Rightarrow> bool"
  for host racy s s' k x where
  by_enqueue: "k \<in> sy_failing s \<Longrightarrow> length (exn_str exc) \<le> 1002 \<Longrightarrow>
     row_write host racy s s' k x (enqueue_failed (sy_now s) exc x)"
| by_cancel: "r \<in> sy_reads s \<Longrightarrow> j_id r = k \<Longrightarrow> racy \<or> r = x \<Longrightarrow> j_status r \<in> {QUEUED, RUNNING} \<Longrightarrow>
     row_write host racy s s' k x (cancel_write (sy_now s) (j_status r) x)"
| by_reject: "sy_phase s = Rejected k \<Longrightarrow> sy_phase s' = Idle \<Longrightarrow> job_columns_fit (finalized (sy_now s) FAILED None (Some msg) None None x) \<Longrightarrow>
     row_write host racy s s' k x (finalized (sy_now s) FAILED None (Some msg) None None x)"
| by_mark: "sy_phase s = Loaded k \<Longrightarrow> sy_phase s' = Executing k \<Longrightarrow> j_status x = QUEUED \<Longrightarrow>
     x' = x\<lparr>j_status := RUNNING, j_worker_id := Some host, j_started_at := Some (sy_now s)\<rparr> \<Longrightarrow> job_columns_fit x' \<Longrightarrow>
     row_write host racy s s' k x x'"
| by_finish: "sy_phase s = Executing k \<Longrightarrow> sy_phase s' = Idle \<Longrightarrow> st \<in> {SUCCEEDED, FAILED, CANCELLED} \<Longrightarrow>
     job_columns_fit (finalized (sy_now s) st ec em mid ae x) \<Longrightarrow>
     row_write host racy s s' k x (finalized (sy_now s) st ec em mid ae x)"
| by_reap: "sy_phase s = Dead \<Longrightarrow> sy_phase s' = Idle \<Longrightarrow> row_write host racy s s' k x (reaped (sy_now s) host x)"

text \<open>The transactions, seen from one row.\<close>

lemma rewritten_row:
  assumes "\<forall>k. job_row d' k = map_option (\<lambda>x. if k = i then f x else x) (job_row d k)" and "job_row d k = Some x"
  obtains "job_row d' k = Some x" | "k = i" "job_row d' k = Some (f x)"
  using assms by (cases "k = i") simp_all

lemma committed_row:
  assumes "commit_job j f d = (out, d')" and "\<And>j. j_id (f j) = j_id j" and "job_row d k = Some x"
  obtains "job_row d' k = Some x" "isl out \<or> k \<noteq> j_id j"
    | "job_columns_fit (f j)" "k = j_id j" "job_row d' k = Some (f x)"
  using commit_row [OF assms(1,2)] assms(3) by (cases "k = j_id j") auto

lemma cancelled_row:
  assumes "cancel_loaded R cfg now j w = (out, w')" and "job_row (w_db w) k = Some x"
  obtains "job_row (w_db w') k = Some x"
    | "j_status j \<in> {QUEUED, RUNNING}" "k = j_id j" "job_row (w_db w') k = Some (cancel_write now (j_status j) x)"
  using cancel_row [OF assms(1)] assms(2) by (auto elim: rewritten_row)

lemma finalized_row:
  assumes "finalize_job now i st ec em tail mid ae d = (out, d')" and "job_row d k = Some x"
  obtains "job_row d' k = Some x" "isl out \<or> k \<noteq> i"
    | "\<not> isl out" "k = i" "job_row d' k = Some (finalized now st ec em mid ae x)"
      "job_columns_fit (finalized now st ec em mid ae x)"
  using finalize_row_cases [OF assms(1)] assms(2) by (cases "k = i") auto

lemma marked_row:
  assumes "mark_job_running now i host d = (out, d')" and "job_row d k = Some x"
  obtains "job_row d' k = Some x" "k = i \<Longrightarrow> isl out \<or> out = Inr None \<and> j_status x \<noteq> QUEUED"
    | r where "k = i" "out = Inr (Some r)" "job_row d' k = Some r" "j_status x = QUEUED" "j_status r = RUNNING" "job_columns_fit r"
      "r = x\<lparr>j_status := RUNNING, j_worker_id := Some host, j_started_at := Some now\<rparr>"
  using mark_row_cases [OF assms(1)] assms(2) by (cases "k = i") auto

lemma finalized_same: "x = finalized now st ec em mid ae x \<Longrightarrow> j_status x = st"
  by (drule arg_cong [of _ _ j_status]) (simp add: finalized_def)

lemma reaped_same: "x = reaped now host x \<Longrightarrow> \<not> (j_status x = RUNNING \<and> j_worker_id x = Some host)"
  by (drule arg_cong [of _ _ j_status]) (auto simp: reaped_def)

lemma enqueue_failed_id: "j_id (enqueue_failed now exc j) = j_id j"
  by (simp add: enqueue_failed_def)

lemma loaded_row: "load_job i d = (out, d') \<Longrightarrow> out = Inr (job_row d i) \<and> d' = d"
  by (auto simp: load_job_run job_row_def)

lemma lstep_rows:
  assumes "lstep R cfg host racy s s'" and x: "job_row (sy_db s) k = Some x"
  shows "\<exists>x'. job_row (sy_db s') k = Some x' \<and> (x' = x \<or> row_write host racy s s' k x x')"
  using assms(1)
proof cases
  case (submit i uid body)
  with x show ?thesis by (auto simp: job_row_append)
next
  case (record_failure i t uid body exc out d)
  from committed_row [OF record_failure(3) enqueue_failed_id x] show ?thesis
  proof cases
    case 2
    then have "length (exn_str exc) \<le> 1002" by (simp add: job_columns_fit_def enqueue_failed_def)
    with 2 record_failure(1,2) show ?thesis by (auto intro: by_enqueue)
  qed (simp add: record_failure(1))
next
  case (cancel j r out w)
  from cancelled_row [OF cancel(4), of k x] x show ?thesis
    by (cases; use cancel(1-3) x in \<open>auto intro: by_cancel\<close>)
next
  case (reject i msg out d)
  from finalized_row [OF reject(3) x] show ?thesis
    using reject(1,2) by cases (auto intro: by_reject)
next
  case (mark i out d)
  from marked_row [OF mark(3) x] show ?thesis
    using mark(1,2) by cases (auto intro: by_mark)
next
  case (finish i st ec em tail mid ae out d)
  from finalized_row [OF finish(4) x] show ?thesis
    using finish(1-3) by cases (auto intro: by_finish)
next
  case restart
  with x show ?thesis by (auto simp: reap_row intro: by_reap)
qed (use x in \<open>auto dest: loaded_row simp: job_row_def\<close>)

lemma lstep_new_row:
  assumes "lstep R cfg host racy s s'" and "job_row (sy_db s) k = None" and x': "job_row (sy_db s') k = Some x'"
  shows "\<exists>uid body. x' = new_job (sy_now s) k uid body \<and> k \<in> sy_unpushed s' \<and> sy_now s' = sy_now s"
  using assms(1)
proof cases
  case (submit i uid body)
  with assms(2) x' show ?thesis by (auto simp: job_row_append split: if_splits)
next
  case (record_failure i t uid body exc out d)
  with commit_row [OF record_failure(3) enqueue_failed_id] assms(2) x' show ?thesis by (auto simp: record_failure(1))
next
  case (cancel j r out w)
  with cancel_row [OF cancel(4)] assms(2) x' show ?thesis by auto
next
  case (reject i msg out d)
  with finalize_row_cases [OF reject(3)] assms(2) x' show ?thesis by auto
next
  case (mark i out d)
  with mark_row_cases [OF mark(3)] assms(2) x' show ?thesis by (cases "k = i") auto
next
  case (finish i st ec em tail mid ae out d)
  with finalize_row_cases [OF finish(4)] assms(2) x' show ?thesis by auto
next
  case restart
  with assms(2) x' show ?thesis by (auto simp: reap_row)
qed (use assms(2) x' in \<open>auto simp: load_job_run job_row_def\<close>)

section \<open>The invariant\<close>

text \<open>The places a QUEUED job can be in.\<close>

definition held :: "sys \<Rightarrow> uuid set" where
  "held s = set (sy_queue s) \<union> sy_unpushed s \<union> sy_failing s \<union> sy_lost s \<union> in_hand (sy_phase s)"

definition times_ordered :: "time \<Rightarrow> job \<Rightarrow> bool" where
  "times_ordered now j \<longleftrightarrow> j_queued_at j \<le> now \<and>
     (\<forall>t. j_started_at j = Some t \<longrightarrow> j_queued_at j \<le> t \<and> t \<le> now) \<and>
     (\<forall>t. j_finished_at j = Some t \<longrightarrow> j_queued_at j \<le> t \<and> t \<le> now \<and> (\<forall>u. j_started_at j = Some u \<longrightarrow> u \<le> t))"

definition row_ok :: "string \<Rightarrow> sys \<Rightarrow> uuid \<Rightarrow> job \<Rightarrow> bool" where
  "row_ok host s k j \<longleftrightarrow> times_ordered (sy_now s) j \<and>
     (case j_status j of
        QUEUED \<Rightarrow> j_started_at j = None \<and> j_finished_at j = None \<and> j_worker_id j = None \<and> k \<in> held s
      | RUNNING \<Rightarrow> j_started_at j \<noteq> None \<and> j_worker_id j = Some host \<and>
          (sy_phase s = Executing k \<or> sy_phase s = Dead)
      | CANCELLING \<Rightarrow> True
      | _ \<Rightarrow> j_finished_at j \<noteq> None)"

definition rows_ok :: "string \<Rightarrow> sys \<Rightarrow> bool" where
  "rows_ok host s \<longleftrightarrow> (\<forall>k j. job_row (sy_db s) k = Some j \<longrightarrow> row_ok host s k j)"

lemma row_ok_frame:
  assumes "row_ok host s k j" and "sy_now s \<le> sy_now s'"
    and "j_status j = QUEUED \<Longrightarrow> k \<in> held s \<Longrightarrow> k \<in> held s'"
    and "j_status j = RUNNING \<Longrightarrow> sy_phase s = Executing k \<or> sy_phase s = Dead \<Longrightarrow>
      sy_phase s' = Executing k \<or> sy_phase s' = Dead"
  shows "row_ok host s' k j"
  using assms by (cases "j_status j") (fastforce simp: row_ok_def times_ordered_def)+

text \<open>What each write does to a row in good order.\<close>

lemma row_ok_finalized:
  "row_ok host s k x \<Longrightarrow> st \<in> {SUCCEEDED, FAILED, CANCELLED} \<Longrightarrow> sy_now s' = sy_now s \<Longrightarrow>
   row_ok host s' k (finalized (sy_now s) st ec em mid ae x)"
  by (auto simp: row_ok_def times_ordered_def finalized_def)

lemma row_ok_enqueue_failed:
  "row_ok host s k x \<Longrightarrow> sy_now s' = sy_now s \<Longrightarrow> row_ok host s' k (enqueue_failed (sy_now s) exc x)"
  by (auto simp: row_ok_def times_ordered_def enqueue_failed_def)

lemma row_ok_cancel_write:
  "row_ok host s k x \<Longrightarrow> sy_now s' = sy_now s \<Longrightarrow> row_ok host s' k (cancel_write (sy_now s) seen x)"
  by (auto simp: row_ok_def times_ordered_def cancel_write_def)

lemma row_ok_reaped:
  "row_ok host s k x \<Longrightarrow> sy_now s' = sy_now s \<Longrightarrow> reaped (sy_now s) host x \<noteq> x \<Longrightarrow>
   row_ok host s' k (reaped (sy_now s) host x)"
  by (auto simp: row_ok_def times_ordered_def reaped_def split: if_splits)

lemma row_ok_marked:
  "row_ok host s k x \<Longrightarrow> j_status x = QUEUED \<Longrightarrow> sy_now s' = sy_now s \<Longrightarrow> sy_phase s' = Executing k \<Longrightarrow>
   row_ok host s' k (x\<lparr>j_status := RUNNING, j_worker_id := Some host, j_started_at := Some (sy_now s)\<rparr>)"
  by (auto simp: row_ok_def times_ordered_def)

text \<open>A step leaves a job it does not write with its place and with its worker.\<close>

lemma lstep_held:
  assumes "lstep R cfg host racy s s'" and x: "job_row (sy_db s) k = Some x" "job_row (sy_db s') k = Some x"
    and "j_status x = QUEUED" and "k \<in> held s"
  shows "k \<in> held s'"
  using assms(1)
proof cases
  case (record_failure i t uid body exc out d)
  from committed_row [OF record_failure(3) enqueue_failed_id x(1)] show ?thesis
  proof cases
    case 2
    with x(2) record_failure(1) have "j_status x = j_status (enqueue_failed (sy_now s) exc x)" by simp
    with assms(4) show ?thesis by (simp add: enqueue_failed_def)
  qed (use record_failure(1,2) assms(5) in \<open>auto simp: held_def\<close>)
next
  case (load i found d)
  with loaded_row [OF load(3)] assms(2-5) show ?thesis by (auto simp: held_def split: if_splits)
next
  case (reject i msg out d)
  from finalized_row [OF reject(3) x(1)] show ?thesis
  proof cases
    case 2
    with x(2) reject(1) have "j_status x = FAILED" by (intro finalized_same) simp
    with assms(4) show ?thesis by simp
  qed (use reject(1,2) assms(5) in \<open>auto simp: held_def\<close>)
next
  case (mark i out d)
  from marked_row [OF mark(3) x(1)] show ?thesis
    using mark(1,2) assms(3-5) by cases (auto simp: held_def)
next
  case (finish i st ec em tail mid ae out d)
  with assms(5) show ?thesis by (auto simp: held_def)
qed (use assms(5) in \<open>auto simp: held_def\<close>)

lemma lstep_running:
  assumes "lstep R cfg host racy s s'" and x: "job_row (sy_db s) k = Some x" "job_row (sy_db s') k = Some x"
    and "j_status x = RUNNING" "j_worker_id x = Some host" and "sy_phase s = Executing k \<or> sy_phase s = Dead"
  shows "sy_phase s' = Executing k \<or> sy_phase s' = Dead"
  using assms(1)
proof cases
  case (finish i st ec em tail mid ae out d)
  from finalized_row [OF finish(4) x(1)] show ?thesis
  proof cases
    case 2
    with x(2) finish(1) have "j_status x = st" by (intro finalized_same) simp
    with finish(3) assms(4) show ?thesis by auto
  qed (use finish(1,2) assms(6) in auto)
next
  case restart
  with x have "x = reaped (sy_now s) host x" by (simp add: reap_row)
  with assms(4,5) show ?thesis by (auto dest: reaped_same)
qed (use assms(6) in auto)

lemma lstep_now: "lstep R cfg host racy s s' \<Longrightarrow>
   sy_now s \<le> sy_now s' \<and> (sy_db s' = sy_db s \<or> sy_now s' = sy_now s)"
  by (cases rule: lstep.cases) auto

text \<open>Each write leaves the row in good order.\<close>

lemma row_write_ok:
  assumes "row_write host racy s s' k x x'" and "row_ok host s k x" and "sy_now s' = sy_now s" and "x' \<noteq> x"
  shows "row_ok host s' k x'"
  using assms by cases
    (auto intro: row_ok_enqueue_failed row_ok_cancel_write row_ok_finalized row_ok_marked row_ok_reaped)

lemma rows_ok_step:
  assumes st: "lstep R cfg host racy s s'" and ok: "rows_ok host s"
  shows "rows_ok host s'"
  unfolding rows_ok_def
proof (intro allI impI)
  fix k x'
  assume x': "job_row (sy_db s') k = Some x'"
  show "row_ok host s' k x'"
  proof (cases "job_row (sy_db s) k")
    case None
    from lstep_new_row [OF st this x'] show ?thesis
      by (auto simp: row_ok_def times_ordered_def new_job_def held_def)
  next
    case (Some x)
    then have x: "row_ok host s k x" using ok by (simp add: rows_ok_def)
    show ?thesis
    proof (cases "x' = x")
      case True
      show ?thesis unfolding True
        by (rule row_ok_frame [OF x])
          (use True x x' lstep_now [OF st] lstep_held [OF st Some] lstep_running [OF st Some] in \<open>auto simp: row_ok_def\<close>)
    next
      case False
      with x' Some have "sy_now s' = sy_now s" using lstep_now [OF st] by auto
      moreover have "row_write host racy s s' k x x'" using lstep_rows [OF st Some] x' False by auto
      ultimately show ?thesis using row_write_ok x False by blast
    qed
  qed
qed

lemma rows_ok_init: "rows_ok host (sys_init now d)"
  by (simp add: rows_ok_def sys_init_def job_row_def)


text \<open>What was read of a job, and what can never change.\<close>

lemma row_write_fixed:
  "row_write host racy s s' k x x' \<Longrightarrow> j_id x' = j_id x \<and> j_user_id x' = j_user_id x \<and> j_name x' = j_name x \<and>
   j_spec x' = j_spec x \<and> j_queued_at x' = j_queued_at x"
  by (induction rule: row_write.induct)
    (simp_all add: enqueue_failed_def cancel_write_def finalized_def reaped_def)

lemma reaped_fits: "job_columns_fit x \<Longrightarrow> job_columns_fit (reaped now host x)"
  by (auto simp: reaped_def job_columns_fit_def)

lemma row_write_fits: "row_write host racy s s' k x x' \<Longrightarrow> job_columns_fit x \<Longrightarrow> job_columns_fit x'"
  by (induction rule: row_write.induct)
    (simp_all add: reaped_fits, simp_all add: job_columns_fit_def enqueue_failed_def cancel_write_def)


section \<open>Serial runs\<close>

text \<open>The phases around a step: whoever leaves the execution of a job has finished its row or is dead.\<close>

lemma lstep_phase:
  assumes "lstep R cfg host racy s s'"
  shows "(sy_phase s' = Executing k \<longrightarrow> sy_phase s = Executing k \<or> (\<exists>x. job_row (sy_db s') k = Some x \<and> j_status x = RUNNING)) \<and>
    (sy_phase s = Executing k \<longrightarrow> sy_phase s' \<in> {Executing k, Dead} \<or>
      (\<forall>x. job_row (sy_db s') k = Some x \<longrightarrow> j_status x \<in> {SUCCEEDED, FAILED, CANCELLED})) \<and>
    (sy_phase s = Dead \<longrightarrow> sy_phase s' = Dead \<or>
      (\<forall>x'. job_row (sy_db s') k = Some x' \<longrightarrow> (\<exists>x. job_row (sy_db s) k = Some x \<and> x' = reaped (sy_now s) host x)))"
  using assms
proof cases
  case (load i found d)
  then show ?thesis by (auto split: option.splits)
next
  case (mark i out d)
  with mark_row_cases [OF mark(3)] show ?thesis by (auto split: sum.splits option.splits)
next
  case (finish i st ec em tail mid ae out d)
  with finalize_row_cases [OF finish(4)] show ?thesis by auto
next
  case restart
  then show ?thesis by (auto simp: reap_row)
qed auto

lemma lstep_failed: "lstep R cfg host racy s s' \<Longrightarrow> sy_failed s \<subseteq> sy_failed s' \<and> sy_failing s' \<subseteq> sy_failing s \<union> sy_failed s'"
  by (induction rule: lstep.induct) auto

definition row_serial :: "string \<Rightarrow> sys \<Rightarrow> uuid \<Rightarrow> job \<Rightarrow> bool" where
  "row_serial host s k j \<longleftrightarrow>
     (j_status j = CANCELLING \<longrightarrow> j_worker_id j = Some host \<and> (sy_phase s = Executing k \<or> sy_phase s = Dead)) \<and>
     (j_finished_at j \<noteq> None \<longrightarrow> j_status j \<in> {SUCCEEDED, FAILED, CANCELLED}) \<and>
     (sy_phase s = Executing k \<longrightarrow> k \<notin> sy_failed s \<longrightarrow> j_status j \<in> {RUNNING, CANCELLING})"

lemma row_serial_write:
  assumes "row_write host False s s' k x x'" and "row_ok host s k x" and "row_serial host s k x"
    and "sy_failing s \<subseteq> sy_failed s" and "sy_failed s \<subseteq> sy_failed s'"
    and "sy_phase s' = Executing k \<longrightarrow> sy_phase s = Executing k \<or> j_status x' = RUNNING"
    and "sy_phase s = Executing k \<longrightarrow> sy_phase s' \<in> {Executing k, Dead} \<or> j_status x' \<in> {SUCCEEDED, FAILED, CANCELLED}"
    and "sy_phase s = Dead \<longrightarrow> sy_phase s' = Dead \<or> x' = reaped (sy_now s) host x"
  shows "row_serial host s' k x'"
  using assms
proof (induction rule: row_write.induct)
  case (by_enqueue exc)
  then show ?case by (auto simp: row_serial_def enqueue_failed_def)
next
  case (by_cancel r)
  then have "r = x" by simp
  have st: "j_status x = QUEUED \<or> j_status x = RUNNING" using by_cancel.hyps(4) \<open>r = x\<close> by simp
  then show ?case
  proof
    assume "j_status x = QUEUED"
    with by_cancel \<open>r = x\<close> show ?thesis by (simp add: row_serial_def cancel_write_def) blast
  next
    assume st: "j_status x = RUNNING"
    with by_cancel.prems(1) have "j_worker_id x = Some host" by (simp add: row_ok_def)
    from reaped_status [OF this, of "sy_now s"] have "x\<lparr>j_status := CANCELLING\<rparr> \<noteq> reaped (sy_now s) host x"
      by (metis job.simps(5) job.surjective job.update_convs(5))
    with st by_cancel \<open>r = x\<close> show ?thesis by (simp add: row_serial_def row_ok_def cancel_write_def) blast
  qed
next
  case (by_reject msg)
  then show ?case by (auto simp: row_serial_def)
next
  case (by_mark x')
  then show ?case by (simp add: row_serial_def row_ok_def)
next
  case (by_finish st ec em mid ae)
  then show ?case by (auto simp: row_serial_def)
next
  case by_reap
  then show ?case by (cases "j_status x") (auto simp: row_serial_def row_ok_def reaped_def)
qed

lemma row_serial_step:
  assumes st: "lstep R cfg host False s s'" and ok: "rows_ok host s"
    and ser: "\<And>k x. job_row (sy_db s) k = Some x \<Longrightarrow> row_serial host s k x"
    and failing: "sy_failing s \<subseteq> sy_failed s" and exec: "sy_phase s = Executing k \<Longrightarrow> job_row (sy_db s) k \<noteq> None"
    and x': "job_row (sy_db s') k = Some x'"
  shows "row_serial host s' k x'"
proof (cases "job_row (sy_db s) k")
  case None
  with lstep_new_row [OF st None x'] lstep_phase [OF st, of k] x' exec show ?thesis
    by (auto simp: row_serial_def new_job_def)
next
  case (Some x)
  note old = ser [OF Some]
  have good: "row_ok host s k x" using ok Some by (simp add: rows_ok_def)
  note ph = lstep_phase [OF st, of k]
  have "x' = x \<or> row_write host False s s' k x x'" using lstep_rows [OF st Some] x' by auto
  then show ?thesis
  proof
    assume eq: "x' = x"
    have p: "sy_phase s' = Executing k \<Longrightarrow> sy_phase s = Executing k \<or> j_status x = RUNNING"
      "sy_phase s = Executing k \<Longrightarrow> sy_phase s' \<in> {Executing k, Dead} \<or> j_status x \<in> {SUCCEEDED, FAILED, CANCELLED}"
      "sy_phase s = Dead \<Longrightarrow> sy_phase s' = Dead \<or> x = reaped (sy_now s) host x"
      using ph x' Some eq by auto
    have "sy_phase s' = Executing k \<or> sy_phase s' = Dead" if c: "j_status x = CANCELLING"
    proof -
      from old c have w: "j_worker_id x = Some host" "sy_phase s = Executing k \<or> sy_phase s = Dead"
        by (simp_all add: row_serial_def)
      with c have "x \<noteq> reaped (sy_now s) host x" using reaped_status [OF w(1), of "sy_now s"] by auto
      with w(2) p(2,3) c show ?thesis by auto
    qed
    moreover have "j_status x \<in> {RUNNING, CANCELLING}" if "sy_phase s' = Executing k" "k \<notin> sy_failed s'"
      using p(1) [OF that(1)] that(2) lstep_failed [OF st] old by (auto simp: row_serial_def)
    ultimately show ?thesis
      using old by (simp add: row_serial_def eq)
  next
    assume "row_write host False s s' k x x'"
    moreover have "sy_phase s' = Executing k \<longrightarrow> sy_phase s = Executing k \<or> j_status x' = RUNNING"
      "sy_phase s = Executing k \<longrightarrow> sy_phase s' \<in> {Executing k, Dead} \<or> j_status x' \<in> {SUCCEEDED, FAILED, CANCELLED}"
      "sy_phase s = Dead \<longrightarrow> sy_phase s' = Dead \<or> x' = reaped (sy_now s) host x"
      using ph x' Some by auto
    ultimately show ?thesis
      using lstep_failed [OF st] by (intro row_serial_write [OF _ good old failing]) simp_all
  qed
qed

lemma serial_run:
  assumes "(lstep R cfg host False)\<^sup>*\<^sup>* (sys_init now d) s"
  shows "rows_ok host s \<and> (\<forall>k x. job_row (sy_db s) k = Some x \<longrightarrow> row_serial host s k x) \<and> sy_failing s \<subseteq> sy_failed s \<and>
    (\<forall>k. sy_phase s = Executing k \<longrightarrow> job_row (sy_db s) k \<noteq> None)"
  using assms
proof (induction rule: rtranclp_induct)
  case base
  then show ?case by (simp add: rows_ok_init) (simp add: sys_init_def job_row_def)
next
  case (step s s')
  note st = step.hyps(2) and IH = step.IH
  have "job_row (sy_db s') k \<noteq> None" if k: "sy_phase s' = Executing k" for k
  proof (cases "sy_phase s = Executing k")
    case True
    with IH obtain x where "job_row (sy_db s) k = Some x" by blast
    with lstep_rows [OF st this] show ?thesis by auto
  next
    case False
    with lstep_phase [OF st, of k] k show ?thesis by auto
  qed
  moreover have "row_serial host s' k x" if "job_row (sy_db s') k = Some x" for k x
    using IH by (intro row_serial_step [OF st _ _ _ _ that]) auto
  moreover have "rows_ok host s'" "sy_failing s' \<subseteq> sy_failed s'"
    using IH rows_ok_step [OF st] lstep_failed [OF st] by blast+
  ultimately show ?case by blast
qed

text \<open>When cancel requests are serialized with the worker, more holds: a CANCELLING job is the one this
  worker is executing, unless the worker is down; only a finished job has an end time; and a job in
  execution, unless its enqueue was reported as failed, is RUNNING or CANCELLING.\<close>

theorem serial_invariant:
  assumes "reachable R cfg host False s" and "job_row (sy_db s) k = Some j"
  shows "row_serial host s k j"
  using assms serial_run by blast

text \<open>The states of a job and the moves between them.\<close>

fun moves :: "job_status \<Rightarrow> job_status set" where
  "moves QUEUED = {RUNNING, FAILED, CANCELLED}"
| "moves RUNNING = {CANCELLING, SUCCEEDED, FAILED, CANCELLED}"
| "moves CANCELLING = {SUCCEEDED, FAILED, CANCELLED}"
| "moves _ = {}"

lemma row_write_moves:
  assumes "row_write host False s s' k x x'" and "row_serial host s k x" and "k \<notin> sy_failed s" and "k \<notin> sy_failing s"
    and "sy_phase s \<noteq> Rejected k"
  shows "x' = x \<or> j_status x' \<in> moves (j_status x)"
  using assms(1)
proof cases
  case (by_finish st ec em mid ae)
  with assms(2,3) have "j_status x = RUNNING \<or> j_status x = CANCELLING" by (simp add: row_serial_def)
  with by_finish show ?thesis by auto
next
  case by_reap
  then show ?thesis by (auto simp: reaped_def)
next
  case (by_cancel r)
  then show ?thesis by (auto simp: cancel_write_def)
qed (use assms(3-5) in auto)


section \<open>The worker refines the system\<close>

lemmas extend_run = rtranclp.rtrancl_into_rtrancl

text \<open>Steps of a system whose worker is up: a worker that dies is not restarted within such a run.\<close>

definition up_step :: "'r redis_ops \<Rightarrow> settings \<Rightarrow> string \<Rightarrow> bool \<Rightarrow> sys \<Rightarrow> sys \<Rightarrow> bool" where
  "up_step R cfg host racy s s' \<longleftrightarrow> lstep R cfg host racy s s' \<and> sy_phase s \<noteq> Dead"

lemma up_stepI: "lstep R cfg host racy s s' \<Longrightarrow> sy_phase s \<noteq> Dead \<Longrightarrow> up_step R cfg host racy s s'"
  by (simp add: up_step_def)

lemma crash_refines:
  assumes "(up_step R cfg host racy)\<^sup>*\<^sup>* s u" and "sy_phase u \<noteq> Dead"
  shows "\<exists>s'. (up_step R cfg host racy)\<^sup>*\<^sup>* s s' \<and> jobs (sy_db s') = jobs (sy_db u) \<and> sy_phase s' = Dead"
proof -
  let ?u = "u\<lparr>sy_phase := Dead, sy_lost := sy_lost u \<union> in_hand (sy_phase u)\<rparr>"
  have "(up_step R cfg host racy)\<^sup>*\<^sup>* s ?u"
    by (rule rtranclp.rtrancl_into_rtrancl [OF assms(1)]) (rule up_stepI [OF lstep.crash assms(2)])
  then show ?thesis by (intro exI [of _ ?u]) simp
qed

text \<open>From the start of the container to the recorded result, or to the exception that ends the worker.\<close>

lemma execution_refines:
  assumes "bindE (on_node m) (\<lambda>result. apply_container_result E i uid name result) x = (out, x')"
    and "sy_phase s = Executing i" and "sy_now s = ag_now E" and "sy_db s = mc_db x"
  shows "\<exists>s'. (up_step R cfg host racy)\<^sup>*\<^sup>* s s' \<and> jobs (sy_db s') = jobs (mc_db x') \<and>
    sy_phase s' = (if isl out then Dead else Idle)"
proof -
  have dead: ?thesis if "isl out" "jobs (mc_db x') = jobs (mc_db x)"
    using crash_refines [where u = s and R = R and cfg = cfg and host = host and racy = racy, OF rtranclp.rtrancl_refl]
      that assms(2,4) by simp
  from assms(1) keeps_on_node [where f = jobs] show ?thesis
  proof (rule prefix_keeps)
    fix result y
    assume a: "apply_container_result E i uid name result y = (out, x')" and y: "jobs (mc_db y) = jobs (mc_db x)"
    from a show ?thesis
    proof (cases rule: apply_runs)
      case raised
      with y show ?thesis by (intro dead) auto
    next
      case (recorded d1 d2 ec em tail mid ae)
      let ?s1 = "s\<lparr>sy_db := d1\<rparr>" and ?s2 = "s\<lparr>sy_db := d2, sy_phase := Idle\<rparr>"
      have "up_step R cfg host racy s ?s1"
        by (rule up_stepI, rule lstep.elsewhere) (simp_all add: recorded(1) y assms(2,4))
      moreover have "up_step R cfg host racy ?s1 (?s1\<lparr>sy_db := d2, sy_phase := (if isl (Inr () :: exn + unit) then Dead else Idle)\<rparr>)"
        using recorded(2) assms(2,3)
        by (intro up_stepI lstep.finish [where i = i and st = "verdict result"]) (auto simp: verdict_def)
      ultimately have run: "(up_step R cfg host racy)\<^sup>*\<^sup>* s ?s2" by (auto intro: converse_rtranclp_into_rtranclp)
      show ?thesis
      proof (cases "isl out")
        case True
        with crash_refines [OF run] recorded(3) show ?thesis by simp
      next
        case False
        with run recorded(3) show ?thesis by (intro exI [of _ ?s2]) simp
      qed
    qed
  qed (rule dead)
qed

text \<open>From the claim of a loaded job, with any container run \<open>m\<close> after it.\<close>

lemma claim_refines:
  assumes run: "bindE (on_mdb (mark_job_running (ag_now E) i host)) (\<lambda>running. case running of None \<Rightarrow> returnE ()
      | Some rj \<Rightarrow> bindE (on_node (m rj)) (\<lambda>result. apply_container_result E i (j_user_id rj) (j_name rj) result)) x
      = (out, x')"
    and "sy_phase s = Loaded i" and now: "sy_now s = ag_now E" and db: "sy_db s = mc_db x"
  shows "\<exists>s'. (up_step R cfg host racy)\<^sup>*\<^sup>* s s' \<and> jobs (sy_db s') = jobs (mc_db x') \<and>
    sy_phase s' = (if isl out then Dead else Idle)"
proof -
  obtain o2 x2 where mark: "on_mdb (mark_job_running (ag_now E) i host) x = (o2, x2)" by fastforce
  let ?s2 = "s\<lparr>sy_db := mc_db x2,
      sy_phase := (case o2 of Inl _ \<Rightarrow> Dead | Inr None \<Rightarrow> Idle | Inr (Some _) \<Rightarrow> Executing i),
      sy_lost := (if isl o2 then insert i (sy_lost s) else sy_lost s)\<rparr>"
  have s2: "up_step R cfg host racy s ?s2"
    by (rule up_stepI, rule lstep.mark [OF assms(2)]) (simp_all only: now db on_mdb_at [OF mark] assms(2) phase.distinct not_False_eq_True)
  show ?thesis
  proof (cases "\<exists>rj. o2 = Inr (Some rj)")
    case False
    with run mark have "isl out = isl o2" "x' = x2"
      by (auto simp: bindE_run returnE_run split: sum.splits option.splits)
    with s2 False show ?thesis by (intro exI [of _ ?s2]) (auto split: sum.splits option.splits)
  next
    case True
    then obtain rj where rj: "o2 = Inr (Some rj)" by blast
    have "bindE (on_node (m rj)) (\<lambda>result. apply_container_result E i (j_user_id rj) (j_name rj) result) x2 = (out, x')"
      using run mark rj by (simp add: bindE_at)
    from execution_refines [where s = ?s2 and R = R and cfg = cfg and host = host and racy = racy, OF this] rj now
    obtain s' where "(up_step R cfg host racy)\<^sup>*\<^sup>* ?s2 s'" "jobs (sy_db s') = jobs (mc_db x')"
      "sy_phase s' = (if isl out then Dead else Idle)" by auto
    with s2 show ?thesis by (meson converse_rtranclp_into_rtranclp)
  qed
qed

text \<open>C12: \<open>process_job\<close>, run by itself on the identifier it was given, is a run of the system, with the
  worker up throughout, from the popped identifier to an idle worker, or, when it raises, to a dead
  one; the jobs it leaves are those of that run.\<close>

theorem process_job_refines:
  assumes "process_job E (str_uuid i) host x = (out, x')"
    and "sy_phase s = Popped i" and "sy_now s = ag_now E" and "sy_db s = mc_db x"
  shows "\<exists>s'. (up_step R (ag_settings E) host racy)\<^sup>*\<^sup>* s s' \<and> jobs (sy_db s') = jobs (mc_db x') \<and>
    sy_phase s' = (if isl out then Dead else Idle)"
proof -
  let ?step = "up_step R (ag_settings E) host racy" and ?d = "mc_db x" and ?cfg = "ag_settings E"
  have load: "load_job i ?d = (Inr (job_row ?d i), ?d)" by (simp add: load_job_run job_row_def)
  then have load': "on_mdb (load_job i) x = (Inr (job_row ?d i), x)" by (simp add: on_mdb_def handler_simps)
  define s1 where "s1 = s\<lparr>sy_db := ?d, sy_phase := (case job_row ?d i of None \<Rightarrow> Idle
    | Some j \<Rightarrow> if j_status j \<noteq> QUEUED then Idle
        else if isl (job_spec_model_validate ?cfg (j_spec j)) then Rejected i else Loaded i)\<rparr>"
  have step: "?step s s1" unfolding s1_def
    by (rule up_stepI, rule lstep.load [OF assms(2)]) (simp_all add: load assms(2,4))
  have s1: "sy_db s1 = ?d" "sy_now s1 = ag_now E" using assms(3) by (auto simp: s1_def)
  note run = assms(1) [unfolded process_job_def parse_uuid_str_uuid sum.case, unfolded bindE_at [where m = "on_mdb (load_job i)", OF load']]
  consider (gone) "\<forall>j. job_row ?d i = Some j \<longrightarrow> j_status j \<noteq> QUEUED"
    | (bad) j e where "job_row ?d i = Some j" "j_status j = QUEUED" "job_spec_model_validate ?cfg (j_spec j) = Inl e"
    | (good) j spec where "job_row ?d i = Some j" "j_status j = QUEUED" "job_spec_model_validate ?cfg (j_spec j) = Inr spec"
    by (metis sum.exhaust)
  then show ?thesis
  proof cases
    case gone
    with run have "out = Inr ()" "x' = x" by (auto simp: returnE_run split: option.splits)
    with step gone show ?thesis by (intro exI [of _ s1]) (auto simp: s1_def split: option.split)
  next
    case bad
    then have ph: "sy_phase s1 = Rejected i" by (simp add: s1_def)
    have f: "on_mdb (finalize_job (ag_now E) i FAILED None (Some (''invalid job spec: '' @ ag_validation_msg E)) []
        None None) x = (out, x')"
      using run bad by simp
    have "?step s1 (s1\<lparr>sy_db := mc_db x', sy_phase := (if isl out then Dead else Idle),
        sy_lost := (if isl out then insert i (sy_lost s1) else sy_lost s1)\<rparr>)"
      by (rule up_stepI, rule lstep.reject [OF ph, where msg = "''invalid job spec: '' @ ag_validation_msg E"])
        (simp_all only: s1 ph on_mdb_at [OF f] phase.distinct not_False_eq_True)
    from extend_run [OF r_into_rtranclp [of ?step, OF step] this] show ?thesis by (intro exI conjI) auto
  next
    case good
    have "\<exists>s'. ?step\<^sup>*\<^sup>* s1 s' \<and> jobs (sy_db s') = jobs (mc_db x') \<and> sy_phase s' = (if isl out then Dead else Idle)"
      using run good s1 by (intro claim_refines) (auto simp: s1_def)
    with step show ?thesis by (meson converse_rtranclp_into_rtranclp)
  qed
qed

section \<open>A cancellation that comes too late\<close>

text \<open>A CANCELLING row that no transaction in flight will finish.\<close>

definition stuck :: "sys \<Rightarrow> uuid \<Rightarrow> job \<Rightarrow> bool" where
  "stuck s k x \<longleftrightarrow> job_row (sy_db s) k = Some x \<and> j_status x = CANCELLING \<and>
     sy_phase s \<notin> {Executing k, Rejected k, Dead} \<and> k \<notin> sy_unpushed s \<union> sy_failing s \<and>
     (\<forall>r \<in> sy_reads s. j_id r = k \<longrightarrow> j_status r \<noteq> QUEUED)"

lemma row_write_cancelling:
  assumes "row_write host racy s s' k x x'" and "stuck s k x"
  shows "x' = x"
  using assms(1)
proof cases
  case (by_cancel r)
  with assms(2) show ?thesis by (auto simp: stuck_def cancel_write_def)
qed (use assms(2) in \<open>auto simp: stuck_def\<close>)

lemma stuck_step:
  assumes st: "lstep R cfg host racy s s'" and x: "stuck s k x" and alive: "sy_phase s' \<noteq> Dead"
  shows "stuck s' k x"
proof -
  have row: "job_row (sy_db s) k = Some x" "j_status x = CANCELLING" using x by (auto simp: stuck_def)
  have "job_row (sy_db s') k = Some x" using lstep_rows [OF st row(1)] row_write_cancelling [OF _ x] by blast
  moreover have "sy_phase s' \<notin> {Executing k, Rejected k}"
    using st x row lstep_phase [OF st, of k] calculation
    by cases (auto simp: stuck_def load_job_run job_row_def split: option.splits sum.splits if_splits)
  moreover have "k \<notin> sy_unpushed s' \<union> sy_failing s' \<and> (\<forall>r \<in> sy_reads s'. j_id r = k \<longrightarrow> j_status r \<noteq> QUEUED)"
    using st x row job_row_id by cases (auto simp: stuck_def)
  ultimately show ?thesis using alive row(2) by (simp add: stuck_def)
qed

lemma stuck_run:
  assumes "(\<lambda>s s'. lstep R cfg host racy s s' \<and> sy_phase s' \<noteq> Dead)\<^sup>*\<^sup>* s s'" and "stuck s k x"
  shows "stuck s' k x"
  using assms by (induction rule: rtranclp_induct) (auto intro: stuck_step)


section \<open>A run\<close>

definition demo :: "job list \<Rightarrow> uuid list \<Rightarrow> uuid set \<Rightarrow> job set \<Rightarrow> phase \<Rightarrow> sys" where
  "demo js q u rs p = \<lparr>sy_now = 1, sy_db = db0\<lparr>jobs := js\<rparr>, sy_queue = q, sy_unpushed = u, sy_failing = {},
     sy_failed = {}, sy_lost = {}, sy_reads = rs, sy_phase = p\<rparr>"

definition demo_running :: job where
  "demo_running = (new_job 1 77 1 submit0)\<lparr>j_status := RUNNING, j_worker_id := Some ''w1'', j_started_at := Some 1\<rparr>"

abbreviation demo_step :: "bool \<Rightarrow> sys \<Rightarrow> sys \<Rightarrow> bool" where
  "demo_step racy \<equiv> lstep ref_redis cfg0 ''w1'' racy"

lemma step_eq: "lstep R cfg host racy s t \<Longrightarrow> t = t' \<Longrightarrow> lstep R cfg host racy s t'"
  by simp

lemma demo_rows: "job_row (db0\<lparr>jobs := []\<rparr>) k = None"
  "job_row (db0\<lparr>jobs := [j]\<rparr>) k = (if j_id j = k then Some j else None)"
  by (simp_all add: job_row_def row_get_Cons)

lemma demo_run: "(demo_step racy)\<^sup>*\<^sup>* (sys_init 1 db0) (demo [demo_running] [] {} {demo_running} (Executing 77))"
proof -
  let ?j = "new_job 1 77 1 submit0"
  have 1: "demo_step racy (sys_init 1 db0) (demo [] [] {} {} Idle)"
    by (rule step_eq [OF lstep.restart]) (simp_all add: sys_init_def demo_def reap_zombie_jobs_def Let_def rows_update_def)
  have 2: "demo_step racy (demo [] [] {} {} Idle) (demo [?j] [] {77} {} Idle)"
    by (rule step_eq [OF lstep.submit [where i = 77 and uid = 1 and body = submit0]]) (simp_all add: demo_def demo_rows)
  have 3: "demo_step racy (demo [?j] [] {77} {} Idle) (demo [?j] [77] {} {} Idle)"
    by (rule step_eq [OF lstep.push [where i = 77]]) (simp_all add: demo_def)
  have 4: "demo_step racy (demo [?j] [77] {} {} Idle) (demo [?j] [] {} {} (Popped 77))"
    by (rule step_eq [OF lstep.pop [where i = 77 and q = "[]"]]) (simp_all add: demo_def)
  have 5: "demo_step racy (demo [?j] [] {} {} (Popped 77)) (demo [?j] [] {} {} (Loaded 77))"
    by (rule step_eq [OF lstep.load [where i = 77 and found = "Some ?j" and d = "db0\<lparr>jobs := [?j]\<rparr>"]])
      (simp_all add: demo_def load_job_run row_get_Cons job_spec_model_validate_def valid_spec0)
  have 6: "demo_step racy (demo [?j] [] {} {} (Loaded 77)) (demo [demo_running] [] {} {} (Executing 77))"
    by (rule step_eq [OF lstep.mark [where i = 77 and out = "Inr (Some demo_running)" and d = "db0\<lparr>jobs := [demo_running]\<rparr>"]])
      (simp_all add: demo_def mark_job_running_run row_get_Cons Let_def demo_running_def update_job_def rows_update_def
        job_columns_fit_def new_job_def)
  have 7: "demo_step racy (demo [demo_running] [] {} {} (Executing 77))
      (demo [demo_running] [] {} {demo_running} (Executing 77))"
    by (rule step_eq [OF lstep.read [where i = 77 and j = demo_running]])
      (simp_all add: demo_def demo_rows demo_running_def)
  from 1 2 3 4 5 6 7 show ?thesis by (meson converse_rtranclp_into_rtranclp rtranclp.rtrancl_refl)
qed

definition demo1 :: sys where
  "demo1 = demo [demo_running] [] {} {demo_running} (Executing 77)"

lemma demo1_reachable: "reachable ref_redis cfg0 ''w1'' racy demo1"
  unfolding demo1_def using demo_run by blast

lemma demo1_simps: "job_row (sy_db demo1) 77 = Some demo_running" "sy_phase demo1 = Executing 77" "sy_now demo1 = 1"
  "sy_failed demo1 = {}" "sy_unpushed demo1 = {}" "sy_failing demo1 = {}" "sy_reads demo1 = {demo_running}"
  "j_status demo_running = RUNNING" "j_id demo_running = 77" "job_columns_fit demo_running"
  by (simp_all add: demo1_def demo_def demo_rows demo_running_def job_columns_fit_def new_job_def)



theorem serial_invariant_witness: "row_serial ''w1'' demo1 77 demo_running"
  by (rule serial_invariant [OF demo1_reachable demo1_simps(1)])



theorem process_job_refines_witness:
  "\<exists>s'. (up_step ref_redis cfg0 ''w1'' False)\<^sup>*\<^sup>* \<lparr>sy_now = 8, sy_db = w_db (world_job QUEUED), sy_queue = [], sy_unpushed = {},
      sy_failing = {}, sy_failed = {}, sy_lost = {}, sy_reads = {}, sy_phase = Popped 77\<rparr> s' \<and>
     jobs (sy_db s') = jobs (mc_db (snd (process_job env0 (str_uuid 77) ''w1'' (machine0 QUEUED))))"
  using process_job_refines [OF prod.collapse [symmetric], where E = env0 and i = 77 and x = "machine0 QUEUED"
      and host = "''w1''" and R = ref_redis and racy = False and s = "\<lparr>sy_now = 8, sy_db = w_db (world_job QUEUED),
      sy_queue = [], sy_unpushed = {}, sy_failing = {}, sy_failed = {}, sy_lost = {}, sy_reads = {}, sy_phase = Popped 77\<rparr>"]
  by auto

end
