(* ===== verification/Migrations.thy ===== *)
theory Migrations
  imports Json Data_Model
begin

text \<open>
  The schema and its revisions (\<open>alembic/versions\<close>): a database is its tables, with their rows, and
  its indexes; each revision is a sequence of DDL statements in either direction, which raise what
  PostgreSQL raises, and a run of revisions is one transaction (\<open>alembic/env.py\<close>).
\<close>

section \<open>Tables\<close>

datatype sql_type = UUID | VARCHAR nat | TEXT | BOOLEAN | TIMESTAMPTZ | JSONB | INTEGER | BIGINT

datatype cell = Null | CUuid uuid | CText string | CBool bool | CTime time | CJson json | CInt int

text \<open>\<open>sa.Enum(..., native_enum=False)\<close> is a VARCHAR that holds the longest value.\<close>

definition enum_type :: "string list \<Rightarrow> sql_type" where
  "enum_type values = VARCHAR (foldr max (map length values) 0)"

fun fits :: "sql_type \<Rightarrow> cell \<Rightarrow> bool" where
  "fits UUID (CUuid _) = True"
| "fits (VARCHAR n) (CText s) \<longleftrightarrow> length s \<le> n"
| "fits TEXT (CText _) = True"
| "fits BOOLEAN (CBool _) = True"
| "fits TIMESTAMPTZ (CTime _) = True"
| "fits JSONB (CJson _) = True"
| "fits INTEGER (CInt i) \<longleftrightarrow> - (2 ^ 31) \<le> i \<and> i < 2 ^ 31"
| "fits BIGINT (CInt i) \<longleftrightarrow> - (2 ^ 63) \<le> i \<and> i < 2 ^ 63"
| "fits _ _ = False"

datatype sql_default = SqlNow | SqlConst cell

record column =
  c_name :: string
  c_type :: sql_type
  c_nullable :: bool
  c_default :: "sql_default option"

record foreign_key =
  fk_column :: string
  fk_table :: string
  fk_ref :: string
  fk_on_delete :: string

type_synonym row = "(string \<times> cell) list"

record sql_table =
  t_columns :: "column list"
  t_primary_key :: "string list"
  t_foreign_keys :: "foreign_key list"
  t_uniques :: "string list list"
  t_rows :: "row list"

record sql_index =
  ix_table :: string
  ix_columns :: "string list"
  ix_unique :: bool

record schema =
  sc_tables :: "(string \<times> sql_table) list"
  sc_indexes :: "(string \<times> sql_index) list"
  sc_now :: time

abbreviation names :: "sql_table \<Rightarrow> string list" where
  "names t \<equiv> map c_name (t_columns t)"

definition cell_ok :: "column \<Rightarrow> cell \<Rightarrow> bool" where
  "cell_ok c v \<longleftrightarrow> (if v = Null then c_nullable c else fits (c_type c) v)"

section \<open>Statements\<close>

definition DuplicateTable :: exn where "DuplicateTable = OtherException ''DuplicateTable''"
definition UndefinedTable :: exn where "UndefinedTable = OtherException ''UndefinedTable''"
definition DuplicateColumn :: exn where "DuplicateColumn = OtherException ''DuplicateColumn''"
definition UndefinedColumn :: exn where "UndefinedColumn = OtherException ''UndefinedColumn''"
definition UndefinedObject :: exn where "UndefinedObject = OtherException ''UndefinedObject''"
definition DependentObjects :: exn where "DependentObjects = OtherException ''DependentObjectsStillExist''"
definition NotNullViolation :: exn where "NotNullViolation = OtherException ''NotNullViolation''"
definition UniqueViolation :: exn where "UniqueViolation = OtherException ''UniqueViolation''"
definition DataTruncation :: exn where "DataTruncation = OtherException ''StringDataRightTruncation''"

definition update_table :: "string \<Rightarrow> (sql_table \<Rightarrow> sql_table) \<Rightarrow> schema \<Rightarrow> schema" where
  "update_table n f s = s\<lparr>sc_tables := map (\<lambda>(k, t). (k, if k = n then f t else t)) (sc_tables s)\<rparr>"

text \<open>A foreign key names a column of the table and the primary key of an existing one.\<close>

definition fk_ok :: "(string \<times> sql_table) list \<Rightarrow> foreign_key \<Rightarrow> bool" where
  "fk_ok ts fk = (case map_of ts (fk_table fk) of None \<Rightarrow> False | Some t \<Rightarrow> t_primary_key t = [fk_ref fk])"

definition constrained :: "string list \<Rightarrow> foreign_key list \<Rightarrow> string list list \<Rightarrow> string list" where
  "constrained pk fks uniques = pk @ map fk_column fks @ concat uniques"

definition create_table ::
  "string \<Rightarrow> column list \<Rightarrow> string list \<Rightarrow> foreign_key list \<Rightarrow> string list list \<Rightarrow> (schema, unit) handler" where
  "create_table n cols pk fks uniques = (\<lambda>s.
     if n \<in> set (map fst (sc_tables s)) then (Inl DuplicateTable, s)
     else if \<not> distinct (map c_name cols) then (Inl DuplicateColumn, s)
     else if \<not> set (constrained pk fks uniques) \<subseteq> set (map c_name cols) then (Inl UndefinedColumn, s)
     else if \<not> list_all (fk_ok (sc_tables s)) fks then (Inl UndefinedTable, s)
     else (Inr (), sc_tables_update (\<lambda>ts. ts @ [(n, \<lparr>t_columns = cols, t_primary_key = pk, t_foreign_keys = fks,
       t_uniques = uniques, t_rows = []\<rparr>)]) s))"

definition referenced :: "(foreign_key \<Rightarrow> bool) \<Rightarrow> string \<Rightarrow> schema \<Rightarrow> bool" where
  "referenced p n s \<longleftrightarrow> list_ex (\<lambda>(k, t). k \<noteq> n \<and> list_ex (\<lambda>fk. fk_table fk = n \<and> p fk) (t_foreign_keys t)) (sc_tables s)"

definition drop_table :: "string \<Rightarrow> (schema, unit) handler" where
  "drop_table n = (\<lambda>s.
     if n \<notin> set (map fst (sc_tables s)) then (Inl UndefinedTable, s)
     else if referenced (\<lambda>_. True) n s then (Inl DependentObjects, s)
     else (Inr (), s\<lparr>sc_tables := filter (\<lambda>(k, _). k \<noteq> n) (sc_tables s),
                      sc_indexes := filter (\<lambda>(_, ix). ix_table ix \<noteq> n) (sc_indexes s)\<rparr>))"

definition create_index :: "string \<Rightarrow> string \<Rightarrow> string list \<Rightarrow> bool \<Rightarrow> (schema, unit) handler" where
  "create_index i n cols unique = (\<lambda>s.
     if i \<in> set (map fst (sc_indexes s)) then (Inl DuplicateTable, s)
     else (case map_of (sc_tables s) n of
       None \<Rightarrow> (Inl UndefinedTable, s)
     | Some t \<Rightarrow>
         if \<not> set cols \<subseteq> set (names t) then (Inl UndefinedColumn, s)
         else if unique \<and> \<not> distinct (filter (\<lambda>vs. Some Null \<notin> set vs) (map (\<lambda>r. map (map_of r) cols) (t_rows t)))
         then (Inl UniqueViolation, s)
         else (Inr (), sc_indexes_update (\<lambda>xs. xs @ [(i, \<lparr>ix_table = n, ix_columns = cols, ix_unique = unique\<rparr>)]) s)))"

definition drop_index :: "string \<Rightarrow> (schema, unit) handler" where
  "drop_index i = (\<lambda>s.
     if i \<notin> set (map fst (sc_indexes s)) then (Inl UndefinedObject, s)
     else (Inr (), sc_indexes_update (filter (\<lambda>(k, _). k \<noteq> i)) s))"

definition filled :: "time \<Rightarrow> column \<Rightarrow> cell" where
  "filled now c = (case c_default c of None \<Rightarrow> Null | Some SqlNow \<Rightarrow> CTime now | Some (SqlConst v) \<Rightarrow> v)"

definition with_column :: "column \<Rightarrow> cell \<Rightarrow> sql_table \<Rightarrow> sql_table" where
  "with_column c v t = t\<lparr>t_columns := t_columns t @ [c], t_rows := map (\<lambda>r. r @ [(c_name c, v)]) (t_rows t)\<rparr>"

definition add_column :: "string \<Rightarrow> column \<Rightarrow> (schema, unit) handler" where
  "add_column n c = (\<lambda>s. case map_of (sc_tables s) n of
     None \<Rightarrow> (Inl UndefinedTable, s)
   | Some t \<Rightarrow>
       if c_name c \<in> set (names t) then (Inl DuplicateColumn, s)
       else if t_rows t \<noteq> [] \<and> \<not> cell_ok c (filled (sc_now s) c) then (Inl NotNullViolation, s)
       else (Inr (), update_table n (with_column c (filled (sc_now s) c)) s))"

text \<open>Dropping a column takes the table's constraints and indexes that mention it along.\<close>

definition without_column :: "string \<Rightarrow> sql_table \<Rightarrow> sql_table" where
  "without_column c t = t\<lparr>
     t_columns := filter (\<lambda>x. c_name x \<noteq> c) (t_columns t),
     t_primary_key := (if c \<in> set (t_primary_key t) then [] else t_primary_key t),
     t_foreign_keys := filter (\<lambda>fk. fk_column fk \<noteq> c) (t_foreign_keys t),
     t_uniques := filter (\<lambda>u. c \<notin> set u) (t_uniques t),
     t_rows := map (filter (\<lambda>(k, _). k \<noteq> c)) (t_rows t)\<rparr>"

definition drop_column :: "string \<Rightarrow> string \<Rightarrow> (schema, unit) handler" where
  "drop_column n c = (\<lambda>s. case map_of (sc_tables s) n of
     None \<Rightarrow> (Inl UndefinedTable, s)
   | Some t \<Rightarrow>
       if c \<notin> set (names t) then (Inl UndefinedColumn, s)
       else if referenced (\<lambda>fk. fk_ref fk = c) n s then (Inl DependentObjects, s)
       else (Inr (), sc_indexes_update (filter (\<lambda>(_, ix). \<not> (ix_table ix = n \<and> c \<in> set (ix_columns ix))))
         (update_table n (without_column c) s)))"

definition alter_default :: "string \<Rightarrow> string \<Rightarrow> sql_default option \<Rightarrow> (schema, unit) handler" where
  "alter_default n c d = (\<lambda>s. case map_of (sc_tables s) n of
     None \<Rightarrow> (Inl UndefinedTable, s)
   | Some t \<Rightarrow>
       if c \<notin> set (names t) then (Inl UndefinedColumn, s)
       else (Inr (), update_table n (t_columns_update (map (\<lambda>x. if c_name x = c then x\<lparr>c_default := d\<rparr> else x))) s))"

text \<open>\<open>ALTER COLUMN ... TYPE ty USING conv\<close>: every cell is converted, and must fit the new type.\<close>

definition recast :: "string \<Rightarrow> (cell \<Rightarrow> cell) \<Rightarrow> row \<Rightarrow> row" where
  "recast c conv r = map (\<lambda>(k, v). (k, if k = c then conv v else v)) r"

definition retyped :: "string \<Rightarrow> sql_type \<Rightarrow> column \<Rightarrow> column" where
  "retyped c ty x = (if c_name x = c then x\<lparr>c_type := ty\<rparr> else x)"

definition alter_table :: "string \<Rightarrow> sql_type \<Rightarrow> (cell \<Rightarrow> cell) \<Rightarrow> sql_table \<Rightarrow> sql_table" where
  "alter_table c ty conv t = t\<lparr>t_columns := map (retyped c ty) (t_columns t), t_rows := map (recast c conv) (t_rows t)\<rparr>"

definition castable :: "string \<Rightarrow> sql_type \<Rightarrow> (cell \<Rightarrow> cell) \<Rightarrow> sql_table \<Rightarrow> bool" where
  "castable c ty conv t \<longleftrightarrow> (\<forall>r \<in> set (t_rows t). \<forall>x \<in> set (t_columns t). \<forall>(k, v) \<in> set r.
     k = c \<and> c_name x = c \<longrightarrow> cell_ok (x\<lparr>c_type := ty\<rparr>) (conv v))"

definition alter_type :: "string \<Rightarrow> string \<Rightarrow> sql_type \<Rightarrow> (cell \<Rightarrow> cell) \<Rightarrow> (schema, unit) handler" where
  "alter_type n c ty conv = (\<lambda>s. case map_of (sc_tables s) n of
     None \<Rightarrow> (Inl UndefinedTable, s)
   | Some t \<Rightarrow>
       if c \<notin> set (names t) then (Inl UndefinedColumn, s)
       else if castable c ty conv t
       then (Inr (), update_table n (alter_table c ty conv) s)
       else (Inl DataTruncation, s))"

text \<open>The casts: of a UUID to text, to VARCHAR (blanks beyond the length are cut), and the
  constant NULL.\<close>

fun uuid_text :: "cell \<Rightarrow> cell" where
  "uuid_text (CUuid u) = CText (str_uuid u)"
| "uuid_text v = v"

fun to_varchar :: "nat \<Rightarrow> cell \<Rightarrow> cell" where
  "to_varchar n (CText s) = CText (if list_all (\<lambda>c. c = CHR '' '') (drop n s) then take n s else s)"
| "to_varchar n v = v"

fun steps :: "(schema, unit) handler list \<Rightarrow> (schema, unit) handler" where
  "steps [] = returnE ()"
| "steps (m # ms) = bindE m (\<lambda>_. steps ms)"

section \<open>The revisions\<close>

definition col :: "string \<Rightarrow> sql_type \<Rightarrow> column" where
  "col n ty = \<lparr>c_name = n, c_type = ty, c_nullable = False, c_default = None\<rparr>"

definition nullable :: "column \<Rightarrow> column" where
  "nullable c = c\<lparr>c_nullable := True\<rparr>"

definition server_default :: "sql_default \<Rightarrow> column \<Rightarrow> column" where
  "server_default d c = c\<lparr>c_default := Some d\<rparr>"

definition false :: sql_default where
  "false = SqlConst (CBool False)"

definition created_at :: column where
  "created_at = server_default SqlNow (col ''created_at'' TIMESTAMPTZ)"

definition references :: "string \<Rightarrow> string \<Rightarrow> string \<Rightarrow> string \<Rightarrow> foreign_key" where
  "references c n r on_delete = \<lparr>fk_column = c, fk_table = n, fk_ref = r, fk_on_delete = on_delete\<rparr>"

definition of_user :: foreign_key where
  "of_user = references ''user_id'' ''users'' ''id'' ''CASCADE''"

definition a2_upgrade :: "(schema, unit) handler list" where
  "a2_upgrade = [
     create_table ''users'' [
       col ''id'' UUID, col ''email'' (VARCHAR 320), col ''password_hash'' (VARCHAR 255),
       col ''role'' (enum_type [''admin'', ''user'', ''readonly'']),
       server_default false (col ''must_change_password'' BOOLEAN), created_at] [''id''] [] [],
     create_index ''ix_users_email'' ''users'' [''email''] True,
     create_table ''refresh_tokens'' [
       col ''id'' UUID, col ''user_id'' UUID, col ''token_hash'' (VARCHAR 64), col ''family_id'' UUID,
       col ''expires_at'' TIMESTAMPTZ, server_default false (col ''revoked'' BOOLEAN), created_at] [''id''] [of_user] [],
     create_index ''ix_refresh_tokens_family_id'' ''refresh_tokens'' [''family_id''] False,
     create_index ''ix_refresh_tokens_token_hash'' ''refresh_tokens'' [''token_hash''] True,
     create_index ''ix_refresh_tokens_user_id'' ''refresh_tokens'' [''user_id''] False]"

definition a2_downgrade :: "(schema, unit) handler list" where
  "a2_downgrade = [
     drop_index ''ix_refresh_tokens_user_id'', drop_index ''ix_refresh_tokens_token_hash'',
     drop_index ''ix_refresh_tokens_family_id'', drop_table ''refresh_tokens'',
     drop_index ''ix_users_email'', drop_table ''users'']"

definition a3_upgrade :: "(schema, unit) handler list" where
  "a3_upgrade = [
     create_table ''api_keys'' [
       col ''id'' UUID, col ''user_id'' UUID, col ''name'' (VARCHAR 128), col ''key_hash'' (VARCHAR 64),
       col ''prefix'' (VARCHAR 8), col ''scopes'' JSONB,
       server_default (SqlConst (CText ''standard'')) (col ''rate_limit_tier'' (VARCHAR 32)),
       nullable (col ''expires_at'' TIMESTAMPTZ), server_default false (col ''revoked'' BOOLEAN),
       nullable (col ''last_used_at'' TIMESTAMPTZ), created_at] [''id''] [of_user] [],
     create_index ''ix_api_keys_key_hash'' ''api_keys'' [''key_hash''] True,
     create_index ''ix_api_keys_user_id'' ''api_keys'' [''user_id''] False]"

definition a3_downgrade :: "(schema, unit) handler list" where
  "a3_downgrade = [drop_index ''ix_api_keys_user_id'', drop_index ''ix_api_keys_key_hash'', drop_table ''api_keys'']"

definition a1_upgrade :: "(schema, unit) handler list" where
  "a1_upgrade = [add_column ''users'' (server_default false (col ''disabled'' BOOLEAN))]"

definition a1_downgrade :: "(schema, unit) handler list" where
  "a1_downgrade = [drop_column ''users'' ''disabled'']"

definition b1_upgrade :: "(schema, unit) handler list" where
  "b1_upgrade = [
     create_table ''jobs'' [
       col ''id'' UUID, col ''user_id'' UUID, col ''name'' (VARCHAR 128), col ''spec'' JSONB,
       col ''status'' (enum_type [''QUEUED'', ''RUNNING'', ''SUCCEEDED'', ''FAILED'', ''CANCELLED'']),
       server_default SqlNow (col ''queued_at'' TIMESTAMPTZ), nullable (col ''started_at'' TIMESTAMPTZ),
       nullable (col ''finished_at'' TIMESTAMPTZ), nullable (col ''worker_id'' UUID),
       nullable (col ''exit_code'' INTEGER), nullable (col ''error_message'' (VARCHAR 1024))] [''id''] [of_user] [],
     create_index ''ix_jobs_user_id'' ''jobs'' [''user_id''] False]"

definition b1_downgrade :: "(schema, unit) handler list" where
  "b1_downgrade = [drop_index ''ix_jobs_user_id'', drop_table ''jobs'']"

definition b3_upgrade :: "(schema, unit) handler list" where
  "b3_upgrade = [
     alter_type ''jobs'' ''worker_id'' (VARCHAR 128) (\<lambda>v. to_varchar 128 (uuid_text v)),
     create_table ''job_logs'' [col ''id'' UUID, col ''job_id'' UUID, col ''content'' TEXT, created_at]
       [''id''] [references ''job_id'' ''jobs'' ''id'' ''CASCADE''] [],
     create_index ''ix_job_logs_job_id'' ''job_logs'' [''job_id''] False]"

definition b3_downgrade :: "(schema, unit) handler list" where
  "b3_downgrade = [
     drop_index ''ix_job_logs_job_id'', drop_table ''job_logs'',
     alter_type ''jobs'' ''worker_id'' UUID (\<lambda>_. Null)]"

definition b5_upgrade :: "(schema, unit) handler list" where
  "b5_upgrade = [alter_type ''jobs'' ''status'' (VARCHAR 16) (to_varchar 16)]"

definition b5_downgrade :: "(schema, unit) handler list" where
  "b5_downgrade = [alter_type ''jobs'' ''status'' (VARCHAR 9) (to_varchar 9)]"

definition e1_upgrade :: "(schema, unit) handler list" where
  "e1_upgrade = [
     create_table ''quotas'' [
       col ''user_id'' UUID, col ''max_concurrent_jobs'' INTEGER, col ''max_jobs_per_day'' INTEGER,
       col ''max_storage_mb'' INTEGER, col ''max_instances'' INTEGER, col ''max_llm_tokens_per_day'' INTEGER]
       [''user_id''] [of_user] []]"

definition e1_downgrade :: "(schema, unit) handler list" where
  "e1_downgrade = [drop_table ''quotas'']"

definition b4_upgrade :: "(schema, unit) handler list" where
  "b4_upgrade = [
     add_column ''jobs'' (nullable (col ''mlflow_run_id'' (VARCHAR 64))),
     add_column ''jobs'' (nullable (col ''artifact_error'' (VARCHAR 1024))),
     create_table ''models'' [
       col ''id'' UUID, col ''user_id'' UUID, col ''name'' (VARCHAR 128), col ''version'' INTEGER,
       nullable (col ''source_job_id'' UUID), col ''minio_prefix'' (VARCHAR 512), col ''size_bytes'' BIGINT,
       nullable (col ''framework'' (VARCHAR 64)), created_at]
       [''id''] [references ''source_job_id'' ''jobs'' ''id'' ''SET NULL'', of_user] [[''user_id'', ''name'', ''version'']],
     create_index ''ix_models_user_id'' ''models'' [''user_id''] False,
     create_index ''ix_models_source_job_id'' ''models'' [''source_job_id''] False]"

definition b4_downgrade :: "(schema, unit) handler list" where
  "b4_downgrade = [
     drop_index ''ix_models_source_job_id'', drop_index ''ix_models_user_id'', drop_table ''models'',
     drop_column ''jobs'' ''artifact_error'', drop_column ''jobs'' ''mlflow_run_id'']"

definition c1_upgrade :: "(schema, unit) handler list" where
  "c1_upgrade = [
     add_column ''quotas'' (server_default (SqlConst (CInt 1)) (col ''max_live_endpoints'' INTEGER)),
     alter_default ''quotas'' ''max_live_endpoints'' None,
     create_table ''endpoints'' [
       col ''id'' UUID, col ''model_id'' UUID, col ''user_id'' UUID, col ''name'' (VARCHAR 128), col ''status'' (VARCHAR 16),
       nullable (col ''container_id'' (VARCHAR 128)), col ''route'' (VARCHAR 160),
       nullable (col ''error_message'' (VARCHAR 1024)), created_at, nullable (col ''stopped_at'' TIMESTAMPTZ)]
       [''id''] [references ''model_id'' ''models'' ''id'' ''CASCADE'', of_user] [[''route'']],
     create_index ''ix_endpoints_model_id'' ''endpoints'' [''model_id''] False,
     create_index ''ix_endpoints_user_id'' ''endpoints'' [''user_id''] False,
     create_index ''ix_endpoints_route'' ''endpoints'' [''route''] False,
     create_table ''usage_logs'' [
       col ''id'' UUID, col ''user_id'' UUID, nullable (col ''api_key_id'' UUID), col ''endpoint_id'' UUID,
       col ''request_count'' INTEGER, nullable (col ''tokens_in'' INTEGER), nullable (col ''tokens_out'' INTEGER), created_at]
       [''id''] [references ''api_key_id'' ''api_keys'' ''id'' ''SET NULL'',
         references ''endpoint_id'' ''endpoints'' ''id'' ''CASCADE'', of_user] [],
     create_index ''ix_usage_logs_user_id'' ''usage_logs'' [''user_id''] False,
     create_index ''ix_usage_logs_api_key_id'' ''usage_logs'' [''api_key_id''] False,
     create_index ''ix_usage_logs_endpoint_id'' ''usage_logs'' [''endpoint_id''] False]"

definition c1_downgrade :: "(schema, unit) handler list" where
  "c1_downgrade = [
     drop_index ''ix_usage_logs_endpoint_id'', drop_index ''ix_usage_logs_api_key_id'', drop_index ''ix_usage_logs_user_id'',
     drop_table ''usage_logs'',
     drop_index ''ix_endpoints_route'', drop_index ''ix_endpoints_user_id'', drop_index ''ix_endpoints_model_id'',
     drop_table ''endpoints'',
     drop_column ''quotas'' ''max_live_endpoints'']"

record revision =
  rv_id :: string
  rv_down_revision :: "string option"
  rv_upgrade :: "(schema, unit) handler list"
  rv_downgrade :: "(schema, unit) handler list"

definition a2_users_refresh_tokens :: revision where
  "a2_users_refresh_tokens = \<lparr>rv_id = ''a2_users_refresh_tokens'', rv_down_revision = None,
     rv_upgrade = a2_upgrade, rv_downgrade = a2_downgrade\<rparr>"

definition a3_api_keys :: revision where
  "a3_api_keys = \<lparr>rv_id = ''a3_api_keys'', rv_down_revision = Some ''a2_users_refresh_tokens'',
     rv_upgrade = a3_upgrade, rv_downgrade = a3_downgrade\<rparr>"

definition a1_user_disabled :: revision where
  "a1_user_disabled = \<lparr>rv_id = ''a1_user_disabled'', rv_down_revision = Some ''a3_api_keys'',
     rv_upgrade = a1_upgrade, rv_downgrade = a1_downgrade\<rparr>"

definition b1_jobs :: revision where
  "b1_jobs = \<lparr>rv_id = ''b1_jobs'', rv_down_revision = Some ''a1_user_disabled'',
     rv_upgrade = b1_upgrade, rv_downgrade = b1_downgrade\<rparr>"

definition b3_worker_execution :: revision where
  "b3_worker_execution = \<lparr>rv_id = ''b3_worker_execution'', rv_down_revision = Some ''b1_jobs'',
     rv_upgrade = b3_upgrade, rv_downgrade = b3_downgrade\<rparr>"

definition b5_job_cancelling :: revision where
  "b5_job_cancelling = \<lparr>rv_id = ''b5_job_cancelling'', rv_down_revision = Some ''b3_worker_execution'',
     rv_upgrade = b5_upgrade, rv_downgrade = b5_downgrade\<rparr>"

definition e1_quotas :: revision where
  "e1_quotas = \<lparr>rv_id = ''e1_quotas'', rv_down_revision = Some ''b5_job_cancelling'',
     rv_upgrade = e1_upgrade, rv_downgrade = e1_downgrade\<rparr>"

definition b4_models_mlflow :: revision where
  "b4_models_mlflow = \<lparr>rv_id = ''b4_models_mlflow'', rv_down_revision = Some ''e1_quotas'',
     rv_upgrade = b4_upgrade, rv_downgrade = b4_downgrade\<rparr>"

definition c1_endpoints :: revision where
  "c1_endpoints = \<lparr>rv_id = ''c1_endpoints'', rv_down_revision = Some ''b4_models_mlflow'',
     rv_upgrade = c1_upgrade, rv_downgrade = c1_downgrade\<rparr>"

text \<open>The revisions, and the lineage of one along \<open>down_revision\<close>, oldest first.\<close>

definition REVISIONS :: "revision list" where
  "REVISIONS = [a1_user_disabled, a2_users_refresh_tokens, a3_api_keys, b1_jobs, b3_worker_execution,
     b4_models_mlflow, b5_job_cancelling, c1_endpoints, e1_quotas]"

fun lineage :: "nat \<Rightarrow> string option \<Rightarrow> revision list" where
  "lineage 0 r = []"
| "lineage (Suc n) None = []"
| "lineage (Suc n) (Some r) = (case find (\<lambda>q. rv_id q = r) REVISIONS of
     None \<Rightarrow> [] | Some q \<Rightarrow> lineage n (rv_down_revision q) @ [q])"

text \<open>\<open>do_run_migrations\<close>: the pending revisions in one transaction.\<close>

definition run_upgrades :: "revision list \<Rightarrow> (schema, unit) handler" where
  "run_upgrades rs = atomicE (steps (concat (map rv_upgrade rs)))"

definition run_downgrades :: "revision list \<Rightarrow> (schema, unit) handler" where
  "run_downgrades rs = atomicE (steps (concat (map rv_downgrade rs)))"

definition empty_schema :: "time \<Rightarrow> schema" where
  "empty_schema now = \<lparr>sc_tables = [], sc_indexes = [], sc_now = now\<rparr>"

section \<open>The metadata of the models\<close>

text \<open>The tables that \<open>api/models.py\<close> declares: \<open>unique\<close> with \<open>index\<close> is a unique index, alone it is a
  constraint.\<close>

record mapped_column =
  mc_column :: column
  mc_primary_key :: bool
  mc_unique :: bool
  mc_index :: bool
  mc_foreign_key :: "foreign_key option"

definition mapped :: "column \<Rightarrow> mapped_column" where
  "mapped c = \<lparr>mc_column = c, mc_primary_key = False, mc_unique = False, mc_index = False, mc_foreign_key = None\<rparr>"

definition primary :: "mapped_column \<Rightarrow> mapped_column" where
  "primary c = c\<lparr>mc_primary_key := True\<rparr>"

definition indexed :: "mapped_column \<Rightarrow> mapped_column" where
  "indexed c = c\<lparr>mc_index := True\<rparr>"

definition uniquely :: "mapped_column \<Rightarrow> mapped_column" where
  "uniquely c = c\<lparr>mc_unique := True\<rparr>"

definition pointing :: "foreign_key \<Rightarrow> mapped_column \<Rightarrow> mapped_column" where
  "pointing fk c = c\<lparr>mc_foreign_key := Some fk\<rparr>"

definition id_column :: mapped_column where
  "id_column = primary (mapped (col ''id'' UUID))"

definition user_column :: mapped_column where
  "user_column = indexed (pointing of_user (mapped (col ''user_id'' UUID)))"

definition User_columns :: "mapped_column list" where
  "User_columns = [id_column, uniquely (indexed (mapped (col ''email'' (VARCHAR 320)))),
     mapped (col ''password_hash'' (VARCHAR 255)), mapped (col ''role'' (enum_type [''admin'', ''user'', ''readonly''])),
     mapped (col ''must_change_password'' BOOLEAN), mapped (col ''disabled'' BOOLEAN), mapped created_at]"

definition Job_columns :: "mapped_column list" where
  "Job_columns = [id_column, user_column, mapped (col ''name'' (VARCHAR 128)), mapped (col ''spec'' JSONB),
     mapped (col ''status'' (VARCHAR 16)), mapped (server_default SqlNow (col ''queued_at'' TIMESTAMPTZ)),
     mapped (nullable (col ''started_at'' TIMESTAMPTZ)), mapped (nullable (col ''finished_at'' TIMESTAMPTZ)),
     mapped (nullable (col ''worker_id'' (VARCHAR 128))), mapped (nullable (col ''exit_code'' INTEGER)),
     mapped (nullable (col ''error_message'' (VARCHAR 1024))), mapped (nullable (col ''mlflow_run_id'' (VARCHAR 64))),
     mapped (nullable (col ''artifact_error'' (VARCHAR 1024)))]"

definition JobLog_columns :: "mapped_column list" where
  "JobLog_columns = [id_column,
     indexed (pointing (references ''job_id'' ''jobs'' ''id'' ''CASCADE'') (mapped (col ''job_id'' UUID))),
     mapped (col ''content'' TEXT), mapped created_at]"

definition ApiKey_columns :: "mapped_column list" where
  "ApiKey_columns = [id_column, user_column, mapped (col ''name'' (VARCHAR 128)),
     uniquely (indexed (mapped (col ''key_hash'' (VARCHAR 64)))), mapped (col ''prefix'' (VARCHAR 8)),
     mapped (col ''scopes'' JSONB), mapped (col ''rate_limit_tier'' (VARCHAR 32)),
     mapped (nullable (col ''expires_at'' TIMESTAMPTZ)), mapped (col ''revoked'' BOOLEAN),
     mapped (nullable (col ''last_used_at'' TIMESTAMPTZ)), mapped created_at]"

definition RefreshToken_columns :: "mapped_column list" where
  "RefreshToken_columns = [id_column, user_column, uniquely (indexed (mapped (col ''token_hash'' (VARCHAR 64)))),
     indexed (mapped (col ''family_id'' UUID)), mapped (col ''expires_at'' TIMESTAMPTZ),
     mapped (col ''revoked'' BOOLEAN), mapped created_at]"

definition Quota_columns :: "mapped_column list" where
  "Quota_columns = [primary (pointing of_user (mapped (col ''user_id'' UUID))),
     mapped (col ''max_concurrent_jobs'' INTEGER), mapped (col ''max_jobs_per_day'' INTEGER),
     mapped (col ''max_storage_mb'' INTEGER), mapped (col ''max_instances'' INTEGER),
     mapped (col ''max_llm_tokens_per_day'' INTEGER), mapped (col ''max_live_endpoints'' INTEGER)]"

definition Model_columns :: "mapped_column list" where
  "Model_columns = [id_column, user_column, mapped (col ''name'' (VARCHAR 128)), mapped (col ''version'' INTEGER),
     indexed (pointing (references ''source_job_id'' ''jobs'' ''id'' ''SET NULL'')
       (mapped (nullable (col ''source_job_id'' UUID)))),
     mapped (col ''minio_prefix'' (VARCHAR 512)), mapped (col ''size_bytes'' BIGINT),
     mapped (nullable (col ''framework'' (VARCHAR 64))), mapped created_at]"

definition Endpoint_columns :: "mapped_column list" where
  "Endpoint_columns = [id_column,
     indexed (pointing (references ''model_id'' ''models'' ''id'' ''CASCADE'') (mapped (col ''model_id'' UUID))), user_column,
     mapped (col ''name'' (VARCHAR 128)), mapped (col ''status'' (VARCHAR 16)),
     mapped (nullable (col ''container_id'' (VARCHAR 128))), uniquely (indexed (mapped (col ''route'' (VARCHAR 160)))),
     mapped (nullable (col ''error_message'' (VARCHAR 1024))), mapped created_at,
     mapped (nullable (col ''stopped_at'' TIMESTAMPTZ))]"

definition UsageLog_columns :: "mapped_column list" where
  "UsageLog_columns = [id_column, user_column,
     indexed (pointing (references ''api_key_id'' ''api_keys'' ''id'' ''SET NULL'') (mapped (nullable (col ''api_key_id'' UUID)))),
     indexed (pointing (references ''endpoint_id'' ''endpoints'' ''id'' ''CASCADE'') (mapped (col ''endpoint_id'' UUID))),
     mapped (col ''request_count'' INTEGER), mapped (nullable (col ''tokens_in'' INTEGER)),
     mapped (nullable (col ''tokens_out'' INTEGER)), mapped created_at]"

text \<open>Every declarative class with its table name and the constraints of \<open>__table_args__\<close>.\<close>

definition MODELS :: "(string \<times> mapped_column list \<times> string list list) list" where
  "MODELS = [(''users'', User_columns, []), (''jobs'', Job_columns, []), (''job_logs'', JobLog_columns, []),
     (''api_keys'', ApiKey_columns, []), (''refresh_tokens'', RefreshToken_columns, []), (''quotas'', Quota_columns, []),
     (''models'', Model_columns, [[''user_id'', ''name'', ''version'']]), (''endpoints'', Endpoint_columns, []),
     (''usage_logs'', UsageLog_columns, [])]"

definition column_name :: "mapped_column \<Rightarrow> string" where
  "column_name c = c_name (mc_column c)"

definition declared_table :: "mapped_column list \<Rightarrow> string list list \<Rightarrow> sql_table" where
  "declared_table cs args = \<lparr>t_columns = map mc_column cs, t_primary_key = map column_name (filter mc_primary_key cs),
     t_foreign_keys = List.map_filter mc_foreign_key cs,
     t_uniques = args @ map (\<lambda>c. [column_name c]) (filter (\<lambda>c. mc_unique c \<and> \<not> mc_index c) cs), t_rows = []\<rparr>"

definition declared_indexes :: "string \<Rightarrow> mapped_column list \<Rightarrow> (string \<times> sql_index) list" where
  "declared_indexes n cs = map (\<lambda>c. (''ix_'' @ n @ ''_'' @ column_name c,
     \<lparr>ix_table = n, ix_columns = [column_name c], ix_unique = mc_unique c\<rparr>)) (filter mc_index cs)"

text \<open>What a table promises its users: columns with type and nullability, keys, unique sets of
  columns (by a constraint or an index), and indexed columns.\<close>

definition column_promise :: "column \<Rightarrow> string \<times> sql_type \<times> bool" where
  "column_promise c = (c_name c, c_type c, c_nullable c)"

definition same_set :: "'a list \<Rightarrow> 'a list \<Rightarrow> bool" where
  "same_set xs ys \<longleftrightarrow> list_all (\<lambda>x. x \<in> set ys) xs \<and> list_all (\<lambda>y. y \<in> set xs) ys"

definition indexes_of :: "string \<Rightarrow> (string \<times> sql_index) list \<Rightarrow> sql_index list" where
  "indexes_of n xs = filter (\<lambda>ix. ix_table ix = n) (map snd xs)"

definition unique_sets :: "sql_table \<Rightarrow> sql_index list \<Rightarrow> string list list" where
  "unique_sets t ixs = t_uniques t @ map ix_columns (filter ix_unique ixs)"

definition same_promises :: "sql_table \<Rightarrow> sql_index list \<Rightarrow> sql_table \<Rightarrow> sql_index list \<Rightarrow> bool" where
  "same_promises t ixs t' ixs' \<longleftrightarrow>
     same_set (map column_promise (t_columns t)) (map column_promise (t_columns t')) \<and>
     t_primary_key t = t_primary_key t' \<and> same_set (t_foreign_keys t) (t_foreign_keys t') \<and>
     same_set (unique_sets t ixs) (unique_sets t' ixs') \<and> same_set (map ix_columns ixs) (map ix_columns ixs')"

definition implements_model :: "schema \<Rightarrow> string \<times> mapped_column list \<times> string list list \<Rightarrow> bool" where
  "implements_model s m = (case m of (n, cs, args) \<Rightarrow> (case map_of (sc_tables s) n of
     None \<Rightarrow> False
   | Some t \<Rightarrow> same_promises t (indexes_of n (sc_indexes s)) (declared_table cs args) (map snd (declared_indexes n cs))))"

lemma lineage_head:
  "lineage 10 (Some ''c1_endpoints'') = [a2_users_refresh_tokens, a3_api_keys, a1_user_disabled, b1_jobs,
     b3_worker_execution, b5_job_cancelling, e1_quotas, b4_models_mlflow, c1_endpoints]"
  by (simp add: REVISIONS_def a2_users_refresh_tokens_def a3_api_keys_def a1_user_disabled_def b1_jobs_def
      b3_worker_execution_def b5_job_cancelling_def e1_quotas_def b4_models_mlflow_def c1_endpoints_def numeral_eq_Suc)


section \<open>Well-formed databases\<close>

definition row_fits :: "column list \<Rightarrow> row \<Rightarrow> bool" where
  "row_fits cols r \<longleftrightarrow> map fst r = map c_name cols \<and> list_all2 (\<lambda>c (_, v). cell_ok c v) cols r"

definition table_ok :: "(string \<times> sql_table) list \<Rightarrow> sql_table \<Rightarrow> bool" where
  "table_ok ts t \<longleftrightarrow> distinct (names t) \<and>
     set (constrained (t_primary_key t) (t_foreign_keys t) (t_uniques t)) \<subseteq> set (names t) \<and>
     list_all (fk_ok ts) (t_foreign_keys t) \<and> list_all (row_fits (t_columns t)) (t_rows t)"

definition index_ok :: "(string \<times> sql_table) list \<Rightarrow> sql_index \<Rightarrow> bool" where
  "index_ok ts ix \<longleftrightarrow> (case map_of ts (ix_table ix) of None \<Rightarrow> False | Some t \<Rightarrow> set (ix_columns ix) \<subseteq> set (names t))"

definition schema_ok :: "schema \<Rightarrow> bool" where
  "schema_ok s \<longleftrightarrow> distinct (map fst (sc_tables s)) \<and> (\<forall>(n, t) \<in> set (sc_tables s). table_ok (sc_tables s) t) \<and>
     (\<forall>(i, ix) \<in> set (sc_indexes s). index_ok (sc_tables s) ix)"

text \<open>\<open>d\<close> undoes \<open>m\<close>: whenever \<open>m\<close> succeeds on a well-formed database, the result is well-formed and \<open>d\<close>
  leads back, rows and all.\<close>

definition undoes :: "(schema, unit) handler list \<Rightarrow> (schema, unit) handler list \<Rightarrow> bool" where
  "undoes d m \<longleftrightarrow> (\<forall>s s'. schema_ok s \<longrightarrow> steps m s = (Inr (), s') \<longrightarrow> schema_ok s' \<and> steps d s' = (Inr (), s))"

lemma steps_append: "steps (ms @ ns) = bindE (steps ms) (\<lambda>_. steps ns)"
  by (induction ms) (auto simp: handler_simps fun_eq_iff split: prod.split sum.split)

lemma undoes_append: "undoes d m \<Longrightarrow> undoes e n \<Longrightarrow> undoes (e @ d) (m @ n)"
  unfolding undoes_def steps_append
proof (intro allI impI)
  fix s t
  assume m: "\<forall>s s'. schema_ok s \<longrightarrow> steps m s = (Inr (), s') \<longrightarrow> schema_ok s' \<and> steps d s' = (Inr (), s)"
    and n: "\<forall>s s'. schema_ok s \<longrightarrow> steps n s = (Inr (), s') \<longrightarrow> schema_ok s' \<and> steps e s' = (Inr (), s)"
    and ok: "schema_ok s" and run: "bindE (steps m) (\<lambda>_. steps n) s = (Inr (), t)"
  from run obtain s' where r: "steps m s = (Inr (), s')" "steps n s' = (Inr (), t)" by (auto elim: bindE_InrE)
  from m [rule_format, OF ok r(1)] have d: "schema_ok s'" "steps d s' = (Inr (), s)" by simp_all
  from n [rule_format, OF d(1) r(2)] have "schema_ok t" "steps e t = (Inr (), s')" by simp_all
  then show "schema_ok t \<and> bindE (steps e) (\<lambda>_. steps d) t = (Inr (), s)" using d(2) by (simp add: bindE_run)
qed

lemma undoes_Nil: "undoes [] []"
  by (simp add: undoes_def returnE_run)

lemma undoes_one:
  assumes "\<And>s s'. schema_ok s \<Longrightarrow> m s = (Inr (), s') \<Longrightarrow> schema_ok s' \<and> d s' = (Inr (), s)"
  shows "undoes [d] [m]"
  unfolding undoes_def
proof (intro allI impI)
  fix s s' assume ok: "schema_ok s" and run: "steps [m] s = (Inr (), s')"
  from run have "m s = (Inr (), s')" by (auto simp: returnE_run elim: bindE_InrE)
  from assms [OF ok this] show "schema_ok s' \<and> steps [d] s' = (Inr (), s)" by (simp add: bindE_run returnE_run)
qed

lemma fk_ok_append: "fk_ok ts fk \<Longrightarrow> n \<notin> set (map fst ts) \<Longrightarrow> fk_ok (ts @ [(n, t)]) fk"
  by (auto simp: fk_ok_def map_of_append map_add_def split: option.splits)

lemma index_ok_append: "index_ok ts ix \<Longrightarrow> n \<notin> set (map fst ts) \<Longrightarrow> index_ok (ts @ [(n, t)]) ix"
  by (auto simp: index_ok_def map_of_append map_add_def split: option.splits)

lemma fk_ok_table: "fk_ok ts fk \<Longrightarrow> fk_table fk \<in> set (map fst ts)"
  by (force simp: fk_ok_def dest: map_of_SomeD split: option.splits)

lemma index_ok_table: "index_ok ts ix \<Longrightarrow> ix_table ix \<in> set (map fst ts)"
  by (force simp: index_ok_def dest: map_of_SomeD split: option.splits)

lemma undoes_create_table: "undoes [drop_table n] [create_table n cols pk fks uniques]"
proof (rule undoes_one)
  fix s s' assume ok: "schema_ok s" and run: "create_table n cols pk fks uniques s = (Inr (), s')"
  define t where "t = \<lparr>t_columns = cols, t_primary_key = pk, t_foreign_keys = fks, t_uniques = uniques, t_rows = []\<rparr>"
  from run have new: "n \<notin> set (map fst (sc_tables s))" "distinct (map c_name cols)"
      "set (constrained pk fks uniques) \<subseteq> set (map c_name cols)" "list_all (fk_ok (sc_tables s)) fks"
    and s': "s' = s\<lparr>sc_tables := sc_tables s @ [(n, t)]\<rparr>"
    by (auto simp: create_table_def t_def split: if_splits)
  have "table_ok (sc_tables s') t"
    using new fk_ok_append [OF _ new(1)] by (auto simp: table_ok_def t_def s' list_all_iff)
  moreover have "table_ok (sc_tables s') u" if "table_ok (sc_tables s) u" for u
    using that fk_ok_append [OF _ new(1)] by (auto simp: table_ok_def s' list_all_iff)
  ultimately have "schema_ok s'"
    using ok new(1) index_ok_append [OF _ new(1)] by (auto simp: schema_ok_def s')
  moreover have "\<not> referenced (\<lambda>_. True) n s'"
  proof -
    have "fk_table fk \<noteq> n" if "(k, u) \<in> set (sc_tables s)" "fk \<in> set (t_foreign_keys u)" for k u fk
      using that ok new(1) fk_ok_table by (fastforce simp: schema_ok_def table_ok_def list_all_iff)
    then show ?thesis by (auto simp: referenced_def s' list_ex_iff)
  qed
  moreover have "filter (\<lambda>(k, _). k \<noteq> n) (sc_tables s') = sc_tables s"
    using new(1) by (force simp: s' intro: filter_True)
  moreover have "filter (\<lambda>(_, ix). ix_table ix \<noteq> n) (sc_indexes s') = sc_indexes s"
    using ok new(1) index_ok_table by (fastforce simp: s' schema_ok_def intro: filter_True)
  ultimately show "schema_ok s' \<and> drop_table n s' = (Inr (), s)"
    by (simp add: drop_table_def) (simp add: s')
qed

lemma undoes_create_index: "undoes [drop_index i] [create_index i n cols u]"
proof (rule undoes_one)
  fix s s' assume ok: "schema_ok s" and run: "create_index i n cols u s = (Inr (), s')"
  let ?ix = "\<lparr>ix_table = n, ix_columns = cols, ix_unique = u\<rparr>"
  from run have new: "i \<notin> set (map fst (sc_indexes s))" and s': "s' = s\<lparr>sc_indexes := sc_indexes s @ [(i, ?ix)]\<rparr>"
    and "index_ok (sc_tables s) ?ix"
    by (auto simp: create_index_def index_ok_def split: if_splits option.splits)
  with ok have "schema_ok s'" by (auto simp: schema_ok_def)
  moreover have "filter (\<lambda>(k, _). k \<noteq> i) (sc_indexes s) = sc_indexes s"
    using new by (force intro: filter_True)
  ultimately show "schema_ok s' \<and> drop_index i s' = (Inr (), s)"
    by (simp add: drop_index_def s')
qed

section \<open>Changes of one table\<close>

lemma map_of_update: "map_of (sc_tables (update_table n f s)) k =
    map_option (\<lambda>t. if k = n then f t else t) (map_of (sc_tables s) k)"
proof -
  have "map_of (map (\<lambda>(k, t). (k, if k = n then f t else t)) ts) k = map_option (\<lambda>t. if k = n then f t else t) (map_of ts k)"
    for ts by (induction ts) auto
  then show ?thesis by (simp add: update_table_def)
qed

lemma update_table_keys [simp]: "map fst (sc_tables (update_table n f s)) = map fst (sc_tables s)"
  by (simp add: update_table_def comp_def case_prod_beta)

lemma update_table_indexes [simp]: "sc_indexes (update_table n f s) = sc_indexes s"
  by (simp add: update_table_def)

lemma update_table_twice: "update_table n g (update_table n f s) = update_table n (\<lambda>t. g (f t)) s"
  by (simp add: update_table_def comp_def case_prod_beta)

lemma update_table_cong:
  assumes "map_of (sc_tables s) n = Some t" and "distinct (map fst (sc_tables s))" and "f t = g t"
  shows "update_table n f s = update_table n g s"
proof -
  have "u = t" if "(n, u) \<in> set (sc_tables s)" for u using assms(1,2) that by simp
  then have "map (\<lambda>(k, t). (k, if k = n then f t else t)) (sc_tables s) = map (\<lambda>(k, t). (k, if k = n then g t else t)) (sc_tables s)"
    by (intro map_cong refl) (use assms(3) in auto)
  then show ?thesis by (simp add: update_table_def)
qed

lemma update_table_id [simp]: "update_table n (\<lambda>t. t) s = s"
  by (simp add: update_table_def case_prod_beta)

lemma schema_ok_update:
  assumes ok: "schema_ok s" and t: "map_of (sc_tables s) n = Some t"
    and f: "t_primary_key (f t) = t_primary_key t" "set (names t) \<subseteq> set (names (f t))" "table_ok (sc_tables s) (f t)"
  shows "schema_ok (update_table n f s)"
proof -
  let ?ts = "sc_tables (update_table n f s)"
  have fk: "fk_ok ?ts = fk_ok (sc_tables s)"
    by (rule ext) (use t f(1) in \<open>auto simp: fk_ok_def map_of_update split: option.splits\<close>)
  have tab: "table_ok ?ts u \<longleftrightarrow> table_ok (sc_tables s) u" for u by (simp add: table_ok_def fk)
  have ix: "index_ok ?ts ix" if "index_ok (sc_tables s) ix" for ix
    using that t order_trans [OF _ f(2), of "set (ix_columns ix)"]
    by (cases "ix_table ix = n") (simp_all add: index_ok_def map_of_update split: option.splits del: set_map)
  have d: "distinct (map fst (sc_tables s))" using ok by (simp add: schema_ok_def)
  have only: "u = t" if "(n, u) \<in> set (sc_tables s)" for u using t d that by simp
  have "table_ok (sc_tables s) u" if "(k, u) \<in> set ?ts" for k u
    using that ok f(3) only by (auto simp: update_table_def schema_ok_def split: if_splits)
  with ok tab ix d show ?thesis by (auto simp: schema_ok_def)
qed

lemma schema_ok_table:
  assumes "schema_ok s" and "map_of (sc_tables s) n = Some t"
  shows "table_ok (sc_tables s) t"
  using assms map_of_SomeD by (fastforce simp: schema_ok_def)

lemma not_named: "c \<notin> set (names t) \<Longrightarrow> x \<in> set (t_columns t) \<Longrightarrow> c_name x \<noteq> c"
  by auto

lemma with_column_ok:
  assumes t: "table_ok ts t" and c: "c_name c \<notin> set (names t)" and v: "t_rows t \<noteq> [] \<longrightarrow> cell_ok c v"
  shows "table_ok ts (with_column c v t)" and "without_column (c_name c) (with_column c v t) = t"
proof -
  show "table_ok ts (with_column c v t)"
    using t c v by (auto simp: table_ok_def with_column_def row_fits_def list_all_iff
        intro!: list_all2_appendI)
  have cs: "c_name c \<notin> set (constrained (t_primary_key t) (t_foreign_keys t) (t_uniques t))"
    using t c by (auto simp: table_ok_def)
  have "filter (\<lambda>(k, _). k \<noteq> c_name c) r = r" if "r \<in> set (t_rows t)" for r
  proof (rule filter_True)
    have "set (map fst r) = set (names t)" using that t by (simp add: table_ok_def list_all_iff row_fits_def)
    with c show "\<forall>x \<in> set r. case x of (k, _) \<Rightarrow> k \<noteq> c_name c" by force
  qed
  then have "map (filter (\<lambda>(k, _). k \<noteq> c_name c)) (map (\<lambda>r. r @ [(c_name c, v)]) (t_rows t)) = t_rows t"
    by (simp add: map_idI)
  moreover have "\<forall>x \<in> set (t_columns t). c_name x \<noteq> c_name c" using not_named [OF c] by blast
  then have "filter (\<lambda>x. c_name x \<noteq> c_name c) (t_columns t) = t_columns t" by simp
  moreover have "filter (\<lambda>fk. fk_column fk \<noteq> c_name c) (t_foreign_keys t) = t_foreign_keys t"
    "filter (\<lambda>u. c_name c \<notin> set u) (t_uniques t) = t_uniques t" "c_name c \<notin> set (t_primary_key t)"
    using cs by (force simp: constrained_def filter_id_conv)+
  ultimately show "without_column (c_name c) (with_column c v t) = t"
    by (simp add: without_column_def with_column_def)
qed

text \<open>Whatever column was put at the end of a table, dropping it restores the database.\<close>

lemma drop_extended:
  assumes ok: "schema_ok s" and t: "map_of (sc_tables s) n = Some t" and c: "c_name c \<notin> set (names t)"
    and v: "t_rows t \<noteq> [] \<longrightarrow> cell_ok c v"
  shows "schema_ok (update_table n (with_column c v) s)" and "drop_column n (c_name c) (update_table n (with_column c v) s) = (Inr (), s)"
proof -
  note tab = schema_ok_table [OF ok t]
  note ext = with_column_ok [OF tab c v]
  have d: "distinct (map fst (sc_tables s))" using ok by (simp add: schema_ok_def)
  show "schema_ok (update_table n (with_column c v) s)"
    by (rule schema_ok_update [OF ok t]) (use ext(1) in \<open>auto simp: with_column_def\<close>)
  have pk: "t_primary_key t \<noteq> [c_name c]" using tab c by (auto simp: table_ok_def constrained_def)
  have "\<not> referenced (\<lambda>fk. fk_ref fk = c_name c) n (update_table n (with_column c v) s)"
  proof -
    have "fk_ok (sc_tables s) fk" if "(k, u) \<in> set (sc_tables s)" "fk \<in> set (t_foreign_keys u)" for k u fk
      using that ok by (auto simp: schema_ok_def table_ok_def list_all_iff)
    then have "fk_ref fk \<noteq> c_name c" if "(k, u) \<in> set (sc_tables s)" "fk \<in> set (t_foreign_keys u)" "fk_table fk = n" for k u fk
      using that t pk by (fastforce simp: fk_ok_def)
    then show ?thesis by (auto simp: referenced_def update_table_def list_ex_iff)
  qed
  moreover have "filter (\<lambda>(_, ix). \<not> (ix_table ix = n \<and> c_name c \<in> set (ix_columns ix))) (sc_indexes s) = sc_indexes s"
    using ok t c by (fastforce simp: schema_ok_def index_ok_def intro: filter_True)
  moreover have "update_table n (without_column (c_name c)) (update_table n (with_column c v) s) = s"
    using update_table_cong [OF t d, of "\<lambda>t. without_column (c_name c) (with_column c v t)" "\<lambda>t. t"] ext(2)
    by (simp add: update_table_twice)
  ultimately show "drop_column n (c_name c) (update_table n (with_column c v) s) = (Inr (), s)"
    using t by (simp add: drop_column_def map_of_update with_column_def)
qed

lemma undoes_add_column: "undoes [drop_column n (c_name c)] [add_column n c]"
proof (rule undoes_one)
  fix s s' assume ok: "schema_ok s" and run: "add_column n c s = (Inr (), s')"
  then obtain t where t: "map_of (sc_tables s) n = Some t" "c_name c \<notin> set (names t)"
      "t_rows t \<noteq> [] \<longrightarrow> cell_ok c (filled (sc_now s) c)" and s': "s' = update_table n (with_column c (filled (sc_now s) c)) s"
    by (auto simp: add_column_def split: option.splits if_splits)
  show "schema_ok s' \<and> drop_column n (c_name c) s' = (Inr (), s)"
    using drop_extended [OF ok t] by (simp add: s')
qed

lemma undoes_add_then_default:
  "undoes [drop_column n (c_name c)] [add_column n c, alter_default n (c_name c) d]"
  unfolding undoes_def
proof (intro allI impI)
  fix s s' assume ok: "schema_ok s" and run: "steps [add_column n c, alter_default n (c_name c) d] s = (Inr (), s')"
  let ?v = "filled (sc_now s) c" and ?set = "t_columns_update (map (\<lambda>x. if c_name x = c_name c then x\<lparr>c_default := d\<rparr> else x))"
  from run obtain s1 where "add_column n c s = (Inr (), s1)" and d: "alter_default n (c_name c) d s1 = (Inr (), s')"
    by (auto simp: returnE_run elim!: bindE_InrE)
  then obtain t where t: "map_of (sc_tables s) n = Some t" "c_name c \<notin> set (names t)" "t_rows t \<noteq> [] \<longrightarrow> cell_ok c ?v"
    and s1: "s1 = update_table n (with_column c ?v) s"
    by (auto simp: add_column_def split: option.splits if_splits)
  have "map (\<lambda>x. if c_name x = c_name c then x\<lparr>c_default := d\<rparr> else x) (t_columns t) = t_columns t"
    using not_named [OF t(2)] by (intro map_idI) auto
  then have "?set (with_column c ?v t) = with_column (c\<lparr>c_default := d\<rparr>) ?v t" by (simp add: with_column_def)
  then have "s' = update_table n (with_column (c\<lparr>c_default := d\<rparr>) ?v) s"
    using d t update_table_cong [OF t(1), of "\<lambda>t. ?set (with_column c ?v t)"] ok
    by (auto simp: alter_default_def s1 map_of_update update_table_twice schema_ok_def split: option.splits if_splits)
  then show "schema_ok s' \<and> steps [drop_column n (c_name c)] s' = (Inr (), s)"
    using drop_extended [OF ok t(1), of "c\<lparr>c_default := d\<rparr>" ?v] t(2,3) by (simp add: bindE_run returnE_run cell_ok_def)
qed

text \<open>A change of a column's type.\<close>

lemma retyped_names [simp]: "c_name (retyped c ty x) = c_name x"
  by (simp add: retyped_def)

lemma alter_table_ok:
  assumes t: "table_ok ts t"
    and cells: "castable c ty conv t"
  shows "table_ok ts (alter_table c ty conv t)"
proof -
  have "row_fits (map (retyped c ty) (t_columns t)) (recast c conv r)" if r: "r \<in> set (t_rows t)" for r
  proof -
    have fits: "map fst r = names t" "list_all2 (\<lambda>c (_, v). cell_ok c v) (t_columns t) r"
      using t r by (auto simp: table_ok_def list_all_iff row_fits_def)
    then have "cell_ok (retyped c ty (t_columns t ! i)) (snd (recast c conv r ! i))" if "i < length r" for i
    proof -
      have len: "length (t_columns t) = length r" using fits(2) by (rule list_all2_lengthD)
      with fits(1) that have k: "fst (r ! i) = c_name (t_columns t ! i)" by (metis nth_map)
      have "cell_ok (t_columns t ! i) (snd (r ! i))" using fits(2) that by (auto simp: list_all2_conv_all_nth split_beta)
      moreover have "t_columns t ! i \<in> set (t_columns t)" "r ! i \<in> set r" using that len by simp_all
      ultimately show ?thesis
        using k cells r that by (auto simp: castable_def recast_def retyped_def split_beta)
    qed
    with fits show ?thesis
      by (auto simp: row_fits_def recast_def list_all2_conv_all_nth split_beta comp_def)
  qed
  with t show ?thesis by (auto simp: table_ok_def alter_table_def list_all_iff comp_def)
qed

lemma alter_type_ok:
  assumes ok: "schema_ok s" and run: "alter_type n c ty conv s = (Inr (), s')"
  obtains t where "map_of (sc_tables s) n = Some t" "s' = update_table n (alter_table c ty conv) s" "schema_ok s'"
proof -
  from run obtain t where t: "map_of (sc_tables s) n = Some t" and s': "s' = update_table n (alter_table c ty conv) s"
    and cells: "castable c ty conv t"
    by (auto simp: alter_type_def split: option.splits if_splits)
  have "schema_ok s'" unfolding s'
    by (rule schema_ok_update [OF ok t])
      (use alter_table_ok [OF schema_ok_table [OF ok t] cells] in \<open>simp_all add: alter_table_def comp_def\<close>)
  with t s' that show thesis by blast
qed

definition column_of :: "schema \<Rightarrow> string \<Rightarrow> string \<Rightarrow> column option" where
  "column_of s n c = (case map_of (sc_tables s) n of None \<Rightarrow> None | Some t \<Rightarrow> find (\<lambda>x. c_name x = c) (t_columns t))"

lemma named_column:
  assumes "distinct (map c_name cols)" and "x \<in> set cols" and "y \<in> set cols" and "c_name x = c_name y"
  shows "x = y"
  using assms by (metis distinct_map inj_on_def)

lemma row_fits_cell:
  assumes r: "row_fits cols r" and d: "distinct (map c_name cols)" and v: "(c_name x, v) \<in> set r" and x: "x \<in> set cols"
  shows "cell_ok x v"
proof -
  from v obtain i where i: "i < length r" "r ! i = (c_name x, v)" by (auto simp: in_set_conv_nth)
  with r have len: "length cols = length r" and "cell_ok (cols ! i) v"
    by (auto simp: row_fits_def list_all2_conv_all_nth split_beta)
  moreover have "c_name (cols ! i) = c_name x"
    using r i len by (metis fst_conv nth_map row_fits_def)
  then have "cols ! i = x" by (rule named_column [OF d nth_mem x, rotated]) (simp add: i(1) len)
  ultimately show ?thesis by simp
qed

lemma column_ofE:
  assumes "column_of s n c = Some x" and "map_of (sc_tables s) n = Some t"
  shows "x \<in> set (t_columns t)" and "c_name x = c"
  using assms by (auto simp: column_of_def find_Some_iff)

lemma alter_back:
  assumes ok: "schema_ok s" and x: "column_of s n c = Some x" and run: "alter_type n c ty conv s = (Inr (), s1)"
    and inv: "\<And>v. cell_ok x v \<Longrightarrow> cell_ok x (undo (conv v))"
  shows "alter_type n c (c_type x) undo s1 = (Inr (), update_table n (t_rows_update (map (recast c (\<lambda>v. undo (conv v))))) s)"
proof -
  from ok run obtain t where t: "map_of (sc_tables s) n = Some t" and s1: "s1 = update_table n (alter_table c ty conv) s"
    by (rule alter_type_ok)
  note tab = schema_ok_table [OF ok t] and x = column_ofE [OF x t]
  from tab have dt: "distinct (names t)" by (simp add: table_ok_def)
  have same: "y = x" if "y \<in> set (t_columns t)" "c_name y = c" for y
    using named_column [OF dt that(1) x(1)] that x(2) by simp
  have cells: "cell_ok x (undo (conv v))" if "r \<in> set (t_rows t)" "(c, v) \<in> set r" for r v
    using row_fits_cell [OF _ dt, of r x v] tab that x by (intro inv) (auto simp: table_ok_def list_all_iff)
  have chk: "cell_ok (retyped (c_name y) ty y\<lparr>c_type := c_type x\<rparr>) (undo (conv v))"
    if "r \<in> set (t_rows t)" "y \<in> set (t_columns t)" "(c_name y, v) \<in> set r" "c = c_name y" for r v y
  proof -
    have "y = x" by (rule same [OF that(2) that(4) [symmetric]])
    moreover have "cell_ok x (undo (conv v))" using that by (intro cells) simp_all
    ultimately show ?thesis by (simp add: retyped_def)
  qed
  have "map (retyped c (c_type x)) (map (retyped c ty) (t_columns t)) = t_columns t"
    unfolding map_map comp_def by (rule map_idI) (auto simp: retyped_def dest: same)
  moreover have "recast c undo (recast c conv r) = recast c (\<lambda>v. undo (conv v)) r" for r
    by (auto simp: recast_def)
  ultimately have "alter_table c (c_type x) undo (alter_table c ty conv t) = t_rows_update (map (recast c (\<lambda>v. undo (conv v)))) t"
    by (simp add: alter_table_def comp_def)
  moreover have "distinct (map fst (sc_tables s))" using ok by (simp add: schema_ok_def)
  ultimately have "update_table n (alter_table c (c_type x) undo) s1 = update_table n (t_rows_update (map (recast c (\<lambda>v. undo (conv v))))) s"
    unfolding s1 update_table_twice by (intro update_table_cong [OF t])
  moreover have "map_of (sc_tables s1) n = Some (alter_table c ty conv t)" by (simp add: s1 map_of_update t)
  moreover have "c \<in> set (names (alter_table c ty conv t))" using x by (force simp: alter_table_def)
  moreover have "castable c (c_type x) undo (alter_table c ty conv t)"
    by (auto simp: castable_def alter_table_def recast_def intro: chk)
  ultimately show ?thesis by (simp add: alter_type_def)
qed

section \<open>Downgrades\<close>

text \<open>The columns whose type a revision changes are what the revisions before it made them.\<close>

definition expected_column :: "revision \<Rightarrow> schema \<Rightarrow> bool" where
  "expected_column r s \<longleftrightarrow>
     (rv_id r = ''b3_worker_execution'' \<longrightarrow> column_of s ''jobs'' ''worker_id'' = Some (nullable (col ''worker_id'' UUID))) \<and>
     (rv_id r = ''b5_job_cancelling'' \<longrightarrow> column_of s ''jobs'' ''status'' = Some (col ''status'' (VARCHAR 9)))"

definition forget_workers :: "schema \<Rightarrow> schema" where
  "forget_workers = update_table ''jobs'' (t_rows_update (map (recast ''worker_id'' (\<lambda>_. Null))))"

text \<open>A revision is undone by the inverses of its statements in the opposite order.\<close>

lemma undoes_list: "list_all2 (\<lambda>d m. undoes [d] [m]) ds (rev ms) \<Longrightarrow> undoes ds ms"
proof (induction ms arbitrary: ds)
  case Nil
  then show ?case by (simp add: undoes_Nil)
next
  case (Cons m ms)
  then obtain es d where "ds = es @ [d]" "list_all2 (\<lambda>d m. undoes [d] [m]) es (rev ms)" "undoes [d] [m]"
    by (auto simp: list_all2_append2 list_all2_Cons2)
  with Cons.IH [of es] undoes_append [of "[d]" "[m]" es ms] show ?case by simp
qed

lemma undoes_column: "c_name c = k \<Longrightarrow> undoes [drop_column n k] [add_column n c]"
  using undoes_add_column by blast

lemma undoes_column_default: "c_name c = k \<Longrightarrow> undoes [drop_column n k] [add_column n c, alter_default n k d]"
  using undoes_add_then_default by blast

lemma column_names [simp]: "c_name (col k ty) = k" "c_name (nullable c) = c_name c" "c_name (server_default d c) = c_name c"
  by (simp_all add: col_def nullable_def server_default_def)

lemmas undoes_ddl = undoes_create_table undoes_create_index undoes_column

lemma undoes_revisions:
  "undoes a2_downgrade a2_upgrade" "undoes a3_downgrade a3_upgrade" "undoes a1_downgrade a1_upgrade"
  "undoes b1_downgrade b1_upgrade" "undoes e1_downgrade e1_upgrade" "undoes b4_downgrade b4_upgrade"
  by (rule undoes_list,
    simp add: undoes_ddl a2_downgrade_def a2_upgrade_def a3_downgrade_def a3_upgrade_def a1_downgrade_def a1_upgrade_def
      b1_downgrade_def b1_upgrade_def e1_downgrade_def e1_upgrade_def b4_downgrade_def b4_upgrade_def)+

lemma c1_undoes: "undoes c1_downgrade c1_upgrade"
proof -
  let ?add = "[add_column ''quotas'' (server_default (SqlConst (CInt 1)) (col ''max_live_endpoints'' INTEGER)),
    alter_default ''quotas'' ''max_live_endpoints'' None]"
  have "undoes [drop_column ''quotas'' ''max_live_endpoints''] ?add" by (rule undoes_column_default) simp
  moreover have "undoes (butlast c1_downgrade) (drop 2 c1_upgrade)"
    by (rule undoes_list) (simp add: undoes_ddl c1_downgrade_def c1_upgrade_def)
  ultimately have "undoes (butlast c1_downgrade @ [drop_column ''quotas'' ''max_live_endpoints'']) (?add @ drop 2 c1_upgrade)"
    by (rule undoes_append)
  then show ?thesis by (simp add: c1_downgrade_def c1_upgrade_def)
qed

lemma recast_same:
  assumes ok: "schema_ok s" and x: "column_of s n c = Some x" and same: "\<And>v. cell_ok x v \<Longrightarrow> f v = v"
  shows "update_table n (t_rows_update (map (recast c f))) s = s"
proof -
  from x obtain t where t: "map_of (sc_tables s) n = Some t" by (auto simp: column_of_def split: option.splits)
  note tab = schema_ok_table [OF ok t] and xt = column_ofE [OF x t]
  have "recast c f r = r" if r: "r \<in> set (t_rows t)" for r
    unfolding recast_def
  proof (rule map_idI, unfold split_paired_all case_prod_conv)
    fix k v assume "(k, v) \<in> set r"
    moreover have "row_fits (t_columns t) r" "distinct (names t)" using tab r by (auto simp: table_ok_def list_all_iff)
    ultimately have "cell_ok x v" if "k = c" using row_fits_cell [of "t_columns t" r x v] xt that by simp
    then show "(k, if k = c then f v else v) = (k, v)" by (simp add: same)
  qed
  then have "t_rows_update (map (recast c f)) t = t" by (simp add: map_idI)
  moreover have "distinct (map fst (sc_tables s))" using ok by (simp add: schema_ok_def)
  ultimately have "update_table n (t_rows_update (map (recast c f))) s = update_table n (\<lambda>t. t) s"
    by (intro update_table_cong [OF t])
  then show ?thesis by simp
qed

lemma b3_undone:
  assumes ok: "schema_ok s" and x: "column_of s ''jobs'' ''worker_id'' = Some (nullable (col ''worker_id'' UUID))"
    and run: "steps b3_upgrade s = (Inr (), s')"
  shows "schema_ok s' \<and> steps b3_downgrade s' = (Inr (), forget_workers s)"
proof -
  let ?conv = "\<lambda>v. to_varchar 128 (uuid_text v)"
  from run obtain s1 where s1: "alter_type ''jobs'' ''worker_id'' (VARCHAR 128) ?conv s = (Inr (), s1)"
    and rest: "steps (tl b3_upgrade) s1 = (Inr (), s')" by (auto simp: b3_upgrade_def elim: bindE_InrE)
  have "undoes (take 2 b3_downgrade) (tl b3_upgrade)"
    by (rule undoes_list) (simp add: undoes_ddl b3_downgrade_def b3_upgrade_def)
  moreover have "schema_ok s1" using ok s1 by (rule alter_type_ok)
  ultimately have "schema_ok s'" "steps (take 2 b3_downgrade) s' = (Inr (), s1)" using rest by (simp_all add: undoes_def)
  moreover have "alter_type ''jobs'' ''worker_id'' UUID (\<lambda>_. Null) s1 = (Inr (), forget_workers s)"
    using alter_back [OF ok x s1, where undo = "\<lambda>_. Null"] by (simp add: forget_workers_def cell_ok_def nullable_def col_def)
  moreover have "steps b3_downgrade = bindE (steps (take 2 b3_downgrade)) (\<lambda>_. alter_type ''jobs'' ''worker_id'' UUID (\<lambda>_. Null))"
    by (auto simp: b3_downgrade_def handler_simps fun_eq_iff split: prod.split sum.split)
  ultimately show ?thesis by (simp add: bindE_run)
qed

lemma to_varchar_fits: "cell_ok (col c (VARCHAR m)) v \<Longrightarrow> m \<le> n \<Longrightarrow> to_varchar n v = v"
  by (cases v) (auto simp: cell_ok_def col_def)

lemma b5_undone:
  assumes ok: "schema_ok s" and x: "column_of s ''jobs'' ''status'' = Some (col ''status'' (VARCHAR 9))"
    and run: "steps b5_upgrade s = (Inr (), s')"
  shows "schema_ok s' \<and> steps b5_downgrade s' = (Inr (), s)"
proof -
  from run have s': "alter_type ''jobs'' ''status'' (VARCHAR 16) (to_varchar 16) s = (Inr (), s')"
    by (auto simp: b5_upgrade_def returnE_run elim: bindE_InrE)
  have fit: "to_varchar 9 (to_varchar 16 v) = v" if "cell_ok (col ''status'' (VARCHAR 9)) v" for v
    using to_varchar_fits [OF that] by simp
  have "schema_ok s'" using ok s' by (rule alter_type_ok)
  moreover have "alter_type ''jobs'' ''status'' (VARCHAR 9) (to_varchar 9) s' = (Inr (), s)"
    using alter_back [OF ok x s', where undo = "to_varchar 9"] recast_same [OF ok x fit] fit by (simp add: col_def)
  ultimately show ?thesis by (simp add: b5_downgrade_def bindE_run returnE_run)
qed

lemma rv_ids:
  "rv_id a2_users_refresh_tokens = ''a2_users_refresh_tokens''" "rv_id a3_api_keys = ''a3_api_keys''"
  "rv_id a1_user_disabled = ''a1_user_disabled''" "rv_id b1_jobs = ''b1_jobs''" "rv_id e1_quotas = ''e1_quotas''"
  "rv_id b4_models_mlflow = ''b4_models_mlflow''" "rv_id c1_endpoints = ''c1_endpoints''"
  by (simp_all add: a2_users_refresh_tokens_def a3_api_keys_def a1_user_disabled_def b1_jobs_def
      e1_quotas_def b4_models_mlflow_def c1_endpoints_def)

lemma revision_cases:
  assumes "r \<in> set REVISIONS"
  obtains (worker) "r = b3_worker_execution" | (cancelling) "r = b5_job_cancelling"
    | (exact) "undoes (rv_downgrade r) (rv_upgrade r)" "rv_id r \<noteq> ''b3_worker_execution''"
proof -
  have "undoes (rv_downgrade r) (rv_upgrade r)" if "r \<in> {a1_user_disabled, a2_users_refresh_tokens, a3_api_keys, b1_jobs,
      b4_models_mlflow, c1_endpoints, e1_quotas}"
    using that by (elim insertE) (simp_all add: a2_users_refresh_tokens_def a3_api_keys_def a1_user_disabled_def b1_jobs_def
      e1_quotas_def b4_models_mlflow_def c1_endpoints_def undoes_revisions c1_undoes)
  moreover have "rv_id r \<noteq> ''b3_worker_execution''" if "r \<in> {a1_user_disabled, a2_users_refresh_tokens, a3_api_keys, b1_jobs,
      b4_models_mlflow, c1_endpoints, e1_quotas}"
    using that by (elim insertE) (simp_all add: rv_ids)
  ultimately show thesis using assms that by (simp add: REVISIONS_def) blast
qed

text \<open>C28: Downgrading after an upgrade by one revision succeeds and restores the database it started from,
  rows included, for every revision but the one that made \<open>jobs.worker_id\<close> text: its downgrade
  restores the schema and sets every worker to NULL.\<close>

theorem downgrade_undoes_upgrade:
  assumes ok: "schema_ok s" and r: "r \<in> set REVISIONS" and x: "expected_column r s"
    and run: "run_upgrades [r] s = (Inr (), s')"
  shows "schema_ok s' \<and> run_downgrades [r] s' = (Inr (), if rv_id r = ''b3_worker_execution'' then forget_workers s else s)"
proof -
  from run have up: "steps (rv_upgrade r) s = (Inr (), s')"
    by (auto simp: run_upgrades_def atomicE_run split: prod.splits sum.splits)
  have "schema_ok s' \<and> steps (rv_downgrade r) s' = (Inr (), if rv_id r = ''b3_worker_execution'' then forget_workers s else s)"
    using r
  proof (cases rule: revision_cases)
    case worker
    with up x b3_undone [OF ok] show ?thesis by (simp add: expected_column_def b3_worker_execution_def)
  next
    case cancelling
    with up x b5_undone [OF ok] show ?thesis by (simp add: expected_column_def b5_job_cancelling_def)
  next
    case exact
    with ok up show ?thesis by (simp add: undoes_def)
  qed
  then show ?thesis by (simp add: run_downgrades_def atomicE_run)
qed

lemma narrow_status:
  "cell_ok ((col ''status'' (VARCHAR 16))\<lparr>c_type := VARCHAR 9\<rparr>) (to_varchar 9 (CText (job_status_value st))) \<longleftrightarrow> st \<noteq> CANCELLING"
  by (cases st) (simp_all add: cell_ok_def col_def)

lemma castable_status:
  assumes tab: "table_ok ts t" and x: "col ''status'' (VARCHAR 16) \<in> set (t_columns t)"
    and rows: "\<forall>r \<in> set (t_rows t). map_of r ''status'' \<in> {Some (CText (job_status_value st)) |st. True}"
  shows "castable ''status'' (VARCHAR 9) (to_varchar 9) t \<longleftrightarrow> (\<forall>r \<in> set (t_rows t). map_of r ''status'' \<noteq> Some (CText ''CANCELLING''))"
    (is "?cast \<longleftrightarrow> ?none")
proof
  let ?x = "col ''status'' (VARCHAR 16)"
  assume cast: ?cast
  show ?none
  proof (intro ballI notI)
    fix r assume r: "r \<in> set (t_rows t)" and "map_of r ''status'' = Some (CText ''CANCELLING'')"
    from this(2) have "(''status'', CText ''CANCELLING'') \<in> set r" by (rule map_of_SomeD)
    with r have "cell_ok (?x\<lparr>c_type := VARCHAR 9\<rparr>) (to_varchar 9 (CText ''CANCELLING''))"
      using cast x unfolding castable_def by (fastforce simp del: to_varchar.simps)
    then show False using narrow_status [of CANCELLING] by simp
  qed
next
  let ?x = "col ''status'' (VARCHAR 16)"
  assume none: ?none
  from tab have d: "distinct (names t)" by (simp add: table_ok_def)
  have "cell_ok (y\<lparr>c_type := VARCHAR 9\<rparr>) (to_varchar 9 v)"
    if r: "r \<in> set (t_rows t)" and y: "y \<in> set (t_columns t)" "c_name y = ''status''" and v: "(''status'', v) \<in> set r" for r y v
  proof -
    have "distinct (map fst r)" using tab r d by (auto simp: table_ok_def list_all_iff row_fits_def)
    with v have "map_of r ''status'' = Some v" by simp
    with rows none r obtain st where st: "v = CText (job_status_value st)" "st \<noteq> CANCELLING" by fastforce
    have "y = ?x" using named_column [OF d y(1) x] y(2) by simp
    with st narrow_status show ?thesis by simp
  qed
  then show ?cast unfolding castable_def by blast
qed

text \<open>The downgrade that narrows \<open>jobs.status\<close> succeeds exactly when no job is CANCELLING; otherwise it
  raises and leaves the database as it was.\<close>

theorem cancelling_blocks_downgrade:
  assumes ok: "schema_ok s" and t: "map_of (sc_tables s) ''jobs'' = Some t"
    and x: "column_of s ''jobs'' ''status'' = Some (col ''status'' (VARCHAR 16))"
    and rows: "\<forall>r \<in> set (t_rows t). map_of r ''status'' \<in> {Some (CText (job_status_value st)) |st. True}"
  shows "if \<exists>r \<in> set (t_rows t). map_of r ''status'' = Some (CText ''CANCELLING'')
    then run_downgrades [b5_job_cancelling] s = (Inl DataTruncation, s)
    else fst (run_downgrades [b5_job_cancelling] s) = Inr ()"
proof -
  note xt = column_ofE [OF x t]
  then have "''status'' \<in> c_name ` set (t_columns t)" by force
  with castable_status [OF schema_ok_table [OF ok t] xt(1) rows]
  have "alter_type ''jobs'' ''status'' (VARCHAR 9) (to_varchar 9) s =
      (if \<exists>r \<in> set (t_rows t). map_of r ''status'' = Some (CText ''CANCELLING'') then (Inl DataTruncation, s)
       else (Inr (), update_table ''jobs'' (alter_table ''status'' (VARCHAR 9) (to_varchar 9)) s))"
    by (auto simp: alter_type_def t)
  then show ?thesis
    by (simp add: run_downgrades_def b5_job_cancelling_def b5_downgrade_def handler_simps)
qed

section \<open>The properties at work\<close>

text \<open>A database of one user and one job in the state \<open>status\<close>, at the revision before \<open>CANCELLING\<close>
  was added and at the head of the jobs table after it.\<close>

definition jobs_db :: "nat \<Rightarrow> string \<Rightarrow> schema" where
  "jobs_db width status = \<lparr>sc_tables = [
     (''users'', \<lparr>t_columns = [col ''id'' UUID], t_primary_key = [''id''], t_foreign_keys = [], t_uniques = [],
        t_rows = [[(''id'', CUuid 1)]]\<rparr>),
     (''jobs'', \<lparr>t_columns = [col ''id'' UUID, col ''user_id'' UUID, col ''status'' (VARCHAR width), nullable (col ''worker_id'' UUID)],
        t_primary_key = [''id''], t_foreign_keys = [of_user], t_uniques = [],
        t_rows = [[(''id'', CUuid 7), (''user_id'', CUuid 1), (''status'', CText status), (''worker_id'', CUuid 3)]]\<rparr>)],
     sc_indexes = [(''ix_jobs_user_id'', \<lparr>ix_table = ''jobs'', ix_columns = [''user_id''], ix_unique = False\<rparr>)],
     sc_now = 0\<rparr>"

lemma jobs_db_ok: "length status \<le> width \<Longrightarrow> schema_ok (jobs_db width status)"
  by (simp add: schema_ok_def jobs_db_def table_ok_def index_ok_def row_fits_def cell_ok_def col_def nullable_def
      constrained_def of_user_def references_def fk_ok_def)

theorem downgrade_undoes_upgrade_witness:
  "case run_upgrades [b3_worker_execution] (jobs_db 9 ''QUEUED'') of (out, s') \<Rightarrow> out = Inr () \<and>
     run_downgrades [b3_worker_execution] s' = (Inr (), forget_workers (jobs_db 9 ''QUEUED''))"
proof -
  have up: "fst (run_upgrades [b3_worker_execution] (jobs_db 9 ''QUEUED'')) = Inr ()" by code_simp
  then obtain s' where run: "run_upgrades [b3_worker_execution] (jobs_db 9 ''QUEUED'') = (Inr (), s')"
    by (metis prod.collapse)
  have "expected_column b3_worker_execution (jobs_db 9 ''QUEUED'')"
    by (simp add: expected_column_def b3_worker_execution_def column_of_def jobs_db_def col_def nullable_def)
  from downgrade_undoes_upgrade [OF jobs_db_ok _ this run] show ?thesis
    by (simp add: run REVISIONS_def) (simp add: b3_worker_execution_def)
qed

theorem cancelling_blocks_downgrade_witness:
  "run_downgrades [b5_job_cancelling] (jobs_db 16 ''CANCELLING'') = (Inl DataTruncation, jobs_db 16 ''CANCELLING'') \<and>
   fst (run_downgrades [b5_job_cancelling] (jobs_db 16 ''RUNNING'')) = Inr ()"
proof -
  define t where "t w = snd (sc_tables (jobs_db 16 w) ! 1)" for w
  have t: "map_of (sc_tables (jobs_db 16 w)) ''jobs'' = Some (t w)" for w by (simp add: jobs_db_def t_def)
  have x: "column_of (jobs_db 16 w) ''jobs'' ''status'' = Some (col ''status'' (VARCHAR 16))" for w
    by (simp add: column_of_def jobs_db_def col_def)
  have rows: "t_rows (t w) = [[(''id'', CUuid 7), (''user_id'', CUuid 1), (''status'', CText w), (''worker_id'', CUuid 3)]]" for w
    by (simp add: jobs_db_def t_def)
  have st: "\<forall>r \<in> set (t_rows (t (job_status_value st))). map_of r ''status'' \<in> {Some (CText (job_status_value st)) |st. True}" for st
    by (auto simp: rows)
  have "length (job_status_value st) \<le> 16" for st by (cases st) simp_all
  then have ok: "schema_ok (jobs_db 16 (job_status_value st))" for st by (rule jobs_db_ok)
  from cancelling_blocks_downgrade [OF ok t x st, of CANCELLING] cancelling_blocks_downgrade [OF ok t x st, of RUNNING]
  show ?thesis by (simp add: rows)
qed

end
