(* ===== verification/Migration_Env.thy ===== *)
theory Migration_Env
  imports Migrations Settings
begin

text \<open>
  \<open>alembic/env.py\<close>: the script Alembic executes for a command.  Online it opens a connection of a
  fresh engine and runs the pending revisions in one transaction; offline it writes their SQL to a
  script.  Which revisions are pending is Alembic's decision, an argument here.
\<close>

section \<open>The environment\<close>

text \<open>The database, the SQL written so far, the URL in the configuration, and the connections and engines
  that are open.\<close>

record env =
  ev_schema :: schema
  ev_script :: "(string \<times> revision list) list"
  ev_url :: "string option"
  ev_connections :: nat
  ev_engines :: nat

definition on_schema :: "(schema, 'a) handler \<Rightarrow> (env, 'a) handler" where
  "on_schema m = (\<lambda>e. case m (ev_schema e) of (out, s) \<Rightarrow> (out, e\<lparr>ev_schema := s\<rparr>))"

definition set_main_option :: "string \<Rightarrow> (env, unit) handler" where
  "set_main_option url = modifyE (ev_url_update (\<lambda>_. Some url))"

definition run_migrations_offline :: "revision list \<Rightarrow> (env, unit) handler" where
  "run_migrations_offline pending =
     bindE (getsE ev_url) (\<lambda>url.
     case url of None \<Rightarrow> raiseE (ValueError ''url'')
     | Some u \<Rightarrow> modifyE (ev_script_update (\<lambda>t. t @ [(u, pending)])))"

definition do_run_migrations :: "revision list \<Rightarrow> (env, unit) handler" where
  "do_run_migrations pending = on_schema (run_upgrades pending)"

text \<open>\<open>async with connectable.connect()\<close> closes the connection however the block ends; \<open>dispose\<close> comes after it.\<close>

definition run_async_migrations :: "revision list \<Rightarrow> (env, unit) handler" where
  "run_async_migrations pending =
     bindE (modifyE (ev_engines_update Suc)) (\<lambda>_.
     bindE (\<lambda>e. case do_run_migrations pending (e\<lparr>ev_connections := Suc (ev_connections e)\<rparr>) of
         (out, e') \<Rightarrow> (out, e'\<lparr>ev_connections := ev_connections e' - 1\<rparr>)) (\<lambda>_.
     modifyE (ev_engines_update (\<lambda>n. n - 1))))"

definition env_main :: "settings \<Rightarrow> bool \<Rightarrow> revision list \<Rightarrow> (env, unit) handler" where
  "env_main cfg offline_mode pending =
     bindE (set_main_option (database_url cfg)) (\<lambda>_.
     if offline_mode then run_migrations_offline pending else run_async_migrations pending)"

section \<open>What a command does\<close>

lemma do_run_migrations_run:
  assumes "ev_schema e = s0" and "steps (concat (map rv_upgrade pending)) s0 = (r, s)"
  shows "do_run_migrations pending e = (case r of Inl x \<Rightarrow> (Inl x, e) | Inr a \<Rightarrow> (Inr a, e\<lparr>ev_schema := s\<rparr>))"
proof -
  from assms have "run_upgrades pending (ev_schema e) = (case r of Inl x \<Rightarrow> (Inl x, ev_schema e) | Inr a \<Rightarrow> (Inr a, s))"
    by (simp add: run_upgrades_def atomicE_run split: sum.split)
  then show ?thesis by (cases e) (auto simp: do_run_migrations_def on_schema_def split: sum.split)
qed

text \<open>Online, the revisions are applied in order and all together, or the first error is raised and the
  database is as it was; either way no connection is left open, and the engine is disposed of unless a
  revision failed.  Offline, the database is not touched and the script gets the revisions, for the URL
  of the settings.\<close>

theorem env_main_outcome:
  "env_main cfg offline pending e =
    (if offline then (Inr (), e\<lparr>ev_url := Some (database_url cfg), ev_script := ev_script e @ [(database_url cfg, pending)]\<rparr>)
     else case steps (concat (map rv_upgrade pending)) (ev_schema e) of
        (Inl x, _) \<Rightarrow> (Inl x, e\<lparr>ev_url := Some (database_url cfg), ev_engines := Suc (ev_engines e)\<rparr>)
      | (Inr _, s) \<Rightarrow> (Inr (), e\<lparr>ev_url := Some (database_url cfg), ev_schema := s\<rparr>))"
proof (cases offline)
  case True
  then show ?thesis
    by (cases e) (auto simp: env_main_def set_main_option_def run_migrations_offline_def handler_simps)
next
  case False
  obtain r s where run: "steps (concat (map rv_upgrade pending)) (ev_schema e) = (r, s)" by fastforce
  note migrate = do_run_migrations_run [OF _ this]
  have "env_main cfg offline pending e = run_async_migrations pending (e\<lparr>ev_url := Some (database_url cfg)\<rparr>)"
    using False by (simp add: env_main_def set_main_option_def handler_simps)
  also have "\<dots> = (case r of Inl x \<Rightarrow> (Inl x, e\<lparr>ev_url := Some (database_url cfg), ev_engines := Suc (ev_engines e)\<rparr>)
      | Inr a \<Rightarrow> (Inr (), e\<lparr>ev_url := Some (database_url cfg), ev_schema := s\<rparr>))"
    by (cases r) (simp_all add: run_async_migrations_def bindE_run modifyE_run migrate)
  finally show ?thesis by (simp only: False run if_False prod.case)
qed

end
