(* ===== verification/Db_Session.thy ===== *)
theory Db_Session
  imports Auth
begin

text \<open>
  \<open>api/database.py\<close>: the session a request works in.  Its statements see the committed rows with the
  request's own writes; \<open>commit\<close> makes those durable; when the request ends, however it ends, \<open>get_db\<close>
  closes the session, which discards what was not committed.  The handlers of the other theories work
  on the committed rows and write once per transaction.  Here the session routes are written out
  statement by statement, and shown to be the handlers of theory \<open>Auth\<close> when run in a session.
\<close>

section \<open>The session\<close>

record session =
  ss_store :: db
  ss_view :: db

definition SessionLocal :: "db \<Rightarrow> session" where
  "SessionLocal d = \<lparr>ss_store = d, ss_view = d\<rparr>"

definition session_commit :: "session \<Rightarrow> session" where
  "session_commit s = s\<lparr>ss_store := ss_view s\<rparr>"

definition session_close :: "session \<Rightarrow> session" where
  "session_close s = s\<lparr>ss_view := ss_store s\<rparr>"

text \<open>A request: its session and the cookie of its response.\<close>

record request_state =
  rq_session :: session
  rq_cookie :: cookie_action

definition get_db :: "(request_state, 'a) handler \<Rightarrow> (auth_state, 'a) handler" where
  "get_db h = (\<lambda>x. case h \<lparr>rq_session = SessionLocal (a_db x), rq_cookie = a_cookie x\<rparr> of
     (out, q) \<Rightarrow> (out, \<lparr>a_db = ss_store (session_close (rq_session q)), a_cookie = rq_cookie q\<rparr>))"

abbreviation execute :: "(db \<Rightarrow> db) \<Rightarrow> (request_state, unit) handler" where
  "execute f \<equiv> modifyE (rq_session_update (ss_view_update f))"

abbreviation select :: "(db \<Rightarrow> 'a) \<Rightarrow> (request_state, 'a) handler" where
  "select f \<equiv> getsE (\<lambda>q. f (ss_view (rq_session q)))"

abbreviation selectX :: "(db \<Rightarrow> exn + 'a) \<Rightarrow> (request_state, 'a) handler" where
  "selectX f \<equiv> liftE (\<lambda>q. f (ss_view (rq_session q)))"

abbreviation commit :: "(request_state, unit) handler" where
  "commit \<equiv> modifyE (rq_session_update session_commit)"

section \<open>The session routes, statement by statement\<close>

text \<open>\<open>_issue_refresh_token\<close>: \<open>add\<close> and \<open>flush\<close>, no commit.\<close>

definition issue_refresh_token_stmts ::
  "crypto \<Rightarrow> settings \<Rightarrow> time \<Rightarrow> draw \<Rightarrow> user \<Rightarrow> uuid option \<Rightarrow> (request_state, string) handler" where
  "issue_refresh_token_stmts C cfg now rnd u family_id =
     bindE (select (\<lambda>d. hash_token C (d_token rnd) \<in> rt_token_hash ` set (refresh_tokens d))) (\<lambda>taken.
     if taken then raiseE (OtherException ''IntegrityError'')
     else bindE (execute (refresh_tokens_update (\<lambda>t. t @
         [new_row C cfg now rnd (u_id u) (case family_id of Some f \<Rightarrow> f | None \<Rightarrow> d_family rnd)]))) (\<lambda>_.
       returnE (d_token rnd)))"

definition set_cookie_stmt :: "settings \<Rightarrow> string \<Rightarrow> (request_state, unit) handler" where
  "set_cookie_stmt cfg token = modifyE (rq_cookie_update (\<lambda>_. SetCookie token (jwt_refresh_ttl_days cfg * 24 * 60 * 60)
     (refresh_cookie_kwargs cfg)))"

definition clear_cookie_stmt :: "settings \<Rightarrow> (request_state, unit) handler" where
  "clear_cookie_stmt cfg = modifyE (rq_cookie_update (\<lambda>_. ClearCookie (refresh_cookie_kwargs cfg)))"

definition login_stmts ::
  "crypto \<Rightarrow> settings \<Rightarrow> string \<Rightarrow> time \<Rightarrow> draw \<Rightarrow> string \<Rightarrow> string \<Rightarrow> (request_state, string) handler" where
  "login_stmts C cfg dummy_hash now rnd email password =
     bindE (selectX (get_user_by_email (py_lower email))) (\<lambda>found.
     case found of
       None \<Rightarrow>
         bindE (liftE (\<lambda>_. verify_password_constant_time C dummy_hash password None)) (\<lambda>_.
         raiseE INVALID_CREDENTIALS)
     | Some u \<Rightarrow>
         bindE (liftE (\<lambda>_. verify_password_constant_time C dummy_hash password (Some (u_password_hash u)))) (\<lambda>ok.
         if u_disabled u \<or> \<not> ok then raiseE INVALID_CREDENTIALS
         else bindE (issue_refresh_token_stmts C cfg now rnd u None) (\<lambda>refresh_token.
           bindE commit (\<lambda>_.
           bindE (set_cookie_stmt cfg refresh_token) (\<lambda>_.
           returnE (create_access_token C cfg now (u_id u) (user_role_value (u_role u))))))))"

definition refuse_refresh :: "settings \<Rightarrow> (db \<Rightarrow> db) \<Rightarrow> (request_state, string) handler" where
  "refuse_refresh cfg write =
     bindE (execute write) (\<lambda>_. bindE commit (\<lambda>_. bindE (clear_cookie_stmt cfg) (\<lambda>_. raiseE INVALID_REFRESH)))"

definition refresh_with_row_stmts ::
  "crypto \<Rightarrow> settings \<Rightarrow> time \<Rightarrow> draw \<Rightarrow> refresh_token \<Rightarrow> (request_state, string) handler" where
  "refresh_with_row_stmts C cfg now rnd row =
     (if rt_revoked row then refuse_refresh cfg (revoke_token_family (rt_family_id row))
      else if rt_expires_at row \<le> now then
        refuse_refresh cfg (refresh_tokens_update (row_put rt_id (revoke row)))
      else bindE (select (\<lambda>d. row_get u_id (rt_user_id row) (users d))) (\<lambda>owner.
        case owner of
          None \<Rightarrow> refuse_refresh cfg (revoke_token_family (rt_family_id row))
        | Some u \<Rightarrow>
            bindE (execute (refresh_tokens_update (row_put rt_id (revoke row)))) (\<lambda>_.
            bindE (issue_refresh_token_stmts C cfg now rnd u (Some (rt_family_id row))) (\<lambda>new_token.
            bindE commit (\<lambda>_.
            bindE (set_cookie_stmt cfg new_token) (\<lambda>_.
            returnE (create_access_token C cfg now (u_id u) (user_role_value (u_role u)))))))))"

definition refresh_session_stmts ::
  "crypto \<Rightarrow> settings \<Rightarrow> time \<Rightarrow> draw \<Rightarrow> string option \<Rightarrow> (request_state, string) handler" where
  "refresh_session_stmts C cfg now rnd cookie =
     (if cookie = None \<or> cookie = Some [] then raiseE INVALID_REFRESH
      else bindE (selectX (get_refresh_token_row C (the cookie))) (\<lambda>found.
        case found of None \<Rightarrow> raiseE INVALID_REFRESH | Some row \<Rightarrow> refresh_with_row_stmts C cfg now rnd row))"

definition logout_stmts :: "crypto \<Rightarrow> settings \<Rightarrow> string option \<Rightarrow> (request_state, unit) handler" where
  "logout_stmts C cfg cookie =
     bindE (if cookie = None \<or> cookie = Some [] then returnE ()
            else bindE (selectX (get_refresh_token_row C (the cookie))) (\<lambda>found.
              case found of
                None \<Rightarrow> returnE ()
              | Some row \<Rightarrow> bindE (execute (revoke_token_family (rt_family_id row))) (\<lambda>_. commit))) (\<lambda>_.
     clear_cookie_stmt cfg)"

definition change_password_stmts ::
  "crypto \<Rightarrow> string \<Rightarrow> user \<Rightarrow> string \<Rightarrow> string \<Rightarrow> (request_state, unit) handler" where
  "change_password_stmts C salt u old_password new_password =
     (if length new_password < 12 then raiseE (ValidationError ''new_password'')
      else bindE (liftE (\<lambda>_. verify_password C old_password (u_password_hash u))) (\<lambda>ok.
        if \<not> ok then raiseE (HTTPException 401 ''Invalid current password'')
        else bindE (execute (users_update (row_put u_id
               (u\<lparr>u_password_hash := hash_password C salt new_password, u_must_change_password := False\<rparr>)))) (\<lambda>_.
             bindE (execute (revoke_all_refresh_families (u_id u))) (\<lambda>_.
             commit))))"

section \<open>They are the handlers\<close>

lemmas session_defs = get_db_def SessionLocal_def session_commit_def session_close_def handler_simps

lemma login_in_session:
  "get_db (login_stmts C cfg dummy now rnd email password) s = login C cfg dummy now rnd email password s"
  by (cases s) (auto simp: session_defs login_stmts_def login_def issue_refresh_token_stmts_def issue_refresh_token_run
      set_cookie_stmt_def set_refresh_cookie_def Let_def split: sum.split option.split)

lemma refresh_with_row_in_session:
  "get_db (refresh_with_row_stmts C cfg now rnd row) s = refresh_with_row C cfg now rnd row s"
proof (cases "rt_revoked row \<or> rt_expires_at row \<le> now \<or> row_get u_id (rt_user_id row) (users (a_db s)) = None")
  case True
  then show ?thesis
    by (cases s) (auto simp: refresh_with_row_stmts_def refresh_with_row_def refuse_refresh_def session_defs
        clear_cookie_stmt_def clear_refresh_cookie_def)
next
  case False
  then show ?thesis
    by (cases s) (auto simp: refresh_with_row_stmts_def refresh_with_row_def session_defs issue_refresh_token_stmts_def
        issue_refresh_token_run set_cookie_stmt_def set_refresh_cookie_def Let_def)
qed

lemma refresh_in_session: "get_db (refresh_session_stmts C cfg now rnd cookie) s = refresh_session C cfg now rnd cookie s"
proof -
  have "get_db (bindE (selectX f) k) s = (case f (a_db s) of Inl e \<Rightarrow> (Inl e, s) | Inr a \<Rightarrow> get_db (k a) s)"
    for f :: "db \<Rightarrow> exn + refresh_token option" and k :: "refresh_token option \<Rightarrow> (request_state, string) handler"
    by (cases s) (simp add: session_defs split: sum.split)
  moreover have "get_db (raiseE e) s = raiseE e s" for e :: exn by (cases s) (simp add: session_defs)
  ultimately show ?thesis
    by (cases cookie) (auto simp: refresh_session_stmts_def refresh_session_def refresh_with_row_in_session handler_simps
        split: sum.split option.split)
qed

lemma logout_in_session: "get_db (logout_stmts C cfg cookie) s = logout C cfg cookie s"
  by (cases s; cases cookie) (auto simp: logout_stmts_def logout_def session_defs clear_cookie_stmt_def clear_refresh_cookie_def
      split: sum.split option.split)

lemma change_password_in_session:
  "get_db (change_password_stmts C salt u old new) s = change_password C salt u old new s"
  by (cases s) (auto simp: change_password_stmts_def change_password_def session_defs split: sum.split)

end
