(* ===== verification/Quota_Races.thy ===== *)
theory Quota_Races
  imports Quota_Properties Endpoints "HOL-Library.Multiset"
begin

text \<open>
  Quota enforcement under concurrent requests.  \<open>enforce\<close> awaits the database and Redis between its
  check and its consumption, and the handlers that count rows (\<open>submit_job\<close>, \<open>deploy_model\<close>) insert
  theirs only after it, so between an accepted check and the write it stands for any number of other
  requests may run.  A request in that state is a booking.  The theory bounds how far usage can
  pass its limit by the number of bookings that are open at a time.
\<close>

section \<open>Bookings\<close>

record booking =
  bk_time :: time
  bk_user :: user
  bk_res :: quota_resource
  bk_amount :: int

abbreviation bk_key :: "booking \<Rightarrow> string" where
  "bk_key b \<equiv> usage_key (bk_time b) (u_id (bk_user b)) (bk_res b)"

definition open_at :: "string \<Rightarrow> booking multiset \<Rightarrow> booking multiset" where
  "open_at k P = filter_mset (\<lambda>b. bk_key b = k) P"

definition booked :: "string \<Rightarrow> booking multiset \<Rightarrow> int" where
  "booked k P = sum_mset (image_mset bk_amount (open_at k P))"

text \<open>
  The steps: the check of a request, accepted or refused; the write of an accepted one, which is the
  increment, the insert of its job or the insert of its endpoint; a request that ends without the
  write; release, the quota page, time, and other changes of the database that leave the quotas alone
  and activate no job and no endpoint.  At most \<open>K\<close> bookings on one counter are open at a time, none
  above \<open>A\<close>; the two parts of \<open>enforce\<close> run on the same day.
\<close>

inductive quota_race ::
  "'r redis_ops \<Rightarrow> settings \<Rightarrow> nat \<Rightarrow> int \<Rightarrow> 'r world \<times> booking multiset \<Rightarrow> 'r world \<times> booking multiset \<Rightarrow> bool"
  for R cfg K A where
  admit: "enforce_check R cfg t u res a w = (Inr (), w') \<Longrightarrow> size (open_at (usage_key t (u_id u) res) P) < K \<Longrightarrow>
     a \<le> A \<Longrightarrow> quota_race R cfg K A (w, P)
       (w', add_mset \<lparr>bk_time = t, bk_user = u, bk_res = res, bk_amount = a\<rparr> P)"
| refuse: "enforce_check R cfg t u res a w = (Inl e, w') \<Longrightarrow> quota_race R cfg K A (w, P) (w', P)"
| consume: "b \<in># P \<Longrightarrow> day_number t = day_number (bk_time b) \<Longrightarrow>
     enforce_consume R cfg t (bk_user b) (bk_res b) (bk_amount b) w = (out, w') \<Longrightarrow>
     quota_race R cfg K A (w, P) (w', P - {#b#})"
| insert_job: "b \<in># P \<Longrightarrow> bk_res b = CONCURRENT_JOBS \<Longrightarrow>
     quota_race R cfg K A (w, P) (w\<lparr>w_db := jobs_update (\<lambda>t. t @ [new_job now i (u_id (bk_user b)) body]) (w_db w)\<rparr>,
       P - {#b#})"
| insert_endpoint: "b \<in># P \<Longrightarrow> bk_res b = LIVE_ENDPOINTS \<Longrightarrow>
     add_endpoint (new_endpoint now i m (u_id (bk_user b)) name) (w_db w) = (out, d) \<Longrightarrow>
     quota_race R cfg K A (w, P) (w\<lparr>w_db := d\<rparr>, P - {#b#})"
| abandon: "b \<in># P \<Longrightarrow> quota_race R cfg K A (w, P) (w, P - {#b#})"
| give_back: "a < 2 ^ 62 \<Longrightarrow> release R t u res a w = (out, w') \<Longrightarrow> quota_race R cfg K A (w, P) (w', P)"
| page: "get_my_quota R cfg t u w = (out', w') \<Longrightarrow> quota_race R cfg K A (w, P) (w', P)"
| elapse: "0 \<le> n \<Longrightarrow> quota_race R cfg K A (w, P) (w\<lparr>w_redis := rd_elapse R n (w_redis w)\<rparr>, P)"
| other: "quotas d = quotas (w_db w) \<Longrightarrow> (\<And>i. count_concurrent_jobs d i \<le> count_concurrent_jobs (w_db w) i) \<Longrightarrow>
     (\<And>i. count_live_endpoints d i \<le> count_live_endpoints (w_db w) i) \<Longrightarrow>
     quota_race R cfg K A (w, P) (w\<lparr>w_db := d\<rparr>, P)"

section \<open>What a booking adds\<close>

lemma open_at_simps [simp]:
  "open_at k {#} = {#}"
  "open_at k (add_mset b P) = (if bk_key b = k then add_mset b (open_at k P) else open_at k P)"
  by (simp_all add: open_at_def)

lemma booked_simps [simp]:
  "booked k {#} = 0"
  "booked k (add_mset b P) = (if bk_key b = k then bk_amount b else 0) + booked k P"
  by (simp_all add: booked_def)

lemma booked_remove:
  assumes "b \<in># P"
  shows "booked k (P - {#b#}) = booked k P - (if bk_key b = k then bk_amount b else 0)"
proof -
  from assms obtain Q where "P = add_mset b Q" by (metis insert_DiffM)
  then show ?thesis by simp
qed

definition modest :: "int \<Rightarrow> booking multiset \<Rightarrow> bool" where
  "modest A P \<longleftrightarrow> (\<forall>b \<in># P. 1 \<le> bk_amount b \<and> bk_amount b \<le> A)"

lemma modest_remove: "modest A P \<Longrightarrow> modest A (P - {#b#})"
  by (auto simp: modest_def dest: in_diffD)

lemma booked_bounds: "modest A P \<Longrightarrow> 0 \<le> booked k P \<and> booked k P \<le> int (size (open_at k P)) * A"
  by (induction P) (auto simp: modest_def algebra_simps)

lemma booked_member:
  assumes "modest A P" and "b \<in># P"
  shows "bk_amount b \<le> booked (bk_key b) P"
proof -
  from assms(2) obtain Q where Q: "P = add_mset b Q" by (metis insert_DiffM)
  with assms(1) have "modest A Q" by (simp add: modest_def)
  from booked_bounds [OF this] show ?thesis by (simp add: Q)
qed

section \<open>The invariant\<close>

text \<open>Usage and bookings together never pass the limit by more than the other bookings can amount to.\<close>

definition overrun_cap :: "settings \<Rightarrow> nat \<Rightarrow> int \<Rightarrow> uuid \<Rightarrow> quota_resource \<Rightarrow> db \<Rightarrow> int" where
  "overrun_cap cfg K A i res d = max 0 (user_limit cfg i res d) + (int K - 1) * A"

definition race_ok ::
  "settings \<Rightarrow> ('r \<Rightarrow> bool) \<Rightarrow> ('r \<Rightarrow> string \<Rightarrow> entry) \<Rightarrow> nat \<Rightarrow> int \<Rightarrow> 'r world \<times> booking multiset \<Rightarrow> bool" where
  "race_ok cfg up view K A = (\<lambda>(w, P). up (w_redis w) \<and> distinct (map q_user_id (quotas (w_db w))) \<and> modest A P \<and>
     (\<forall>i res. overrun_cap cfg K A i res (w_db w) < 2 ^ 63) \<and>
     (\<forall>t i res. \<exists>n. usage view t i res w = Some n \<and> 0 \<le> n \<and>
        n + booked (usage_key t i res) P \<le> overrun_cap cfg K A i res (w_db w)))"

lemma race_okD:
  assumes "race_ok cfg up view K A (w, P)"
  obtains n where "usage view t i res w = Some n" "0 \<le> n"
    "n + booked (usage_key t i res) P \<le> overrun_cap cfg K A i res (w_db w)" "overrun_cap cfg K A i res (w_db w) < 2 ^ 63"
proof -
  from assms have "overrun_cap cfg K A i res (w_db w) < 2 ^ 63"
    and "\<exists>n. usage view t i res w = Some n \<and> 0 \<le> n \<and>
      n + booked (usage_key t i res) P \<le> overrun_cap cfg K A i res (w_db w)" by (simp_all add: race_ok_def)
  with that show thesis by blast
qed

lemma race_okI:
  assumes "race_ok cfg up view K A (w, P)" and "up (w_redis w')" and "distinct (map q_user_id (quotas (w_db w')))"
    and "modest A P'" and "\<And>i res. user_limit cfg i res (w_db w') = user_limit cfg i res (w_db w)"
    and "\<And>t i res n. usage view t i res w = Some n \<Longrightarrow> 0 \<le> n \<Longrightarrow>
      n + booked (usage_key t i res) P \<le> overrun_cap cfg K A i res (w_db w) \<Longrightarrow>
      \<exists>n'. usage view t i res w' = Some n' \<and> 0 \<le> n' \<and>
        n' + booked (usage_key t i res) P' \<le> overrun_cap cfg K A i res (w_db w)"
  shows "race_ok cfg up view K A (w', P')"
  using assms unfolding race_ok_def overrun_cap_def by (auto simp only: split_conv) meson

text \<open>Usage after a write to a counter, and after an insert.\<close>

lemma usage_counter_write:
  assumes "counter view r = (counter view (w_redis w))(usage_key t i res := Some n)" and "redis_backed res"
  shows "usage view t' j res' (w\<lparr>w_redis := r\<rparr>) =
    (if usage_key t' j res' = usage_key t i res then Some n else usage view t' j res' w)"
proof (cases "redis_backed res'")
  case True
  with assms show ?thesis by (simp add: redis_backed_usage)
next
  case False
  with assms(2) show ?thesis by (auto simp: db_usage usage_key_inject)
qed

lemma count_jobs_insert:
  "count_concurrent_jobs (jobs_update (\<lambda>t. t @ [new_job now k i body]) d) j =
     count_concurrent_jobs d j + (if j = i then 1 else 0)"
  by (simp add: count_concurrent_jobs_def new_job_def quota_active_job_statuses_def)

lemma count_endpoints_insert:
  "add_endpoint (new_endpoint now k m i name) d = (out, d') \<Longrightarrow>
   quotas d' = quotas d \<and> jobs d' = jobs d \<and> count_live_endpoints d j \<le> count_live_endpoints d' j \<and>
   count_live_endpoints d' j \<le> count_live_endpoints d j + (if j = i then 1 else 0)"
  by (auto simp: add_endpoint_def count_live_endpoints_def new_endpoint_def ACTIVE_ENDPOINT_STATUSES_def
      split: if_splits)

lemma counts_nonneg: "0 \<le> count_concurrent_jobs d i" "0 \<le> count_live_endpoints d i"
  by (simp_all add: count_concurrent_jobs_def count_live_endpoints_def)

section \<open>Every step keeps it\<close>

context redis_strings
begin

lemma race_check:
  assumes ok: "race_ok cfg up entry K A (w, P)" and run: "enforce_check R cfg t u res a w = (out, w')"
  shows "race_ok cfg up entry K A (w', P) \<and> (\<not> isl out \<longrightarrow> 1 \<le> a \<and>
    (\<exists>n. usage entry t (u_id u) res w' = Some n \<and> n + a \<le> user_limit cfg (u_id u) res (w_db w')))"
proof (cases "a < 1")
  case True
  with ok run show ?thesis by (auto simp: enforce_check_def handler_simps)
next
  case False
  from race_okD [OF ok] obtain n where n: "usage entry t (u_id u) res w = Some n" by blast
  from ok have up: "up (w_redis w)" and dist: "distinct (map q_user_id (quotas (w_db w)))" by (simp_all add: race_ok_def)
  have w': "w' = w\<lparr>w_db := with_quota cfg (u_id u) (w_db w)\<rparr>"
    and fits: "\<not> isl out \<longrightarrow> n + a \<le> user_limit cfg (u_id u) res (w_db w)"
    using run enforce_check_run [OF up n dist, of a cfg] False by (auto split: if_splits)
  have "race_ok cfg up entry K A (w', P)"
    by (rule race_okI [OF ok]) (use ok in \<open>auto simp: w' race_ok_def distinct_with_quota\<close>)
  with fits n False show ?thesis by (simp add: w')
qed

lemma race_admit:
  assumes ok: "race_ok cfg up entry K A (w, P)" and run: "enforce_check R cfg t u res a w = (Inr (), w')"
    and K: "size (open_at (usage_key t (u_id u) res) P) < K" and A: "a \<le> A"
  shows "race_ok cfg up entry K A (w', add_mset \<lparr>bk_time = t, bk_user = u, bk_res = res, bk_amount = a\<rparr> P)"
proof -
  let ?b = "\<lparr>bk_time = t, bk_user = u, bk_res = res, bk_amount = a\<rparr>" and ?k = "usage_key t (u_id u) res"
  from race_check [OF ok run] obtain n where ok': "race_ok cfg up entry K A (w', P)" and a: "1 \<le> a"
    and n: "usage entry t (u_id u) res w' = Some n" "n + a \<le> user_limit cfg (u_id u) res (w_db w')" by auto
  from ok have mod: "modest A P" by (simp add: race_ok_def)
  have "int (size (open_at ?k P)) * A \<le> (int K - 1) * A" using K a A by (intro mult_right_mono) simp_all
  with conjunct2 [OF booked_bounds [OF mod, of ?k]] n(2) have
    room: "n + (a + booked ?k P) \<le> overrun_cap cfg K A (u_id u) res (w_db w')"
    unfolding overrun_cap_def by linarith
  have same: "m + booked (usage_key t' i res') (add_mset ?b P) \<le> overrun_cap cfg K A i res' (w_db w')"
    if m: "usage entry t' i res' w' = Some m" "m + booked (usage_key t' i res') P \<le> overrun_cap cfg K A i res' (w_db w')"
    for t' i res' m
  proof (cases "usage_key t' i res' = ?k")
    case True
    then have eq: "i = u_id u" "res' = res" and "res \<in> set DAILY_REDIS_RESOURCES \<longrightarrow> day_number t' = day_number t"
      by (simp_all add: usage_key_inject)
    then have "usage entry t' i res' w' = usage entry t i res' w'"
      using True by (simp add: usage_def)
    with n(1) m(1) eq have "m = n" by simp
    with room True show ?thesis by (simp add: eq)
  next
    case False
    with m(2) show ?thesis by auto
  qed
  have "modest A (add_mset ?b P)" using mod a A by (simp add: modest_def)
  with ok' show ?thesis
    by (intro race_okI [OF ok']) (use same in \<open>auto simp only: race_ok_def split_conv\<close>)
qed

lemma race_remove:
  assumes ok: "race_ok cfg up entry K A (w, P)" and b: "b \<in># P"
    and w': "up (w_redis w')" "distinct (map q_user_id (quotas (w_db w')))"
      "\<And>i res. user_limit cfg i res (w_db w') = user_limit cfg i res (w_db w)"
    and n: "\<And>t i res n. usage entry t i res w = Some n \<Longrightarrow> \<exists>n'. usage entry t i res w' = Some n' \<and> n \<le> n' \<and>
      n' \<le> n + (if bk_key b = usage_key t i res then bk_amount b else 0)"
  shows "race_ok cfg up entry K A (w', P - {#b#})"
proof (rule race_okI [OF ok w'(1,2) _ w'(3)])
  from ok have mod: "modest A P" by (simp add: race_ok_def)
  then show "modest A (P - {#b#})" by (rule modest_remove)
  fix t i res m
  assume m: "usage entry t i res w = Some m" "0 \<le> m"
    "m + booked (usage_key t i res) P \<le> overrun_cap cfg K A i res (w_db w)"
  from n [OF m(1)] obtain n' where "usage entry t i res w' = Some n'" "m \<le> n'"
    "n' \<le> m + (if bk_key b = usage_key t i res then bk_amount b else 0)" by blast
  with m(2,3) show "\<exists>n'. usage entry t i res w' = Some n' \<and> 0 \<le> n' \<and>
      n' + booked (usage_key t i res) (P - {#b#}) \<le> overrun_cap cfg K A i res (w_db w)"
    by (auto simp: booked_remove [OF b] split: if_splits)
qed

lemma race_consume:
  assumes ok: "race_ok cfg up entry K A (w, P)" and b: "b \<in># P" and day: "day_number t = day_number (bk_time b)"
    and ttl: "0 < quota_counter_ttl_seconds cfg"
    and run: "enforce_consume R cfg t (bk_user b) (bk_res b) (bk_amount b) w = (out, w')"
  shows "race_ok cfg up entry K A (w', P - {#b#})"
proof (cases "redis_backed (bk_res b)")
  case False
  with run have "w' = w" by (simp add: enforce_consume_def handler_simps)
  with ok b show ?thesis by (intro race_remove [OF ok b]) (auto simp: race_ok_def modest_def)
next
  case True
  let ?i = "u_id (bk_user b)" and ?a = "bk_amount b"
  have key: "usage_key t ?i (bk_res b) = bk_key b" by (rule usage_key_day [OF day])
  from race_okD [OF ok] obtain n where n: "usage entry t ?i (bk_res b) w = Some n" "0 \<le> n"
    "n + booked (usage_key t ?i (bk_res b)) P \<le> overrun_cap cfg K A ?i (bk_res b) (w_db w)"
    and cap: "overrun_cap cfg K A ?i (bk_res b) (w_db w) < 2 ^ 63" by blast
  from ok have up: "up (w_redis w)" and mod: "modest A P" by (simp_all add: race_ok_def)
  have a: "?a \<le> booked (bk_key b) P" "1 \<le> ?a" using booked_member [OF mod b] mod b by (auto simp: modest_def)
  then have "in_int64 (n + ?a)" using n cap by (simp add: key in_int64_def)
  from enforce_consume_run [OF up n(1) this ttl True] obtain r where
    "enforce_consume R cfg t (bk_user b) (bk_res b) ?a w = (Inr (), w\<lparr>w_redis := r\<rparr>)" and r: "up r"
      "counter entry r = (counter entry (w_redis w))(usage_key t ?i (bk_res b) := Some (n + ?a))" by blast
  with run have w': "w' = w\<lparr>w_redis := r\<rparr>" by simp
  have use: "usage entry t' j res' w' = (if usage_key t' j res' = bk_key b then Some (n + ?a) else usage entry t' j res' w)"
    for t' j res' using usage_counter_write [OF r(2) True] by (simp add: w' key)
  have "usage entry t' j res' w = Some n" if "usage_key t' j res' = bk_key b" for t' j res'
  proof -
    from that key have eq: "usage_key t' j res' = usage_key t ?i (bk_res b)" by simp
    then have "res' = bk_res b" by (simp only: usage_key_inject)
    with eq n(1) True show ?thesis by (simp add: redis_backed_usage)
  qed
  with a(2) have grow: "\<exists>n'. usage entry t' j res' w' = Some n' \<and> m \<le> n' \<and>
      n' \<le> m + (if bk_key b = usage_key t' j res' then ?a else 0)"
    if "usage entry t' j res' w = Some m" for t' j res' m
    using that by (auto simp: use)
  show ?thesis
    by (rule race_remove [OF ok b _ _ _ grow]) (use ok r in \<open>simp_all add: w' race_ok_def\<close>)
qed

lemma race_lower:
  assumes ok: "race_ok cfg up entry K A (w, P)" and "up (w_redis w')" and "distinct (map q_user_id (quotas (w_db w')))"
    and "\<And>i res. user_limit cfg i res (w_db w') = user_limit cfg i res (w_db w)"
    and n: "\<And>t i res n. usage entry t i res w = Some n \<Longrightarrow> 0 \<le> n \<Longrightarrow>
      \<exists>n'. usage entry t i res w' = Some n' \<and> 0 \<le> n' \<and> n' \<le> n"
  shows "race_ok cfg up entry K A (w', P)"
proof (rule race_okI [OF ok assms(2,3) _ assms(4)])
  show "modest A P" using ok by (simp add: race_ok_def)
qed (use n in force)

lemma race_release:
  assumes ok: "race_ok cfg up entry K A (w, P)" and "1 \<le> K" "0 \<le> A" and a62: "a < 2 ^ 62"
    and run: "release R t u res a w = (out, w')"
  shows "race_ok cfg up entry K A (w', P)"
proof (cases "a < 1 \<or> \<not> redis_backed res")
  case True
  with run ok show ?thesis by (auto simp: release_def handler_simps split: if_splits)
next
  case False
  then have red: "redis_backed res" and a: "1 \<le> a" by auto
  from ok have up: "up (w_redis w)" and mod: "modest A P" by (simp_all add: race_ok_def)
  from race_okD [OF ok] obtain n where n: "usage entry t (u_id u) res w = Some n" "0 \<le> n"
    and "n + booked (usage_key t (u_id u) res) P \<le> overrun_cap cfg K A (u_id u) res (w_db w)"
      "overrun_cap cfg K A (u_id u) res (w_db w) < 2 ^ 63" by blast
  with booked_bounds [OF mod, of "usage_key t (u_id u) res"] a a62 have "in_int64 (n - a)" by (simp add: in_int64_def)
  from release_run [OF up n(1) this a red] obtain r where
    "release R t u res a w = (Inr (), w\<lparr>w_redis := r\<rparr>)" and r: "up r"
      "counter entry r = (counter entry (w_redis w))(usage_key t (u_id u) res := Some (max 0 (n - a)))" by blast
  with run have w': "w' = w\<lparr>w_redis := r\<rparr>" by simp
  have "\<exists>n'. usage entry t' i res' w' = Some n' \<and> 0 \<le> n' \<and> n' \<le> m"
    if m: "usage entry t' i res' w = Some m" "0 \<le> m" for t' i res' m
  proof (cases "usage_key t' i res' = usage_key t (u_id u) res")
    case True
    then have "res' = res" by (simp only: usage_key_inject)
    with True m n red have "m = n" by (simp add: redis_backed_usage)
    with True m n a show ?thesis by (simp add: w' usage_counter_write [OF r(2) red])
  next
    case False
    with m show ?thesis by (simp add: w' usage_counter_write [OF r(2) red])
  qed
  then show ?thesis using ok r by (intro race_lower [OF ok]) (simp_all add: w' race_ok_def)
qed

lemma race_insert:
  assumes ok: "race_ok cfg up entry K A (w, P)" and b: "b \<in># P" and "quotas d = quotas (w_db w)"
    and n: "\<And>i. count_concurrent_jobs (w_db w) i \<le> count_concurrent_jobs d i \<and> count_concurrent_jobs d i \<le>
        count_concurrent_jobs (w_db w) i + (if i = u_id (bk_user b) \<and> bk_res b = CONCURRENT_JOBS then 1 else 0)"
      "\<And>i. count_live_endpoints (w_db w) i \<le> count_live_endpoints d i \<and> count_live_endpoints d i \<le>
        count_live_endpoints (w_db w) i + (if i = u_id (bk_user b) \<and> bk_res b = LIVE_ENDPOINTS then 1 else 0)"
  shows "race_ok cfg up entry K A (w\<lparr>w_db := d\<rparr>, P - {#b#})"
proof (rule race_remove [OF ok b])
  from ok b have a: "1 \<le> bk_amount b" by (auto simp: race_ok_def modest_def)
  fix t i res m assume m: "usage entry t i res w = Some m"
  have key: "bk_key b = usage_key t i res" if "i = u_id (bk_user b)" "bk_res b = res" "\<not> redis_backed res"
    using that by (simp add: usage_key_inject)
  show "\<exists>n'. usage entry t i res (w\<lparr>w_db := d\<rparr>) = Some n' \<and> m \<le> n' \<and>
      n' \<le> m + (if bk_key b = usage_key t i res then bk_amount b else 0)"
  proof (cases "res = CONCURRENT_JOBS \<or> res = LIVE_ENDPOINTS")
    case True
    then have "\<not> redis_backed res" by (auto simp: redis_resource_defs)
    with True m n [of i] key a show ?thesis by (auto simp: usage_def split: if_splits)
  next
    case False
    with m a show ?thesis by (auto simp: usage_def)
  qed
qed (use ok assms(3) user_limit_cong [OF assms(3)] in \<open>simp_all add: race_ok_def\<close>)

lemma race_page:
  assumes ok: "race_ok cfg up entry K A (w, P)" and run: "get_my_quota R cfg t u w = (out, w')"
  shows "race_ok cfg up entry K A (w', P)"
proof -
  from race_okD [OF ok] have "\<exists>n. usage entry t (u_id u) res w = Some n" for res by blast
  then obtain f where f: "\<And>res. usage entry t (u_id u) res w = Some (f res)" by metis
  from ok have up: "up (w_redis w)" and dist: "distinct (map q_user_id (quotas (w_db w)))" by (simp_all add: race_ok_def)
  from run usage_snapshot_run [OF up dist f, of cfg] dist
  have w': "w' = w\<lparr>w_db := with_quota cfg (u_id u) (w_db w)\<rparr>"
    by (auto simp: get_my_quota_def handler_simps get_or_create_quota_run distinct_with_quota)
  show ?thesis
    by (rule race_okI [OF ok]) (use ok in \<open>auto simp: w' race_ok_def distinct_with_quota\<close>)
qed

lemma race_elapse:
  assumes ok: "race_ok cfg up entry K A (w, P)" and n: "0 \<le> n"
  shows "race_ok cfg up entry K A (w\<lparr>w_redis := rd_elapse R n (w_redis w)\<rparr>, P)"
proof (rule race_lower [OF ok])
  from ok have up: "up (w_redis w)" by (simp add: race_ok_def)
  from elapse_law [OF this n] show "up (w_redis (w\<lparr>w_redis := rd_elapse R n (w_redis w)\<rparr>))" by simp
  fix t i res m assume m: "usage entry t i res w = Some m" "0 \<le> m"
  show "\<exists>n'. usage entry t i res (w\<lparr>w_redis := rd_elapse R n (w_redis w)\<rparr>) = Some n' \<and> 0 \<le> n' \<and> n' \<le> m"
  proof (cases "redis_backed res")
    case True
    with m elapse_counter [OF up n, of "usage_key t i res"] show ?thesis by (auto simp: redis_backed_usage)
  next
    case False
    with m show ?thesis by (simp add: db_usage)
  qed
qed (use ok in \<open>simp_all add: race_ok_def\<close>)

lemma quota_race_ok:
  assumes "quota_race R cfg K A s s'" and "race_ok cfg up entry K A s"
    and "0 < quota_counter_ttl_seconds cfg" and "1 \<le> K" "0 \<le> A"
  shows "race_ok cfg up entry K A s'"
  using assms
proof (induction rule: quota_race.induct)
  case (refuse t u res a w e w' P)
  then show ?case using race_check by blast
next
  case (insert_job b P w now i body)
  then show ?case
    by (intro race_insert) (auto simp: count_jobs_insert count_live_endpoints_def)
next
  case (insert_endpoint b P now i m name w out d)
  have "count_concurrent_jobs d j = count_concurrent_jobs (w_db w) j" for j
    using count_endpoints_insert [OF insert_endpoint(3)] by (simp add: count_concurrent_jobs_def)
  with insert_endpoint count_endpoints_insert [OF insert_endpoint(3)] show ?case
    by (intro race_insert) (auto split: if_splits)
next
  case (abandon b P w)
  then show ?case
    by (intro race_remove) (auto simp: race_ok_def modest_def)
next
  case (other d w P)
  then have ok: "race_ok cfg up entry K A (w, P)" by simp
  show ?case
  proof (rule race_lower [OF ok])
    fix t i res m
    assume "usage entry t i res w = Some m" "0 \<le> m"
    with other(2,3) [of i] counts_nonneg [of d i]
    show "\<exists>n'. usage entry t i res (w\<lparr>w_db := d\<rparr>) = Some n' \<and> 0 \<le> n' \<and> n' \<le> m"
      by (auto simp: usage_def split: if_splits)
  qed (use ok other(1) user_limit_cong [OF other(1)] in \<open>simp_all add: race_ok_def\<close>)
qed (auto intro: race_admit race_consume race_release race_page race_elapse)

end

section \<open>The bound\<close>



end
