(* ===== verification/Session_Races.thy ===== *)
theory Session_Races
  imports Auth "HOL-Library.Multiset"
begin

text \<open>
  Sessions under concurrent requests.  \<open>refresh_session\<close> reads the row of the presented token and writes
  in a later statement, with nothing that makes the write depend on the row being as it was read;
  between the two any other request may run, another refresh of the same token included.  The theory
  shows what rotation and reuse detection still guarantee then: who owns a family never changes, and
  a family that has been revoked stays so for good, unless a refresh had read its token before.
\<close>

section \<open>Interleavings\<close>

text \<open>
  The state and the rows that refreshes under way have read.  A refresh reads, and later writes or
  breaks off; every other request is a step of its own, as in \<open>session_step\<close>: login and logout
  write nothing that depends on what they have read, but for ids, families and owners, which no
  request changes.
\<close>

inductive session_race ::
  "crypto \<Rightarrow> settings \<Rightarrow> string \<Rightarrow> auth_state \<times> refresh_token multiset \<Rightarrow> auth_state \<times> refresh_token multiset \<Rightarrow> bool"
  for C cfg dummy where
  race_read: "get_refresh_token_row C token (a_db s) = Inr (Some row) \<Longrightarrow>
     session_race C cfg dummy (s, P) (s, add_mset row P)"
| race_write: "row \<in># P \<Longrightarrow> fresh_draw rnd (tokens s) \<Longrightarrow>
     session_race C cfg dummy (s, P) (snd (refresh_with_row C cfg now rnd row s), P - {#row#})"
| race_abandon: "row \<in># P \<Longrightarrow> session_race C cfg dummy (s, P) (s, P - {#row#})"
| race_request: "session_step C cfg dummy s s' \<Longrightarrow> session_race C cfg dummy (s, P) (s', P)"

section \<open>What a request does to the token table\<close>

text \<open>A row, read at any time, is a row of the table but for the flag.\<close>

definition known :: "refresh_token list \<Rightarrow> refresh_token \<Rightarrow> bool" where
  "known ts row \<longleftrightarrow> revoke row \<in> revoke ` set ts"

lemma knownE:
  assumes "known ts row"
  obtains r where "r \<in> set ts" "rt_id r = rt_id row" "rt_family_id r = rt_family_id row"
    "rt_user_id r = rt_user_id row" "revoke r = revoke row"
proof -
  from assms obtain r where r: "r \<in> set ts" "revoke r = revoke row" by (auto simp: known_def)
  have "rt_id (revoke r) = rt_id (revoke row)" "rt_family_id (revoke r) = rt_family_id (revoke row)"
    "rt_user_id (revoke r) = rt_user_id (revoke row)" by (simp_all only: r(2))
  then show thesis by (intro that [OF r(1) _ _ _ r(2)]) simp_all
qed

lemma known_mem: "row \<in> set ts \<Longrightarrow> known ts row"
  by (auto simp: known_def)

text \<open>
  Every request revokes some rows and adds at most one, which is live; it continues the family of a
  row that was read live, or starts a family.
\<close>

inductive evolves :: "refresh_token multiset \<Rightarrow> refresh_token list \<Rightarrow> refresh_token list \<Rightarrow> bool" for P ts where
  revokes: "evolves P ts (rows_update Q revoke ts)"
| extends: "rt_id r \<notin> rt_id ` set ts \<Longrightarrow> rt_token_hash r \<notin> rt_token_hash ` set ts \<Longrightarrow>
     row \<in># P \<or> row \<in> set ts \<Longrightarrow> \<not> rt_revoked row \<Longrightarrow> rt_family_id r = rt_family_id row \<Longrightarrow>
     rt_user_id r = rt_user_id row \<Longrightarrow> evolves P ts (rows_update Q revoke ts @ [r])"
| starts: "rt_id r \<notin> rt_id ` set ts \<Longrightarrow> rt_token_hash r \<notin> rt_token_hash ` set ts \<Longrightarrow>
     rt_family_id r \<notin> rt_family_id ` set ts \<Longrightarrow> evolves P ts (ts @ [r])"

lemma evolves_refl: "evolves P ts ts"
  using revokes [of P ts "\<lambda>_. False"] by (simp add: rows_update_def)

lemma put_known:
  assumes "distinct (map rt_id ts)" and "known ts row"
  shows "row_put rt_id (revoke row) ts = rows_update (\<lambda>r. rt_id r = rt_id row) revoke ts"
proof -
  from assms(2) obtain r where r: "r \<in> set ts" "rt_id r = rt_id row" "revoke r = revoke row" by (rule knownE)
  with row_put_rows_update [OF assms(1) r(1), of revoke] show ?thesis by simp
qed

lemma hashes_revoked: "rt_token_hash ` set (rows_update Q revoke ts) = rt_token_hash ` set ts"
proof -
  have "map rt_token_hash (rows_update Q revoke ts) = map rt_token_hash ts" by (simp add: rows_update_keys)
  then show ?thesis by (metis list.set_map)
qed

text \<open>The write of a refresh whose row was live when it was read, whatever the row is now.\<close>

lemma stale_refresh_run:
  assumes "distinct (map rt_id (tokens s))" and "known (tokens s) row"
    and "\<not> rt_revoked row" and "now < rt_expires_at row" and "row_get u_id (rt_user_id row) (users (a_db s)) = Some u"
    and "hash_token C (d_token rnd) \<notin> rt_token_hash ` set (tokens s)"
  obtains s' where "refresh_with_row C cfg now rnd row s =
      (Inr (create_access_token C cfg now (u_id u) (user_role_value (u_role u))), s')"
    "tokens s' = rows_update (\<lambda>r. rt_id r = rt_id row) revoke (tokens s) @ [new_row C cfg now rnd (u_id u) (rt_family_id row)]"
  using assms put_known [OF assms(1,2)] hashes_revoked
  by (simp add: refresh_with_row_def handler_simps issue_refresh_token_run set_refresh_cookie_def Let_def)

lemma refresh_with_row_evolves:
  assumes dist: "distinct (map rt_id (tokens s))" and "known (tokens s) row" and "row \<in># P \<or> row \<in> set (tokens s)"
    and fresh: "fresh_draw rnd (tokens s)"
  shows "evolves P (tokens s) (tokens (snd (refresh_with_row C cfg now rnd row s)))"
proof -
  note put = put_known [OF assms(1,2)]
  consider (revoked) "rt_revoked row" | (expired) "\<not> rt_revoked row" "rt_expires_at row \<le> now"
    | (orphan) "\<not> rt_revoked row" "\<not> rt_expires_at row \<le> now" "row_get u_id (rt_user_id row) (users (a_db s)) = None"
    | (live) u where "\<not> rt_revoked row" "\<not> rt_expires_at row \<le> now"
        "row_get u_id (rt_user_id row) (users (a_db s)) = Some u" by fastforce
  then show ?thesis
  proof cases
    case (live u)
    let ?ts = "rows_update (\<lambda>r. rt_id r = rt_id row) revoke (tokens s)"
    show ?thesis
    proof (cases "hash_token C (d_token rnd) \<in> rt_token_hash ` set (tokens s)")
      case True
      with live put show ?thesis
        by (simp add: refresh_with_row_def handler_simps issue_refresh_token_run evolves_refl hashes_revoked)
    next
      case False
      have "evolves P (tokens s) (?ts @ [new_row C cfg now rnd (u_id u) (rt_family_id row)])"
        using False fresh live(1) assms(3) refresh_row_user [OF live(3)]
        by (intro extends) (auto simp: new_row_def fresh_draw_def)
      with stale_refresh_run [OF dist assms(2) live(1) _ live(3) False, of now cfg] live(2) show ?thesis
        by (metis not_le snd_conv)
    qed
  qed (auto simp: refresh_with_row_def handler_simps clear_refresh_cookie_def revoke_token_family_def put intro: revokes)
qed

lemma session_step_evolves:
  assumes "session_step C cfg dummy s s'" and dist: "distinct (map rt_id (tokens s))"
  shows "evolves P (tokens s) (tokens s')"
  using assms(1)
proof cases
  case (step_login rnd now email password)
  have "evolves P (tokens s) (tokens s @ [new_row C cfg now rnd i (d_family rnd)])"
    if "hash_token C (d_token rnd) \<notin> rt_token_hash ` set (tokens s)" for i
    using step_login(2) that by (intro starts) (auto simp: new_row_def fresh_draw_def)
  then show ?thesis
    by (auto simp: step_login(1) login_def handler_simps issue_refresh_token_run set_refresh_cookie_def Let_def evolves_refl
        split: sum.splits option.splits)
next
  case (step_refresh rnd now cookie)
  with refresh_with_row_evolves [OF dist, of _ P rnd C cfg now] known_mem show ?thesis
    by (auto simp: refresh_session_def handler_simps evolves_refl split: option.splits sum.splits
        dest!: get_refresh_token_row_Some)
next
  case (step_logout cookie)
  then show ?thesis
    by (auto simp: logout_def handler_simps clear_refresh_cookie_def revoke_token_family_def evolves_refl
        split: option.splits sum.splits intro: revokes)
next
  case (step_change_password u salt old_password new_password)
  then show ?thesis
    by (auto simp: change_password_def handler_simps revoke_all_refresh_families_def evolves_refl
        split: sum.splits intro: revokes)
next
  case step_other
  then show ?thesis by (simp add: evolves_refl)
qed

section \<open>What every interleaving keeps\<close>

definition tokens_ok :: "refresh_token list \<Rightarrow> refresh_token multiset \<Rightarrow> bool" where
  "tokens_ok ts P \<longleftrightarrow> distinct (map rt_id ts) \<and> distinct (map rt_token_hash ts) \<and> owners_agree ts \<and>
     (\<forall>row \<in># P. known ts row)"

lemma known_grows: "known ts row \<Longrightarrow> known (rows_update Q revoke ts @ us) row"
proof -
  have "map revoke (rows_update Q revoke ts) = map revoke ts" by (simp add: rows_update_def)
  then have "revoke ` set (rows_update Q revoke ts) = revoke ` set ts" by (metis list.set_map)
  then show "known ts row \<Longrightarrow> known (rows_update Q revoke ts @ us) row" by (simp add: known_def image_Un)
qed

lemma evolves_known: "evolves P ts ts' \<Longrightarrow> known ts row \<Longrightarrow> known ts' row"
  using known_grows [of ts row _ "[]"] known_grows [of ts row "\<lambda>_. False"]
  by (auto elim!: evolves.cases intro: known_grows simp: rows_update_def)

lemma evolves_tokens_ok:
  assumes "evolves P ts ts'" and ok: "tokens_ok ts P"
  shows "tokens_ok ts' P"
proof -
  have "distinct (map rt_id ts') \<and> distinct (map rt_token_hash ts') \<and> owners_agree ts'"
    using assms(1)
  proof cases
    case (revokes Q)
    with ok show ?thesis by (simp add: tokens_ok_def rows_update_keys owners_agree_revoke)
  next
    case (extends r row Q)
    have keys: "map rt_id (rows_update Q revoke ts) = map rt_id ts"
      "map rt_token_hash (rows_update Q revoke ts) = map rt_token_hash ts" by (simp_all add: rows_update_keys)
    from extends(4) ok have "known ts row" by (auto simp: tokens_ok_def known_mem)
    then obtain r' where r': "r' \<in> set ts" "rt_family_id r' = rt_family_id row" "rt_user_id r' = rt_user_id row"
      by (rule knownE)
    have own: "owners_agree ts" using ok by (simp add: tokens_ok_def)
    have "rt_user_id x = rt_user_id r" if "x \<in> set (rows_update Q revoke ts)" "rt_family_id x = rt_family_id r" for x
    proof -
      from that(1) obtain y where "y \<in> set ts" "rt_family_id x = rt_family_id y" "rt_user_id x = rt_user_id y"
        by (auto simp: rows_update_def)
      with owners_agreeD [OF own this(1) r'(1)] that(2) r' extends(6,7) show ?thesis by simp
    qed
    then have "owners_agree (rows_update Q revoke ts @ [r])"
      by (intro owners_agree_add owners_agree_revoke own)
    moreover have "rt_id r \<notin> set (map rt_id (rows_update Q revoke ts))"
      "rt_token_hash r \<notin> set (map rt_token_hash (rows_update Q revoke ts))"
      unfolding keys using extends(2,3) by simp_all
    ultimately show ?thesis using ok keys by (simp add: extends(1) tokens_ok_def)
  next
    case (starts r)
    have "rt_family_id x \<noteq> rt_family_id r" if "x \<in> set ts" for x using that starts(4) by (metis imageI)
    with ok have "owners_agree (ts @ [r])" by (intro owners_agree_add) (simp_all add: tokens_ok_def)
    with starts ok show ?thesis by (simp add: tokens_ok_def)
  qed
  with ok evolves_known [OF assms(1)] show ?thesis by (simp add: tokens_ok_def)
qed

lemma session_race_evolves:
  assumes "session_race C cfg dummy (s, P) (s', P')" and "tokens_ok (tokens s) P"
  shows "evolves P (tokens s) (tokens s') \<and>
    (\<forall>row \<in># P'. row \<in># P \<or> row \<in> set (tokens s) \<and> s' = s)"
  using assms(1)
proof cases
  case (race_read token row)
  with get_refresh_token_row_Some [OF race_read(3)] show ?thesis by (auto simp: evolves_refl)
next
  case (race_write row rnd now)
  with assms(2) show ?thesis
    by (auto simp: tokens_ok_def intro: refresh_with_row_evolves dest: in_diffD)
next
  case (race_abandon row)
  then show ?thesis by (auto simp: evolves_refl dest: in_diffD)
next
  case race_request
  with assms(2) show ?thesis by (auto simp: tokens_ok_def intro: session_step_evolves)
qed

lemma session_race_tokens_ok:
  assumes "session_race C cfg dummy (s, P) (s', P')" and ok: "tokens_ok (tokens s) P"
  shows "tokens_ok (tokens s') P'"
proof -
  from session_race_evolves [OF assms] have e: "evolves P (tokens s) (tokens s')"
    and P': "\<forall>row \<in># P'. row \<in># P \<or> row \<in> set (tokens s) \<and> s' = s" by auto
  from evolves_tokens_ok [OF e ok] have "tokens_ok (tokens s') P" .
  with P' known_mem show ?thesis by (auto simp: tokens_ok_def)
qed

text \<open>A dead family: it exists, has no live token, and no refresh under way has seen one.\<close>

definition dead :: "uuid \<Rightarrow> auth_state \<times> refresh_token multiset \<Rightarrow> bool" where
  "dead fam = (\<lambda>(s, P). fam \<in> rt_family_id ` set (tokens s) \<and> live_of fam (tokens s) = [] \<and>
     (\<forall>row \<in># P. rt_family_id row = fam \<longrightarrow> rt_revoked row))"

lemma evolves_dead:
  assumes "evolves P ts ts'" and "fam \<in> rt_family_id ` set ts" and "live_of fam ts = []"
    and "\<forall>row \<in># P. rt_family_id row = fam \<longrightarrow> rt_revoked row"
  shows "fam \<in> rt_family_id ` set ts' \<and> live_of fam ts' = []"
proof -
  have fams: "rt_family_id ` set (rows_update Q revoke ts) = rt_family_id ` set ts" for Q
  proof -
    have "map rt_family_id (rows_update Q revoke ts) = map rt_family_id ts" by (simp add: rows_update_keys)
    then show ?thesis by (metis list.set_map)
  qed
  have none: "rt_revoked row" if "row \<in> set ts" "rt_family_id row = fam" for row
    using that assms(3) by (auto simp: live_of_def filter_empty_conv)
  from assms(1) show ?thesis
  proof cases
    case (revokes Q)
    with assms(2,3) fams show ?thesis by (simp add: live_of_rows_update)
  next
    case (extends r row Q)
    then have "rt_family_id r \<noteq> fam" using none assms(4) by auto
    then have "live_of fam [r] = []" by (simp add: live_of_def)
    with extends(1) assms(2,3) fams [of Q] show ?thesis by (auto simp: live_of_rows_update)
  next
    case (starts r)
    with assms(2,3) show ?thesis by (auto simp: live_of_def)
  qed
qed

lemma session_race_dead:
  assumes "session_race C cfg dummy (s, P) (s', P')" and "tokens_ok (tokens s) P" and "dead fam (s, P)"
  shows "dead fam (s', P')"
proof -
  from session_race_evolves [OF assms(1,2)] have e: "evolves P (tokens s) (tokens s')"
    and P': "\<forall>row \<in># P'. row \<in># P \<or> row \<in> set (tokens s) \<and> s' = s" by auto
  from evolves_dead [OF e] assms(3) have "fam \<in> rt_family_id ` set (tokens s') \<and> live_of fam (tokens s') = []"
    by (simp add: dead_def)
  moreover have "rt_revoked row" if "row \<in># P'" "rt_family_id row = fam" for row
    using P' that assms(3) by (auto simp: dead_def live_of_def filter_empty_conv)
  ultimately show ?thesis by (simp add: dead_def)
qed

lemma session_races_ok:
  assumes "(session_race C cfg dummy)\<^sup>*\<^sup>* (s, P) (s', P')" and "tokens_ok (tokens s) P"
  shows "tokens_ok (tokens s') P' \<and> (dead fam (s, P) \<longrightarrow> dead fam (s', P'))"
  using assms
proof (induction "(s', P')" arbitrary: s' P' rule: rtranclp_induct)
  case (step t)
  then show ?case
    using session_race_tokens_ok session_race_dead by (cases t) blast
qed simp

section \<open>Revocation is final\<close>

text \<open>C8: However requests interleave, ids and hashes of refresh tokens stay unique and a family keeps one owner;
  and once a family is revoked, by logout, a change of password or a detected reuse, with no refresh under way
  that had read a live token of it, it stays so: no request ever makes a token of it live again, and each of
  its tokens is answered with 401.\<close>

theorem revocation_is_final:
  assumes "(session_race C cfg dummy)\<^sup>*\<^sup>* (s0, {#}) (s, P)" and "families_ok (tokens s0)"
    and "fam \<in> rt_family_id ` set (tokens s)" and "live_of fam (tokens s) = []"
    and "\<And>row. row \<in># P \<Longrightarrow> rt_family_id row = fam \<Longrightarrow> rt_revoked row"
    and "(session_race C cfg dummy)\<^sup>*\<^sup>* (s, P) (s', P')"
  shows "distinct (map rt_id (tokens s')) \<and> distinct (map rt_token_hash (tokens s')) \<and> owners_agree (tokens s') \<and>
    live_of fam (tokens s') = [] \<and>
    (\<forall>row \<in> set (tokens s'). \<forall>token. rt_family_id row = fam \<and> rt_token_hash row = hash_token C token \<and> token \<noteq> [] \<longrightarrow>
       fst (refresh_session C cfg now rnd (Some token) s') = Inl INVALID_REFRESH)"
proof -
  from assms(2) have "tokens_ok (tokens s0) {#}" by (simp add: tokens_ok_def families_ok_def)
  with session_races_ok [OF assms(1)] have ok: "tokens_ok (tokens s) P" by blast
  have "dead fam (s, P)" using assms(3-5) by (auto simp: dead_def)
  with session_races_ok [OF assms(6) ok, of fam] have ok': "tokens_ok (tokens s') P'" and d: "dead fam (s', P')"
    by blast+
  have "rt_revoked row" if "row \<in> set (tokens s')" "rt_family_id row = fam" for row
    using d that by (auto simp: dead_def live_of_def filter_empty_conv)
  with ok' d show ?thesis
    by (auto simp: tokens_ok_def dead_def refresh_session_revoked)
qed

lemma hash_token_ref: "hash_token ref_crypto t = CHR ''#'' # t"
  by (simp add: hash_token_def ref_crypto_def)

lemma get_rt0: "get_refresh_token_row ref_crypto ''old'' (a_db auth0) = Inr (Some rt0)"
  by (simp add: get_refresh_token_row_def rt0_def hash_token_ref scalar_one_or_none_def)

lemma logout_auth0: "tokens (snd (logout ref_crypto cfg0 (Some ''old'') auth0)) = [revoke rt0]"
  "users (a_db (snd (logout ref_crypto cfg0 (Some ''old'') auth0))) = [alice, root]"
  by (simp_all add: logout_def get_rt0 handler_simps clear_refresh_cookie_def revoke_token_family_def rows_update_def)

text \<open>After a logout, a further refresh with the old cookie changes nothing.\<close>

theorem revocation_is_final_witness:
  "\<exists>s s'. (session_race ref_crypto cfg0 [])\<^sup>*\<^sup>* (auth0, {#}) (s, {#}) \<and>
     (session_race ref_crypto cfg0 [])\<^sup>*\<^sup>* (s, {#}) (s', {#}) \<and> live_of 30 (tokens auth0) \<noteq> [] \<and> live_of 30 (tokens s') = [] \<and>
     fst (refresh_session ref_crypto cfg0 7 draw0 (Some ''old'') s') = Inl INVALID_REFRESH"
proof -
  let ?s = "snd (logout ref_crypto cfg0 (Some ''old'') auth0)"
  let ?s' = "snd (refresh_session ref_crypto cfg0 6 draw0 (Some ''old'') ?s)"
  note ts = logout_auth0(1)
  have dist: "distinct (map rt_token_hash (tokens ?s))" by (simp add: ts)
  have mem: "revoke rt0 \<in> set (tokens ?s)" by (simp add: ts)
  have ts': "tokens ?s' = [revoke rt0]"
    by (subst refresh_session_revoked [OF dist mem])
      (simp_all add: ts revoke_token_family_def rows_update_def rt0_def hash_token_ref)
  have run: "(session_race ref_crypto cfg0 [])\<^sup>*\<^sup>* (auth0, {#}) (?s, {#})"
    by (intro r_into_rtranclp race_request step_logout)
  have "fresh_draw draw0 (tokens ?s)" using families_ok_auth0(2) by (simp add: ts fresh_draw_def)
  then have run': "(session_race ref_crypto cfg0 [])\<^sup>*\<^sup>* (?s, {#}) (?s', {#})"
    by (intro r_into_rtranclp race_request step_refresh)
  have "30 \<in> rt_family_id ` set (tokens ?s)" "live_of 30 (tokens ?s) = []"
    by (simp_all add: ts rt0_def live_of_def)
  from revocation_is_final [OF run families_ok_auth0(1) this _ run', of 7 draw0]
  have "live_of 30 (tokens ?s') = []" and "\<forall>token. rt_family_id (revoke rt0) = 30 \<and>
      rt_token_hash (revoke rt0) = hash_token ref_crypto token \<and> token \<noteq> [] \<longrightarrow>
      fst (refresh_session ref_crypto cfg0 7 draw0 (Some token) ?s') = Inl INVALID_REFRESH"
    by (simp_all add: ts')
  moreover have "rt_family_id (revoke rt0) = 30" "rt_token_hash (revoke rt0) = hash_token ref_crypto ''old''"
    "live_of 30 (tokens auth0) \<noteq> []"
    by (simp_all add: rt0_def hash_token_ref live_of_def)
  ultimately show ?thesis using run run' by blast
qed

text \<open>The exception is real: a refresh that has read its token live completes whatever has become of the row
  since.  Rotated, logged out or revoked by a detected reuse, it is answered with an access token and puts a
  live token into the family.\<close>

theorem stale_refresh_succeeds:
  assumes "(session_race C cfg dummy)\<^sup>*\<^sup>* (s0, {#}) (s, P)" and "families_ok (tokens s0)"
    and "row \<in># P" and "\<not> rt_revoked row" and "now < rt_expires_at row"
    and "row_get u_id (rt_user_id row) (users (a_db s)) = Some u"
    and "hash_token C (d_token rnd) \<notin> rt_token_hash ` set (tokens s)"
  shows "\<exists>s'. refresh_with_row C cfg now rnd row s =
      (Inr (create_access_token C cfg now (u_id u) (user_role_value (u_role u))), s') \<and>
    new_row C cfg now rnd (u_id u) (rt_family_id row) \<in> set (live_of (rt_family_id row) (tokens s'))"
proof -
  from assms(2) have "tokens_ok (tokens s0) {#}" by (simp add: tokens_ok_def families_ok_def)
  with session_races_ok [OF assms(1)] have "tokens_ok (tokens s) P" by blast
  with assms(3) have "distinct (map rt_id (tokens s))" "known (tokens s) row" by (auto simp: tokens_ok_def)
  from stale_refresh_run [OF this assms(4-7), of cfg] obtain s' where
    "refresh_with_row C cfg now rnd row s = (Inr (create_access_token C cfg now (u_id u) (user_role_value (u_role u))), s')"
    "tokens s' = rows_update (\<lambda>r. rt_id r = rt_id row) revoke (tokens s) @ [new_row C cfg now rnd (u_id u) (rt_family_id row)]" .
  then show ?thesis by (auto simp: live_of_def new_row_def)
qed

text \<open>A logout outrun by a refresh: the session goes on.\<close>

theorem stale_refresh_succeeds_witness:
  "\<exists>s s' access. (session_race ref_crypto cfg0 [])\<^sup>*\<^sup>* (auth0, {#}) (s, {#rt0#}) \<and> live_of 30 (tokens s) = [] \<and>
     refresh_with_row ref_crypto cfg0 5 draw0 rt0 s = (Inr access, s') \<and> live_of 30 (tokens s') \<noteq> []"
proof -
  let ?s = "snd (logout ref_crypto cfg0 (Some ''old'') auth0)"
  note s = logout_auth0
  from get_rt0 have "session_race ref_crypto cfg0 [] (auth0, {#}) (auth0, {#rt0#})" by (rule race_read)
  moreover have "session_race ref_crypto cfg0 [] (auth0, {#rt0#}) (?s, {#rt0#})" by (intro race_request step_logout)
  ultimately have run: "(session_race ref_crypto cfg0 [])\<^sup>*\<^sup>* (auth0, {#}) (?s, {#rt0#})"
    by (auto intro: converse_rtranclp_into_rtranclp)
  have "rt0 \<in># {#rt0#}" "\<not> rt_revoked rt0" "5 < rt_expires_at rt0"
    "row_get u_id (rt_user_id rt0) (users (a_db ?s)) = Some alice"
    "hash_token ref_crypto (d_token draw0) \<notin> rt_token_hash ` set (tokens ?s)"
    by (simp_all add: s rt0_def draw0_def hash_token_ref row_get_Cons)
  from stale_refresh_succeeds [OF run families_ok_auth0(1) this] obtain s' access where
    "refresh_with_row ref_crypto cfg0 5 draw0 rt0 ?s = (Inr access, s')" "live_of 30 (tokens s') \<noteq> []"
    by (force simp: rt0_def)
  moreover have "live_of 30 (tokens ?s) = []" by (simp add: s live_of_def)
  ultimately show ?thesis using run by blast
qed

end
