(* ===== verification/Endpoint_Races.thy ===== *)
theory Endpoint_Races
  imports Endpoints "HOL-Library.Multiset"
begin

text \<open>
  Endpoints under concurrent requests.  A deployment activates its endpoint over many seconds, and a stop
  and the reconciliation of a starting API also read a row, talk to the Docker daemon, and write it
  at the end; none of them locks the row.  What a commit writes are the attributes that differ from
  the object as it was loaded (\<open>commit_endpoint\<close>).  The theory takes each commit as a step, shows that
  the handlers are runs of these steps, and what holds in every interleaving.
\<close>

section \<open>The system\<close>

text \<open>The database; the objects that activations, stops and reconciliations hold, as last loaded or
  committed; and the identifiers drawn so far.\<close>

record esys =
  es_db :: db
  es_acts :: "endpoint multiset"
  es_stops :: "endpoint multiset"
  es_checks :: "endpoint multiset"
  es_used :: "uuid set"

definition stopped_as :: "time \<Rightarrow> endpoint \<Rightarrow> endpoint" where
  "stopped_as now ep = ep\<lparr>e_status := EP_STOPPED, e_container_id := None, e_stopped_at := Some now, e_error_message := None\<rparr>"

definition live_as :: "endpoint \<Rightarrow> endpoint" where
  "live_as ep = ep\<lparr>e_status := EP_LIVE, e_error_message := None\<rparr>"

inductive estep :: "esys \<Rightarrow> esys \<Rightarrow> bool" where
  deploy: "ep = new_endpoint now i m uid name \<Longrightarrow> i \<notin> es_used s \<Longrightarrow> add_endpoint ep (es_db s) = (Inr (), d) \<Longrightarrow>
     estep s (s\<lparr>es_db := d, es_acts := add_mset ep (es_acts s), es_used := insert i (es_used s)\<rparr>)"
| started: "ep \<in># es_acts s \<Longrightarrow> new = ep\<lparr>e_container_id := Some cid\<rparr> \<Longrightarrow> commit_endpoint ep new (es_db s) = (Inr new, d) \<Longrightarrow>
     estep s (s\<lparr>es_db := d, es_acts := add_mset new (es_acts s - {#ep#})\<rparr>)"
| went_live: "ep \<in># es_acts s \<Longrightarrow> commit_endpoint ep (live_as ep) (es_db s) = (Inr new, d) \<Longrightarrow>
     estep s (s\<lparr>es_db := d, es_acts := es_acts s - {#ep#}\<rparr>)"
| failed: "ep \<in># es_acts s \<Longrightarrow> commit_endpoint ep (failed_as msg ep) (es_db s) = (Inr new, d) \<Longrightarrow>
     estep s (s\<lparr>es_db := d, es_acts := es_acts s - {#ep#}\<rparr>)"
| act_ends: "ep \<in># es_acts s \<Longrightarrow> estep s (s\<lparr>es_acts := es_acts s - {#ep#}\<rparr>)"
| stop_reads: "ep \<in> set (endpoints (es_db s)) \<Longrightarrow> e_status ep \<noteq> EP_STOPPED \<Longrightarrow>
     estep s (s\<lparr>es_stops := add_mset ep (es_stops s)\<rparr>)"
| stopped: "ep \<in># es_stops s \<Longrightarrow> commit_endpoint ep (stopped_as now ep) (es_db s) = (Inr new, d) \<Longrightarrow>
     estep s (s\<lparr>es_db := d, es_stops := es_stops s - {#ep#}\<rparr>)"
| stop_ends: "ep \<in># es_stops s \<Longrightarrow> estep s (s\<lparr>es_stops := es_stops s - {#ep#}\<rparr>)"
| check_reads: "ep \<in> set (endpoints (es_db s)) \<Longrightarrow> e_status ep \<in> set ACTIVE_ENDPOINT_STATUSES \<Longrightarrow>
     estep s (s\<lparr>es_checks := add_mset ep (es_checks s)\<rparr>)"
| checked: "ep \<in># es_checks s \<Longrightarrow> commit_endpoint ep (vanished ep) (es_db s) = (Inr new, d) \<Longrightarrow>
     estep s (s\<lparr>es_db := d, es_checks := es_checks s - {#ep#}\<rparr>)"
| check_ends: "ep \<in># es_checks s \<Longrightarrow> estep s (s\<lparr>es_checks := es_checks s - {#ep#}\<rparr>)"
| model_deleted: "estep s (s\<lparr>es_db := delete_model_rows k (es_db s)\<rparr>)"
| elsewhere: "endpoints d = endpoints (es_db s) \<Longrightarrow> estep s (s\<lparr>es_db := d\<rparr>)"

section \<open>The handlers are runs\<close>

lemma same_db: "es_db s = d \<Longrightarrow> s\<lparr>es_db := d, es_acts := A\<rparr> = s\<lparr>es_acts := A\<rparr>"
  "es_db s = d \<Longrightarrow> s\<lparr>es_db := d, es_stops := A\<rparr> = s\<lparr>es_stops := A\<rparr>"
  by (cases s; simp)+

lemma activation_failed_db_error:
  "e = DataError \<or> e = StaleDataError \<Longrightarrow>
     activation_failed V cfg ep e x = (Inl (OtherException ''PendingRollbackError''), x)"
  by (auto simp: activation_failed_def raiseE_def DataError_def StaleDataError_def)

lemma commit_endpoint_kept: "commit_endpoint old new d = (out, d') \<Longrightarrow> d' = d \<or> out = Inr new"
  by (auto simp: commit_endpoint_def split: if_splits)

text \<open>What ends a failed activation and a stop: at most one commit.\<close>

lemma teardown_commits:
  assumes run: "bindE (on_host (stop_container_of V ep)) (\<lambda>_. bindE (cleanup_artifact_dir cfg (e_id ep)) (\<lambda>_.
      on_site_db (commit_endpoint ep new))) x = (out, x')"
  shows "si_db x' = si_db x \<or> commit_endpoint ep new (si_db x) = (Inr new, si_db x')"
proof (cases "fst (stop_container_of V ep (si_host x))")
  case (Inl e)
  with run show ?thesis by (auto simp: bindE_run on_host_run)
next
  case (Inr u)
  let ?y = "si_files_update (rmtree (artifact_dir_for cfg (e_id ep)))
      (x\<lparr>si_host := snd (stop_container_of V ep (si_host x))\<rparr>)"
  from run Inr have "on_site_db (commit_endpoint ep new) ?y = (out, x')"
    by (simp add: bindE_run on_host_run cleanup_artifact_dir_def modifyE_run)
  from on_site_db_at [OF this] have "commit_endpoint ep new (si_db x) = (out, si_db x')" by simp
  with commit_endpoint_kept [OF this] show ?thesis by auto
qed

lemma activation_failed_run:
  assumes "activation_failed V cfg ep e x = (out, x')" and "ep \<in># es_acts s" and "es_db s = si_db x"
  shows "estep\<^sup>*\<^sup>* s (s\<lparr>es_db := si_db x', es_acts := es_acts s - {#ep#}\<rparr>)"
proof -
  have same: "estep\<^sup>*\<^sup>* s (s\<lparr>es_db := si_db x', es_acts := es_acts s - {#ep#}\<rparr>)" if "si_db x' = si_db x"
    unfolding that same_db(1) [OF assms(3)] by (rule r_into_rtranclp, rule act_ends, rule assms(2))
  have "si_db x' = si_db x \<or> (\<exists>msg new. commit_endpoint ep (failed_as msg ep) (si_db x) = (Inr new, si_db x'))"
  proof (cases "e = CancelledError \<or> e = DataError \<or> e = StaleDataError")
    case True
    have cancelled: "activation_failed V cfg ep CancelledError x = (Inl CancelledError, x)"
      by (simp add: activation_failed_def raiseE_run)
    from True assms(1) show ?thesis by (elim disjE) (simp_all add: activation_failed_db_error cancelled)
  next
    case False
    then obtain msg where "mark_failed V cfg ep msg x = (out, x')"
      using assms(1) by (auto simp: activation_failed_def)
    from teardown_commits [OF this [unfolded mark_failed_def]] show ?thesis by (auto simp: failed_as_def)
  qed
  then show ?thesis
  proof (elim disjE exE)
    fix msg new assume "commit_endpoint ep (failed_as msg ep) (si_db x) = (Inr new, si_db x')"
    with assms(2,3) show ?thesis by (intro r_into_rtranclp failed) simp_all
  qed (rule same)
qed

lemma health_gate_run:
  assumes run: "(case health_gate V cfg fuel ep cid x of (Inl e, x1) \<Rightarrow> activation_failed V cfg ep e x1 | (Inr new, x1) \<Rightarrow> (Inr new, x1)) =
      (out, x')" and ep: "ep \<in># es_acts s" and db: "es_db s = si_db x"
  shows "estep\<^sup>*\<^sup>* s (s\<lparr>es_db := si_db x', es_acts := es_acts s - {#ep#}\<rparr>)"
proof -
  obtain o1 x1 where h: "health_gate V cfg fuel ep cid x = (o1, x1)" by fastforce
  obtain o2 x2 where host: "on_host (bindE (runner_base_url V cfg cid) (\<lambda>base_url. wait_for_health V cfg fuel base_url None)) x = (o2, x2)"
    by fastforce
  then have x2: "si_db x2 = si_db x" by (auto simp: on_host_run)
  show ?thesis
  proof (cases o1)
    case (Inl e)
    with run h have fail: "activation_failed V cfg ep e x1 = (out, x')" by simp
    have "si_db x1 = si_db x"
      using h host x2 Inl by (auto simp: health_gate_def bindE_run on_site_db_def commit_endpoint_def handler_simps
          split: sum.splits if_splits)
    with activation_failed_run [OF fail ep] db show ?thesis by simp
  next
    case (Inr new)
    with run h have x': "x' = x1" by simp
    from h host Inr have "on_site_db (commit_endpoint ep (live_as ep)) x2 = (Inr new, x1)"
      by (auto simp: health_gate_def bindE_run live_as_def split: sum.splits)
    from on_site_db_at [OF this] have "commit_endpoint ep (live_as ep) (es_db s) = (Inr new, si_db x1)" by (simp add: x2 db)
    from went_live [OF ep this] show ?thesis unfolding x' by (rule r_into_rtranclp)
  qed
qed

lemma activate_endpoint_run:
  assumes run: "activate_endpoint V S cfg fuel ep m x = (out, x')" and ep: "ep \<in># es_acts s" and db: "es_db s = si_db x"
  shows "estep\<^sup>*\<^sup>* s (s\<lparr>es_db := si_db x', es_acts := es_acts s - {#ep#}\<rparr>)"
proof -
  obtain o1 x1 where f: "fetch_and_start V S cfg ep m x = (o1, x1)" by fastforce
  then have x1: "si_db x1 = si_db x" using keeps_run [OF fetch_and_start_keeps [where f = w_db]] by blast
  show ?thesis
  proof (cases o1)
    case (Inl e)
    with run f have "activation_failed V cfg ep e x1 = (out, x')" by (simp add: activate_endpoint_def)
    from activation_failed_run [OF this ep] show ?thesis by (simp add: db x1)
  next
    case (Inr cid)
    let ?ep = "ep\<lparr>e_container_id := Some cid\<rparr>"
    obtain o2 x2 where c: "on_site_db (commit_endpoint ep ?ep) x1 = (o2, x2)" by fastforce
    then have c': "commit_endpoint ep ?ep (si_db x) = (o2, si_db x2)" using on_site_db_at [OF c] by (simp add: x1)
    show ?thesis
    proof (cases o2)
      case (Inl e)
      with c' have e: "e = DataError \<or> e = StaleDataError" "si_db x2 = si_db x"
        by (auto simp: commit_endpoint_def split: if_splits)
      then have "si_db x' = si_db x"
        using run f c Inl \<open>o1 = Inr cid\<close>
        by (simp add: activate_endpoint_def Let_def catchE_run bindE_run activation_failed_db_error)
      with act_ends [OF ep] show ?thesis by (simp add: db same_db r_into_rtranclp)
    next
      case (Inr new)
      with c' have new: "new = ?ep" by (auto simp: commit_endpoint_def split: if_splits)
      let ?s = "s\<lparr>es_db := si_db x2, es_acts := add_mset ?ep (es_acts s - {#ep#})\<rparr>"
      have first: "estep s ?s" using started [OF ep refl] c' Inr new db by simp
      have "(case health_gate V cfg fuel ?ep cid x2 of (Inl e, x3) \<Rightarrow> activation_failed V cfg ?ep e x3 | (Inr new, x3) \<Rightarrow> (Inr new, x3)) =
          (out, x')"
        using run f c Inr new \<open>o1 = Inr cid\<close> by (auto simp: activate_endpoint_def Let_def catchE_run bindE_run split: prod.splits sum.splits)
      from health_gate_run [OF this, of ?s]
      have "estep\<^sup>*\<^sup>* ?s (?s\<lparr>es_db := si_db x', es_acts := es_acts ?s - {#?ep#}\<rparr>)" by simp
      with first show ?thesis by (simp add: converse_rtranclp_into_rtranclp)
    qed
  qed
qed

lemma stop_endpoint_runtime_run:
  assumes run: "stop_endpoint_runtime V cfg now ep x = (out, x')" and ep: "ep \<in># es_stops s" and db: "es_db s = si_db x"
  shows "estep\<^sup>*\<^sup>* s (s\<lparr>es_db := si_db x', es_stops := es_stops s - {#ep#}\<rparr>)"
proof -
  have "si_db x' = si_db x \<or> (\<exists>new. commit_endpoint ep (stopped_as now ep) (si_db x) = (Inr new, si_db x'))"
    using teardown_commits [OF run [unfolded stop_endpoint_runtime_def]] by (auto simp: stopped_as_def)
  then show ?thesis
  proof
    assume "si_db x' = si_db x"
    with stop_ends [OF ep] show ?thesis by (simp add: db same_db r_into_rtranclp)
  next
    assume "\<exists>new. commit_endpoint ep (stopped_as now ep) (si_db x) = (Inr new, si_db x')"
    with ep db show ?thesis by (auto intro!: r_into_rtranclp stopped)
  qed
qed

lemma elsewhere_run: "endpoints d = endpoints (es_db s) \<Longrightarrow> estep\<^sup>*\<^sup>* s (s\<lparr>es_db := d\<rparr>)"
  by (rule r_into_rtranclp, rule elsewhere)

abbreviation si_endpoints :: "('r, 's, 'd) site \<Rightarrow> endpoint list" where
  "si_endpoints x \<equiv> endpoints (si_db x)"

lemma keeps_site_db: "keeps f m \<Longrightarrow> keeps (\<lambda>x. f (si_db x)) (on_site_db m)"
  by (simp add: keeps_def on_site_db_def handler_simps)

lemma keeps_site_world: "keeps (\<lambda>w. f (w_db w)) m \<Longrightarrow> keeps (\<lambda>x. f (si_db x)) (on_site_world m)"
  by (simp add: keeps_def on_site_world_run)

lemma get_owned_keeps: "keeps f (get_owned_model i p)" "keeps f (get_owned_endpoint i p)"
  unfolding get_owned_model_def get_owned_endpoint_def by (intro keeps_intros)+

lemma enforce_keeps_endpoints: "keeps (\<lambda>w. endpoints (w_db w)) (enforce R cfg now now' u res amount)"
  unfolding enforce_def enforce_check_def enforce_consume_def get_or_create_quota_def current_usage_def
  by (intro keeps_intros keeps_on_db keeps_modifyE) simp_all

lemma deploy_model_run:
  fixes x :: "('r, 's, 'd) site"
  assumes run: "deploy_model R V S cfg fuel now mid i name p x = (out, x')" and db: "es_db s = si_db x" and i: "i \<notin> es_used s"
  obtains U where "U \<subseteq> insert i (es_used s)" "estep\<^sup>*\<^sup>* s (s\<lparr>es_db := si_db x', es_used := U\<rparr>)"
proof -
  have kept: "si_endpoints x' = si_endpoints x \<Longrightarrow> thesis"
    using that [of "es_used s"] elsewhere_run [of "si_db x'" s] by (auto simp: db)
  from run [unfolded deploy_model_def Let_def] show thesis
  proof (rule prefix_keeps [OF _ keeps_site_db [OF get_owned_keeps(1) [of endpoints]]])
    fix m and y :: "('r, 's, 'd) site"
    assume y: "si_endpoints y = si_endpoints x"
    let ?ep = "new_endpoint now i m (u_id (p_user p)) (case name of Some n \<Rightarrow> if n = [] then m_name m else n | None \<Rightarrow> m_name m)"
    assume "bindE (on_site_world (enforce R cfg now now (p_user p) LIVE_ENDPOINTS 1)) (\<lambda>_. bindE (on_site_db (add_endpoint ?ep))
      (\<lambda>_. bindE (activate_endpoint V S cfg fuel ?ep m) (\<lambda>activated. returnE (to_endpoint_response activated)))) y = (out, x')"
    then show thesis
    proof (rule prefix_keeps [OF _ keeps_site_world [OF enforce_keeps_endpoints]])
      fix u and z :: "('r, 's, 'd) site"
      assume z: "si_endpoints z = si_endpoints y"
      assume rest: "bindE (on_site_db (add_endpoint ?ep)) (\<lambda>_. bindE (activate_endpoint V S cfg fuel ?ep m)
        (\<lambda>activated. returnE (to_endpoint_response activated))) z = (out, x')"
      obtain oa za where a: "on_site_db (add_endpoint ?ep) z = (oa, za)" by fastforce
      then have add: "add_endpoint ?ep (si_db z) = (oa, si_db za)" using on_site_db_at by blast
      show thesis
      proof (cases oa)
        case (Inl e)
        with add have "si_db za = si_db z" by (auto simp: add_endpoint_def split: if_splits)
        with rest a Inl y z show thesis by (intro kept) (simp add: bindE_run)
      next
        case (Inr v)
        let ?s1 = "s\<lparr>es_db := si_db z\<rparr>"
        let ?s2 = "?s1\<lparr>es_db := si_db za, es_acts := add_mset ?ep (es_acts ?s1), es_used := insert i (es_used ?s1)\<rparr>"
        have "estep\<^sup>*\<^sup>* s ?s1" by (rule elsewhere_run) (simp add: y z db)
        also have "estep ?s1 ?s2" using add Inr i by (intro deploy [OF refl]) simp_all
        also obtain o1 where "activate_endpoint V S cfg fuel ?ep m za = (o1, x')"
          using rest a Inr by (auto simp: bindE_run returnE_run split: prod.splits sum.splits)
        from activate_endpoint_run [OF this, of ?s2]
        have "estep\<^sup>*\<^sup>* ?s2 (s\<lparr>es_db := si_db x', es_used := insert i (es_used s)\<rparr>)" by (cases s) simp
        finally show thesis using that by blast
      qed
    qed (use y kept in simp)
  qed (use kept in simp)
qed

lemma stop_endpoint_run:
  assumes run: "stop_endpoint V cfg now i p x = (out, x')" and db: "es_db s = si_db x"
  shows "estep\<^sup>*\<^sup>* s (s\<lparr>es_db := si_db x'\<rparr>)"
proof (cases "get_owned_endpoint i p (si_db x)")
  case (Pair o1 d)
  then have d: "d = si_db x" using keeps_run [OF get_owned_keeps(2) [of "\<lambda>d. d"]] by blast
  then have got: "on_site_db (get_owned_endpoint i p) x = (o1, x)"
    using Pair by (simp add: on_site_db_def handler_simps)
  have kept: ?thesis if "si_db x' = si_db x" by (rule elsewhere_run) (simp add: db that)
  show ?thesis
  proof (cases o1)
    case (Inl e)
    with run got have "x' = x" by (simp add: stop_endpoint_def bindE_run)
    with kept show ?thesis by simp
  next
    case (Inr ep)
    from Pair Inr have ep: "ep \<in> set (endpoints (es_db s))"
      by (auto simp: db get_owned_endpoint_def handler_simps scalar_one_or_none_def filter_eq_Cons_iff split: list.splits if_splits)
    show ?thesis
    proof (cases "e_status ep \<noteq> EP_STOPPED \<and> e_status ep \<in> {EP_LIVE, EP_STARTING, EP_FAILED}")
      case False
      with run got Inr have "x' = x" by (auto simp: stop_endpoint_def bindE_run returnE_run raiseE_run split: if_splits)
      with kept show ?thesis by simp
    next
      case True
      obtain o2 where "stop_endpoint_runtime V cfg now ep x = (o2, x')"
        using run got Inr True by (auto simp: stop_endpoint_def bindE_run returnE_run split: prod.splits sum.splits)
      from stop_endpoint_runtime_run [OF this, of "s\<lparr>es_stops := add_mset ep (es_stops s)\<rparr>"] db
      have "estep\<^sup>*\<^sup>* (s\<lparr>es_stops := add_mset ep (es_stops s)\<rparr>) (s\<lparr>es_db := si_db x'\<rparr>)" by (cases s) simp
      with stop_reads [OF ep] True show ?thesis by (auto intro: converse_rtranclp_into_rtranclp)
    qed
  qed
qed

text \<open>The reconciliation at startup reads the active endpoints and commits those it marked at once: a
  run that checks them one by one.\<close>

lemma reads_run:
  "set eps \<subseteq> set (endpoints (es_db s)) \<Longrightarrow> \<forall>ep \<in> set eps. e_status ep \<in> set ACTIVE_ENDPOINT_STATUSES \<Longrightarrow>
     estep\<^sup>*\<^sup>* s (s\<lparr>es_checks := mset eps + es_checks s\<rparr>)"
proof (induction eps)
  case (Cons ep eps)
  let ?s = "s\<lparr>es_checks := mset eps + es_checks s\<rparr>"
  have "estep\<^sup>*\<^sup>* s ?s" using Cons by simp
  moreover have "estep ?s (?s\<lparr>es_checks := add_mset ep (es_checks ?s)\<rparr>)" using Cons.prems by (intro check_reads) simp_all
  ultimately show ?case by simp
qed simp

lemma commits_run:
  "commit_vanished eps d = (Inr (), d') \<Longrightarrow> es_db s = d \<Longrightarrow> es_checks s = mset eps + C \<Longrightarrow>
     estep\<^sup>*\<^sup>* s (s\<lparr>es_db := d', es_checks := C\<rparr>)"
proof (induction eps arbitrary: d s)
  case Nil
  then show ?case by (cases s) (simp add: returnE_run)
next
  case (Cons ep eps)
  obtain o1 d1 where c: "commit_endpoint ep (vanished ep) d = (o1, d1)" by fastforce
  with Cons.prems(1) obtain new where o1: "o1 = Inr new" and rest: "commit_vanished eps d1 = (Inr (), d')"
    by (cases o1) (auto simp: bindE_run)
  let ?s = "s\<lparr>es_db := d1, es_checks := es_checks s - {#ep#}\<rparr>"
  have "estep s ?s" using c o1 Cons.prems(2,3) by (intro checked) simp_all
  moreover have "estep\<^sup>*\<^sup>* ?s (?s\<lparr>es_db := d', es_checks := C\<rparr>)" using Cons.prems(3) by (intro Cons.IH [OF rest]) simp_all
  ultimately show ?case by (simp add: converse_rtranclp_into_rtranclp)
qed

lemma reconcile_each_keeps: "keeps si_db (reconcile_each V cfg eps)"
proof (induction eps)
  case (Cons ep eps)
  have "keeps si_db (if b then returnE False else on_host m)" "keeps si_db (if b then returnE () else on_host m')" for b m m'
    by (intro keeps_intros keeps_host [where f = w_db])+
  with Cons show ?case
    unfolding reconcile_each.simps Let_def by (intro keeps_intros keeps_cleanup [where f = w_db])
qed (simp add: keeps_basic)

lemma reconcile_each_marks:
  "reconcile_each V cfg eps x = (Inr marked, x') \<Longrightarrow> set marked \<subseteq> set eps"
proof (induction eps arbitrary: x marked x')
  case Nil
  then show ?case by (simp add: returnE_run)
next
  case (Cons ep eps)
  from Cons.prems obtain y alive where
    "(if alive then reconcile_each V cfg eps
      else bindE (if (case e_container_id ep of Some c \<Rightarrow> c | None \<Rightarrow> []) = [] then returnE ()
          else on_host (stop_runner_container V (case e_container_id ep of Some c \<Rightarrow> c | None \<Rightarrow> []))) (\<lambda>_.
        bindE (cleanup_artifact_dir cfg (e_id ep)) (\<lambda>_.
        bindE (reconcile_each V cfg eps) (\<lambda>marked. returnE (ep # marked))))) y = (Inr marked, x')"
    unfolding reconcile_each.simps Let_def by (rule bindE_InrE)
  then have "(\<exists>z. reconcile_each V cfg eps z = (Inr marked, x')) \<or>
      (\<exists>z more. reconcile_each V cfg eps z = (Inr more, x') \<and> marked = ep # more)"
    by (cases alive; auto simp: returnE_run elim!: bindE_InrE; blast)
  with Cons.IH show ?case by fastforce
qed

lemma reconcile_run:
  assumes run: "reconcile_vanished_containers V cfg x = (out, x')" and db: "es_db s = si_db x"
  shows "estep\<^sup>*\<^sup>* s (s\<lparr>es_db := si_db x'\<rparr>)"
proof -
  let ?eps = "filter (\<lambda>e. e_status e \<in> set ACTIVE_ENDPOINT_STATUSES) (si_endpoints x)"
  have kept: "si_db x' = si_db x \<Longrightarrow> ?thesis" by (rule elsewhere_run) (simp add: db)
  obtain o1 y where e: "reconcile_each V cfg ?eps x = (o1, y)" by fastforce
  then have y: "si_db y = si_db x" by (rule keeps_run [OF reconcile_each_keeps])
  have read: "on_site_db (getsE (\<lambda>d. filter (\<lambda>e. e_status e \<in> set ACTIVE_ENDPOINT_STATUSES) (endpoints d))) x = (Inr ?eps, x)"
    by (simp add: on_site_db_def handler_simps)
  show ?thesis
  proof (cases o1)
    case (Inl err)
    with run e read y show ?thesis by (intro kept) (simp add: reconcile_vanished_containers_def bindE_run)
  next
    case (Inr marked)
    show ?thesis
    proof (cases "\<exists>d. commit_vanished marked (si_db y) = (Inr (), d) \<and> marked \<noteq> []")
      case False
      have "si_db (snd (whenE (marked \<noteq> []) (on_site_db (atomicE (commit_vanished marked))) y)) = si_db y"
        using False by (auto simp: whenE_run on_site_db_def on_site_world_run on_db_run atomicE_run split: prod.splits sum.splits)
      with run e read Inr y show ?thesis
        by (intro kept) (auto simp: reconcile_vanished_containers_def bindE_run returnE_run split: prod.splits sum.splits)
    next
      case True
      then obtain d where d: "commit_vanished marked (si_db x) = (Inr (), d)" "marked \<noteq> []" using y by auto
      have "si_db x' = d"
        using run e read Inr y d
        by (auto simp: reconcile_vanished_containers_def bindE_run returnE_run whenE_run on_site_db_def on_site_world_run
            on_db_run atomicE_run)
      let ?s = "s\<lparr>es_checks := mset marked + es_checks s\<rparr>"
      have "estep\<^sup>*\<^sup>* s ?s"
        using reconcile_each_marks [of V cfg ?eps x marked y] e Inr by (intro reads_run) (auto simp: db)
      also have "estep\<^sup>*\<^sup>* ?s (?s\<lparr>es_db := d, es_checks := es_checks s\<rparr>)"
        by (rule commits_run [OF d(1)]) (simp_all add: db)
      also have "?s\<lparr>es_db := d, es_checks := es_checks s\<rparr> = s\<lparr>es_db := si_db x'\<rparr>"
        using \<open>si_db x' = d\<close> by (cases s) simp
      finally show ?thesis .
    qed
  qed
qed

lemma predict_run:
  assumes "es_db s = si_db x" shows "estep\<^sup>*\<^sup>* s (s\<lparr>es_db := si_db (snd (predict V cfg route body p x))\<rparr>)"
proof -
  have "keeps endpoints (add_usage_log l)" for l by (simp add: keeps_def add_usage_log_def)
  then have "keeps si_endpoints (predict V cfg route body p)"
    unfolding predict_def by (intro keeps_intros keeps_site_db keeps_host [where f = "\<lambda>w. endpoints (w_db w)"])
  from keepsD [OF this, of x] show ?thesis by (intro elsewhere_run) (simp add: assms)
qed

text \<open>C22: the step relation over-approximates the serving code: a deployment, a stop, a reconciliation
  and a prediction are, whatever the container daemon, the health check and the database answer, runs
  of single commits that leave nothing in flight.\<close>

theorem serving_routes_are_runs:
  assumes "es_db s = si_db x" and "i \<notin> es_used s"
  shows "(\<exists>U \<subseteq> insert i (es_used s). estep\<^sup>*\<^sup>* s
      (s\<lparr>es_db := si_db (snd (deploy_model R V S cfg fuel now mid i name p x)), es_used := U\<rparr>)) \<and>
    estep\<^sup>*\<^sup>* s (s\<lparr>es_db := si_db (snd (stop_endpoint V cfg now j p x))\<rparr>) \<and>
    estep\<^sup>*\<^sup>* s (s\<lparr>es_db := si_db (snd (reconcile_vanished_containers V cfg x))\<rparr>) \<and>
    estep\<^sup>*\<^sup>* s (s\<lparr>es_db := si_db (snd (predict V cfg route body p x))\<rparr>)"
proof (intro conjI)
  show "\<exists>U \<subseteq> insert i (es_used s). estep\<^sup>*\<^sup>* s
      (s\<lparr>es_db := si_db (snd (deploy_model R V S cfg fuel now mid i name p x)), es_used := U\<rparr>)"
    using deploy_model_run [OF prod.collapse [symmetric] assms] by metis
qed (rule stop_endpoint_run [OF prod.collapse [symmetric] assms(1)] reconcile_run [OF prod.collapse [symmetric] assms(1)]
    predict_run [OF assms(1)])+

section \<open>A stop that nothing overtakes is final\<close>

text \<open>No activation and no reconciliation holds the endpoint, and its identifier has been drawn.\<close>

definition idle :: "uuid \<Rightarrow> esys \<Rightarrow> bool" where
  "idle k s \<longleftrightarrow> k \<in> es_used s \<and> (\<forall>ep. ep \<in># es_acts s \<or> ep \<in># es_checks s \<longrightarrow> e_id ep \<noteq> k)"

definition unique_endpoints :: "db \<Rightarrow> bool" where
  "unique_endpoints d \<longleftrightarrow> distinct (map e_id (endpoints d)) \<and> distinct (map e_route (endpoints d))"

definition at_rest :: "uuid \<Rightarrow> db \<Rightarrow> bool" where
  "at_rest k d \<longleftrightarrow> (\<forall>r \<in> set (endpoints d). e_id r = k \<longrightarrow> e_status r = EP_STOPPED)"

lemma write_changed_route [simp]: "e_route (write_changed old new r) = e_route r"
  by (simp add: write_changed_def)

lemma commit_unique:
  assumes "commit_endpoint old new d = (out, d')" and "unique_endpoints d" shows "unique_endpoints d'"
proof (cases "endpoints d' = endpoints d")
  case False
  with assms(1) have "endpoints d' = rows_update (\<lambda>r. e_id r = e_id old) (write_changed old new) (endpoints d)"
    by (auto simp: commit_endpoint_def split: if_splits)
  with assms(2) show ?thesis by (simp add: unique_endpoints_def rows_update_keys)
qed (use assms(2) in \<open>simp add: unique_endpoints_def\<close>)

lemma commit_at_rest:
  assumes "commit_endpoint old new d = (out, d')" and "at_rest k d" and "e_id old \<noteq> k \<or> e_status new = EP_STOPPED"
  shows "at_rest k d'"
proof (cases "endpoints d' = endpoints d")
  case False
  with assms(1) have "endpoints d' = rows_update (\<lambda>r. e_id r = e_id old) (write_changed old new) (endpoints d)"
    by (auto simp: commit_endpoint_def split: if_splits)
  with assms(2,3) show ?thesis by (auto simp: at_rest_def set_rows_update write_changed_def)
qed (use assms(2) in \<open>simp add: at_rest_def\<close>)

lemmas endpoint_writes = live_as_def stopped_as_def vanished_def failed_as_def new_endpoint_def

lemma estep_settled:
  assumes "estep s s'" and "unique_endpoints (es_db s)" "idle k s" "at_rest k (es_db s)"
  shows "unique_endpoints (es_db s') \<and> idle k s' \<and> at_rest k (es_db s')"
  using assms
proof (cases rule: estep.cases)
  case (deploy ep now i m uid name d)
  then have "endpoints d = endpoints (es_db s) @ [ep]" "e_id ep = i" "e_id ep \<noteq> k"
    "e_route ep \<notin> e_route ` set (endpoints (es_db s))" "e_id ep \<notin> e_id ` set (endpoints (es_db s))"
    using assms(3) by (auto simp: add_endpoint_def idle_def new_endpoint_def split: if_splits)
  with assms(2-4) deploy(1) show ?thesis by (auto simp: idle_def unique_endpoints_def at_rest_def)
next
  case (started ep new cid d)
  then show ?thesis using assms(2-4) commit_unique [OF started(4)] commit_at_rest [OF started(4) assms(4)]
    by (auto simp: idle_def dest: in_diffD)
next
  case (went_live ep new d)
  then show ?thesis using assms(2-4) commit_unique [OF went_live(3)] commit_at_rest [OF went_live(3) assms(4)]
    by (auto simp: idle_def dest: in_diffD)
next
  case (failed ep msg new d)
  then show ?thesis using assms(2-4) commit_unique [OF failed(3)] commit_at_rest [OF failed(3) assms(4)]
    by (auto simp: idle_def dest: in_diffD)
next
  case (stopped ep now new d)
  then show ?thesis using assms(2-4) commit_unique [OF stopped(3)] commit_at_rest [OF stopped(3) assms(4)]
    by (auto simp: idle_def stopped_as_def)
next
  case (checked ep new d)
  then show ?thesis using assms(2-4) commit_unique [OF checked(3)] commit_at_rest [OF checked(3) assms(4)]
    by (auto simp: idle_def dest: in_diffD)
next
  case (check_reads ep)
  then have "e_id ep \<noteq> k" using assms(4) by (auto simp: at_rest_def ACTIVE_ENDPOINT_STATUSES_def)
  with check_reads assms(2-4) show ?thesis by (auto simp: idle_def)
next
  case (model_deleted m)
  then show ?thesis using assms(2-4)
    by (auto simp: idle_def unique_endpoints_def at_rest_def delete_model_rows_def Let_def distinct_map_filter)
qed (auto simp: idle_def unique_endpoints_def at_rest_def dest: in_diffD)

lemma esteps_settled:
  assumes "estep\<^sup>*\<^sup>* s s'" and "unique_endpoints (es_db s)" "idle k s" "at_rest k (es_db s)"
  shows "unique_endpoints (es_db s') \<and> idle k s' \<and> at_rest k (es_db s')"
  using assms by (induction rule: rtranclp_induct) (blast dest: estep_settled)+

lemma predict_not_live:
  assumes "unique_endpoints (si_db x)" "r \<in> set (endpoints (si_db x))" "e_status r \<noteq> EP_LIVE"
  shows "predict V cfg (e_route r) body p x = (Inl ENDPOINT_NOT_FOUND, x)"
proof -
  have "scalar_one_or_none (filter (\<lambda>e. e_route e = e_route r) (endpoints (si_db x))) = Inr (Some r)"
    using assms(1,2) row_get_distinct [of e_route "endpoints (si_db x)" r] by (simp add: unique_endpoints_def)
  then show ?thesis using assms(3)
    by (simp add: predict_def bindE_run on_site_db_def handler_simps)
qed

text \<open>C23: once an endpoint is stopped, and no activation and no reconciliation of it is in flight, no
  interleaving of deployments, activations, stops, reconciliations and deletions of models makes it
  anything else: its row, as long as there is one, stays STOPPED, and a prediction on its route is
  refused without a call to a container.\<close>

theorem stopped_is_final:
  assumes "estep\<^sup>*\<^sup>* s s'" and "unique_endpoints (es_db s)" and "idle k s"
    and "ep_row (es_db s) k = Some r" and "e_status r = EP_STOPPED"
    and "ep_row (es_db s') k = Some r'" and "si_db x = es_db s'"
  shows "e_status r' = EP_STOPPED \<and> predict V cfg (e_route r') body p x = (Inl ENDPOINT_NOT_FOUND, x)"
proof -
  have "at_rest k (es_db s)"
    using assms(2,4,5) row_get_distinct [of e_id "endpoints (es_db s)"]
    by (auto simp: at_rest_def ep_row_def unique_endpoints_def)
  from esteps_settled [OF assms(1-3) this] have u: "unique_endpoints (si_db x)" and "at_rest k (si_db x)"
    by (simp_all add: assms(7))
  moreover have "r' \<in> set (endpoints (si_db x))" "e_id r' = k"
    using assms(6,7) by (auto simp: ep_row_def dest: row_get_Some)
  ultimately have "e_status r' = EP_STOPPED" "predict V cfg (e_route r') body p x = (Inl ENDPOINT_NOT_FOUND, x)"
    using predict_not_live [OF u, of r'] by (auto simp: at_rest_def)
  then show ?thesis by simp
qed

section \<open>Concrete runs\<close>

definition quiet :: "endpoint list \<Rightarrow> esys" where
  "quiet eps = \<lparr>es_db = si_db (site0 eps 200), es_acts = {#}, es_stops = {#}, es_checks = {#}, es_used = {99}\<rparr>"

lemma commit_quiet:
  "new \<noteq> old \<Longrightarrow> endpoint_columns_fit new \<Longrightarrow> e_id r = e_id old \<Longrightarrow>
     commit_endpoint old new (es_db (quiet [r])) = (Inr new, es_db (quiet [write_changed old new r]))"
  by (simp add: commit_endpoint_def quiet_def site0_def row_get_Cons rows_update_def o_def)

text \<open>A stop that overtakes an activation is undone by it: the row ends LIVE, with the time of the stop
  and without a container.\<close>

theorem activation_overtakes_stop:
  "\<exists>s. estep\<^sup>*\<^sup>* ((quiet [ep0])\<lparr>es_acts := {#ep0#}\<rparr>) s \<and>
     endpoints (es_db s) = [ep0\<lparr>e_status := EP_LIVE, e_stopped_at := Some 9\<rparr>]"
proof -
  define ep1 where "ep1 = ep0\<lparr>e_container_id := Some ''c''\<rparr>"
  let ?s0 = "(quiet [ep0])\<lparr>es_acts := {#ep0#}\<rparr>"
  let ?s1 = "?s0\<lparr>es_db := es_db (quiet [ep1]), es_acts := {#ep1#}\<rparr>"
  let ?s2 = "?s1\<lparr>es_stops := {#ep1#}\<rparr>"
  let ?s3 = "?s2\<lparr>es_db := es_db (quiet [stopped_as 9 ep1]), es_stops := {#}\<rparr>"
  let ?s4 = "?s3\<lparr>es_db := es_db (quiet [ep0\<lparr>e_status := EP_LIVE, e_stopped_at := Some 9\<rparr>]), es_acts := {#}\<rparr>"
  have fit: "endpoint_columns_fit ep1" "endpoint_columns_fit (stopped_as 9 ep1)" "endpoint_columns_fit (live_as ep1)"
    unfolding ep1_def by code_simp+
  have cid: "e_container_id ep1 = Some ''c''" "e_status ep1 = EP_STARTING" "e_id ep1 = 99" by (simp_all add: ep1_def)
  have st: "e_status (stopped_as 9 ep1) = EP_STOPPED" "e_status (live_as ep1) = EP_LIVE" by (simp_all add: stopped_as_def live_as_def)
  have "ep1 \<noteq> ep0" by (rule notI, drule arg_cong [where f = e_container_id]) (simp add: cid)
  moreover have "stopped_as 9 ep1 \<noteq> ep1" "live_as ep1 \<noteq> ep1"
    by (rule notI, drule arg_cong [where f = e_status], simp add: st cid)+
  ultimately have changed: "ep1 \<noteq> ep0" "stopped_as 9 ep1 \<noteq> ep1" "live_as ep1 \<noteq> ep1" .
  have upd: "write_changed ep0 ep1 ep0 = ep1" "write_changed ep1 (stopped_as 9 ep1) ep1 = stopped_as 9 ep1"
    "write_changed ep1 (live_as ep1) (stopped_as 9 ep1) = ep0\<lparr>e_status := EP_LIVE, e_stopped_at := Some 9\<rparr>"
    by (rule endpoint.equality; simp add: write_changed_def stopped_as_def live_as_def ep1_def)+
  have same: "e_id (stopped_as 9 ep1) = e_id ep1" by (simp add: stopped_as_def)
  have "commit_endpoint ep0 ep1 (es_db ?s0) = (Inr ep1, es_db ?s1)"
    using commit_quiet [of ep1 ep0 ep0] fit changed by (simp add: upd)
  from started [of ep0 ?s0, OF _ _ this] have s1: "estep ?s0 ?s1" by (simp add: ep1_def)
  have s2: "estep ?s1 ?s2"
    using stop_reads [of ep1 ?s1] by (simp add: quiet_def ep1_def)
  have "commit_endpoint ep1 (stopped_as 9 ep1) (es_db ?s2) = (Inr (stopped_as 9 ep1), es_db ?s3)"
    using commit_quiet [of "stopped_as 9 ep1" ep1 ep1] fit changed by (simp add: upd)
  from stopped [of ep1 ?s2, OF _ this] have s3: "estep ?s2 ?s3" by (simp add: quiet_def)
  have "commit_endpoint ep1 (live_as ep1) (es_db ?s3) = (Inr (live_as ep1), es_db ?s4)"
    using commit_quiet [of "live_as ep1" ep1 "stopped_as 9 ep1"] fit changed same by (simp add: upd)
  from went_live [of ep1 ?s3, OF _ this] have s4: "estep ?s3 ?s4" by simp
  have "endpoints (es_db ?s4) = [ep0\<lparr>e_status := EP_LIVE, e_stopped_at := Some 9\<rparr>]" by (simp add: quiet_def)
  moreover have "estep\<^sup>*\<^sup>* ?s0 ?s4"
    by (rule rtranclp.rtrancl_into_rtrancl [where r = estep, OF _ s4], rule rtranclp.rtrancl_into_rtrancl [where r = estep, OF _ s3],
      rule rtranclp.rtrancl_into_rtrancl [where r = estep, OF _ s2], rule r_into_rtranclp [where r = estep], rule s1)
  ultimately show ?thesis by blast
qed

text \<open>Another endpoint is deployed beside a stopped one.\<close>

theorem stopped_is_final_witness:
  "let other = new_endpoint 6 100 model0 1 ''other''; x = site0 [stopped_as 9 ep0, other] 200 in
     predict ref_serve cfg0 (e_route ep0) [] alice_principal x = (Inl ENDPOINT_NOT_FOUND, x)"
proof -
  let ?old = "stopped_as 9 ep0" and ?other = "new_endpoint 6 100 model0 1 ''other''"
  have "endpoint_columns_fit ?other" "e_route ep0 \<noteq> e_route ?other" by code_simp+
  then have add: "add_endpoint ?other (es_db (quiet [?old])) = (Inr (), si_db (site0 [?old, ?other] 200))"
    by (simp add: add_endpoint_def quiet_def stopped_as_def site0_def new_endpoint_def)
  let ?s' = "(quiet [?old])\<lparr>es_db := si_db (site0 [?old, ?other] 200),
      es_acts := add_mset ?other (es_acts (quiet [?old])), es_used := insert 100 (es_used (quiet [?old]))\<rparr>"
  have "estep (quiet [?old]) ?s'" by (rule deploy [OF refl _ add]) (simp add: quiet_def)
  then have run: "estep\<^sup>*\<^sup>* (quiet [?old]) ?s'" by (rule r_into_rtranclp)
  have "e_route ?old = e_route ep0" by (simp add: stopped_as_def)
  then show ?thesis
    using stopped_is_final [OF run, where k = 99 and r = ?old and r' = ?old and x = "site0 [?old, ?other] 200"]
    by (simp add: quiet_def unique_endpoints_def idle_def ep_row_def row_get_Cons stopped_as_def)
qed

text \<open>A deployment of the endpoint 98 on the host of the fixtures.\<close>

theorem serving_routes_are_runs_witness:
  "\<exists>U \<subseteq> {98, 99}. estep\<^sup>*\<^sup>* (quiet [])
     ((quiet [])\<lparr>es_db := si_db (snd (deploy_model ref_redis ref_serve ref_s3 cfg0 5 6 7 98 None alice_principal (site0 [] 200))),
       es_used := U\<rparr>)"
proof -
  have "es_db (quiet []) = si_db (site0 [] 200)" "98 \<notin> es_used (quiet [])" "insert 98 (es_used (quiet [])) = {98, 99}"
    by (simp_all add: quiet_def)
  then show ?thesis using serving_routes_are_runs [of "quiet []" "site0 [] 200" 98] by metis
qed

end
